(* ===== verification/Rust_Text.thy ===== *)
theory Rust_Text
  imports Prelude
begin

text \<open>
  Rust's \<open>str\<close> and \<open>u8\<close> text primitives. A \<open>str\<close> is the list of its UTF-8 bytes, one
  HOL \<open>char\<close> (8 bits) per byte; an index into a byte slice is the suffix that starts there.
  Modelled: the ASCII classes of \<open>u8\<close>, ASCII case mapping, UTF-8 validation and lossy decoding
  (\<open>str::from_utf8\<close>, \<open>String::from_utf8_lossy\<close>), \<open>trim\<close> with the Unicode White_Space
  set, and decimal formatting.
\<close>

section \<open>Bytes and literals\<close>

definition byte :: "char \<Rightarrow> nat" where
  "byte c = of_char c"

abbreviation SQUOTE :: char where "SQUOTE \<equiv> CHR 0x27"
abbreviation DQUOTE :: char where "DQUOTE \<equiv> CHR 0x22"
abbreviation BTICK :: char where "BTICK \<equiv> CHR 0x60"
abbreviation BSLASH :: char where "BSLASH \<equiv> CHR 0x5C"
abbreviation NEWLINE :: char where "NEWLINE \<equiv> CHR 0x0A"

lemma byte_less: "byte c < 256"
  by (simp add: byte_def)

lemma byte_eq_iff: "byte c = byte d \<longleftrightarrow> c = d"
  by (simp add: byte_def)

lemma byte_char_of: "n < 256 \<Longrightarrow> byte (char_of n) = n"
  by (simp add: byte_def of_char_of)

text \<open>Wire bytes (\<open>u8\<close> words) read as text and back.\<close>

definition text_of :: "bytes \<Rightarrow> string" where
  "text_of bs = map (\<lambda>b. char_of (unat b)) bs"

definition bytes_of :: "string \<Rightarrow> bytes" where
  "bytes_of s = map (\<lambda>c. word_of_nat (byte c)) s"

lemma text_of_bytes_of [simp]: "text_of (bytes_of s) = s"
  by (induction s)
    (auto simp: text_of_def bytes_of_def unat_u8_of_nat byte_less byte_def)

lemma length_bytes_of [simp]: "length (bytes_of s) = length s"
  by (simp add: bytes_of_def)

lemma length_text_of [simp]: "length (text_of s) = length s"
  by (simp add: text_of_def)

section \<open>ASCII classes\<close>

definition is_ascii :: "char \<Rightarrow> bool" where
  "is_ascii c \<longleftrightarrow> byte c < 128"

definition is_ascii_digit :: "char \<Rightarrow> bool" where
  "is_ascii_digit c \<longleftrightarrow> 48 \<le> byte c \<and> byte c \<le> 57"

definition is_ascii_upper :: "char \<Rightarrow> bool" where
  "is_ascii_upper c \<longleftrightarrow> 65 \<le> byte c \<and> byte c \<le> 90"

definition is_ascii_lower :: "char \<Rightarrow> bool" where
  "is_ascii_lower c \<longleftrightarrow> 97 \<le> byte c \<and> byte c \<le> 122"

definition is_ascii_alphabetic :: "char \<Rightarrow> bool" where
  "is_ascii_alphabetic c \<longleftrightarrow> is_ascii_upper c \<or> is_ascii_lower c"

definition is_ascii_alphanumeric :: "char \<Rightarrow> bool" where
  "is_ascii_alphanumeric c \<longleftrightarrow> is_ascii_alphabetic c \<or> is_ascii_digit c"

definition is_ascii_hexdigit :: "char \<Rightarrow> bool" where
  "is_ascii_hexdigit c \<longleftrightarrow>
     is_ascii_digit c \<or> (65 \<le> byte c \<and> byte c \<le> 70) \<or> (97 \<le> byte c \<and> byte c \<le> 102)"

text \<open>\<open>u8::is_ascii_whitespace\<close>: space, tab, line feed, form feed, carriage return
  (not vertical tab).\<close>

definition is_ascii_whitespace :: "char \<Rightarrow> bool" where
  "is_ascii_whitespace c \<longleftrightarrow> byte c \<in> {32, 9, 10, 12, 13}"

definition to_ascii_lowercase :: "char \<Rightarrow> char" where
  "to_ascii_lowercase c = (if is_ascii_upper c then char_of (byte c + 32) else c)"

abbreviation lower :: "string \<Rightarrow> string" where
  "lower s \<equiv> map to_ascii_lowercase s"

text \<open>The idiom \<open>(b | 0x20) == b'x'\<close> for a lowercase letter.\<close>

definition or_0x20_is :: "char \<Rightarrow> char \<Rightarrow> bool" where
  "or_0x20_is c l \<longleftrightarrow> or (byte c) 32 = byte l"

lemmas ascii_class_defs =
  is_ascii_def is_ascii_digit_def is_ascii_upper_def is_ascii_lower_def
  is_ascii_alphabetic_def is_ascii_alphanumeric_def is_ascii_hexdigit_def
  is_ascii_whitespace_def

lemma byte_to_ascii_lowercase:
  "byte (to_ascii_lowercase c) = (if is_ascii_upper c then byte c + 32 else byte c)"
  by (auto simp: to_ascii_lowercase_def is_ascii_upper_def byte_char_of)

lemma to_ascii_lowercase_idem [simp]:
  "to_ascii_lowercase (to_ascii_lowercase c) = to_ascii_lowercase c"
  by (simp add: byte_eq_iff [symmetric] byte_to_ascii_lowercase is_ascii_upper_def)

lemma lower_idem [simp]: "lower (lower s) = lower s"
  by simp

text \<open>A character that is not an ASCII letter is its own lowercase and the lowercase of nothing
  else, so scanning decisions on punctuation are case-blind.\<close>

lemma to_ascii_lowercase_eq_iff:
  assumes "\<not> is_ascii_lower d" and "\<not> is_ascii_upper d"
  shows "to_ascii_lowercase c = d \<longleftrightarrow> c = d"
  using assms
  by (auto simp: byte_eq_iff [symmetric] byte_to_ascii_lowercase is_ascii_upper_def
      is_ascii_lower_def)

lemma lower_class [simp]:
  "is_ascii (to_ascii_lowercase c) = is_ascii c"
  "is_ascii_digit (to_ascii_lowercase c) = is_ascii_digit c"
  "is_ascii_alphabetic (to_ascii_lowercase c) = is_ascii_alphabetic c"
  "is_ascii_alphanumeric (to_ascii_lowercase c) = is_ascii_alphanumeric c"
  "is_ascii_hexdigit (to_ascii_lowercase c) = is_ascii_hexdigit c"
  "is_ascii_whitespace (to_ascii_lowercase c) = is_ascii_whitespace c"
  by (auto simp: ascii_class_defs byte_to_ascii_lowercase)

lemma not_upper_lowercase [simp]: "\<not> is_ascii_upper (to_ascii_lowercase c)"
  by (auto simp: is_ascii_upper_def byte_to_ascii_lowercase)

lemma or_0x20_upper_lower: "n < 256 \<Longrightarrow> 65 \<le> n \<Longrightarrow> n \<le> 90 \<Longrightarrow> or n (32::nat) = n + 32"
proof -
  assume "65 \<le> n" "n \<le> 90"
  then have "n \<in> set [65..<91]" unfolding set_upt by simp
  moreover have "\<forall>n \<in> set [65..<91]. or n (32::nat) = n + 32" by code_simp
  ultimately show ?thesis by blast
qed

lemma or_0x20_is_lower [simp]:
  "or_0x20_is (to_ascii_lowercase c) l = or_0x20_is c l"
proof (cases "is_ascii_upper c")
  case True
  then have n: "65 \<le> byte c" "byte c \<le> 90" by (auto simp: is_ascii_upper_def)
  have "\<forall>n \<in> set [65..<91]. or (n + 32) (32::nat) = n + 32" by code_simp
  moreover have "byte c \<in> set [65..<91]" unfolding set_upt using n by simp
  ultimately have "or (byte c + 32) 32 = byte c + 32" by blast
  with n True show ?thesis
    by (simp add: or_0x20_is_def byte_to_ascii_lowercase or_0x20_upper_lower)
qed (simp add: or_0x20_is_def byte_to_ascii_lowercase)

section \<open>UTF-8\<close>

definition is_cont :: "char \<Rightarrow> bool" where
  "is_cont c \<longleftrightarrow> 128 \<le> byte c \<and> byte c < 192"

text \<open>Which second bytes a three- or four-byte lead admits (no overlong forms, no surrogates,
  nothing past U+10FFFF).\<close>

definition second_ok :: "char \<Rightarrow> char \<Rightarrow> bool" where
  "second_ok a b \<longleftrightarrow> is_cont b \<and>
     (byte a = 0xE0 \<longrightarrow> 0xA0 \<le> byte b) \<and> (byte a = 0xED \<longrightarrow> byte b \<le> 0x9F) \<and>
     (byte a = 0xF0 \<longrightarrow> 0x90 \<le> byte b) \<and> (byte a = 0xF4 \<longrightarrow> byte b \<le> 0x8F)"

text \<open>The next chunk of a byte string: whether it is a well-formed character, and its length
  (of the character, or of the maximal ill-formed prefix that one U+FFFD replaces).\<close>

fun utf8_seq :: "string \<Rightarrow> bool \<times> nat" where
  "utf8_seq [] = (False, 0)"
| "utf8_seq (a # bs) =
    (if byte a < 0x80 then (True, 1)
     else if 0xC2 \<le> byte a \<and> byte a \<le> 0xDF then
       (case bs of [] \<Rightarrow> (False, 1)
        | b # _ \<Rightarrow> if is_cont b then (True, 2) else (False, 1))
     else if 0xE0 \<le> byte a \<and> byte a \<le> 0xEF then
       (case bs of [] \<Rightarrow> (False, 1)
        | b # bs' \<Rightarrow> if \<not> second_ok a b then (False, 1) else
          (case bs' of [] \<Rightarrow> (False, 2)
           | c # _ \<Rightarrow> if is_cont c then (True, 3) else (False, 2)))
     else if 0xF0 \<le> byte a \<and> byte a \<le> 0xF4 then
       (case bs of [] \<Rightarrow> (False, 1)
        | b # bs' \<Rightarrow> if \<not> second_ok a b then (False, 1) else
          (case bs' of [] \<Rightarrow> (False, 2)
           | c # bs'' \<Rightarrow> if \<not> is_cont c then (False, 2) else
             (case bs'' of [] \<Rightarrow> (False, 3)
              | d # _ \<Rightarrow> if is_cont d then (True, 4) else (False, 3))))
     else (False, 1))"

fun valid_utf8 :: "string \<Rightarrow> bool" where
  "valid_utf8 [] = True"
| "valid_utf8 (c # cs) =
    (let (ok, n) = utf8_seq (c # cs) in ok \<and> valid_utf8 (drop (n - 1) cs))"

definition REPLACEMENT_CHARACTER :: string where
  "REPLACEMENT_CHARACTER = [CHR 0xEF, CHR 0xBF, CHR 0xBD]"

fun from_utf8_lossy :: "string \<Rightarrow> string" where
  "from_utf8_lossy [] = []"
| "from_utf8_lossy (c # cs) =
    (let (ok, n) = utf8_seq (c # cs) in
     (if ok then c # take (n - 1) cs else REPLACEMENT_CHARACTER)
       @ from_utf8_lossy (drop (n - 1) cs))"

text \<open>\<open>str::from_utf8\<close>: the bytes themselves when they are well formed.\<close>

definition from_utf8 :: "string \<Rightarrow> string option" where
  "from_utf8 s = (if valid_utf8 s then Some s else None)"

lemma utf8_seq_True:
  assumes "utf8_seq s = (True, n)"
  shows "1 \<le> n" and "n \<le> length s" and "\<not> is_cont (hd s)"
    and "\<forall>c \<in> set (take (n - 1) (tl s)). is_cont c"
    and "utf8_seq (take n s @ t) = (True, n)"
  using assms
  by (cases s; auto split: if_splits list.splits simp: is_cont_def second_ok_def)+

lemma utf8_seq_ascii [simp]: "is_ascii c \<Longrightarrow> utf8_seq (c # cs) = (True, 1)"
  by (simp add: is_ascii_def)

declare utf8_seq.simps(2) [simp del]

lemma valid_utf8_ascii [simp]: "is_ascii c \<Longrightarrow> valid_utf8 (c # cs) = valid_utf8 cs"
  by simp

text \<open>A string is cut at a character boundary exactly where the right part does not start
  with a continuation byte.\<close>

lemma valid_utf8_split:
  assumes "valid_utf8 (x @ y)" and "y = [] \<or> \<not> is_cont (hd y)"
  shows "valid_utf8 x \<and> valid_utf8 y"
  using assms
proof (induction "length x" arbitrary: x rule: less_induct)
  case less
  show ?case
  proof (cases x)
    case Nil
    with less.prems show ?thesis by simp
  next
    case (Cons c cs)
    with less.prems(1) obtain n where n: "utf8_seq (x @ y) = (True, n)"
      and v: "valid_utf8 (drop (n - 1) (cs @ y))"
      by (auto split: prod.splits)
    note q = utf8_seq_True [OF n]
    have le: "n \<le> length x"
    proof (rule ccontr)
      assume "\<not> n \<le> length x"
      then have *: "length cs < n - 1" using Cons by simp
      with q(2) Cons obtain d ds where y: "y = d # ds" by (cases y) auto
      have "d \<in> set (take (n - 1) (cs @ d # ds))" using *
        by (cases "n - 1 - length cs") auto
      with q(4) Cons y have "is_cont d" by auto
      with less.prems(2) y show False by simp
    qed
    then have d: "drop (n - 1) (cs @ y) = drop (n - 1) cs @ y" using Cons by simp
    have "utf8_seq x = (True, n)"
      using q(5) [of "drop n x"] le by simp
    moreover have "valid_utf8 (drop (n - 1) cs) \<and> valid_utf8 y"
      using less.hyps [of "drop (n - 1) cs"] v d less.prems(2) Cons by simp
    ultimately show ?thesis using Cons by simp
  qed
qed

lemma valid_utf8_append: "valid_utf8 x \<Longrightarrow> valid_utf8 y \<Longrightarrow> valid_utf8 (x @ y)"
proof (induction x rule: valid_utf8.induct)
  case (2 c cs)
  then obtain n where n: "utf8_seq (c # cs) = (True, n)"
    and v: "valid_utf8 (drop (n - 1) cs)" by (auto split: prod.splits)
  note q = utf8_seq_True [OF n]
  have "utf8_seq ((c # cs) @ y) = (True, n)"
    using q(5) [of "drop n (c # cs) @ y"] by (simp flip: append_assoc)
  moreover have "drop (n - 1) (cs @ y) = drop (n - 1) cs @ y" using q(2) by simp
  moreover have "valid_utf8 (drop (n - 1) cs @ y)" using "2.IH" n v "2.prems"(2) by simp
  ultimately show ?case by simp
qed simp

lemma valid_utf8_hd: "valid_utf8 (c # cs) \<Longrightarrow> \<not> is_cont c"
  using utf8_seq_True(3) [of "c # cs"] by (auto split: prod.splits)

lemma valid_utf8_suffix:
  assumes "valid_utf8 (x @ y)" and "valid_utf8 x"
  shows "valid_utf8 y"
  using assms(2,1)
proof (induction x rule: valid_utf8.induct)
  case (2 c cs)
  then obtain n where n: "utf8_seq (c # cs) = (True, n)"
    and v: "valid_utf8 (drop (n - 1) cs)" by (auto split: prod.splits)
  note q = utf8_seq_True [OF n]
  have "utf8_seq ((c # cs) @ y) = (True, n)"
    using q(5) [of "drop n (c # cs) @ y"] by (simp flip: append_assoc)
  moreover have "drop (n - 1) (cs @ y) = drop (n - 1) cs @ y" using q(2) by simp
  ultimately have "valid_utf8 (drop (n - 1) cs @ y)" using "2.prems"(2) by simp
  with "2.IH" n v show ?case by simp
qed simp

lemma is_ascii_not_cont: "is_ascii c \<Longrightarrow> \<not> is_cont c"
  by (simp add: is_ascii_def is_cont_def)

lemma valid_utf8_ascii_all: "\<forall>c \<in> set s. is_ascii c \<Longrightarrow> valid_utf8 s"
  by (induction s) auto

lemma valid_utf8_REPLACEMENT [simp]: "valid_utf8 REPLACEMENT_CHARACTER"
  by (simp add: REPLACEMENT_CHARACTER_def utf8_seq.simps byte_def is_cont_def second_ok_def)

lemma from_utf8_lossy_valid [simp]: "valid_utf8 s \<Longrightarrow> from_utf8_lossy s = s"
  by (induction s rule: from_utf8_lossy.induct) (auto split: prod.splits)

lemma valid_utf8_char:
  assumes "utf8_seq (c # cs) = (True, n)"
  shows "valid_utf8 (c # take (n - 1) cs)"
proof -
  have n: "1 \<le> n" and "n \<le> length (c # cs)" using utf8_seq_True [OF assms] by auto
  have "take n (c # cs) = c # take (n - 1) cs" using n by (cases n) auto
  then have "utf8_seq (c # take (n - 1) cs) = (True, n)"
    using utf8_seq_True(5) [OF assms, of "[]"] by simp
  then show ?thesis by simp
qed

lemma from_utf8_lossy_is_valid [simp]: "valid_utf8 (from_utf8_lossy s)"
proof (induction s rule: from_utf8_lossy.induct)
  case (2 c cs)
  obtain ok n where n: "utf8_seq (c # cs) = (ok, n)" by fastforce
  let ?rest = "from_utf8_lossy (drop (n - 1) cs)"
  have "valid_utf8 ?rest" using 2 n by auto
  moreover have "valid_utf8 (c # take (n - 1) cs)" if ok
    by (rule valid_utf8_char) (use n that in simp)
  ultimately have "valid_utf8 ((if ok then c # take (n - 1) cs else REPLACEMENT_CHARACTER) @ ?rest)"
    by (metis valid_utf8_REPLACEMENT valid_utf8_append)
  then show ?case by (simp only: from_utf8_lossy.simps n prod.case Let_def)
qed simp

lemma utf8_seq_lower: "utf8_seq (lower s) = utf8_seq s"
proof -
  have b: "byte (to_ascii_lowercase c) = byte c" if "128 \<le> byte c \<or> 128 \<le> byte (to_ascii_lowercase c)" for c
    using that by (auto simp: byte_to_ascii_lowercase is_ascii_upper_def)
  have a: "byte (to_ascii_lowercase c) < 128 \<longleftrightarrow> byte c < 128" for c
    by (auto simp: byte_to_ascii_lowercase is_ascii_upper_def)
  have c: "is_cont (to_ascii_lowercase c) = is_cont c" for c
    using b [of c] a [of c] by (auto simp: is_cont_def)
  have d: "to_ascii_lowercase c = c" if "is_cont c" for c
    using b [of c] that by (simp add: is_cont_def byte_eq_iff [symmetric])
  have e: "second_ok (to_ascii_lowercase x) (to_ascii_lowercase y) = second_ok x y"
    if "128 \<le> byte x" for x y
    using b [of x] b [of y] c [of y] that by (auto simp: second_ok_def is_cont_def)
  show ?thesis
  proof (cases s)
    case (Cons x xs)
    show ?thesis
    proof (cases "byte x < 128")
      case True
      with Cons show ?thesis by (simp add: utf8_seq.simps a)
    next
      case False
      with b [of x] have "byte (to_ascii_lowercase x) = byte x" by simp
      with Cons False show ?thesis
        by (simp add: utf8_seq.simps list.case_eq_if c e hd_map map_tl [symmetric])
    qed
  qed simp
qed

lemma valid_utf8_lower [simp]: "valid_utf8 (lower s) = valid_utf8 s"
proof (induction s rule: valid_utf8.induct)
  case (2 c cs)
  show ?case
    using 2 utf8_seq_lower [of "c # cs"] by (auto simp: drop_map split: prod.splits)
qed simp

section \<open>Trimming\<close>

text \<open>\<open>str::trim\<close> strips the characters with Unicode's White_Space property; these are their
  UTF-8 spellings. A spelling never starts with a continuation byte, so on well-formed text a
  byte prefix or suffix is exactly a character.\<close>

definition white_space :: "string list" where
  "white_space =
    [[CHR 0x09], [CHR 0x0A], [CHR 0x0B], [CHR 0x0C], [CHR 0x0D], [CHR 0x20],
     [CHR 0xC2, CHR 0x85], [CHR 0xC2, CHR 0xA0], [CHR 0xE1, CHR 0x9A, CHR 0x80],
     [CHR 0xE2, CHR 0x80, CHR 0x80], [CHR 0xE2, CHR 0x80, CHR 0x81],
     [CHR 0xE2, CHR 0x80, CHR 0x82], [CHR 0xE2, CHR 0x80, CHR 0x83],
     [CHR 0xE2, CHR 0x80, CHR 0x84], [CHR 0xE2, CHR 0x80, CHR 0x85],
     [CHR 0xE2, CHR 0x80, CHR 0x86], [CHR 0xE2, CHR 0x80, CHR 0x87],
     [CHR 0xE2, CHR 0x80, CHR 0x88], [CHR 0xE2, CHR 0x80, CHR 0x89],
     [CHR 0xE2, CHR 0x80, CHR 0x8A], [CHR 0xE2, CHR 0x80, CHR 0xA8],
     [CHR 0xE2, CHR 0x80, CHR 0xA9], [CHR 0xE2, CHR 0x80, CHR 0xAF],
     [CHR 0xE2, CHR 0x81, CHR 0x9F], [CHR 0xE3, CHR 0x80, CHR 0x80]]"

text \<open>How many bytes of white space the text starts with (0 if none), for a given list of
  spellings.\<close>

definition lead_space :: "string list \<Rightarrow> string \<Rightarrow> nat" where
  "lead_space ws s = (case find (\<lambda>w. prefix w s) ws of None \<Rightarrow> 0 | Some w \<Rightarrow> length w)"

function strip_start :: "string list \<Rightarrow> string \<Rightarrow> string" where
  "strip_start ws s =
    (let n = lead_space ws s in if n = 0 \<or> s = [] then s else strip_start ws (drop n s))"
  by pat_completeness auto
termination
  by (relation "measure (length \<circ> snd)") auto

declare strip_start.simps [simp del]

definition trim_start :: "string \<Rightarrow> string" where
  "trim_start s = strip_start white_space s"

definition trim_end :: "string \<Rightarrow> string" where
  "trim_end s = rev (strip_start (map rev white_space) (rev s))"

definition trim :: "string \<Rightarrow> string" where
  "trim s = trim_end (trim_start s)"

text \<open>\<open>char::is_whitespace\<close> on the character at the front of a text.\<close>

definition starts_with_space :: "string \<Rightarrow> bool" where
  "starts_with_space s \<longleftrightarrow> lead_space white_space s \<noteq> 0"

lemma lead_space_prefix:
  assumes "lead_space ws s = n" and "n \<noteq> 0"
  shows "take n s \<in> set ws" and "n \<le> length s"
  using assms
  by (auto simp: lead_space_def find_Some_iff prefix_def in_set_conv_nth
      split: option.splits intro: exI)

lemma strip_start_suffix: "\<exists>ps. s = concat ps @ strip_start ws s \<and> set ps \<subseteq> set ws"
proof (induction ws s rule: strip_start.induct)
  case (1 ws s)
  let ?n = "lead_space ws s"
  show ?case
  proof (cases "?n = 0 \<or> s = []")
    case True
    have "s = concat [] @ strip_start ws s"
      unfolding strip_start.simps [of ws s] using True by (simp add: Let_def)
    then show ?thesis by (metis empty_subsetI list.set(1))
  next
    case False
    then have e: "strip_start ws s = strip_start ws (drop ?n s)"
      by (simp add: strip_start.simps [of ws s])
    obtain ps where ps: "drop ?n s = concat ps @ strip_start ws (drop ?n s)" "set ps \<subseteq> set ws"
      using 1 False by blast
    have "s = concat (take ?n s # ps) @ strip_start ws s"
      using ps(1) e by (metis append.assoc append_take_drop_id concat.simps(2))
    moreover have "take ?n s \<in> set ws" using lead_space_prefix(1) [OF refl] False by blast
    ultimately show ?thesis using ps(2) by (metis insert_subset list.simps(15))
  qed
qed

lemma length_strip_start [shrinks]: "length (strip_start ws s) \<le> length s"
  using strip_start_suffix [of s ws] by (metis le_add2 length_append)

lemma length_trim_end [shrinks]: "length (trim_end s) \<le> length s"
  using length_strip_start [of "map rev white_space" "rev s"] by (simp add: trim_end_def)

lemma length_trim_start [shrinks]: "length (trim_start s) \<le> length s"
  by (simp add: trim_start_def length_strip_start)

lemma length_trim [shrinks]: "length (trim s) \<le> length s"
  using length_trim_end [of "trim_start s"] length_trim_start [of s] by (simp add: trim_def)

lemma strip_start_id: "lead_space ws s = 0 \<Longrightarrow> strip_start ws s = s"
  by (subst strip_start.simps) simp

lemma trim_simps [simp]: "trim_start [] = []" "trim_end [] = []" "trim [] = []"
  by (simp_all add: trim_def trim_start_def trim_end_def strip_start.simps)

lemma white_space_valid: "w \<in> set white_space \<Longrightarrow> valid_utf8 w \<and> w \<noteq> [] \<and> \<not> is_cont (hd w)"
  by (auto simp: white_space_def utf8_seq.simps byte_def is_cont_def second_ok_def)

lemma valid_utf8_concat: "\<forall>p \<in> set ps. valid_utf8 p \<Longrightarrow> valid_utf8 (concat ps)"
  by (induction ps) (auto intro: valid_utf8_append)

lemma valid_utf8_trim_start: "valid_utf8 s \<Longrightarrow> valid_utf8 (trim_start s)"
proof -
  assume v: "valid_utf8 s"
  obtain ps where ps: "s = concat ps @ trim_start s" "set ps \<subseteq> set white_space"
    using strip_start_suffix unfolding trim_start_def by blast
  then have "valid_utf8 (concat ps)" using white_space_valid valid_utf8_concat by blast
  with v ps(1) show ?thesis using valid_utf8_suffix by metis
qed

lemma valid_utf8_trim_end: "valid_utf8 s \<Longrightarrow> valid_utf8 (trim_end s)"
proof -
  assume v: "valid_utf8 s"
  obtain ps where ps: "rev s = concat ps @ rev (trim_end s)" "set ps \<subseteq> set (map rev white_space)"
    using strip_start_suffix [of "rev s" "map rev white_space"] unfolding trim_end_def by auto
  from ps(1) have s: "s = trim_end s @ concat (rev (map rev ps))"
    by (metis rev_append rev_concat rev_map rev_rev_ident)
  have "concat qs = [] \<or> \<not> is_cont (hd (concat qs))" if "set qs \<subseteq> set white_space" for qs
    using that by (cases qs) (auto dest: white_space_valid)
  moreover have "set (rev (map rev ps)) \<subseteq> set white_space" using ps(2) by fastforce
  ultimately show ?thesis using v s valid_utf8_split by metis
qed

lemma valid_utf8_trim: "valid_utf8 s \<Longrightarrow> valid_utf8 (trim s)"
  by (simp add: trim_def valid_utf8_trim_end valid_utf8_trim_start)

text \<open>A solid character is ASCII and not white space: trimming never passes it.\<close>

definition solid :: "char \<Rightarrow> bool" where
  "solid c \<longleftrightarrow> is_ascii c \<and> byte c \<notin> {9, 10, 11, 12, 13, 32}"

lemma solid_not_in_space: "solid x \<Longrightarrow> w \<in> set white_space \<Longrightarrow> x \<notin> set w"
  by (auto simp: solid_def white_space_def is_ascii_def byte_def)

lemma lead_space_stop:
  assumes "\<forall>w \<in> set ws. x \<notin> set w"
  shows "lead_space ws (a @ x # b) = lead_space ws (a @ [x])"
proof -
  have "prefix w (a @ x # b) = prefix w (a @ [x])" if "w \<in> set ws" for w
    using assms that by (auto simp: prefix_append prefix_Cons)
  then have "find (\<lambda>w. prefix w (a @ x # b)) ws = find (\<lambda>w. prefix w (a @ [x])) ws"
    by (simp cong: find_cong)
  then show ?thesis by (simp add: lead_space_def)
qed

lemma lead_space_le:
  assumes "\<forall>w \<in> set ws. x \<notin> set w"
  shows "lead_space ws (a @ [x]) \<le> length a"
proof (cases "lead_space ws (a @ [x]) = 0")
  case False
  let ?n = "lead_space ws (a @ [x])"
  have "take ?n (a @ [x]) \<in> set ws" "?n \<le> length (a @ [x])"
    using lead_space_prefix [OF refl False] by auto
  with assms show ?thesis by (cases "?n = length (a @ [x])") auto
qed simp

lemma strip_start_stop:
  assumes "\<forall>w \<in> set ws. x \<notin> set w"
  shows "strip_start ws (a @ x # b) = strip_start ws (a @ [x]) @ b"
proof (induction "length a" arbitrary: a rule: less_induct)
  case less
  let ?n = "lead_space ws (a @ [x])"
  have n: "lead_space ws (a @ x # b) = ?n" and le: "?n \<le> length a"
    using lead_space_stop [OF assms] lead_space_le [OF assms] by auto
  show ?case
  proof (cases "?n = 0")
    case True
    with n show ?thesis by (simp add: strip_start_id)
  next
    case False
    then have "strip_start ws (drop ?n a @ x # b) = strip_start ws (drop ?n a @ [x]) @ b"
      using le by (intro less) auto
    with n le False show ?thesis
      by (simp add: strip_start.simps [of ws "a @ x # b"] strip_start.simps [of ws "a @ [x]"])
  qed
qed

lemma trim_start_stop: "solid x \<Longrightarrow> trim_start (a @ x # b) = trim_start (a @ [x]) @ b"
  unfolding trim_start_def by (rule strip_start_stop) (auto dest: solid_not_in_space)

lemma trim_end_stop: "solid x \<Longrightarrow> trim_end (b @ x # a) = b @ trim_end (x # a)"
proof -
  assume "solid x"
  then have "\<forall>w \<in> set (map rev white_space). x \<notin> set w" by (auto dest: solid_not_in_space)
  from strip_start_stop [OF this, of "rev a" "rev b"] show ?thesis
    by (simp add: trim_end_def)
qed

lemma strip_start_solid:
  assumes "\<forall>w \<in> set ws. x \<notin> set w"
  shows "strip_start ws (x # b) = x # b"
proof -
  have "lead_space ws (x # b) = 0"
    using lead_space_stop [OF assms, of "[]" b] lead_space_le [OF assms, of "[]"] by simp
  then show ?thesis by (rule strip_start_id)
qed

lemma trim_start_solid [simp]: "solid x \<Longrightarrow> trim_start (x # b) = x # b"
  unfolding trim_start_def by (rule strip_start_solid) (auto dest: solid_not_in_space)

lemma trim_end_solid [simp]: "solid x \<Longrightarrow> trim_end (b @ [x]) = b @ [x]"
proof -
  assume "solid x"
  then have "\<forall>w \<in> set (map rev white_space). x \<notin> set w" by (auto dest: solid_not_in_space)
  from strip_start_solid [OF this, of "rev b"] show ?thesis by (simp add: trim_end_def)
qed

lemma trim_end_single [simp]: "solid x \<Longrightarrow> trim_end [x] = [x]"
  using trim_end_solid [of x "[]"] by simp

lemma set_trim_end: "set (trim_end s) \<subseteq> set s"
  using strip_start_suffix [of "rev s" "map rev white_space"]
  unfolding trim_end_def by (metis Un_upper2 set_append set_rev)

lemma set_trim_start: "set (trim_start s) \<subseteq> set s"
  using strip_start_suffix [of s white_space]
  unfolding trim_start_def by (metis Un_upper2 set_append)

section \<open>Integers in decimal\<close>

definition digit_char :: "nat \<Rightarrow> char" where
  "digit_char d = char_of (48 + d)"

text \<open>\<open>u64::to_string\<close> and \<open>i64::to_string\<close>.\<close>

fun dec :: "nat \<Rightarrow> string" where
  "dec n = (if n < 10 then [digit_char n] else dec (n div 10) @ [digit_char (n mod 10)])"

declare dec.simps [simp del]

definition dec_int :: "int \<Rightarrow> string" where
  "dec_int i = (if i < 0 then ''-'' @ dec (nat (- i)) else dec (nat i))"

text \<open>\<open>{:0w}\<close>: zero-padded to a width.\<close>

definition dec_pad :: "nat \<Rightarrow> nat \<Rightarrow> string" where
  "dec_pad w n = replicate (w - length (dec n)) (CHR ''0'') @ dec n"

text \<open>\<open>str::parse\<close> for an unsigned type with the given maximum: an optional \<open>+\<close>, then
  at least one digit, an error on overflow.\<close>

fun digits_val :: "nat \<Rightarrow> string \<Rightarrow> nat option" where
  "digits_val acc [] = Some acc"
| "digits_val acc (c # cs) =
    (if is_ascii_digit c then digits_val (10 * acc + (byte c - 48)) cs else None)"

definition parse_unsigned :: "nat \<Rightarrow> string \<Rightarrow> nat option" where
  "parse_unsigned maxv s =
    (let ds = (case s of c # cs \<Rightarrow> if c = CHR ''+'' then cs else s | [] \<Rightarrow> []) in
     if ds = [] then None else
     case digits_val 0 ds of None \<Rightarrow> None | Some v \<Rightarrow> if v \<le> maxv then Some v else None)"

definition parse_signed :: "nat \<Rightarrow> string \<Rightarrow> int option" where
  "parse_signed maxv s =
    (case s of [] \<Rightarrow> None
     | c # cs \<Rightarrow>
        if c = CHR ''-'' then
          (if cs = [] then None else
           case digits_val 0 cs of None \<Rightarrow> None
           | Some v \<Rightarrow> if v \<le> Suc maxv then Some (- int v) else None)
        else map_option int (parse_unsigned maxv s))"

lemma byte_digit_char: "d < 10 \<Longrightarrow> byte (digit_char d) = 48 + d"
  by (simp add: digit_char_def byte_char_of)

lemma digit_char_digit: "d < 10 \<Longrightarrow> is_ascii_digit (digit_char d)"
  by (simp add: is_ascii_digit_def byte_digit_char)

lemma dec_digits: "\<forall>c \<in> set (dec n). is_ascii_digit c"
proof (induction n rule: dec.induct)
  case (1 n)
  then show ?case
    by (subst dec.simps) (auto simp: digit_char_digit)
qed

lemma dec_not_Nil [simp]: "dec n \<noteq> []"
  by (subst dec.simps) simp

lemma digits_val_append:
  "digits_val acc (xs @ ys) =
    (case digits_val acc xs of None \<Rightarrow> None | Some v \<Rightarrow> digits_val v ys)"
  by (induction xs arbitrary: acc) auto

lemma digits_val_dec: "digits_val 0 (dec n) = Some n"
proof (induction n rule: dec.induct)
  case (1 n)
  show ?case
  proof (cases "n < 10")
    case True
    then show ?thesis
      by (subst dec.simps) (simp add: digit_char_digit byte_digit_char)
  next
    case False
    with 1 show ?thesis
      by (subst dec.simps) (simp add: digits_val_append digit_char_digit byte_digit_char)
  qed
qed

lemma is_ascii_digit_is_ascii: "is_ascii_digit c \<Longrightarrow> is_ascii c"
  by (simp add: ascii_class_defs)

lemma dec_hd_not_plus: "\<exists>c cs. dec n = c # cs \<and> c \<noteq> CHR ''+'' \<and> c \<noteq> CHR ''-''"
proof -
  obtain c cs where d: "dec n = c # cs" using dec_not_Nil by (cases "dec n") auto
  with dec_digits [of n] have "is_ascii_digit c" by simp
  then have "c \<noteq> CHR ''+''" "c \<noteq> CHR ''-''" by (auto simp: is_ascii_digit_def byte_def)
  with d show ?thesis by blast
qed

lemma parse_unsigned_dec [simp]: "n \<le> m \<Longrightarrow> parse_unsigned m (dec n) = Some n"
  using dec_hd_not_plus [of n] digits_val_dec [of n]
  by (auto simp: parse_unsigned_def)

lemma parse_unsigned_bound: "parse_unsigned m s = Some n \<Longrightarrow> n \<le> m"
  by (auto simp: parse_unsigned_def Let_def split: option.splits if_splits list.splits)

section \<open>Searching\<close>

text \<open>\<open>str::contains\<close>, \<open>str::ends_with\<close> and \<open>eq_ignore_ascii_case\<close>.\<close>

definition contains :: "string \<Rightarrow> string \<Rightarrow> bool" where
  "contains s pat \<longleftrightarrow> sublist pat s"

definition eq_ignore_ascii_case :: "string \<Rightarrow> string \<Rightarrow> bool" where
  "eq_ignore_ascii_case a b \<longleftrightarrow> lower a = lower b"

text \<open>\<open>str::strip_prefix\<close>.\<close>

definition strip_prefix :: "string \<Rightarrow> string \<Rightarrow> string option" where
  "strip_prefix p s = (if prefix p s then Some (drop (length p) s) else None)"

lemma strip_prefix_append [simp]: "strip_prefix p (p @ s) = Some s"
  by (simp add: strip_prefix_def)

end
