(* ===== verification/Fingerprint.thy ===== *)
theory Fingerprint
  imports Rust_Text
begin

text \<open>
  \<open>fingerprint.rs\<close>: SQL statements normalised to the text of their class. The scanning loop
  \<open>fingerprint\<close> is \<open>fp_scan\<close> on the unread suffix of the query; \<open>collapse_in_lists\<close> and
  \<open>collapse_values_lists\<close> then rewrite placeholder groups, remembering the byte before the
  suffix for the word-boundary test.
\<close>

section \<open>Lexeme skipping\<close>

text \<open>\<open>skip_string\<close>: the suffix after the closing quote. \<open>skip_string_body\<close> is its loop; a
  backslash skips two bytes, a doubled quote stays inside.\<close>

fun skip_string_body :: "char \<Rightarrow> string \<Rightarrow> string" where
  "skip_string_body q [] = []"
| "skip_string_body q (c # cs) =
    (if c = BSLASH then skip_string_body q (tl cs)
     else if c = q then (if cs \<noteq> [] \<and> hd cs = q then skip_string_body q (tl cs) else cs)
     else skip_string_body q cs)"

fun skip_string :: "string \<Rightarrow> string" where
  "skip_string [] = []"
| "skip_string (q # cs) = skip_string_body q cs"

text \<open>\<open>skip_number\<close>: integer, decimal, exponent or 0x literal.\<close>

definition skip_exponent :: "string \<Rightarrow> string" where
  "skip_exponent s =
    (case s of [] \<Rightarrow> s
     | c # cs \<Rightarrow>
        if \<not> or_0x20_is c (CHR ''e'') then s
        else
          let j = (case cs of d # ds \<Rightarrow> if d = CHR ''+'' \<or> d = CHR ''-'' then ds else cs | [] \<Rightarrow> cs)
          in (case j of d # _ \<Rightarrow> if is_ascii_digit d then dropWhile is_ascii_digit j else s
              | [] \<Rightarrow> s))"

definition skip_fraction :: "string \<Rightarrow> string" where
  "skip_fraction s =
    (case s of c # cs \<Rightarrow> if c = CHR ''.'' then dropWhile is_ascii_digit cs else s | [] \<Rightarrow> s)"

fun hex_prefix :: "string \<Rightarrow> bool" where
  "hex_prefix (z # x # _) \<longleftrightarrow> z = CHR ''0'' \<and> or_0x20_is x (CHR ''x'')"
| "hex_prefix _ \<longleftrightarrow> False"

definition skip_number :: "string \<Rightarrow> string" where
  "skip_number s =
    (if hex_prefix s then dropWhile is_ascii_hexdigit (drop 2 s)
     else skip_exponent (skip_fraction (dropWhile is_ascii_digit s)))"

text \<open>\<open>while i < n && b[i] != b'\n'\<close>, and the loop that ends a block comment.\<close>

definition skip_line :: "string \<Rightarrow> string" where
  "skip_line s = dropWhile (\<lambda>c. c \<noteq> NEWLINE) s"

fun skip_comment :: "string \<Rightarrow> string" where
  "skip_comment (c # d # cs) =
    (if c = CHR ''*'' \<and> d = CHR ''/'' then cs else skip_comment (d # cs))"
| "skip_comment _ = []"

text \<open>A \<open>--\<close> comment needs a following whitespace byte or the end of the text.\<close>

fun dash_comment :: "string \<Rightarrow> bool" where
  "dash_comment (c # d # cs) \<longleftrightarrow>
    c = CHR ''-'' \<and> d = CHR ''-'' \<and> (cs = [] \<or> is_ascii_whitespace (hd cs))"
| "dash_comment _ \<longleftrightarrow> False"

fun starts_comment :: "string \<Rightarrow> bool" where
  "starts_comment (c # d # cs) \<longleftrightarrow> c = CHR ''/'' \<and> d = CHR ''*''"
| "starts_comment _ \<longleftrightarrow> False"

lemma starts_comment_hd: "starts_comment (c # cs) \<Longrightarrow> c = CHR ''/'' \<and> cs \<noteq> []"
  by (cases cs) auto

lemma dash_comment_hd: "dash_comment (c # cs) \<Longrightarrow> c = CHR ''-'' \<and> cs \<noteq> []"
  by (cases cs) auto

section \<open>The output buffer\<close>

text \<open>\<open>utf8_len\<close> and \<open>push_lossy_lower\<close>: the new output and the rest of the input.\<close>

definition utf8_len :: "char \<Rightarrow> nat" where
  "utf8_len first =
    (if 0xC0 \<le> byte first \<and> byte first \<le> 0xDF then 2
     else if 0xE0 \<le> byte first \<and> byte first \<le> 0xEF then 3
     else if 0xF0 \<le> byte first \<and> byte first \<le> 0xF7 then 4
     else 1)"

fun push_lossy_lower :: "string \<Rightarrow> string \<Rightarrow> string \<times> string" where
  "push_lossy_lower out [] = (out, [])"
| "push_lossy_lower out (c # cs) =
    (if is_ascii c then (out @ [to_ascii_lowercase c], cs)
     else
       let len = utf8_len c; chunk = c # take (len - 1) cs in
       case from_utf8 chunk of
         Some ch \<Rightarrow> (out @ ch, drop (len - 1) cs)
       | None \<Rightarrow> (out @ REPLACEMENT_CHARACTER, cs))"

definition is_ident_byte :: "char \<Rightarrow> bool" where
  "is_ident_byte c \<longleftrightarrow> is_ascii_alphanumeric c \<or> c = CHR ''_'' \<or> c = CHR ''$''"

text \<open>The last character is non-ASCII exactly when the last byte is.\<close>

definition ends_with_ident_char :: "string \<Rightarrow> bool" where
  "ends_with_ident_char out \<longleftrightarrow>
    out \<noteq> [] \<and> (is_ident_byte (last out) \<or> \<not> is_ascii (last out))"

definition push_space :: "string \<Rightarrow> string" where
  "push_space out = (if out \<noteq> [] \<and> last out \<noteq> CHR '' '' then out @ '' '' else out)"

definition fold_sign :: "string \<Rightarrow> string" where
  "fold_sign out =
    (let t = trim_end out in
     if t = [] then out
     else if last t \<noteq> CHR ''-'' \<and> last t \<noteq> CHR ''+'' then out
     else
       let u = trim_end (butlast t) in
       if u = [] \<or> last u \<in> set ''(,=<>+-*/%'' then butlast t else out)"

section \<open>The scanning loop\<close>

text \<open>Inside backticks: identifiers are copied, a doubled backtick is part of the name.\<close>

function fp_backtick :: "string \<Rightarrow> string \<Rightarrow> string \<times> string" where
  "fp_backtick out [] = (out, [])"
| "fp_backtick out (c # cs) =
    (if c = BTICK then
       (case cs of
          d # ds \<Rightarrow> if d = BTICK then fp_backtick (out @ [BTICK, BTICK]) ds
                   else (out @ [BTICK], cs)
        | [] \<Rightarrow> (out @ [BTICK], cs))
     else let (out', rest) = push_lossy_lower out (c # cs) in fp_backtick out' rest)"
  by pat_completeness auto

lemma length_push_lossy_lower:
  "length (snd (push_lossy_lower out (c # cs))) \<le> length cs"
  by (auto simp: Let_def split: option.splits)

termination fp_backtick
proof (relation "measure (\<lambda>(out, s). length s)")
  fix c :: char and cs out x out' rest
  assume "x = push_lossy_lower out (c # cs)" and "(out', rest) = x"
  then have "snd (push_lossy_lower out (c # cs)) = rest" by (metis snd_conv)
  then show "((out', rest), out, c # cs) \<in> measure (\<lambda>(out, s). length s)"
    using length_push_lossy_lower [of out c cs] by simp
qed auto

lemma length_skip_string_body [shrinks, termination_simp]:
  "length (skip_string_body q s) \<le> length s"
proof (induction q s rule: skip_string_body.induct)
  case (2 q c cs)
  have "length (tl cs) \<le> Suc (length cs)" by simp
  with 2 show ?case by (auto intro: le_trans)
qed simp

lemma length_skip_comment [shrinks, termination_simp]:
  "length (skip_comment s) \<le> length s"
  by (induction s rule: skip_comment.induct) auto

lemma length_skip_line [shrinks, termination_simp]: "length (skip_line s) \<le> length s"
  by (simp add: skip_line_def shrinks)

lemma length_skip_exponent [shrinks]: "length (skip_exponent s) \<le> length s"
  by (auto simp: skip_exponent_def Let_def split: list.splits
      intro!: le_SucI length_dropWhile_shrinks)

lemma length_skip_fraction [shrinks]: "length (skip_fraction s) \<le> length s"
  by (auto simp: skip_fraction_def intro: le_SucI shrinks split: list.splits)

text \<open>A number consumes at least one byte where the loop calls for it, so the scan advances.\<close>

definition number_starts :: "string \<Rightarrow> bool" where
  "number_starts s \<longleftrightarrow>
    (case s of [] \<Rightarrow> False
     | c # cs \<Rightarrow> is_ascii_digit c \<or>
        (c = CHR ''.'' \<and> (case cs of d # _ \<Rightarrow> is_ascii_digit d | [] \<Rightarrow> False)))"

lemma length_skip_number [shrinks]:
  assumes "number_starts (c # cs)"
  shows "length (skip_number (c # cs)) \<le> length cs"
proof -
  let ?s = "dropWhile is_ascii_digit (c # cs)"
  have "length (skip_fraction ?s) \<le> length cs"
  proof (cases "is_ascii_digit c")
    case True
    then show ?thesis
      using length_skip_fraction [of ?s] length_dropWhile_shrinks [of is_ascii_digit cs] by simp
  next
    case False
    with assms have "c = CHR ''.''" by (auto simp: number_starts_def)
    then show ?thesis
      using False by (simp add: skip_fraction_def shrinks)
  qed
  then have "length (skip_exponent (skip_fraction ?s)) \<le> length cs"
    using length_skip_exponent le_trans by blast
  moreover have "length (dropWhile is_ascii_hexdigit (drop 1 cs)) \<le> length cs"
    using length_dropWhile_shrinks [of is_ascii_hexdigit "drop 1 cs"] by simp
  ultimately show ?thesis by (auto simp: skip_number_def split: list.splits)
qed

text \<open>One turn of the loop: the byte at the index is \<open>c\<close>, the bytes after it \<open>cs\<close>; the new output
  and the new suffix.\<close>

definition fp_step :: "string \<Rightarrow> char \<Rightarrow> string \<Rightarrow> string \<times> string" where
  "fp_step out c cs =
    (if c = SQUOTE \<or> c = DQUOTE then (out @ ''?'', skip_string (c # cs))
     else if c = BTICK then fp_backtick (out @ [BTICK]) cs
     else if starts_comment (c # cs) then (push_space out, skip_comment (tl cs))
     else if dash_comment (c # cs) then (out, skip_line (c # cs))
     else if c = CHR ''#'' then (out, skip_line (c # cs))
     else if is_ascii_whitespace c then (push_space out, cs)
     else if number_starts (c # cs) then
       (if ends_with_ident_char out then (out @ [to_ascii_lowercase c], cs)
        else (fold_sign out @ ''?'', skip_number (c # cs)))
     else push_lossy_lower out (c # cs))"

lemma length_fp_backtick: "length (snd (fp_backtick out s)) \<le> length s"
proof (induction out s rule: fp_backtick.induct)
  case (2 out c cs)
  show ?case
  proof (cases "c = BTICK")
    case True
    with 2 show ?thesis by (fastforce split: list.splits)
  next
    case False
    obtain o' r where p: "push_lossy_lower out (c # cs) = (o', r)" by fastforce
    with length_push_lossy_lower [of out c cs] have "length r \<le> length cs" by simp
    moreover have "length (snd (fp_backtick o' r)) \<le> length r"
      using "2.IH"(2) False p by simp
    ultimately show ?thesis using False p by (simp del: push_lossy_lower.simps)
  qed
qed simp

lemma length_fp_step: "length (snd (fp_step out c cs)) \<le> length cs"
proof -
  have "length (skip_line (c # cs)) \<le> length cs" if "dash_comment (c # cs) \<or> c = CHR ''#''"
    using that length_skip_line [of cs] by (auto simp: skip_line_def dest: dash_comment_hd)
  moreover have "length (skip_comment (tl cs)) \<le> length cs"
    using length_skip_comment [of "tl cs"] by simp
  ultimately show ?thesis
    using length_fp_backtick [of "out @ [BTICK]" cs] length_push_lossy_lower [of out c cs]
      length_skip_number [of c cs] length_skip_string_body [of c cs]
    by (auto simp: fp_step_def simp del: push_lossy_lower.simps)
qed

function fp_scan :: "string \<Rightarrow> string \<Rightarrow> string" where
  "fp_scan out [] = out"
| "fp_scan out (c # cs) = (case fp_step out c cs of (out', rest) \<Rightarrow> fp_scan out' rest)"
  by pat_completeness auto
termination
proof (relation "measure (\<lambda>(out, s). length s)")
  fix out c cs out' rest
  assume "(out', rest) = fp_step out c cs"
  then have "snd (fp_step out c cs) = rest" by (metis snd_conv)
  then show "((out', rest), out, c # cs) \<in> measure (\<lambda>(out, s). length s)"
    using length_fp_step [of out c cs] by simp
qed simp

section \<open>Collapsing placeholder lists\<close>

text \<open>\<open>placeholder_group_end\<close> on the suffix after the opening parenthesis: the suffix after the
  matching \<open>)\<close> when the group holds only \<open>?\<close>, commas and spaces and at least one \<open>?\<close>.\<close>

fun group_end :: "nat \<Rightarrow> string \<Rightarrow> string option" where
  "group_end placeholders [] = None"
| "group_end placeholders (c # cs) =
    (if c = CHR ''?'' then group_end (Suc placeholders) cs
     else if c = CHR '','' \<or> c = CHR '' '' then group_end placeholders cs
     else if c = CHR '')'' \<and> 0 < placeholders then Some cs
     else None)"

definition placeholder_group_end :: "string \<Rightarrow> string option" where
  "placeholder_group_end s = group_end 0 (tl s)"

text \<open>\<open>word_at\<close>: the byte before the suffix (if any) and the byte after the word bound it.\<close>

definition word_at :: "char option \<Rightarrow> string \<Rightarrow> string \<Rightarrow> bool" where
  "word_at prev s word =
    (prefix word s \<and>
     (case prev of None \<Rightarrow> True | Some p \<Rightarrow> \<not> is_ident_byte p \<and> p \<noteq> BTICK) \<and>
     (case drop (length word) s of [] \<Rightarrow> True | a # _ \<Rightarrow> \<not> is_ident_byte a \<and> a \<noteq> BTICK))"

definition skip_spaces :: "string \<Rightarrow> string" where
  "skip_spaces s = dropWhile (\<lambda>c. c = CHR '' '') s"

definition in_group :: "char option \<Rightarrow> string \<Rightarrow> string option" where
  "in_group prev s =
    (if word_at prev s ''in'' then
       (case skip_spaces (drop 2 s) of
          c # cs \<Rightarrow> if c = CHR ''('' then placeholder_group_end (c # cs) else None
        | [] \<Rightarrow> None)
     else None)"

lemma length_group_end: "group_end k s = Some t \<Longrightarrow> length t < length s"
  by (induction k s rule: group_end.induct) (auto split: if_splits)

lemma length_placeholder_group_end:
  "placeholder_group_end s = Some t \<Longrightarrow> length t < length s"
  unfolding placeholder_group_end_def by (cases s) (auto dest: length_group_end)

lemma length_skip_spaces [shrinks]: "length (skip_spaces s) \<le> length s"
  by (simp add: skip_spaces_def shrinks)

lemma length_in_group: "in_group prev s = Some t \<Longrightarrow> length t < length s"
  using length_skip_spaces [of "drop 2 s"]
  by (fastforce simp: in_group_def dest: length_placeholder_group_end
      split: if_splits list.splits)

function collapse_in :: "char option \<Rightarrow> string \<Rightarrow> string" where
  "collapse_in prev [] = []"
| "collapse_in prev (c # cs) =
    (case in_group prev (c # cs) of
       Some rest \<Rightarrow> ''in (?+)'' @ collapse_in (Some (CHR '')'')) rest
     | None \<Rightarrow> c # collapse_in (Some c) cs)"
  by pat_completeness auto
termination
  by (relation "measure (length \<circ> snd)") (use length_in_group in force)+

definition collapse_in_lists :: "string \<Rightarrow> string" where
  "collapse_in_lists s = collapse_in None s"

text \<open>The tuple loop of \<open>collapse_values_lists\<close>: how many tuples were read and the suffix after
  the last of them (\<open>k\<close>).\<close>

definition next_tuple :: "nat \<Rightarrow> string \<Rightarrow> string option" where
  "next_tuple tuples k =
    (let m = skip_spaces k;
         m' = (if 0 < tuples \<and> m \<noteq> [] \<and> hd m = CHR '','' then skip_spaces (tl m) else m)
     in if m' = [] \<or> hd m' \<noteq> CHR ''('' then None else placeholder_group_end m')"

lemma length_next_tuple: "next_tuple n k = Some t \<Longrightarrow> length t < length k"
proof -
  assume a: "next_tuple n k = Some t"
  let ?m = "skip_spaces k"
  have "length (skip_spaces (tl ?m)) \<le> length k"
    using length_skip_spaces [of "tl ?m"] length_skip_spaces [of k] by simp
  with a length_skip_spaces [of k] show ?thesis
    by (fastforce simp: next_tuple_def Let_def split: if_splits
        dest: length_placeholder_group_end)
qed

function values_tuples :: "nat \<Rightarrow> string \<Rightarrow> nat \<times> string" where
  "values_tuples tuples k =
    (case next_tuple tuples k of
       None \<Rightarrow> (tuples, k)
     | Some e \<Rightarrow> values_tuples (Suc tuples) e)"
  by pat_completeness auto
termination
  by (relation "measure (length \<circ> snd)") (use length_next_tuple in force)+

declare values_tuples.simps [simp del]

definition values_group :: "char option \<Rightarrow> string \<Rightarrow> string option" where
  "values_group prev s =
    (if word_at prev s ''values'' then
       (case values_tuples 0 (drop 6 s) of (n, k) \<Rightarrow> if 0 < n then Some k else None)
     else None)"

lemma length_values_tuples: "length (snd (values_tuples n k)) \<le> length k"
proof (induction n k rule: values_tuples.induct)
  case (1 n k)
  show ?case
  proof (cases "next_tuple n k")
    case None
    then show ?thesis by (simp add: values_tuples.simps [of n k])
  next
    case (Some e)
    with 1 length_next_tuple [OF Some] show ?thesis
      by (simp add: values_tuples.simps [of n k])
  qed
qed

lemma length_values_group: "values_group prev s = Some t \<Longrightarrow> length t < length s"
  using length_values_tuples [of 0 "drop 6 s"]
  by (cases s) (auto simp: values_group_def word_at_def split: if_splits prod.splits)

function collapse_values :: "char option \<Rightarrow> string \<Rightarrow> string" where
  "collapse_values prev [] = []"
| "collapse_values prev (c # cs) =
    (case values_group prev (c # cs) of
       Some rest \<Rightarrow> ''values (?+)'' @ collapse_values (Some (CHR '')'')) rest
     | None \<Rightarrow> c # collapse_values (Some c) cs)"
  by pat_completeness auto
termination
  by (relation "measure (length \<circ> snd)") (use length_values_group in force)+

definition collapse_values_lists :: "string \<Rightarrow> string" where
  "collapse_values_lists s = collapse_values None s"

section \<open>The fingerprint\<close>

text \<open>\<open>while s.ends_with(';') { s.pop(); s.truncate(s.trim_end().len()) }\<close>\<close>

function strip_semicolons :: "string \<Rightarrow> string" where
  "strip_semicolons s =
    (if s \<noteq> [] \<and> last s = CHR '';'' then strip_semicolons (trim_end (butlast s)) else s)"
  by pat_completeness auto
termination
proof (relation "measure length")
  fix s :: string
  assume "s \<noteq> [] \<and> last s = CHR '';''"
  then show "(trim_end (butlast s), s) \<in> measure length"
    using length_trim_end [of "butlast s"] by (cases s) auto
qed simp

declare strip_semicolons.simps [simp del]

definition fingerprint :: "string \<Rightarrow> string" where
  "fingerprint query =
    collapse_values_lists (collapse_in_lists (strip_semicolons (trim (fp_scan [] query))))"

section \<open>The registry\<close>

text \<open>\<open>FingerprintRegistry\<close>: \<open>ids\<close> as a map, \<open>texts\<close> in id order; ids are \<open>u32\<close>.\<close>

record registry =
  ids :: "string \<rightharpoonup> u32"
  texts :: "string list"

definition new_registry :: registry where
  "new_registry = \<lparr>ids = Map.empty, texts = []\<rparr>"

definition intern :: "registry \<Rightarrow> string \<Rightarrow> registry \<times> u32" where
  "intern r query =
    (let fp = fingerprint query in
     case ids r fp of
       Some i \<Rightarrow> (r, i)
     | None \<Rightarrow>
        let i = word_of_nat (length (texts r)) in
        (r\<lparr>texts := texts r @ [fp], ids := (ids r)(fp \<mapsto> i)\<rparr>, i))"

definition reg_len :: "registry \<Rightarrow> nat" where
  "reg_len r = length (texts r)"

end
