(* ===== verification/Registry.thy ===== *)
theory Registry
  imports Fingerprint
begin

text \<open>
  The contract of \<open>FingerprintRegistry\<close>, as the interface \<open>interner\<close> that the capture writer
  relies on: interning never changes an id already given, ids and classes are in bijection, and
  an id is the position of its text in the table. The registry of \<open>fingerprint.rs\<close> satisfies it
  as long as it holds at most \<open>2 ^ 32\<close> classes (the id is \<open>texts.len() as u32\<close>).
\<close>

section \<open>The interface\<close>

locale interner =
  fixes intern_op :: "'r \<Rightarrow> string \<Rightarrow> 'r \<times> 'i"
    and table :: "'r \<Rightarrow> string list"
    and index :: "'i \<Rightarrow> nat"
    and class_of :: "string \<Rightarrow> string"
    and inv :: "'r \<Rightarrow> bool"
    and capacity :: nat
  assumes inv_step:
      "inv r \<Longrightarrow> length (table r) < capacity \<Longrightarrow> intern_op r q = (r', i) \<Longrightarrow> inv r'"
    and table_step:
      "inv r \<Longrightarrow> length (table r) < capacity \<Longrightarrow> intern_op r q = (r', i) \<Longrightarrow>
        table r' = (if class_of q \<in> set (table r) then table r else table r @ [class_of q])"
    and index_step:
      "inv r \<Longrightarrow> length (table r) < capacity \<Longrightarrow> intern_op r q = (r', i) \<Longrightarrow>
        index i < length (table r') \<and> table r' ! index i = class_of q"
    and table_distinct: "inv r \<Longrightarrow> distinct (table r)"
    and index_inj: "index i = index j \<Longrightarrow> i = j"
begin

fun intern_all :: "'r \<Rightarrow> string list \<Rightarrow> 'r \<times> 'i list" where
  "intern_all r [] = (r, [])"
| "intern_all r (q # qs) =
    (case intern_op r q of (r1, i) \<Rightarrow> case intern_all r1 qs of (r2, is) \<Rightarrow> (r2, i # is))"

lemma table_step_extends:
  assumes "inv r" and "length (table r) < capacity" and "intern_op r q = (r', i)"
  shows "prefix (table r) (table r')" and "length (table r') \<le> Suc (length (table r))"
  using table_step [OF assms] by (auto split: if_splits)

lemma intern_all_spec:
  assumes "inv r" and "length (table r) + length qs \<le> capacity"
    and "intern_all r qs = (r', is)"
  shows "inv r' \<and> prefix (table r) (table r') \<and>
    length (table r') \<le> length (table r) + length qs \<and>
    set (table r') = set (table r) \<union> class_of ` set qs \<and>
    list_all2 (\<lambda>q i. index i < length (table r') \<and> table r' ! index i = class_of q) qs is"
  using assms
proof (induction qs arbitrary: r r' "is")
  case (Cons q qs)
  obtain r1 i where s: "intern_op r q = (r1, i)" by fastforce
  obtain js where a: "intern_all r1 qs = (r', js)" and e: "is = i # js"
    using Cons.prems(3) s by (auto split: prod.splits)
  have c: "length (table r) < capacity" using Cons.prems(2) by simp
  note st = inv_step [OF Cons.prems(1) c s] table_step_extends [OF Cons.prems(1) c s]
    index_step [OF Cons.prems(1) c s] table_step [OF Cons.prems(1) c s]
  have "length (table r1) + length qs \<le> capacity" using st(3) Cons.prems(2) by simp
  note ih = Cons.IH [OF st(1) this a]
  have p: "prefix (table r1) (table r')" using ih by blast
  then have "index i < length (table r') \<and> table r' ! index i = class_of q"
    using st(4) by (metis nth_append prefixE prefix_length_le order.strict_trans2)
  moreover have "set (table r1) = insert (class_of q) (set (table r))"
    using st(5) by (auto split: if_splits)
  ultimately show ?case
    using ih st(2,3) e by (auto intro: prefix_order.order_trans)
qed auto

text \<open>Two statements of one run get the same id exactly when they are of the same class.\<close>

lemma same_id_iff:
  assumes "inv r" and "length (table r) + length qs \<le> capacity"
    and "a < length qs" and "b < length qs"
  shows "snd (intern_all r qs) ! a = snd (intern_all r qs) ! b \<longleftrightarrow>
    class_of (qs ! a) = class_of (qs ! b)"
proof -
  obtain r' "is" where e: "intern_all r qs = (r', is)" by fastforce
  note s = intern_all_spec [OF assms(1,2) e]
  have l: "index (is ! k) < length (table r') \<and> table r' ! index (is ! k) = class_of (qs ! k)"
    if "k < length qs" for k
    using s that by (auto simp: list_all2_conv_all_nth)
  have "distinct (table r')" using s table_distinct by blast
  then show ?thesis using l [OF assms(3)] l [OF assms(4)] index_inj e
    by (metis nth_eq_iff_index_eq snd_conv)
qed

end

section \<open>The registry of the code\<close>

text \<open>The invariant: \<open>ids\<close> is the inverse of \<open>texts\<close>.\<close>

definition reg_inv :: "registry \<Rightarrow> bool" where
  "reg_inv r \<longleftrightarrow>
    distinct (texts r) \<and> length (texts r) \<le> 2 ^ 32 \<and> dom (ids r) = set (texts r) \<and>
    (\<forall>k < length (texts r). ids r (texts r ! k) = Some (word_of_nat k))"

lemma reg_inv_new: "reg_inv new_registry"
  by (simp add: reg_inv_def new_registry_def)

lemma unat_reg_index: "k < 2 ^ 32 \<Longrightarrow> unat (word_of_nat k :: u32) = k"
  by (simp add: unat_of_nat)

lemma intern_cases:
  assumes "reg_inv r" and "length (texts r) < 2 ^ 32" and "intern r q = (r', i)"
  obtains (known) "r' = r" "fingerprint q \<in> set (texts r)" "unat i < length (texts r)"
      "texts r ! unat i = fingerprint q"
    | (fresh) "r' = r\<lparr>texts := texts r @ [fingerprint q],
          ids := (ids r)(fingerprint q \<mapsto> i)\<rparr>"
        "fingerprint q \<notin> set (texts r)" "unat i = length (texts r)"
proof (cases "ids r (fingerprint q)")
  case None
  then have "fingerprint q \<notin> set (texts r)" using assms(1) by (auto simp: reg_inv_def)
  with None assms(2,3) show ?thesis
    by (intro fresh) (auto simp: intern_def Let_def unat_reg_index)
next
  case (Some j)
  then have m: "fingerprint q \<in> set (texts r)" using assms(1) by (auto simp: reg_inv_def)
  then obtain k where k: "k < length (texts r)" "texts r ! k = fingerprint q"
    by (auto simp: in_set_conv_nth)
  then have "j = word_of_nat k" using Some assms(1) by (auto simp: reg_inv_def)
  with k assms(2) have "unat j = k" by (simp add: unat_reg_index)
  with Some assms(3) m k show ?thesis by (intro known) (auto simp: intern_def)
qed

lemma reg_inv_step:
  assumes "reg_inv r" and "length (texts r) < 2 ^ 32" and "intern r q = (r', i)"
  shows "reg_inv r'"
  using assms
proof (cases rule: intern_cases)
  case fresh
  have "i = word_of_nat (length (texts r))" using fresh(3) by (simp flip: fresh(3))
  with fresh assms(1,2) show ?thesis
    by (auto simp: reg_inv_def nth_append less_Suc_eq dest: nth_mem)
qed (use assms in simp)

interpretation reg: interner intern texts "unat :: u32 \<Rightarrow> nat" fingerprint reg_inv "2 ^ 32"
proof
  fix r r' q and i :: u32
  assume a: "reg_inv r" "length (texts r) < 2 ^ 32" "intern r q = (r', i)"
  show "reg_inv r'" using a by (rule reg_inv_step)
  show "texts r' = (if fingerprint q \<in> set (texts r) then texts r else texts r @ [fingerprint q])"
    using a by (cases rule: intern_cases) auto
  show "unat i < length (texts r') \<and> texts r' ! unat i = fingerprint q"
    using a by (cases rule: intern_cases) auto
next
  fix r :: registry
  assume "reg_inv r"
  then show "distinct (texts r)" by (simp add: reg_inv_def)
qed (simp add: word_unat_eq_iff)

text \<open>The run of the capture writer over a list of statements, on the code's registry.\<close>

fun intern_run :: "registry \<Rightarrow> string list \<Rightarrow> registry \<times> u32 list" where
  "intern_run r [] = (r, [])"
| "intern_run r (q # qs) =
    (case intern r q of (r1, i) \<Rightarrow> case intern_run r1 qs of (r2, is) \<Rightarrow> (r2, i # is))"

lemma intern_run_eq: "intern_run r qs = reg.intern_all r qs"
  by (induction qs arbitrary: r) (auto split: prod.splits)

text \<open>C16: A capture that interns at most \<open>2 ^ 32\<close> statements gives two of them the same
  fingerprint id exactly when their fingerprints are equal.\<close>
theorem registry_ids_are_classes:
  assumes "length qs \<le> 2 ^ 32" and "a < length qs" and "b < length qs"
  shows "snd (intern_run new_registry qs) ! a = snd (intern_run new_registry qs) ! b \<longleftrightarrow>
    fingerprint (qs ! a) = fingerprint (qs ! b)"
  unfolding intern_run_eq using assms reg_inv_new
  by (intro reg.same_id_iff) (auto simp: new_registry_def)

theorem registry_ids_are_classes_witness:
  "snd (intern_run new_registry [''SELECT 1'', ''select 2'', ''DO 1'']) ! 0 =
    snd (intern_run new_registry [''SELECT 1'', ''select 2'', ''DO 1'']) ! 1 \<longleftrightarrow>
   fingerprint ''SELECT 1'' = fingerprint ''select 2''"
  using registry_ids_are_classes [of "[''SELECT 1'', ''select 2'', ''DO 1'']" 0 1] by simp

end
