(* ===== verification/Fingerprint_Props.thy ===== *)
theory Fingerprint_Props
  imports Fingerprint
begin

text \<open>
  What \<open>fingerprint.rs\<close> guarantees: classes do not depend on ASCII case, on the contents of
  literals or on the length of an IN list; the output is lowercase, well-formed UTF-8 (so
  neither \<open>expect\<close> can panic); the registry numbers the classes bijectively.
\<close>

section \<open>Case blindness of the scan\<close>

lemma lower_eq_special [simp]:
  "to_ascii_lowercase c = SQUOTE \<longleftrightarrow> c = SQUOTE"
  "to_ascii_lowercase c = DQUOTE \<longleftrightarrow> c = DQUOTE"
  "to_ascii_lowercase c = BTICK \<longleftrightarrow> c = BTICK"
  "to_ascii_lowercase c = BSLASH \<longleftrightarrow> c = BSLASH"
  "to_ascii_lowercase c = NEWLINE \<longleftrightarrow> c = NEWLINE"
  "to_ascii_lowercase c = CHR ''*'' \<longleftrightarrow> c = CHR ''*''"
  "to_ascii_lowercase c = CHR ''/'' \<longleftrightarrow> c = CHR ''/''"
  "to_ascii_lowercase c = CHR ''-'' \<longleftrightarrow> c = CHR ''-''"
  "to_ascii_lowercase c = CHR ''+'' \<longleftrightarrow> c = CHR ''+''"
  "to_ascii_lowercase c = CHR ''#'' \<longleftrightarrow> c = CHR ''#''"
  "to_ascii_lowercase c = CHR ''.'' \<longleftrightarrow> c = CHR ''.''"
  "to_ascii_lowercase c = CHR ''0'' \<longleftrightarrow> c = CHR ''0''"
  "to_ascii_lowercase c = CHR ''('' \<longleftrightarrow> c = CHR ''(''"
  "to_ascii_lowercase c = CHR '')'' \<longleftrightarrow> c = CHR '')''"
  "to_ascii_lowercase c = CHR '';'' \<longleftrightarrow> c = CHR '';''"
  "to_ascii_lowercase c = CHR ''!'' \<longleftrightarrow> c = CHR ''!''"
  "to_ascii_lowercase c = CHR ''_'' \<longleftrightarrow> c = CHR ''_''"
  "to_ascii_lowercase c = CHR ''$'' \<longleftrightarrow> c = CHR ''$''"
  by (subst to_ascii_lowercase_eq_iff;
      simp add: is_ascii_lower_def is_ascii_upper_def byte_def)+

lemma lower_special [simp]:
  "to_ascii_lowercase SQUOTE = SQUOTE" "to_ascii_lowercase DQUOTE = DQUOTE"
  "to_ascii_lowercase BTICK = BTICK" "to_ascii_lowercase (CHR ''#'') = CHR ''#''"
  by simp_all

lemma skip_string_body_lower [case_insensitive]:
  "q \<in> {SQUOTE, DQUOTE, BTICK} \<Longrightarrow>
    skip_string_body q (lower s) = lower (skip_string_body q s)"
  by (induction q s rule: skip_string_body.induct) (auto simp: hd_map map_tl [symmetric])

lemma dropWhile_lower [case_insensitive]:
  "(\<And>c. P (to_ascii_lowercase c) = P c) \<Longrightarrow> dropWhile P (lower s) = lower (dropWhile P s)"
  by (induction s) auto

lemma takeWhile_lower [case_insensitive]:
  "(\<And>c. P (to_ascii_lowercase c) = P c) \<Longrightarrow> takeWhile P (lower s) = lower (takeWhile P s)"
  by (induction s) auto

lemma skip_comment_lower [case_insensitive]: "skip_comment (lower s) = lower (skip_comment s)"
  by (induction s rule: skip_comment.induct) auto

lemma skip_line_lower [case_insensitive]: "skip_line (lower s) = lower (skip_line s)"
  by (simp add: skip_line_def dropWhile_lower)

lemma starts_comment_lower [case_insensitive]: "starts_comment (lower s) = starts_comment s"
  by (cases s rule: starts_comment.cases) auto

lemma dash_comment_lower [case_insensitive]: "dash_comment (lower s) = dash_comment s"
proof (cases s rule: dash_comment.cases)
  case (1 c d cs)
  then show ?thesis by (cases cs) auto
qed auto

lemma number_starts_lower [case_insensitive]: "number_starts (lower s) = number_starts s"
  by (auto simp: number_starts_def split: list.splits)

lemma skip_number_lower [case_insensitive]: "skip_number (lower s) = lower (skip_number s)"
proof -
  have f: "skip_fraction (lower t) = lower (skip_fraction t)" for t
    by (cases t) (auto simp: skip_fraction_def dropWhile_lower)
  have e: "skip_exponent (lower t) = lower (skip_exponent t)" for t
  proof (cases t)
    case (Cons c cs)
    then show ?thesis
      by (cases cs; cases "tl cs") (auto simp: skip_exponent_def Let_def dropWhile_lower)
  qed (simp add: skip_exponent_def)
  have h: "hex_prefix (lower s) = hex_prefix s"
    by (cases s rule: hex_prefix.cases) auto
  show ?thesis
    by (simp add: skip_number_def f e h dropWhile_lower drop_map)
qed

lemma lower_id_non_ascii: "\<not> is_ascii c \<Longrightarrow> to_ascii_lowercase c = c"
  by (simp add: is_ascii_def to_ascii_lowercase_def is_ascii_upper_def)

lemma utf8_seq_len:
  "utf8_seq (c # cs) = (True, n) \<Longrightarrow> \<not> is_ascii c \<Longrightarrow> n = utf8_len c"
  by (auto simp: utf8_seq.simps utf8_len_def is_ascii_def split: if_splits list.splits)

lemma valid_chunk_lower:
  assumes "valid_utf8 (c # take (utf8_len c - 1) cs)" and "\<not> is_ascii c"
  shows "lower (take (utf8_len c - 1) cs) = take (utf8_len c - 1) cs"
proof -
  let ?t = "take (utf8_len c - 1) cs"
  obtain n where n: "utf8_seq (c # ?t) = (True, n)" using assms(1) by (auto split: prod.splits)
  then have "n = utf8_len c" using assms(2) by (rule utf8_seq_len)
  then have "\<forall>d \<in> set ?t. is_cont d"
    using utf8_seq_True(4) [OF n] by (simp add: min_def)
  then show ?thesis
    by (intro map_idI) (auto simp: is_cont_def is_ascii_def intro!: lower_id_non_ascii)
qed

lemma push_lossy_lower_lower [case_insensitive]:
  "push_lossy_lower out (lower s) =
    (fst (push_lossy_lower out s), lower (snd (push_lossy_lower out s)))"
proof (cases s)
  case (Cons c cs)
  show ?thesis
  proof (cases "is_ascii c")
    case False
    let ?n = "utf8_len c - 1"
    have l: "to_ascii_lowercase c = c" using False by (rule lower_id_non_ascii)
    have "valid_utf8 (c # lower (take ?n cs)) = valid_utf8 (c # take ?n cs)"
      using valid_utf8_lower [of "c # take ?n cs"] l by (simp del: valid_utf8.simps)
    with Cons False l valid_chunk_lower [of c cs] show ?thesis
      by (auto simp: Let_def from_utf8_def take_map drop_map simp del: valid_utf8.simps)
  qed (simp add: Cons)
qed simp

lemma fp_backtick_lower [case_insensitive]:
  "fp_backtick out (lower s) = (fst (fp_backtick out s), lower (snd (fp_backtick out s)))"
proof (induction out s rule: fp_backtick.induct)
  case (2 out c cs)
  show ?case
  proof (cases "c = BTICK")
    case True
    with 2 show ?thesis by (cases cs) auto
  next
    case False
    obtain o' r where p: "push_lossy_lower out (c # cs) = (o', r)" by fastforce
    with push_lossy_lower_lower [of out "c # cs"]
    have "push_lossy_lower out (to_ascii_lowercase c # lower cs) = (o', lower r)" by simp
    with "2.IH"(2) [OF False p [symmetric]] False p show ?thesis
      by (simp del: push_lossy_lower.simps)
  qed
qed simp

lemma fp_step_lower [case_insensitive]:
  "fp_step out (to_ascii_lowercase c) (lower cs) =
    (fst (fp_step out c cs), lower (snd (fp_step out c cs)))"
proof -
  note lo = starts_comment_lower [of "c # cs", simplified] dash_comment_lower [of "c # cs", simplified]
    number_starts_lower [of "c # cs", simplified] skip_number_lower [of "c # cs", simplified]
    skip_line_lower [of "c # cs", simplified]
  have t: "skip_comment (tl (lower cs)) = lower (skip_comment (tl cs))"
    by (simp add: skip_comment_lower map_tl [symmetric])
  have p: "push_lossy_lower out (to_ascii_lowercase c # lower cs) =
      (fst (push_lossy_lower out (c # cs)), lower (snd (push_lossy_lower out (c # cs))))"
    using push_lossy_lower_lower [of out "c # cs"] by simp
  have q: "skip_string_body (to_ascii_lowercase c) (lower cs) = lower (skip_string_body c cs)"
    if "c = SQUOTE \<or> c = DQUOTE" using that by (auto simp: skip_string_body_lower)
  show ?thesis
    unfolding fp_step_def lower_eq_special lo t p lower_class
    by (simp add: q fp_backtick_lower del: push_lossy_lower.simps)
qed

lemma fp_scan_lower: "fp_scan out (lower s) = fp_scan out s"
proof (induction out s rule: fp_scan.induct)
  case (2 out c cs)
  obtain o' r where "fp_step out c cs = (o', r)" by fastforce
  with 2 fp_step_lower [of out c cs] show ?case by simp
qed simp

text \<open>Two statements that differ only in ASCII case get the same fingerprint: the class of a
  statement is the class of its lowercase spelling.\<close>
theorem fingerprint_case_insensitive: "fingerprint (lower q) = fingerprint q"
  by (simp add: fingerprint_def fp_scan_lower)

section \<open>The output is lowercase, well-formed text\<close>

definition no_upper :: "string \<Rightarrow> bool" where
  "no_upper s \<longleftrightarrow> (\<forall>c \<in> set s. \<not> is_ascii_upper c)"

text \<open>The invariant of the output buffer.\<close>

definition clean :: "string \<Rightarrow> bool" where
  "clean s \<longleftrightarrow> valid_utf8 s \<and> no_upper s"

lemma clean_Nil [simp]: "clean []"
  by (simp add: clean_def no_upper_def)

lemma clean_append: "clean a \<Longrightarrow> clean b \<Longrightarrow> clean (a @ b)"
  by (auto simp: clean_def no_upper_def valid_utf8_append)

lemma clean_lit [simp]:
  "clean ''?''" "clean [BTICK]" "clean [BTICK, BTICK]" "clean '' ''"
  by (simp_all add: clean_def no_upper_def is_ascii_upper_def is_ascii_def byte_def)

lemma clean_REPLACEMENT [simp]: "clean REPLACEMENT_CHARACTER"
  by (simp add: clean_def no_upper_def)
    (simp add: REPLACEMENT_CHARACTER_def is_ascii_upper_def byte_def)

lemma clean_butlast:
  assumes "clean t" and "t \<noteq> []" and "is_ascii (last t)"
  shows "clean (butlast t)"
proof -
  have "valid_utf8 (butlast t @ [last t])" using assms by (simp add: clean_def)
  then have "valid_utf8 (butlast t)"
    using assms(3) valid_utf8_split by (metis is_ascii_not_cont list.sel(1))
  with assms(1) show ?thesis by (auto simp: clean_def no_upper_def dest: in_set_butlastD)
qed

lemma clean_trim_end: "clean s \<Longrightarrow> clean (trim_end s)"
  using set_trim_end by (auto simp: clean_def no_upper_def valid_utf8_trim_end)

lemma clean_trim: "clean s \<Longrightarrow> clean (trim s)"
proof -
  assume "clean s"
  then have "clean (trim_start s)"
    using set_trim_start by (auto simp: clean_def no_upper_def valid_utf8_trim_start)
  then show ?thesis by (simp add: trim_def clean_trim_end)
qed

lemma clean_push_space: "clean out \<Longrightarrow> clean (push_space out)"
  by (simp add: push_space_def clean_append)

lemma clean_fold_sign: "clean out \<Longrightarrow> clean (fold_sign out)"
  using clean_trim_end [of out]
  by (auto simp: fold_sign_def Let_def is_ascii_def byte_def intro!: clean_butlast)

lemma clean_lower_char: "is_ascii c \<Longrightarrow> clean [to_ascii_lowercase c]"
  by (simp add: clean_def no_upper_def)

lemma clean_chunk:
  assumes "valid_utf8 (c # take (utf8_len c - 1) cs)" and "\<not> is_ascii c"
  shows "clean (c # take (utf8_len c - 1) cs)"
proof -
  let ?s = "c # take (utf8_len c - 1) cs"
  have l: "lower ?s = ?s"
    using valid_chunk_lower [OF assms] lower_id_non_ascii [OF assms(2)] by simp
  have "no_upper (lower ?s)" unfolding no_upper_def by simp
  then have "no_upper ?s" unfolding l .
  with assms(1) show ?thesis unfolding clean_def by blast
qed

lemma clean_push_lossy_lower: "clean out \<Longrightarrow> clean (fst (push_lossy_lower out s))"
proof (cases s)
  case (Cons c cs)
  assume out: "clean out"
  let ?s = "c # take (utf8_len c - 1) cs"
  consider "is_ascii c" | "\<not> is_ascii c" "valid_utf8 ?s" | "\<not> is_ascii c" "\<not> valid_utf8 ?s"
    by blast
  then show ?thesis
  proof cases
    case 1
    then show ?thesis using Cons out by (simp add: clean_append clean_lower_char)
  next
    case 2
    then have "clean (out @ ?s)" using out clean_append clean_chunk by blast
    with 2 Cons show ?thesis
      by (simp add: Let_def from_utf8_def del: valid_utf8.simps)
  next
    case 3
    then show ?thesis using Cons out
      by (simp add: Let_def from_utf8_def clean_append del: valid_utf8.simps)
  qed
qed simp

lemma clean_fp_backtick: "clean out \<Longrightarrow> clean (fst (fp_backtick out s))"
proof (induction out s rule: fp_backtick.induct)
  case (2 out c cs)
  show ?case
  proof (cases "c = BTICK")
    case True
    have e: "clean (out @ [BTICK])" "clean (out @ [BTICK, BTICK])"
      using "2.prems" clean_append clean_lit by blast+
    show ?thesis
    proof (cases cs)
      case Nil
      with True e show ?thesis by simp
    next
      case (Cons d ds)
      with True e "2.IH"(1) [OF True Cons] show ?thesis by simp
    qed
  next
    case False
    obtain o' r where p: "push_lossy_lower out (c # cs) = (o', r)" by fastforce
    then have "clean o'" using clean_push_lossy_lower [OF "2.prems", of "c # cs"] by simp
    with "2.IH"(2) False p show ?thesis by (simp del: push_lossy_lower.simps)
  qed
qed simp

lemma number_starts_ascii: "number_starts (c # cs) \<Longrightarrow> is_ascii c"
  by (auto simp: number_starts_def ascii_class_defs byte_def)

lemma clean_fp_step: "clean out \<Longrightarrow> clean (fst (fp_step out c cs))"
  unfolding fp_step_def
  by (simp add: clean_append clean_fp_backtick clean_push_space clean_fold_sign
      clean_lower_char clean_push_lossy_lower number_starts_ascii
      del: push_lossy_lower.simps)

lemma clean_fp_scan: "clean out \<Longrightarrow> clean (fp_scan out s)"
proof (induction out s rule: fp_scan.induct)
  case (2 out c cs)
  obtain o' r where "fp_step out c cs = (o', r)" by fastforce
  with 2 clean_fp_step [of out c cs] show ?case by simp
qed simp

lemma clean_strip_semicolons: "clean s \<Longrightarrow> clean (strip_semicolons s)"
proof (induction s rule: strip_semicolons.induct)
  case (1 s)
  show ?case
  proof (cases "s \<noteq> [] \<and> last s = CHR '';''")
    case True
    then have "clean (trim_end (butlast s))"
      using "1.prems" by (intro clean_trim_end clean_butlast) (auto simp: is_ascii_def byte_def)
    with "1.IH" True show ?thesis by (simp add: strip_semicolons.simps [of s])
  next
    case False
    then have "strip_semicolons s = s" using strip_semicolons.simps [of s] by argo
    with "1.prems" show ?thesis by simp
  qed
qed

section \<open>Collapsing keeps UTF-8\<close>

text \<open>What a collapse step removes is a non-empty run of ASCII bytes.\<close>

definition ascii_run :: "string \<Rightarrow> bool" where
  "ascii_run g \<longleftrightarrow> (\<forall>c \<in> set g. is_ascii c)"

lemma ascii_run_append [simp]: "ascii_run (a @ b) \<longleftrightarrow> ascii_run a \<and> ascii_run b"
  by (auto simp: ascii_run_def)

lemma group_end_run: "group_end k s = Some t \<Longrightarrow> \<exists>g. s = g @ t \<and> g \<noteq> [] \<and> ascii_run g"
proof (induction k s rule: group_end.induct)
  case (2 k c cs)
  show ?case
  proof (cases "c = CHR '')''")
    case True
    with "2.prems" have "c # cs = [c] @ t" "ascii_run [c]"
      by (auto simp: ascii_run_def is_ascii_def byte_def split: if_splits)
    then show ?thesis by blast
  next
    case False
    with 2 obtain g where "cs = g @ t" "ascii_run g" by (auto split: if_splits)
    moreover have "is_ascii c" using "2.prems" False
      by (auto simp: is_ascii_def byte_def split: if_splits)
    ultimately have "c # cs = (c # g) @ t" "ascii_run (c # g)" by (auto simp: ascii_run_def)
    then show ?thesis by blast
  qed
qed simp

lemma placeholder_group_end_run:
  "placeholder_group_end (CHR ''('' # s) = Some t \<Longrightarrow>
    \<exists>g. CHR ''('' # s = g @ t \<and> g \<noteq> [] \<and> ascii_run g"
proof -
  assume "placeholder_group_end (CHR ''('' # s) = Some t"
  then have "group_end 0 s = Some t" by (simp add: placeholder_group_end_def)
  from group_end_run [OF this] obtain g where "s = g @ t" "ascii_run g" by blast
  then have "CHR ''('' # s = (CHR ''('' # g) @ t" "ascii_run (CHR ''('' # g)"
    by (auto simp: ascii_run_def is_ascii_def byte_def)
  then show ?thesis by blast
qed

lemma skip_spaces_run: "\<exists>g. s = g @ skip_spaces s \<and> ascii_run g"
proof -
  have "ascii_run (takeWhile (\<lambda>c. c = CHR '' '') s)"
    by (auto simp: ascii_run_def is_ascii_def byte_def dest: set_takeWhileD)
  then show ?thesis unfolding skip_spaces_def by (metis takeWhile_dropWhile_id)
qed

lemma word_at_split: "word_at prev s w \<Longrightarrow> s = w @ drop (length w) s"
  by (auto simp: word_at_def prefix_def)

lemma in_group_run:
  assumes "in_group prev s = Some t"
  shows "\<exists>g. s = CHR ''i'' # g @ t \<and> ascii_run (CHR ''i'' # g)"
proof -
  have "word_at prev s ''in''" using assms by (simp add: in_group_def split: if_splits)
  from word_at_split [OF this] have w: "s = ''in'' @ drop 2 s" by (simp add: numeral_eq_Suc)
  obtain h where h: "drop 2 s = h @ skip_spaces (drop 2 s)" "ascii_run h"
    using skip_spaces_run by blast
  obtain g where g: "skip_spaces (drop 2 s) = g @ t" "ascii_run g"
    using assms placeholder_group_end_run
    by (fastforce simp: in_group_def split: if_splits list.splits)
  have "s = CHR ''i'' # (''n'' @ h @ g) @ t" using w h(1) g(1) by simp
  moreover have "ascii_run (CHR ''i'' # (''n'' @ h @ g))"
    using h(2) g(2) by (auto simp: ascii_run_def is_ascii_def byte_def)
  ultimately show ?thesis by blast
qed

lemma next_tuple_run: "next_tuple n k = Some t \<Longrightarrow> \<exists>g. k = g @ t \<and> ascii_run g"
proof -
  assume a: "next_tuple n k = Some t"
  define m where "m = skip_spaces k"
  define m' where
    "m' = (if 0 < n \<and> m \<noteq> [] \<and> hd m = CHR '','' then skip_spaces (tl m) else m)"
  have "m' \<noteq> [] \<and> hd m' = CHR ''('' \<and> placeholder_group_end m' = Some t"
    using a unfolding next_tuple_def Let_def m_def [symmetric] m'_def [symmetric]
    by (simp split: if_splits)
  then have "placeholder_group_end (CHR ''('' # tl m') = Some t" "m' = CHR ''('' # tl m'"
    by (metis list.collapse)+
  then obtain h3 where h3: "m' = h3 @ t" "ascii_run h3"
    using placeholder_group_end_run by metis
  obtain h where h: "k = h @ m" "ascii_run h" using skip_spaces_run m_def by blast
  have "\<exists>g. m = g @ m' \<and> ascii_run g"
  proof (cases "0 < n \<and> m \<noteq> [] \<and> hd m = CHR '',''")
    case True
    obtain h' where h': "tl m = h' @ skip_spaces (tl m)" "ascii_run h'"
      using skip_spaces_run by blast
    from True have c: "m = CHR '','' # tl m" by (cases m) auto
    have "m' = skip_spaces (tl m)" using True by (simp add: m'_def)
    then have "m = (CHR '','' # h') @ m'" using c h'(1) by (metis append_Cons)
    moreover have "ascii_run (CHR '','' # h')" using h'(2)
      by (simp add: ascii_run_def is_ascii_def byte_def)
    ultimately show ?thesis by blast
  next
    case False
    then have "m = [] @ m'" unfolding m'_def by auto
    then show ?thesis by (metis ascii_run_def empty_iff empty_set)
  qed
  then obtain h2 where h2: "m = h2 @ m'" "ascii_run h2" by blast
  have "k = (h @ h2 @ h3) @ t" using h(1) h2(1) h3(1) by simp
  then show ?thesis using h(2) h2(2) h3(2) ascii_run_append by blast
qed

lemma values_tuples_run: "\<exists>g. k = g @ snd (values_tuples n k) \<and> ascii_run g"
proof (induction n k rule: values_tuples.induct)
  case (1 n k)
  show ?case
  proof (cases "next_tuple n k")
    case None
    then show ?thesis
      by (intro exI [of _ "[]"]) (simp add: values_tuples.simps [of n k] ascii_run_def)
  next
    case (Some e)
    then obtain g where g: "e = g @ snd (values_tuples (Suc n) e)" "ascii_run g"
      using 1 by blast
    obtain h where h: "k = h @ e" "ascii_run h" using next_tuple_run [OF Some] by blast
    have "values_tuples n k = values_tuples (Suc n) e"
      using Some by (simp add: values_tuples.simps [of n k])
    then have "k = (h @ g) @ snd (values_tuples n k)"
      using g(1) h(1) by (metis append.assoc)
    with g(2) h(2) show ?thesis using ascii_run_append by blast
  qed
qed

lemma values_group_run:
  assumes "values_group prev s = Some t"
  shows "\<exists>g. s = CHR ''v'' # g @ t \<and> ascii_run (CHR ''v'' # g)"
proof -
  have "word_at prev s ''values''" using assms by (simp add: values_group_def split: if_splits)
  from word_at_split [OF this] have w: "s = ''values'' @ drop 6 s" by (simp add: numeral_eq_Suc)
  have t: "t = snd (values_tuples 0 (drop 6 s))"
    using assms by (auto simp: values_group_def split: if_splits prod.splits)
  obtain g where g: "drop 6 s = g @ t" "ascii_run g" using values_tuples_run t by blast
  have "s = CHR ''v'' # (''alues'' @ g) @ t" using w g(1) by simp
  moreover have "ascii_run (CHR ''v'' # (''alues'' @ g))"
    using g(2) by (simp add: ascii_run_def is_ascii_def byte_def)
  ultimately show ?thesis by blast
qed

text \<open>Replacing an ASCII run by another ASCII run keeps a text clean.\<close>

lemma clean_replace_run:
  assumes "clean (x @ a # g @ t)" and "ascii_run (a # g)" and "clean b"
  shows "clean ((x @ b) @ t)"
proof -
  have a: "\<not> is_cont a" using assms(2) by (simp add: ascii_run_def is_ascii_not_cont)
  have v: "valid_utf8 x \<and> valid_utf8 ((a # g) @ t)"
    using valid_utf8_split [of x "(a # g) @ t"] assms(1) a by (simp add: clean_def)
  have "valid_utf8 (a # g)" using assms(2) by (simp add: ascii_run_def valid_utf8_ascii_all)
  with v have "valid_utf8 t" using valid_utf8_suffix by blast
  with v assms show ?thesis
    by (auto simp: clean_def no_upper_def intro!: valid_utf8_append)
qed

lemma clean_collapse_words [simp]: "clean ''in (?+)''" "clean ''values (?+)''"
  by (simp_all add: clean_def no_upper_def is_ascii_upper_def is_ascii_def byte_def)

lemma clean_collapse_in: "clean (x @ s) \<Longrightarrow> clean (x @ collapse_in prev s)"
proof (induction prev s arbitrary: x rule: collapse_in.induct)
  case (2 prev c cs)
  show ?case
  proof (cases "in_group prev (c # cs)")
    case None
    with 2 show ?thesis by (simp add: "2.IH"(1) [of "x @ [c]", simplified])
  next
    case (Some rest)
    from in_group_run [OF Some] obtain g
      where "c # cs = CHR ''i'' # g @ rest" "ascii_run (CHR ''i'' # g)" by blast
    then have "clean ((x @ ''in (?+)'') @ rest)"
      using clean_replace_run "2.prems" by (metis clean_collapse_words(1))
    with "2.IH"(2) [OF Some] have "clean ((x @ ''in (?+)'') @ collapse_in (Some (CHR '')'')) rest)"
      by blast
    with Some show ?thesis by simp
  qed
qed simp

lemma clean_collapse_values: "clean (x @ s) \<Longrightarrow> clean (x @ collapse_values prev s)"
proof (induction prev s arbitrary: x rule: collapse_values.induct)
  case (2 prev c cs)
  show ?case
  proof (cases "values_group prev (c # cs)")
    case None
    with 2 show ?thesis by (simp add: "2.IH"(1) [of "x @ [c]", simplified])
  next
    case (Some rest)
    from values_group_run [OF Some] obtain g
      where "c # cs = CHR ''v'' # g @ rest" "ascii_run (CHR ''v'' # g)" by blast
    then have "clean ((x @ ''values (?+)'') @ rest)"
      using clean_replace_run "2.prems" by (metis clean_collapse_words(2))
    with "2.IH"(2) [OF Some]
    have "clean ((x @ ''values (?+)'') @ collapse_values (Some (CHR '')'')) rest)" by blast
    with Some show ?thesis by simp
  qed
qed simp

text \<open>C39: For any input bytes the two conversions \<open>String::from_utf8(out).expect(..)\<close> cannot
  panic: the buffers that \<open>collapse_in_lists\<close> and \<open>collapse_values_lists\<close> build are
  well-formed UTF-8, and the fingerprint holds no ASCII uppercase letter.\<close>
theorem fingerprint_wellformed:
  "valid_utf8 (collapse_in_lists (strip_semicolons (trim (fp_scan [] q)))) \<and>
   valid_utf8 (fingerprint q) \<and> no_upper (fingerprint q)"
proof -
  have a: "clean (strip_semicolons (trim (fp_scan [] q)))"
    by (intro clean_strip_semicolons clean_trim clean_fp_scan) simp
  have b: "clean (collapse_in_lists (strip_semicolons (trim (fp_scan [] q))))"
    using clean_collapse_in [of "[]"] a by (simp add: collapse_in_lists_def)
  have "clean (fingerprint q)"
    using clean_collapse_values [of "[]"] b
    by (simp add: fingerprint_def collapse_values_lists_def)
  with b show ?thesis by (simp add: clean_def)
qed

end
