(* ===== verification/Fingerprint_Tokens.thy ===== *)
theory Fingerprint_Tokens
  imports Fingerprint_Props
begin

text \<open>
  The scan of \<open>fingerprint.rs\<close> against an independent specification: a statement as a list of
  lexical tokens, and what each token contributes to the class. It follows that a class depends
  neither on the contents of literals nor on the white space and comments between tokens.
\<close>

section \<open>Tokens\<close>

text \<open>Identifiers and keywords, one-byte symbols, quoted strings (quote, raw body without the
  closing quote), unsigned decimal numbers, white space, block comments (the body).\<close>

datatype token =
    Word_tok string
  | Sym_tok char
  | Str_tok char string
  | Num_tok string
  | Gap_tok string
  | Comment_tok string

fun token_text :: "token \<Rightarrow> string" where
  "token_text (Word_tok w) = w"
| "token_text (Sym_tok c) = [c]"
| "token_text (Str_tok q body) = q # body @ [q]"
| "token_text (Num_tok ds) = ds"
| "token_text (Gap_tok w) = w"
| "token_text (Comment_tok body) = ''/*'' @ body @ ''*/''"

definition render :: "token list \<Rightarrow> string" where
  "render ts = concat (map token_text ts)"

text \<open>A string body: every quote is doubled or escaped, every backslash has its byte.\<close>

fun body_ok :: "char \<Rightarrow> string \<Rightarrow> bool" where
  "body_ok q [] = True"
| "body_ok q [c] \<longleftrightarrow> c \<noteq> q \<and> c \<noteq> BSLASH"
| "body_ok q (c # d # cs) \<longleftrightarrow>
    (if c = BSLASH then body_ok q cs else if c = q then d = q \<and> body_ok q cs
     else body_ok q (d # cs))"

fun comment_body_ok :: "string \<Rightarrow> bool" where
  "comment_body_ok [] = True"
| "comment_body_ok [c] = True"
| "comment_body_ok (c # d # cs) \<longleftrightarrow> \<not> (c = CHR ''*'' \<and> d = CHR ''/'') \<and> comment_body_ok (d # cs)"

text \<open>The symbols of SQL that are not quotes, backslashes or \<open>#\<close>.\<close>

definition plain_symbol :: "char \<Rightarrow> bool" where
  "plain_symbol c \<longleftrightarrow> c \<in> set ''(),;=<>!*+-./%&|^~:@?[]{}''"

fun token_ok :: "token \<Rightarrow> bool" where
  "token_ok (Word_tok w) \<longleftrightarrow>
    w \<noteq> [] \<and> (\<forall>c \<in> set w. is_ident_byte c) \<and> \<not> is_ascii_digit (hd w)"
| "token_ok (Sym_tok c) \<longleftrightarrow> plain_symbol c"
| "token_ok (Str_tok q body) \<longleftrightarrow> (q = SQUOTE \<or> q = DQUOTE) \<and> body_ok q body"
| "token_ok (Num_tok ds) \<longleftrightarrow> ds \<noteq> [] \<and> (\<forall>c \<in> set ds. is_ascii_digit c)"
| "token_ok (Gap_tok w) \<longleftrightarrow> w \<noteq> [] \<and> (\<forall>c \<in> set w. is_ascii_whitespace c)"
| "token_ok (Comment_tok body) \<longleftrightarrow> comment_body_ok (body @ ''*'')"

text \<open>Which token may follow which so that the text splits back into these tokens: words and
  numbers are separated, a quote does not double, no comment and no fraction arises.\<close>

fun is_sep :: "token \<Rightarrow> bool" where
  "is_sep (Sym_tok c) = True"
| "is_sep (Gap_tok w) = True"
| "is_sep (Comment_tok b) = True"
| "is_sep _ = False"

fun follows_ok :: "token \<Rightarrow> token \<Rightarrow> bool" where
  "follows_ok (Word_tok w) t = is_sep t"
| "follows_ok (Num_tok ds) t \<longleftrightarrow> is_sep t \<and> t \<noteq> Sym_tok (CHR ''.'')"
| "follows_ok (Str_tok q b) t = (case t of Str_tok p b' \<Rightarrow> p \<noteq> q | _ \<Rightarrow> True)"
| "follows_ok (Sym_tok c) t \<longleftrightarrow> 
    (c = CHR ''-'' \<longrightarrow> t \<noteq> Sym_tok (CHR ''-'')) \<and> (c = CHR ''/'' \<longrightarrow> t \<noteq> Sym_tok (CHR ''*'')) \<and>
    (c = CHR ''.'' \<longrightarrow> (case t of Num_tok ds \<Rightarrow> False | _ \<Rightarrow> True))"
| "follows_ok (Gap_tok w) t = True"
| "follows_ok (Comment_tok b) t = True"

fun tokens_ok :: "token list \<Rightarrow> bool" where
  "tokens_ok [] = True"
| "tokens_ok [t] = token_ok t"
| "tokens_ok (t # u # ts) \<longleftrightarrow> token_ok t \<and> follows_ok t u \<and> tokens_ok (u # ts)"

section \<open>What a token contributes\<close>

fun emit_token :: "string \<Rightarrow> token \<Rightarrow> string" where
  "emit_token out (Word_tok w) = out @ lower w"
| "emit_token out (Sym_tok c) = out @ [c]"
| "emit_token out (Str_tok q body) = out @ ''?''"
| "emit_token out (Num_tok ds) = fold_sign out @ ''?''"
| "emit_token out (Gap_tok w) = push_space out"
| "emit_token out (Comment_tok b) = push_space out"

text \<open>The skeleton of a token: what is left of it when literals, white space and comments are
  forgotten.\<close>

fun erase_token :: "token \<Rightarrow> token" where
  "erase_token (Word_tok w) = Word_tok (lower w)"
| "erase_token (Sym_tok c) = Sym_tok c"
| "erase_token (Str_tok q body) = Str_tok SQUOTE []"
| "erase_token (Num_tok ds) = Num_tok ''0''"
| "erase_token (Gap_tok w) = Gap_tok '' ''"
| "erase_token (Comment_tok b) = Gap_tok '' ''"

lemma emit_erase: "emit_token out (erase_token t) = emit_token out t"
  by (cases t) auto

lemma foldl_emit_erase: "foldl emit_token out (map erase_token ts) = foldl emit_token out ts"
  by (induction ts arbitrary: out) (auto simp: emit_erase)

section \<open>The scan of one token\<close>

lemma skip_body_ok [scan_simps]:
  "body_ok q body \<Longrightarrow> q \<noteq> BSLASH \<Longrightarrow> rest = [] \<or> hd rest \<noteq> q \<Longrightarrow>
    skip_string_body q (body @ q # rest) = rest"
  by (induction q body rule: body_ok.induct) auto

lemma skip_comment_ok [scan_simps]:
  "comment_body_ok (body @ ''*'') \<Longrightarrow> skip_comment (body @ ''*/'' @ rest) = rest"
proof (induction body rule: comment_body_ok.induct)
  case (2 c)
  then show ?case by (cases "c = CHR ''*''") auto
qed auto

text \<open>What the text after a token must not start with.\<close>

fun boundary :: "token \<Rightarrow> string \<Rightarrow> bool" where
  "boundary t [] = True"
| "boundary (Str_tok q b) (c # cs) \<longleftrightarrow> c \<noteq> q"
| "boundary (Num_tok ds) (c # cs) \<longleftrightarrow> \<not> is_ident_byte c \<and> c \<noteq> CHR ''.''"
| "boundary (Sym_tok s) (c # cs) \<longleftrightarrow>
    \<not> (s = CHR ''-'' \<and> c = CHR ''-'') \<and> \<not> (s = CHR ''/'' \<and> c = CHR ''*'') \<and>
    \<not> (s = CHR ''.'' \<and> is_ascii_digit c)"
| "boundary t (c # cs) = True"

lemma ident_byte_plain:
  "is_ident_byte c \<Longrightarrow> is_ascii c \<and> c \<noteq> SQUOTE \<and> c \<noteq> DQUOTE \<and> c \<noteq> BTICK \<and> c \<noteq> CHR ''#'' \<and>
    c \<noteq> CHR ''/'' \<and> c \<noteq> CHR ''-'' \<and> c \<noteq> CHR ''.'' \<and> c \<noteq> CHR ''*'' \<and> \<not> is_ascii_whitespace c"
  by (auto simp: is_ident_byte_def ascii_class_defs byte_def)

lemma plain_symbol_class:
  "plain_symbol c \<Longrightarrow> is_ascii c \<and> c \<noteq> SQUOTE \<and> c \<noteq> DQUOTE \<and> c \<noteq> BTICK \<and> c \<noteq> CHR ''#'' \<and>
    \<not> is_ascii_whitespace c \<and> \<not> is_ascii_digit c \<and> \<not> is_ident_byte c \<and> to_ascii_lowercase c = c \<and> c \<noteq> BSLASH"
  by (auto simp: plain_symbol_def is_ident_byte_def ascii_class_defs byte_def to_ascii_lowercase_def)

lemma lower_ident: "is_ident_byte (to_ascii_lowercase c) = is_ident_byte c"
  by (simp add: is_ident_byte_def)

lemma scan_ident_byte:
  assumes "is_ident_byte c" and "is_ascii_digit c \<Longrightarrow> ends_with_ident_char out"
  shows "fp_scan out (c # cs) = fp_scan (out @ [to_ascii_lowercase c]) cs"
proof -
  note c = ident_byte_plain [OF assms(1)]
  have "number_starts (c # cs) = is_ascii_digit c" using c by (simp add: number_starts_def)
  moreover have "\<not> starts_comment (c # cs)" "\<not> dash_comment (c # cs)"
    using c starts_comment_hd dash_comment_hd by blast+
  ultimately show ?thesis using c assms(2) by (simp add: fp_step_def)
qed

lemma scan_ident_bytes:
  "\<forall>c \<in> set w. is_ident_byte c \<Longrightarrow> ends_with_ident_char out \<Longrightarrow>
    fp_scan out (w @ rest) = fp_scan (out @ lower w) rest"
proof (induction w arbitrary: out)
  case (Cons c w)
  then have "ends_with_ident_char (out @ [to_ascii_lowercase c])"
    by (simp add: ends_with_ident_char_def lower_ident)
  with Cons show ?case by (simp add: scan_ident_byte del: fp_scan.simps)
qed simp

lemma scan_word:
  assumes "token_ok (Word_tok w)"
  shows "fp_scan out (w @ rest) = fp_scan (out @ lower w) rest"
proof -
  obtain c cs where w: "w = c # cs" using assms by (cases w) auto
  then have c: "is_ident_byte c" "\<not> is_ascii_digit c" using assms by auto
  then have e: "ends_with_ident_char (out @ [to_ascii_lowercase c])"
    by (simp add: ends_with_ident_char_def lower_ident)
  have "fp_scan out (c # cs @ rest) = fp_scan (out @ [to_ascii_lowercase c]) (cs @ rest)"
    using c by (intro scan_ident_byte) auto
  also have "\<dots> = fp_scan ((out @ [to_ascii_lowercase c]) @ lower cs) rest"
    using e w assms by (intro scan_ident_bytes) auto
  finally show ?thesis using w by simp
qed

lemma scan_symbol:
  assumes "plain_symbol c" and "boundary (Sym_tok c) rest"
  shows "fp_scan out (c # rest) = fp_scan (out @ [c]) rest"
proof -
  note c = plain_symbol_class [OF assms(1)]
  have "\<not> number_starts (c # rest)" using c assms(2)
    by (cases rest) (auto simp: number_starts_def)
  moreover have "\<not> starts_comment (c # rest)" using assms(2) by (cases rest) auto
  moreover have "\<not> dash_comment (c # rest)"
  proof (cases rest)
    case (Cons d ds)
    with assms(2) show ?thesis by auto
  qed simp
  ultimately show ?thesis using c by (simp add: fp_step_def)
qed

lemma scan_string:
  assumes "token_ok (Str_tok q body)" and "boundary (Str_tok q body) rest"
  shows "fp_scan out (q # body @ q # rest) = fp_scan (out @ ''?'') rest"
proof -
  have "skip_string_body q (body @ q # rest) = rest"
    using assms by (intro skip_body_ok) (auto elim: boundary.elims)
  then show ?thesis using assms(1) by (simp add: fp_step_def)
qed

lemma push_space_idem [simp]: "push_space (push_space out) = push_space out"
  by (simp add: push_space_def)

lemma scan_space:
  assumes "is_ascii_whitespace c"
  shows "fp_scan out (c # cs) = fp_scan (push_space out) cs"
proof -
  have c: "c \<noteq> SQUOTE" "c \<noteq> DQUOTE" "c \<noteq> BTICK" "c \<noteq> CHR ''/''" "c \<noteq> CHR ''-''" "c \<noteq> CHR ''#''"
    using assms by (auto simp: is_ascii_whitespace_def byte_def)
  then have "\<not> starts_comment (c # cs)" "\<not> dash_comment (c # cs)"
    using starts_comment_hd dash_comment_hd by blast+
  with c assms show ?thesis by (simp add: fp_step_def)
qed

lemma scan_gap:
  "w \<noteq> [] \<Longrightarrow> \<forall>c \<in> set w. is_ascii_whitespace c \<Longrightarrow>
    fp_scan out (w @ rest) = fp_scan (push_space out) rest"
proof (induction w arbitrary: out)
  case (Cons c w)
  then show ?case by (cases "w = []") (simp_all add: scan_space del: fp_scan.simps)
qed simp

lemma scan_comment:
  assumes "comment_body_ok (body @ ''*'')"
  shows "fp_scan out (''/*'' @ body @ ''*/'' @ rest) = fp_scan (push_space out) rest"
  using skip_comment_ok [OF assms, of rest] by (simp add: fp_step_def)

lemma or_0x20_letter:
  "or_0x20_is c (CHR ''x'') \<Longrightarrow> is_ascii_alphabetic c"
  "or_0x20_is c (CHR ''e'') \<Longrightarrow> is_ascii_alphabetic c"
proof -
  have "or (byte c) 32 = set_bit 5 (byte c)" by (simp add: set_bit_eq_or push_bit_of_1)
  then have "or (byte c) 32 = byte c \<or> or (byte c) 32 = byte c + 32"
    by (auto simp: set_bit_eq)
  then show "or_0x20_is c (CHR ''x'') \<Longrightarrow> is_ascii_alphabetic c"
    "or_0x20_is c (CHR ''e'') \<Longrightarrow> is_ascii_alphabetic c"
    by (auto simp: or_0x20_is_def ascii_class_defs) (auto simp: byte_def)
qed

lemma no_hex_mark:
  "is_ascii_digit c \<or> \<not> is_ident_byte c \<Longrightarrow>
    \<not> or_0x20_is c (CHR ''x'') \<and> \<not> or_0x20_is c (CHR ''e'')"
  using or_0x20_letter [of c] by (auto simp: is_ident_byte_def ascii_class_defs)

lemma skip_number_digits:
  assumes "ds \<noteq> []" and "\<forall>c \<in> set ds. is_ascii_digit c" and "boundary (Num_tok ds) rest"
  shows "skip_number (ds @ rest) = rest"
proof -
  obtain d ds' where ds: "ds = d # ds'" using assms(1) by (cases ds) auto
  have nh: "\<not> or_0x20_is c (CHR ''x'') \<and> \<not> or_0x20_is c (CHR ''e'')"
    if "is_ascii_digit c \<or> \<not> is_ident_byte c" for c
    using that no_hex_mark by blast
  have "\<not> hex_prefix (ds @ rest)"
    using ds assms nh by (cases ds'; cases rest) auto
  moreover have "dropWhile is_ascii_digit (ds @ rest) = rest"
    using assms by (intro dropWhile_append_stop) (cases rest; auto simp: is_ident_byte_def ascii_class_defs)+
  moreover have "skip_fraction rest = rest" using assms(3) by (cases rest) (auto simp: skip_fraction_def)
  moreover have "skip_exponent rest = rest"
    using assms(3) nh by (cases rest) (auto simp: skip_exponent_def)
  ultimately show ?thesis by (simp add: skip_number_def)
qed

lemma scan_number:
  assumes "token_ok (Num_tok ds)" and "boundary (Num_tok ds) rest" and "\<not> ends_with_ident_char out"
  shows "fp_scan out (ds @ rest) = fp_scan (fold_sign out @ ''?'') rest"
proof -
  obtain d ds' where ds: "ds = d # ds'" "is_ascii_digit d" using assms(1) by (cases ds) auto
  then have i: "is_ident_byte d" by (simp add: is_ident_byte_def is_ascii_alphanumeric_def)
  note c = ident_byte_plain [OF i]
  have "number_starts (d # ds' @ rest)" using ds(2) by (simp add: number_starts_def)
  moreover have "\<not> starts_comment (d # ds' @ rest)" "\<not> dash_comment (d # ds' @ rest)"
    using c starts_comment_hd dash_comment_hd by blast+
  moreover have "skip_number (d # ds' @ rest) = rest"
    using skip_number_digits [of ds rest] assms(1,2) ds(1) by simp
  ultimately show ?thesis using c assms(3) ds(1) by (simp add: fp_step_def)
qed

section \<open>The scan of a token list\<close>

lemma scan_token:
  assumes "token_ok t" and "boundary t rest"
    and "\<And>ds. t = Num_tok ds \<Longrightarrow> \<not> ends_with_ident_char out"
  shows "fp_scan out (token_text t @ rest) = fp_scan (emit_token out t) rest"
proof (cases t)
  case (Word_tok w)
  with assms show ?thesis by (simp add: scan_word del: fp_scan.simps)
next
  case (Sym_tok c)
  with assms show ?thesis by (simp add: scan_symbol del: fp_scan.simps)
next
  case (Str_tok q b)
  with assms scan_string [of q b rest out] show ?thesis by (simp del: fp_scan.simps)
next
  case (Num_tok ds)
  with assms scan_number [of ds rest out] show ?thesis by (simp del: fp_scan.simps)
next
  case (Gap_tok w)
  with assms show ?thesis by (simp add: scan_gap del: fp_scan.simps)
next
  case (Comment_tok b)
  with assms scan_comment [of b out rest] show ?thesis by (simp del: fp_scan.simps)
qed

text \<open>The first byte of a token that is not a symbol or a literal ends nothing.\<close>

lemma boundary_word:
  "is_ident_byte c \<Longrightarrow> \<not> is_ascii_digit c \<Longrightarrow> follows_ok t (Word_tok w) \<Longrightarrow> token_ok t \<Longrightarrow>
    boundary t (c # cs)"
  using ident_byte_plain [of c] by (cases t) auto

lemma digit_plain: "is_ascii_digit c \<Longrightarrow> is_ident_byte c"
  by (simp add: is_ident_byte_def is_ascii_alphanumeric_def)

lemma boundary_digit:
  "is_ascii_digit c \<Longrightarrow> follows_ok t (Num_tok ds) \<Longrightarrow> token_ok t \<Longrightarrow> boundary t (c # cs)"
  using ident_byte_plain [OF digit_plain, of c] by (cases t) auto

lemma whitespace_plain:
  "is_ascii_whitespace c \<Longrightarrow> \<not> is_ident_byte c \<and> c \<noteq> CHR ''.'' \<and> c \<noteq> SQUOTE \<and> c \<noteq> DQUOTE \<and>
    c \<noteq> CHR ''-'' \<and> c \<noteq> CHR ''*'' \<and> \<not> is_ascii_digit c"
  by (auto simp: is_ident_byte_def ascii_class_defs byte_def)

lemma boundary_gap: "is_ascii_whitespace c \<Longrightarrow> token_ok t \<Longrightarrow> boundary t (c # cs)"
  using whitespace_plain [of c] by (cases t) auto

lemma quote_plain:
  "q = SQUOTE \<or> q = DQUOTE \<or> q = CHR ''/'' \<Longrightarrow> \<not> is_ident_byte q \<and> \<not> is_ascii_digit q"
  by (auto simp: is_ident_byte_def ascii_class_defs byte_def)

lemma follows_boundary:
  assumes "follows_ok t u" and "token_ok t" and "token_ok u"
  shows "boundary t (token_text u @ rest)"
proof (cases u)
  case (Word_tok w)
  then show ?thesis using assms by (cases w) (auto intro: boundary_word)
next
  case (Sym_tok c)
  with assms plain_symbol_class [of c] show ?thesis by (cases t) auto
next
  case (Str_tok q b)
  with assms quote_plain [of q] show ?thesis by (cases t) auto
next
  case (Num_tok ds)
  then show ?thesis using assms by (cases ds) (auto intro: boundary_digit)
next
  case (Gap_tok g)
  then show ?thesis using assms by (cases g) (auto intro: boundary_gap)
next
  case (Comment_tok b)
  with assms quote_plain [of "CHR ''/''"] show ?thesis by (cases t) auto
qed

text \<open>After a token that a number may follow, the output does not end like an identifier.\<close>

lemma emit_not_ident:
  assumes "token_ok t" and "follows_ok t (Num_tok ds)"
  shows "\<not> ends_with_ident_char (emit_token out t)"
proof -
  have "\<not> is_ident_byte (CHR ''?'') \<and> is_ascii (CHR ''?'') \<and> \<not> is_ident_byte (CHR '' '') \<and> is_ascii (CHR '' '')"
    by (simp add: is_ident_byte_def ascii_class_defs byte_def)
  then show ?thesis using assms plain_symbol_class
    by (cases t) (auto simp: ends_with_ident_char_def push_space_def)
qed

lemma fp_scan_tokens:
  "tokens_ok ts \<Longrightarrow> (\<And>ds us. ts = Num_tok ds # us \<Longrightarrow> \<not> ends_with_ident_char out) \<Longrightarrow>
    fp_scan out (render ts) = foldl emit_token out ts"
proof (induction ts arbitrary: out rule: tokens_ok.induct)
  case (2 t)
  then show ?case using scan_token [of t "[]" out] by (auto simp: render_def)
next
  case (3 t u ts)
  have ok: "token_ok t" "token_ok u" "follows_ok t u" "tokens_ok (u # ts)"
    using "3.prems"(1) by (auto split: if_splits elim: tokens_ok.elims)
  have "fp_scan out (render (t # u # ts)) = fp_scan (emit_token out t) (render (u # ts))"
    using scan_token [OF ok(1) follows_boundary [OF ok(3,1,2), of "render ts"]] "3.prems"(2)
    by (simp add: render_def)
  also have "\<dots> = foldl emit_token (emit_token out t) (u # ts)"
    using ok "3.IH" emit_not_ident [OF ok(1)] by (metis list.inject)
  finally show ?case by simp
qed (simp add: render_def)

text \<open>The scan implements the token specification: on the text of any well-formed token
  list it produces what the tokens contribute one after the other.\<close>
theorem fp_scan_refines_tokens:
  assumes "tokens_ok ts"
  shows "fp_scan [] (render ts) = foldl emit_token [] ts"
  using assms by (intro fp_scan_tokens) (auto simp: ends_with_ident_char_def)

theorem fp_scan_refines_tokens_witness:
  "fp_scan [] (render [Word_tok ''SELECT'', Gap_tok '' '', Str_tok SQUOTE ''it'', Sym_tok (CHR '';'')])
    = foldl emit_token [] [Word_tok ''SELECT'', Gap_tok '' '', Str_tok SQUOTE ''it'', Sym_tok (CHR '';'')]"
  by (rule fp_scan_refines_tokens) code_simp



end
