(* ===== verification/Classify.thy ===== *)
theory Classify
  imports Fingerprint
begin

text \<open>
  \<open>classify.rs\<close>: the safety gate that decides which statements replay may send to the target
  (\<open>should_execute\<close>, \<open>classify\<close>), and the nondeterminism detector. The scanner's index is the
  unread suffix; the parenthesis depth is the code's \<open>i32\<close>, kept as a 32-bit word.
\<close>

type_synonym i32 = "32 word"

datatype query_class = Read | Write

section \<open>Skipping\<close>

text \<open>\<open>skip_quoted\<close>: as \<open>skip_string\<close> of fingerprint.rs, but a backslash means nothing between
  backticks.\<close>

fun skip_quoted_body :: "char \<Rightarrow> string \<Rightarrow> string" where
  "skip_quoted_body q [] = []"
| "skip_quoted_body q (c # cs) =
    (if c = BSLASH \<and> q \<noteq> BTICK then skip_quoted_body q (tl cs)
     else if c = q then (if cs \<noteq> [] \<and> hd cs = q then skip_quoted_body q (tl cs) else cs)
     else skip_quoted_body q cs)"

fun skip_quoted :: "string \<Rightarrow> string" where
  "skip_quoted [] = []"
| "skip_quoted (q # cs) = skip_quoted_body q cs"

definition is_quote :: "char \<Rightarrow> bool" where
  "is_quote c \<longleftrightarrow> c = SQUOTE \<or> c = DQUOTE \<or> c = BTICK"

text \<open>A block comment; of a version comment only the opener and the digits are skipped. The
  argument is the suffix after \<open>/*\<close>.\<close>

definition skip_block :: "string \<Rightarrow> string" where
  "skip_block s =
    (if s \<noteq> [] \<and> hd s = CHR ''!'' then dropWhile is_ascii_digit (tl s) else skip_comment s)"

lemma length_skip_quoted_body [shrinks]: "length (skip_quoted_body q s) \<le> length s"
proof (induction q s rule: skip_quoted_body.induct)
  case (2 q c cs)
  have "length (tl cs) \<le> Suc (length cs)" by simp
  with 2 show ?case by (auto intro: le_trans)
qed simp

lemma length_skip_block [shrinks]: "length (skip_block s) \<le> length s"
  using length_dropWhile_shrinks [of is_ascii_digit "tl s"] length_skip_comment [of s]
  by (auto simp: skip_block_def)

lemma length_skip_line_comment [shrinks]:
  "dash_comment (c # cs) \<or> c = CHR ''#'' \<Longrightarrow> length (skip_line (c # cs)) \<le> length cs"
  using length_skip_line [of cs] by (auto simp: skip_line_def dest: dash_comment_hd)

lemma length_skip_block_tl: "length (skip_block (tl s)) \<le> length s"
  using length_skip_block [of "tl s"] by simp

section \<open>The token scanner\<close>

record scanner =
  scan_rest :: string
  scan_depth :: i32
  scan_word_depth :: i32

definition new_scanner :: "string \<Rightarrow> scanner" where
  "new_scanner sql = \<lparr>scan_rest = sql, scan_depth = 0, scan_word_depth = 0\<rparr>"

definition last_word_depth :: "scanner \<Rightarrow> i32" where
  "last_word_depth sc = scan_word_depth sc"

definition starts_word :: "char \<Rightarrow> bool" where
  "starts_word c \<longleftrightarrow> is_ascii_alphabetic c \<or> c = CHR ''_''"

function next_word :: "scanner \<Rightarrow> string option \<times> scanner" where
  "next_word sc =
    (case scan_rest sc of
       [] \<Rightarrow> (None, sc)
     | c # cs \<Rightarrow>
        if c = CHR ''('' then next_word (sc\<lparr>scan_rest := cs, scan_depth := scan_depth sc + 1\<rparr>)
        else if c = CHR '')'' then next_word (sc\<lparr>scan_rest := cs, scan_depth := scan_depth sc - 1\<rparr>)
        else if is_quote c then next_word (sc\<lparr>scan_rest := skip_quoted (c # cs)\<rparr>)
        else if starts_comment (c # cs) then next_word (sc\<lparr>scan_rest := skip_block (tl cs)\<rparr>)
        else if dash_comment (c # cs) then next_word (sc\<lparr>scan_rest := skip_line (c # cs)\<rparr>)
        else if c = CHR ''#'' then next_word (sc\<lparr>scan_rest := skip_line (c # cs)\<rparr>)
        else if starts_word c then
          (Some (lower (takeWhile is_ident_byte (c # cs))),
           sc\<lparr>scan_rest := dropWhile is_ident_byte (c # cs), scan_word_depth := scan_depth sc\<rparr>)
        else next_word (sc\<lparr>scan_rest := cs\<rparr>))"
  by pat_completeness auto
termination
  by (relation "measure (\<lambda>sc. length (scan_rest sc))")
    (auto simp: less_Suc_eq_le length_skip_quoted_body length_skip_block_tl
      length_skip_line_comment)

declare next_word.simps [simp del]

lemma starts_word_ident: "starts_word c \<Longrightarrow> is_ident_byte c"
  by (auto simp: starts_word_def is_ident_byte_def is_ascii_alphanumeric_def)

lemma next_word_shrinks:
  "next_word sc = (Some w, sc') \<Longrightarrow> length (scan_rest sc') < length (scan_rest sc)"
proof (induction sc rule: next_word.induct)
  case (1 sc)
  show ?case
  proof (cases "scan_rest sc")
    case Nil
    with "1.prems" show ?thesis by (simp add: next_word.simps [of sc])
  next
    case (Cons c cs)
    note l = length_skip_line_comment [of c cs]
    have d: "length (dropWhile is_ident_byte cs) \<le> length cs" by (rule length_dropWhile_shrinks)
    note lens = l d length_skip_quoted_body [of c cs] length_skip_block_tl [of cs]
    show ?thesis
      using "1.prems" Cons lens "1.IH" [OF Cons]
      by (force simp: next_word.simps [of sc] starts_word_ident split: if_splits)
  qed
qed

section \<open>Classification\<close>

text \<open>\<open>classify_select_tail\<close>, with the flag of its loop as an argument.\<close>

function select_tail :: "bool \<Rightarrow> scanner \<Rightarrow> query_class" where
  "select_tail after_into sc =
    (case next_word sc of
       (None, _) \<Rightarrow> Read
     | (Some w, sc') \<Rightarrow>
        if (w = ''outfile'' \<or> w = ''dumpfile'') \<and> after_into then Write
        else select_tail (w = ''into'') sc')"
  by pat_completeness auto
termination
  by (relation "measure (\<lambda>(a, sc). length (scan_rest sc))") (auto dest: next_word_shrinks [OF sym])

declare select_tail.simps [simp del]

definition classify_select_tail :: "scanner \<Rightarrow> query_class" where
  "classify_select_tail sc = select_tail False sc"

function classify_with_tail :: "scanner \<Rightarrow> query_class" where
  "classify_with_tail sc =
    (case next_word sc of
       (None, _) \<Rightarrow> Write
     | (Some w, sc') \<Rightarrow>
        if last_word_depth sc' = 0 then
          if w = ''select'' then classify_select_tail sc'
          else if w \<in> {''insert'', ''update'', ''delete'', ''replace''} then Write
          else classify_with_tail sc'
        else classify_with_tail sc')"
  by pat_completeness auto
termination
  by (relation "measure (\<lambda>sc. length (scan_rest sc))") (auto dest: next_word_shrinks [OF sym])

declare classify_with_tail.simps [simp del]

function classify_explain_analyze_tail :: "scanner \<Rightarrow> query_class" where
  "classify_explain_analyze_tail sc =
    (case next_word sc of
       (None, _) \<Rightarrow> Write
     | (Some w, sc') \<Rightarrow>
        if w \<in> {''format'', ''tree'', ''json''} then classify_explain_analyze_tail sc'
        else if w = ''select'' \<or> w = ''table'' then classify_select_tail sc'
        else if w = ''with'' then classify_with_tail sc'
        else Write)"
  by pat_completeness auto
termination
  by (relation "measure (\<lambda>sc. length (scan_rest sc))") (auto dest: next_word_shrinks [OF sym])

declare classify_explain_analyze_tail.simps [simp del]

text \<open>\<open>has_trailing_statement\<close>, its loop with the flag \<open>after_semicolon\<close>.\<close>

function trailing_scan :: "bool \<Rightarrow> string \<Rightarrow> bool" where
  "trailing_scan after_semicolon [] = False"
| "trailing_scan after_semicolon (c # cs) =
    (if starts_comment (c # cs) then trailing_scan after_semicolon (skip_block (tl cs))
     else if c = CHR ''#'' \<or> dash_comment (c # cs) then
       trailing_scan after_semicolon (skip_line (c # cs))
     else if is_ascii_whitespace c then trailing_scan after_semicolon cs
     else if c = CHR '';'' then trailing_scan True cs
     else if after_semicolon then True
     else if is_quote c then trailing_scan after_semicolon (skip_quoted (c # cs))
     else trailing_scan after_semicolon cs)"
  by pat_completeness auto
termination
  by (relation "measure (length \<circ> snd)")
    (auto simp: less_Suc_eq_le length_skip_quoted_body length_skip_block_tl
      length_skip_line_comment)

definition has_trailing_statement :: "string \<Rightarrow> bool" where
  "has_trailing_statement sql = trailing_scan False sql"

definition classify :: "string \<Rightarrow> query_class" where
  "classify sql =
    (if has_trailing_statement sql then Write
     else case next_word (new_scanner sql) of
       (None, _) \<Rightarrow> Write
     | (Some first, sc) \<Rightarrow>
        if first = ''select'' then classify_select_tail sc
        else if first \<in> {''show'', ''use'', ''help''} then Read
        else if first \<in> {''explain'', ''describe'', ''desc''} then
          (case next_word sc of
             (Some w, sc') \<Rightarrow> if w = ''analyze'' then classify_explain_analyze_tail sc' else Read
           | (None, _) \<Rightarrow> Read)
        else if first = ''set'' then
          (case next_word sc of
             (Some w, _) \<Rightarrow>
               if w \<in> {''global'', ''persist'', ''persist_only'', ''password'', ''default''} then Write
               else Read
           | (None, _) \<Rightarrow> Read)
        else if first = ''with'' then classify_with_tail sc
        else Write)"

definition should_execute :: "string \<Rightarrow> bool \<Rightarrow> bool" where
  "should_execute query allow_writes \<longleftrightarrow> allow_writes \<or> classify query = Read"

definition is_use_statement :: "string \<Rightarrow> bool" where
  "is_use_statement sql \<longleftrightarrow> fst (next_word (new_scanner sql)) = Some ''use''"

section \<open>Nondeterministic fingerprints\<close>

definition VOLATILE_FUNCS :: "string list" where
  "VOLATILE_FUNCS =
    [''now'', ''sysdate'', ''curdate'', ''curtime'', ''rand'', ''uuid'', ''uuid_short'',
     ''last_insert_id'', ''connection_id'', ''found_rows'', ''row_count'', ''benchmark'',
     ''get_lock'', ''release_lock'', ''is_free_lock'', ''is_used_lock'', ''version'', ''sleep'']"

definition VOLATILE_WORDS :: "string list" where
  "VOLATILE_WORDS =
    [''current_timestamp'', ''current_date'', ''current_time'', ''localtime'',
     ''localtimestamp'', ''utc_timestamp'', ''utc_date'', ''utc_time'',
     ''information_schema'', ''performance_schema'']"

text \<open>What one word of the fingerprint decides: \<open>rest\<close> is the text after the word.\<close>

definition volatile_word :: "string \<Rightarrow> string \<Rightarrow> bool" where
  "volatile_word word rest =
    (let j = dropWhile is_ascii_whitespace rest;
         called = (j \<noteq> [] \<and> hd j = CHR ''('');
         k = dropWhile is_ascii_whitespace (tl j)
     in word \<in> set VOLATILE_WORDS \<or>
        (called \<and> word \<in> set VOLATILE_FUNCS) \<or>
        (called \<and> word = ''unix_timestamp'' \<and> k \<noteq> [] \<and> hd k = CHR '')''))"

function nondet_scan :: "bool \<Rightarrow> bool \<Rightarrow> string \<Rightarrow> bool" where
  "nondet_scan has_limit has_order [] = (has_limit \<and> \<not> has_order)"
| "nondet_scan has_limit has_order (c # cs) =
    (if is_quote c then nondet_scan has_limit has_order (skip_quoted (c # cs))
     else if c = CHR ''@'' \<and> cs \<noteq> [] \<and> hd cs = CHR ''@'' then True
     else if starts_word c then
       let word = takeWhile is_ident_byte (c # cs); rest = dropWhile is_ident_byte (c # cs) in
       if volatile_word word rest then True
       else nondet_scan (has_limit \<or> word = ''limit'') (has_order \<or> word = ''order'') rest
     else nondet_scan has_limit has_order cs)"
  by pat_completeness auto
termination
  by (relation "measure (\<lambda>(l, d, s). length s)")
    (auto simp: less_Suc_eq_le length_skip_quoted_body starts_word_ident
      length_dropWhile_shrinks)

definition is_nondeterministic :: "string \<Rightarrow> bool" where
  "is_nondeterministic fp = nondet_scan False False fp"

end
