(* ===== verification/Classify_Props.thy ===== *)
theory Classify_Props
  imports Classify Fingerprint_Tokens
begin

text \<open>
  The safety gate against two specifications: a decision on the list of words the scanner
  yields, for every text, and a decision on lexical tokens (the ones of
  \<open>Fingerprint_Tokens\<close>), which shows that literals, comments and white space cannot change what
  is executed.
\<close>

section \<open>The words of a text\<close>

function words :: "scanner \<Rightarrow> (string \<times> i32) list" where
  "words sc =
    (case next_word sc of
       (None, _) \<Rightarrow> []
     | (Some w, sc') \<Rightarrow> (w, last_word_depth sc') # words sc')"
  by pat_completeness auto
termination
  by (relation "measure (\<lambda>sc. length (scan_rest sc))") (auto dest: next_word_shrinks [OF sym])

declare words.simps [simp del]

fun select_words :: "bool \<Rightarrow> string list \<Rightarrow> query_class" where
  "select_words after_into [] = Read"
| "select_words after_into (w # ws) =
    (if (w = ''outfile'' \<or> w = ''dumpfile'') \<and> after_into then Write
     else select_words (w = ''into'') ws)"

fun with_words :: "(string \<times> i32) list \<Rightarrow> query_class" where
  "with_words [] = Write"
| "with_words ((w, d) # ws) =
    (if d = 0 then
       if w = ''select'' then select_words False (map fst ws)
       else if w \<in> {''insert'', ''update'', ''delete'', ''replace''} then Write
       else with_words ws
     else with_words ws)"

fun analyze_words :: "(string \<times> i32) list \<Rightarrow> query_class" where
  "analyze_words [] = Write"
| "analyze_words ((w, d) # ws) =
    (if w \<in> {''format'', ''tree'', ''json''} then analyze_words ws
     else if w = ''select'' \<or> w = ''table'' then select_words False (map fst ws)
     else if w = ''with'' then with_words ws
     else Write)"

definition server_set_words :: "string set" where
  "server_set_words = {''global'', ''persist'', ''persist_only'', ''password'', ''default''}"

fun classify_words :: "(string \<times> i32) list \<Rightarrow> query_class" where
  "classify_words [] = Write"
| "classify_words ((w, d) # ws) =
    (if w = ''select'' then select_words False (map fst ws)
     else if w \<in> {''show'', ''use'', ''help''} then Read
     else if w \<in> {''explain'', ''describe'', ''desc''} then
       (if ws \<noteq> [] \<and> fst (hd ws) = ''analyze'' then analyze_words (tl ws) else Read)
     else if w = ''set'' then
       (if ws \<noteq> [] \<and> fst (hd ws) \<in> server_set_words then Write else Read)
     else if w = ''with'' then with_words ws
     else Write)"

lemma select_tail_words: "select_tail a sc = select_words a (map fst (words sc))"
proof (induction a sc rule: select_tail.induct)
  case (1 a sc)
  then show ?case
    by (auto simp: select_tail.simps [of a sc] words.simps [of sc] split: prod.splits option.splits)
qed

lemma with_tail_words: "classify_with_tail sc = with_words (words sc)"
proof (induction sc rule: classify_with_tail.induct)
  case (1 sc)
  then show ?case
    by (auto simp: classify_with_tail.simps [of sc] words.simps [of sc] classify_select_tail_def
        select_tail_words split: prod.splits option.splits)
qed

lemma analyze_tail_words: "classify_explain_analyze_tail sc = analyze_words (words sc)"
proof (induction sc rule: classify_explain_analyze_tail.induct)
  case (1 sc)
  then show ?case
    by (auto simp: classify_explain_analyze_tail.simps [of sc] words.simps [of sc]
        classify_select_tail_def select_tail_words with_tail_words
        split: prod.splits option.splits)
qed

lemma classify_by_words:
  "classify sql =
    (if has_trailing_statement sql then Write else classify_words (words (new_scanner sql)))"
proof -
  have e: "fst (hd (words sc)) = w \<and> tl (words sc) = words sc' \<and> words sc \<noteq> []"
    if "next_word sc = (Some w, sc')" for sc w sc'
    using that by (simp add: words.simps [of sc])
  have n: "words sc = []" if "next_word sc = (None, sc')" for sc sc'
    using that by (simp add: words.simps [of sc])
  show ?thesis
  proof (cases "next_word (new_scanner sql)")
    case (Pair o1 sc1)
    show ?thesis
    proof (cases o1)
      case None
      with Pair n show ?thesis by (simp add: classify_def)
    next
      case (Some w)
      then have ws: "words (new_scanner sql) = (w, last_word_depth sc1) # words sc1"
        using Pair by (simp add: words.simps [of "new_scanner sql"])
      obtain o2 sc2 where p2: "next_word sc1 = (o2, sc2)" by fastforce
      have t: "words sc1 = (case o2 of None \<Rightarrow> [] | Some v \<Rightarrow> (v, last_word_depth sc2) # words sc2)"
        using p2 by (simp add: words.simps [of sc1] split: option.splits)
      show ?thesis
        unfolding classify_def ws Pair Some p2 prod.case option.case classify_words.simps
          classify_select_tail_def select_tail_words with_tail_words analyze_tail_words
          server_set_words_def
        by (cases o2) (simp_all add: t)
    qed
  qed
qed

section \<open>What a Read is\<close>

lemma sublist_pair:
  "sublist [x, y] (w # ws) \<longleftrightarrow> (w = x \<and> ws \<noteq> [] \<and> hd ws = y) \<or> sublist [x, y] ws"
  by (cases ws) (auto simp: sublist_Cons_right)

lemma select_words_iff:
  "select_words a ws = Read \<longleftrightarrow>
    \<not> (a \<and> ws \<noteq> [] \<and> hd ws \<in> {''outfile'', ''dumpfile''}) \<and>
    \<not> sublist [''into'', ''outfile''] ws \<and> \<not> sublist [''into'', ''dumpfile''] ws"
proof (induction a ws rule: select_words.induct)
  case (2 a w ws)
  show ?case
  proof (cases "(w = ''outfile'' \<or> w = ''dumpfile'') \<and> a")
    case True
    then show ?thesis by auto
  next
    case False
    note ih = "2.IH" [OF False]
    show ?thesis
      unfolding sublist_pair select_words.simps if_not_P [OF False] ih using False
      by (simp only: list.sel list.distinct insert_iff empty_iff simp_thms) blast
  qed
qed (simp add: sublist_code)

text \<open>The word of a statement that begins with WITH that decides: the first top-level verb.\<close>

definition is_verb :: "string \<times> i32 \<Rightarrow> bool" where
  "is_verb wd \<longleftrightarrow>
    snd wd = 0 \<and> fst wd \<in> {''select'', ''insert'', ''update'', ''delete'', ''replace''}"

definition writes_file :: "string list \<Rightarrow> bool" where
  "writes_file ws \<longleftrightarrow> sublist [''into'', ''outfile''] ws \<or> sublist [''into'', ''dumpfile''] ws"

lemma with_words_iff:
  "with_words ws = Read \<longleftrightarrow>
    (\<exists>d rest. dropWhile (\<lambda>x. \<not> is_verb x) ws = (''select'', d) # rest \<and> \<not> writes_file (map fst rest))"
proof (induction ws rule: with_words.induct)
  case (2 w d ws)
  then show ?case
    by (auto simp: is_verb_def select_words_iff writes_file_def)
qed simp

text \<open>The read-only statements, by their words: the specification of the gate.\<close>

definition reads_only :: "(string \<times> i32) list \<Rightarrow> bool" where
  "reads_only ws \<longleftrightarrow>
    (case ws of
       [] \<Rightarrow> False
     | (w, d) # rest \<Rightarrow>
        w \<in> {''show'', ''use'', ''help''} \<or>
        (w = ''select'' \<and> \<not> writes_file (map fst rest)) \<or>
        (w \<in> {''explain'', ''describe'', ''desc''} \<and>
          (rest = [] \<or> fst (hd rest) \<noteq> ''analyze'' \<or> analyze_words (tl rest) = Read)) \<or>
        (w = ''set'' \<and> (rest = [] \<or> fst (hd rest) \<notin> server_set_words)) \<or>
        (w = ''with'' \<and>
          (\<exists>d' rest'. dropWhile (\<lambda>x. \<not> is_verb x) rest = (''select'', d') # rest' \<and>
            \<not> writes_file (map fst rest'))))"

lemma classify_words_iff: "classify_words ws = Read \<longleftrightarrow> reads_only ws"
proof (cases ws)
  case (Cons x rest)
  obtain w d where x: "x = (w, d)" by fastforce
  show ?thesis
    unfolding Cons x reads_only_def list.case prod.case classify_words.simps with_words_iff [symmetric]
    by (auto simp: select_words_iff writes_file_def)
qed (simp add: reads_only_def)


text \<open>\<open>SET\<close> with more than one assignment: the gate looks at the first word only, so a
  statement that sets a global variable after a session one is executed without
  \<open>--allow-writes\<close>, while the same assignments in the other order are refused.\<close>
theorem set_global_after_session:
  "should_execute ''SET SESSION a = 1, GLOBAL b = 2'' False \<and>
   \<not> should_execute ''SET GLOBAL b = 2, SESSION a = 1'' False"
  by code_simp

section \<open>The gate on tokens\<close>

text \<open>A word ends at its boundary.\<close>

definition word_boundary :: "token \<Rightarrow> string \<Rightarrow> bool" where
  "word_boundary t rest \<longleftrightarrow>
    (case t of Word_tok w \<Rightarrow> rest = [] \<or> \<not> is_ident_byte (hd rest) | _ \<Rightarrow> True)"

lemma follows_word_boundary:
  assumes "follows_ok t u" and "token_ok u"
  shows "word_boundary t (token_text u @ rest)"
proof (cases t)
  case (Word_tok w)
  then have "is_sep u" using assms(1) by simp
  then obtain c cs where "token_text u = c # cs" "\<not> is_ident_byte c"
  proof (cases u)
    case (Gap_tok g)
    then show ?thesis using assms(2) whitespace_plain that by (cases g) auto
  qed (use assms(2) plain_symbol_class quote_plain that in auto)
  then show ?thesis using Word_tok by (simp add: word_boundary_def)
qed (simp_all add: word_boundary_def)

lemma tokens_ok_ConsD:
  assumes "tokens_ok (t # ts)"
  shows "token_ok t" and "tokens_ok ts" and "boundary t (render ts)"
    and "word_boundary t (render ts)"
proof -
  show "token_ok t" "tokens_ok ts" using assms by (cases ts; simp)+
  show "boundary t (render ts)"
  proof (cases ts)
    case (Cons u us)
    with assms have "token_ok u" by (cases us) auto
    with Cons assms follows_boundary [of t u "render us"] show ?thesis by (simp add: render_def)
  qed (simp add: render_def)
  show "word_boundary t (render ts)"
  proof (cases ts)
    case (Cons u us)
    with assms have "token_ok u" by (cases us) auto
    with Cons assms follows_word_boundary [of t u "render us"] show ?thesis
      by (simp add: render_def)
  qed (simp add: render_def word_boundary_def split: token.splits)
qed

text \<open>Tokens of the gate: a word starts with a letter or an underscore, and a comment is not a
  version comment (whose interior is code).\<close>

fun gate_token_ok :: "token \<Rightarrow> bool" where
  "gate_token_ok (Word_tok w) \<longleftrightarrow> starts_word (hd w)"
| "gate_token_ok (Comment_tok b) \<longleftrightarrow> \<not> prefix ''!'' b"
| "gate_token_ok t = True"

fun token_words :: "i32 \<Rightarrow> token list \<Rightarrow> (string \<times> i32) list" where
  "token_words d [] = []"
| "token_words d (Word_tok w # ts) = (lower w, d) # token_words d ts"
| "token_words d (Sym_tok c # ts) =
    token_words (if c = CHR ''('' then d + 1 else if c = CHR '')'' then d - 1 else d) ts"
| "token_words d (t # ts) = token_words d ts"

fun token_trailing :: "bool \<Rightarrow> token list \<Rightarrow> bool" where
  "token_trailing after [] = False"
| "token_trailing after (Gap_tok w # ts) = token_trailing after ts"
| "token_trailing after (Comment_tok b # ts) = token_trailing after ts"
| "token_trailing after (t # ts) =
    (if t = Sym_tok (CHR '';'') then token_trailing True ts else after \<or> token_trailing after ts)"

definition classify_tokens :: "token list \<Rightarrow> query_class" where
  "classify_tokens ts =
    (if token_trailing False ts then Write else classify_words (token_words 0 ts))"

lemma skip_quoted_string [scan_simps]: "q \<noteq> BTICK \<Longrightarrow> skip_quoted_body q s = skip_string_body q s"
  by (induction q s rule: skip_quoted_body.induct) auto

text \<open>A byte that the word scanner only steps over.\<close>

definition inert :: "char \<Rightarrow> bool" where
  "inert c \<longleftrightarrow> c \<noteq> CHR ''('' \<and> c \<noteq> CHR '')'' \<and> \<not> is_quote c \<and> c \<noteq> CHR ''#'' \<and> \<not> starts_word c"

lemma next_word_inert:
  assumes "inert c" and "\<not> starts_comment (c # cs)" and "\<not> dash_comment (c # cs)"
  shows "next_word (sc\<lparr>scan_rest := c # cs\<rparr>) = next_word (sc\<lparr>scan_rest := cs\<rparr>)"
  using assms by (simp add: next_word.simps [of "sc\<lparr>scan_rest := c # cs\<rparr>"] inert_def)

lemma words_step:
  "next_word sc = next_word sc' \<Longrightarrow> words sc = words sc'"
  by (simp add: words.simps [of sc] words.simps [of sc'])

lemma words_inert_run:
  assumes "\<forall>c \<in> set w. inert c \<and> c \<noteq> CHR ''/'' \<and> c \<noteq> CHR ''-''"
  shows "words (sc\<lparr>scan_rest := w @ rest\<rparr>) = words (sc\<lparr>scan_rest := rest\<rparr>)"
  using assms
proof (induction w)
  case (Cons c w)
  have "\<not> starts_comment (c # w @ rest)" "\<not> dash_comment (c # w @ rest)"
    using Cons.prems starts_comment_hd dash_comment_hd by auto
  then have "words (sc\<lparr>scan_rest := c # w @ rest\<rparr>) = words (sc\<lparr>scan_rest := w @ rest\<rparr>)"
    using Cons.prems by (intro words_step next_word_inert) auto
  also have "\<dots> = words (sc\<lparr>scan_rest := rest\<rparr>)" using Cons.IH Cons.prems by simp
  finally show ?case by simp
qed simp

lemma digit_inert: "is_ascii_digit c \<Longrightarrow> inert c \<and> c \<noteq> CHR ''/'' \<and> c \<noteq> CHR ''-''"
  by (auto simp: inert_def is_quote_def starts_word_def ascii_class_defs byte_def)

lemma space_inert: "is_ascii_whitespace c \<Longrightarrow> inert c \<and> c \<noteq> CHR ''/'' \<and> c \<noteq> CHR ''-''"
  by (auto simp: inert_def is_quote_def starts_word_def ascii_class_defs byte_def)

lemma symbol_inert:
  "plain_symbol c \<Longrightarrow> c \<noteq> CHR ''('' \<Longrightarrow> c \<noteq> CHR '')'' \<Longrightarrow> inert c"
  using plain_symbol_class [of c]
  by (auto simp: inert_def is_quote_def is_ident_byte_def dest: starts_word_ident)

lemma sym_no_comment:
  assumes "boundary (Sym_tok c) rest"
  shows "\<not> starts_comment (c # rest)" and "\<not> dash_comment (c # rest)"
  using assms by (cases rest; auto)+

lemma words_word:
  assumes "token_ok (Word_tok w)" and "starts_word (hd w)" and "word_boundary (Word_tok w) rest"
  shows "words (sc\<lparr>scan_rest := w @ rest\<rparr>) = (lower w, scan_depth sc) #
    words (sc\<lparr>scan_rest := rest, scan_word_depth := scan_depth sc\<rparr>)"
proof -
  obtain c cs where w: "w = c # cs" using assms(1) by (cases w) auto
  have c: "starts_word c" "\<forall>d \<in> set w. is_ident_byte d" using assms w by auto
  then have p: "is_ident_byte c" "c \<noteq> CHR ''('' \<and> c \<noteq> CHR '')''"
    using w by (auto simp: starts_word_def ascii_class_defs byte_def)
  note p = p ident_byte_plain [OF p(1)]
  have i: "\<not> starts_comment (c # cs @ rest)" "\<not> dash_comment (c # cs @ rest)" "\<not> is_quote c"
    using p starts_comment_hd dash_comment_hd by (auto simp: is_quote_def)
  have "takeWhile is_ident_byte (c # cs @ rest) = w" "dropWhile is_ident_byte (c # cs @ rest) = rest"
    using takeWhile_append_stop [OF c(2), of rest] dropWhile_append_stop [OF c(2), of rest] assms(3) w
    by (auto simp: word_boundary_def)
  then have "next_word (sc\<lparr>scan_rest := c # cs @ rest\<rparr>) =
      (Some (lower w), sc\<lparr>scan_rest := rest, scan_word_depth := scan_depth sc\<rparr>)"
    using i c(1) p by (simp add: next_word.simps [of "sc\<lparr>scan_rest := c # cs @ rest\<rparr>"]
        del: takeWhile.simps dropWhile.simps)
  then show ?thesis
    by (simp add: words.simps [of "sc\<lparr>scan_rest := c # cs @ rest\<rparr>"] w last_word_depth_def)
qed

lemma words_symbol:
  assumes "plain_symbol c" and "boundary (Sym_tok c) rest"
  shows "words (sc\<lparr>scan_rest := c # rest\<rparr>) = words (sc\<lparr>scan_rest := rest, scan_depth :=
    (if c = CHR ''('' then scan_depth sc + 1 else if c = CHR '')'' then scan_depth sc - 1
     else scan_depth sc)\<rparr>)"
proof -
  consider "c = CHR ''(''" | "c = CHR '')''" | "c \<noteq> CHR ''(''" "c \<noteq> CHR '')''" by blast
  then show ?thesis
  proof cases
    case 1
    show ?thesis unfolding 1
      by (intro words_step) (simp add: next_word.simps [of "sc\<lparr>scan_rest := CHR ''('' # rest\<rparr>"])
  next
    case 2
    show ?thesis unfolding 2
      by (intro words_step) (simp add: next_word.simps [of "sc\<lparr>scan_rest := CHR '')'' # rest\<rparr>"])
  next
    case 3
    have "words (sc\<lparr>scan_rest := c # rest\<rparr>) = words (sc\<lparr>scan_rest := rest\<rparr>)"
      by (intro words_step next_word_inert symbol_inert assms 3 sym_no_comment)
    with 3 show ?thesis by simp
  qed
qed

lemma words_string:
  assumes "token_ok (Str_tok q b)" and "boundary (Str_tok q b) rest"
  shows "words (sc\<lparr>scan_rest := q # b @ q # rest\<rparr>) = words (sc\<lparr>scan_rest := rest\<rparr>)"
proof -
  have q: "q = SQUOTE \<or> q = DQUOTE" "q \<noteq> BTICK" "q \<noteq> BSLASH" "is_quote q"
      "q \<noteq> CHR ''(''" "q \<noteq> CHR '')''"
    using assms(1) by (auto simp: is_quote_def)
  have "skip_quoted_body q (b @ q # rest) = rest"
    unfolding skip_quoted_string [OF q(2)] using assms q
    by (intro skip_body_ok) (auto elim: boundary.elims)
  then show ?thesis using q
    by (intro words_step) (simp add: next_word.simps [of "sc\<lparr>scan_rest := q # b @ q # rest\<rparr>"])
qed

lemma skip_block_comment:
  assumes "comment_body_ok (b @ ''*'')" and "\<not> prefix ''!'' b"
  shows "skip_block (b @ ''*/'' @ rest) = rest"
proof -
  have "hd (b @ ''*/'' @ rest) \<noteq> CHR ''!''" using assms(2) by (cases b) auto
  then show ?thesis using skip_comment_ok [OF assms(1)] by (simp add: skip_block_def)
qed

lemma words_comment:
  assumes "comment_body_ok (b @ ''*'')" and "\<not> prefix ''!'' b"
  shows "words (sc\<lparr>scan_rest := ''/*'' @ b @ ''*/'' @ rest\<rparr>) = words (sc\<lparr>scan_rest := rest\<rparr>)"
  using skip_block_comment [OF assms, of rest]
  by (intro words_step)
    (simp add: next_word.simps [of "sc\<lparr>scan_rest := CHR ''/'' # _\<rparr>"] is_quote_def)

lemma words_tokens:
  assumes "tokens_ok ts" and "list_all gate_token_ok ts"
  shows "words (sc\<lparr>scan_rest := render ts\<rparr>) = token_words (scan_depth sc) ts"
  using assms
proof (induction ts arbitrary: sc)
  case Nil
  then show ?case by (simp add: render_def words.simps next_word.simps)
next
  case (Cons t ts)
  note ok = tokens_ok_ConsD [OF Cons.prems(1)]
  note ih = Cons.IH [OF ok(2)]
  have r: "render (t # ts) = token_text t @ render ts" by (simp add: render_def)
  have g: "gate_token_ok t" "list_all gate_token_ok ts" using Cons.prems(2) by auto
  note ih = ih [OF g(2)]
  show ?case
  proof (cases t)
    case (Word_tok w)
    have e: "sc\<lparr>scan_word_depth := d, scan_rest := x\<rparr> = sc\<lparr>scan_rest := x, scan_word_depth := d\<rparr>"
      for d x by (cases sc) simp
    show ?thesis using ok g Word_tok r words_word [of w "render ts" sc]
        ih [of "sc\<lparr>scan_word_depth := scan_depth sc\<rparr>", unfolded e]
      by simp
  next
    case (Sym_tok c)
    have e: "sc\<lparr>scan_depth := d, scan_rest := x\<rparr> = sc\<lparr>scan_rest := x, scan_depth := d\<rparr>"
      for d x by (cases sc) simp
    have "words (sc\<lparr>scan_rest := render ts, scan_depth := d\<rparr>) = token_words d ts" for d
      using ih [of "sc\<lparr>scan_depth := d\<rparr>", unfolded e] by simp
    then show ?thesis using ok Sym_tok r words_symbol [of c "render ts" sc] by simp
  next
    case (Str_tok q b)
    show ?thesis using ok ih Str_tok r words_string [of q b "render ts" sc] by simp
  next
    case (Num_tok ds)
    show ?thesis using ok ih Num_tok r words_inert_run [of ds "render ts" sc] digit_inert by simp
  next
    case (Gap_tok w)
    show ?thesis using ok ih Gap_tok r words_inert_run [of w "render ts" sc] space_inert by simp
  next
    case (Comment_tok b)
    show ?thesis using ok g ih Comment_tok r words_comment [of b "render ts" sc] by simp
  qed
qed

text \<open>The same for the search of a second statement.\<close>

lemma trailing_step_other:
  assumes "\<not> starts_comment (c # cs)" and "\<not> dash_comment (c # cs)" and "c \<noteq> CHR ''#''"
    and "\<not> is_ascii_whitespace c" and "c \<noteq> CHR '';''" and "\<not> is_quote c"
  shows "trailing_scan a (c # cs) \<longleftrightarrow> a \<or> trailing_scan a cs"
  using assms by simp

lemma trailing_run:
  assumes "\<forall>c \<in> set w. is_ident_byte c"
  shows "w \<noteq> [] \<Longrightarrow> trailing_scan a (w @ rest) \<longleftrightarrow> a \<or> trailing_scan a rest"
  using assms
proof (induction w)
  case (Cons c w)
  have i: "is_ident_byte c" using Cons.prems by simp
  note p = ident_byte_plain [OF i]
  have "\<not> starts_comment (c # w @ rest)" "\<not> dash_comment (c # w @ rest)"
    using p starts_comment_hd dash_comment_hd by blast+
  moreover have "\<not> is_quote c" using p by (simp add: is_quote_def)
  moreover have "c \<noteq> CHR '';''"
    using i by (auto simp: is_ident_byte_def ascii_class_defs byte_def)
  ultimately have "trailing_scan a (c # w @ rest) \<longleftrightarrow> a \<or> trailing_scan a (w @ rest)"
    using p by (intro trailing_step_other) auto
  then show ?case using Cons.IH Cons.prems
    by (cases "w = []") (simp_all del: trailing_scan.simps)
qed simp

lemma trailing_spaces:
  "\<forall>c \<in> set w. is_ascii_whitespace c \<Longrightarrow> trailing_scan a (w @ rest) = trailing_scan a rest"
proof (induction w)
  case (Cons c w)
  have "c \<noteq> CHR ''/''" "c \<noteq> CHR ''-''" "c \<noteq> CHR ''#''"
    using Cons.prems by (auto simp: is_ascii_whitespace_def byte_def)
  then have "\<not> starts_comment (c # w @ rest)" "\<not> dash_comment (c # w @ rest)"
    using starts_comment_hd dash_comment_hd by blast+
  with Cons \<open>c \<noteq> CHR ''#''\<close> show ?case by simp
qed simp

lemma trailing_symbol:
  assumes "plain_symbol c" and "boundary (Sym_tok c) rest"
  shows "trailing_scan a (c # rest) \<longleftrightarrow>
    (if c = CHR '';'' then trailing_scan True rest else a \<or> trailing_scan a rest)"
  using sym_no_comment [OF assms(2)] plain_symbol_class [OF assms(1)] by (auto simp: is_quote_def)

lemma trailing_string:
  assumes "token_ok (Str_tok q b)" and "boundary (Str_tok q b) rest"
  shows "trailing_scan a (q # b @ q # rest) \<longleftrightarrow> a \<or> trailing_scan a rest"
proof -
  have q: "q = SQUOTE \<or> q = DQUOTE" "q \<noteq> BTICK" "q \<noteq> BSLASH" "is_quote q" "q \<noteq> CHR ''#''"
      "q \<noteq> CHR ''/''" "q \<noteq> CHR ''-''" "q \<noteq> CHR '';''" "\<not> is_ascii_whitespace q"
    using assms(1) by (auto simp: is_quote_def is_ascii_whitespace_def byte_def)
  have s: "skip_quoted_body q (b @ q # rest) = rest"
    unfolding skip_quoted_string [OF q(2)] using assms q
    by (intro skip_body_ok) (auto elim: boundary.elims)
  have n: "\<not> starts_comment (q # b @ q # rest)" "\<not> dash_comment (q # b @ q # rest)"
    using q starts_comment_hd dash_comment_hd by blast+
  show ?thesis using s n q by simp
qed

lemma trailing_comment:
  assumes "comment_body_ok (b @ ''*'')" and "\<not> prefix ''!'' b"
  shows "trailing_scan a (''/*'' @ b @ ''*/'' @ rest) = trailing_scan a rest"
  using skip_block_comment [OF assms, of rest] by simp

lemma trailing_tokens:
  assumes "tokens_ok ts" and "list_all gate_token_ok ts"
  shows "trailing_scan a (render ts) = token_trailing a ts"
  using assms
proof (induction ts arbitrary: a)
  case Nil
  then show ?case by (simp add: render_def)
next
  case (Cons t ts)
  note ok = tokens_ok_ConsD [OF Cons.prems(1)]
  have r: "render (t # ts) = token_text t @ render ts" by (simp add: render_def)
  have g: "gate_token_ok t" "list_all gate_token_ok ts" using Cons.prems(2) by auto
  note ih = Cons.IH [OF ok(2) g(2)]
  show ?case
  proof (cases t)
    case (Word_tok w)
    then show ?thesis using ok ih r trailing_run [of w a "render ts"] by simp
  next
    case (Sym_tok c)
    then show ?thesis using ok ih r trailing_symbol [of c "render ts" a]
      by (simp del: trailing_scan.simps)
  next
    case (Str_tok q b)
    then show ?thesis using ok ih r trailing_string [of q b "render ts" a]
      by (simp del: trailing_scan.simps)
  next
    case (Num_tok ds)
    then show ?thesis using ok ih r trailing_run [of ds a "render ts"] digit_plain by simp
  next
    case (Gap_tok w)
    then show ?thesis using ok ih r trailing_spaces [of w a "render ts"] by simp
  next
    case (Comment_tok b)
    then show ?thesis using ok g ih r trailing_comment [of b a "render ts"]
      by (simp del: trailing_scan.simps)
  qed
qed

text \<open>C35: On the text of any well-formed token list the gate decides as the token specification:
  no second statement after a semicolon, and a read by its words outside literals and comments,
  parentheses counted.\<close>
theorem classify_refines_tokens:
  assumes "tokens_ok ts" and "list_all gate_token_ok ts"
  shows "classify (render ts) = classify_tokens ts"
  using trailing_tokens [OF assms, of False]
    words_tokens [OF assms, of "new_scanner []"]
  by (simp add: classify_by_words has_trailing_statement_def classify_tokens_def new_scanner_def)

theorem classify_refines_tokens_witness:
  "classify (render [Word_tok ''SELECT'', Gap_tok '' '', Str_tok SQUOTE ''; DROP TABLE t'', Sym_tok (CHR '';'')])
    = classify_tokens
        [Word_tok ''SELECT'', Gap_tok '' '', Str_tok SQUOTE ''; DROP TABLE t'', Sym_tok (CHR '';'')]"
  by (rule classify_refines_tokens) code_simp+

lemma token_words_erase: "token_words d (map erase_token ts) = token_words d ts"
  by (induction d ts rule: token_words.induct) auto

lemma token_trailing_erase: "token_trailing a (map erase_token ts) = token_trailing a ts"
  by (induction a ts rule: token_trailing.induct) auto



end
