(* ===== verification/Wire.thy ===== *)
theory Wire
  imports Rust_Text
begin

text \<open>
  The framing layer of \<open>mysqlproto.rs\<close>: \<open>PacketAssembler\<close> cuts one direction's byte stream into
  logical packets, and \<open>Reader\<close> reads the length-encoded primitives of a payload. Bytes are
  8-bit words, timestamps (i64 microseconds) are integers, stream offsets (u64) are naturals:
  they count bytes that have been delivered.
\<close>

section \<open>Packet assembly\<close>

definition MAX_LOGICAL_PACKET :: nat where
  "MAX_LOGICAL_PACKET = 64 * 1024 * 1024"

definition FULL :: nat where
  "FULL = 0xFFFFFF"

record packet =
  first_seq :: u8
  last_seq :: u8
  pkt_ts :: int
  payload :: bytes

record assembler =
  asm_buf :: bytes
  asm_marks :: "(nat \<times> int) list"
  asm_consumed :: nat
  asm_partial :: "(u8 \<times> int \<times> bytes) option"
  asm_broken :: bool

definition new_assembler :: assembler where
  "new_assembler =
    \<lparr>asm_buf = [], asm_marks = [], asm_consumed = 0, asm_partial = None, asm_broken = False\<rparr>"

text \<open>\<open>ts_for\<close>: the loop over the marks, with the timestamp found so far.\<close>

fun ts_from :: "int \<Rightarrow> (nat \<times> int) list \<Rightarrow> nat \<Rightarrow> int" where
  "ts_from ts [] offset = ts"
| "ts_from ts ((m, t) # ms) offset = (if m \<le> offset then ts_from t ms offset else ts)"

definition ts_for :: "(nat \<times> int) list \<Rightarrow> nat \<Rightarrow> int" where
  "ts_for marks offset = ts_from 0 marks offset"

text \<open>One turn of the loop of \<open>feed\<close>: a frame (sequence id, payload, offset of its first byte)
  meets the fragment in progress. \<open>None\<close> is the overrun that breaks the connection.\<close>

type_synonym fragment = "(u8 \<times> int \<times> bytes) option"

definition join_frame ::
  "(nat \<times> int) list \<Rightarrow> nat \<Rightarrow> fragment \<Rightarrow> u8 \<Rightarrow> bytes \<Rightarrow> (fragment \<times> packet list) option" where
  "join_frame marks offset partial seq body =
    (case partial of
       Some (first, ts, acc) \<Rightarrow>
         if MAX_LOGICAL_PACKET < length acc + length body then None
         else if length body = FULL then Some (Some (first, ts, acc @ body), [])
         else Some (None, [\<lparr>first_seq = first, last_seq = seq, pkt_ts = ts, payload = acc @ body\<rparr>])
     | None \<Rightarrow>
         let ts = ts_for marks offset in
         if length body = FULL then Some (Some (seq, ts, body), [])
         else Some (None, [\<lparr>first_seq = seq, last_seq = seq, pkt_ts = ts, payload = body\<rparr>]))"

text \<open>A complete frame at the front of the buffer: sequence id, payload, rest.\<close>

fun next_frame :: "bytes \<Rightarrow> (u8 \<times> bytes \<times> bytes) option" where
  "next_frame (a # b # c # seq # rest) =
    (let len = le_val [a, b, c] in
     if length rest < len then None else Some (seq, take len rest, drop len rest))"
| "next_frame _ = None"

lemma next_frame_length:
  "next_frame s = Some (seq, body, rest) \<Longrightarrow> length s = 4 + length body + length rest"
  by (induction s rule: next_frame.induct) (auto simp: Let_def split: if_splits)

text \<open>The loop of \<open>feed\<close> from stream offset \<open>off\<close> on the unread bytes. The result: the fragment
  in progress, the offset and bytes left, the packets, and whether an overrun ended the loop.\<close>

function feed_loop ::
  "(nat \<times> int) list \<Rightarrow> nat \<Rightarrow> fragment \<Rightarrow> bytes \<Rightarrow> fragment \<times> nat \<times> bytes \<times> packet list \<times> bool"
where
  "feed_loop marks off partial s =
    (case next_frame s of
       None \<Rightarrow> (partial, off, s, [], False)
     | Some (seq, body, rest) \<Rightarrow>
        (case join_frame marks off partial seq body of
           None \<Rightarrow> (None, off, s, [], True)
         | Some (partial', ps) \<Rightarrow>
            (case feed_loop marks (off + (4 + length body)) partial' rest of
               (p, n, r, out, br) \<Rightarrow> (p, n, r, ps @ out, br))))"
  by pat_completeness auto
termination
  by (relation "measure (\<lambda>(m, n, p, s). length s)") (auto dest: next_frame_length)

declare feed_loop.simps [simp del]

fun drop_marks :: "nat \<Rightarrow> (nat \<times> int) list \<Rightarrow> (nat \<times> int) list" where
  "drop_marks consumed (m1 # m2 # ms) =
    (if fst m2 \<le> consumed then drop_marks consumed (m2 # ms) else m1 # m2 # ms)"
| "drop_marks consumed ms = ms"

text \<open>\<open>feed\<close>: the assembler after the chunk and the packets it completes. After an overrun the
  code returns before it drains the buffer.\<close>

definition feed :: "assembler \<Rightarrow> int \<Rightarrow> bytes \<Rightarrow> assembler \<times> packet list" where
  "feed a ts data =
    (if asm_broken a \<or> data = [] then (a, [])
     else
       let marks = asm_marks a @ [(asm_consumed a + length (asm_buf a), ts)];
           buf = asm_buf a @ data
       in case feed_loop marks (asm_consumed a) (asm_partial a) buf of
            (partial, off, rest, out, br) \<Rightarrow>
              if br then
                (a\<lparr>asm_buf := buf, asm_marks := marks, asm_partial := partial, asm_broken := True\<rparr>, out)
              else
                (a\<lparr>asm_buf := rest, asm_marks := drop_marks off marks, asm_consumed := off,
                   asm_partial := partial, asm_broken := MAX_LOGICAL_PACKET < length rest\<rparr>, out))"

section \<open>The payload reader\<close>

text \<open>\<open>Reader\<close> as the unread bytes. After a read that fails (\<open>None\<close>) the code reads nothing more
  from the same payload, so the bytes left then are not kept.\<close>

type_synonym 'a reader = "bytes \<Rightarrow> ('a \<times> bytes) option"

definition rd_skip :: "nat \<Rightarrow> bytes \<Rightarrow> bytes" where
  "rd_skip n r = drop n r"

definition rd_take :: "nat \<Rightarrow> bytes reader" where
  "rd_take n r = (if length r < n then None else Some (take n r, drop n r))"

definition rd_u8 :: "u8 reader" where
  "rd_u8 r = (case rd_take 1 r of None \<Rightarrow> None | Some (s, r') \<Rightarrow> Some (hd s, r'))"

definition rd_cstring :: "bytes reader" where
  "rd_cstring r =
    (if 0 \<in> set r then Some (takeWhile (\<lambda>b. b \<noteq> 0) r, tl (dropWhile (\<lambda>b. b \<noteq> 0) r)) else None)"

definition rd_uint :: "nat \<Rightarrow> nat reader" where
  "rd_uint n r = (case rd_take n r of None \<Rightarrow> None | Some (s, r') \<Rightarrow> Some (le_val s, r'))"

definition lenenc_int :: "nat reader" where
  "lenenc_int r =
    (case rd_u8 r of
       None \<Rightarrow> None
     | Some (n, r') \<Rightarrow>
        if n \<le> 0xFA then Some (unat n, r')
        else if n = 0xFC then rd_uint 2 r'
        else if n = 0xFD then rd_uint 3 r'
        else if n = 0xFE then rd_uint 8 r'
        else None)"

definition lenenc_bytes :: "bytes reader" where
  "lenenc_bytes r = (case lenenc_int r of None \<Rightarrow> None | Some (n, r') \<Rightarrow> rd_take n r')"

end
