(* ===== verification/Wire_Props.thy ===== *)
theory Wire_Props
  imports Wire
begin

text \<open>
  The framing layer is independent of how TCP cut the stream: whatever the chunks, the packets
  are those of the whole stream, each with the timestamp of the chunk that brought its first
  byte; and what a MySQL peer frames is what the assembler delivers. The cap on the buffer
  cannot be exceeded by a partial frame.
\<close>

section \<open>The specification\<close>

text \<open>A connection's chunks (timestamp, bytes) and the time at which a stream byte arrived.\<close>

type_synonym chunk = "int \<times> bytes"

fun chunk_time :: "chunk list \<Rightarrow> nat \<Rightarrow> int" where
  "chunk_time [] off = 0"
| "chunk_time ((t, d) # cs) off = (if off < length d then t else chunk_time cs (off - length d))"

definition stream_of :: "chunk list \<Rightarrow> bytes" where
  "stream_of cs = concat (map snd cs)"

fun chunk_marks :: "nat \<Rightarrow> chunk list \<Rightarrow> (nat \<times> int) list" where
  "chunk_marks off [] = []"
| "chunk_marks off ((t, d) # cs) = (off, t) # chunk_marks (off + length d) cs"

fun feed_all :: "assembler \<Rightarrow> chunk list \<Rightarrow> assembler \<times> packet list" where
  "feed_all a [] = (a, [])"
| "feed_all a ((t, d) # cs) =
    (case feed a t d of (a1, out1) \<Rightarrow> case feed_all a1 cs of (a2, out2) \<Rightarrow> (a2, out1 @ out2))"

text \<open>What a peer puts on the wire: frames of at most \<open>0xFFFFFF\<close> bytes, the last one shorter.\<close>

definition frame :: "u8 \<Rightarrow> bytes \<Rightarrow> bytes" where
  "frame seq body = le_bytes 3 (length body) @ [seq] @ body"

function encode :: "u8 \<Rightarrow> bytes \<Rightarrow> bytes" where
  "encode seq p =
    (if length p < FULL then frame seq p
     else frame seq (take FULL p) @ encode (seq + 1) (drop FULL p))"
  by pat_completeness auto
termination by (relation "measure (length \<circ> snd)") (auto simp: FULL_def)

declare encode.simps [simp del]

function last_frame_seq :: "u8 \<Rightarrow> bytes \<Rightarrow> u8" where
  "last_frame_seq seq p =
    (if length p < FULL then seq else last_frame_seq (seq + 1) (drop FULL p))"
  by pat_completeness auto
termination by (relation "measure (length \<circ> snd)") (auto simp: FULL_def)

declare last_frame_seq.simps [simp del]

definition encode_all :: "(u8 \<times> bytes) list \<Rightarrow> bytes" where
  "encode_all ps = concat (map (\<lambda>(s, p). encode s p) ps)"

fun sent_packets :: "(nat \<Rightarrow> int) \<Rightarrow> nat \<Rightarrow> (u8 \<times> bytes) list \<Rightarrow> packet list" where
  "sent_packets T off [] = []"
| "sent_packets T off ((s, p) # ps) =
    \<lparr>first_seq = s, last_seq = last_frame_seq s p, pkt_ts = T off, payload = p\<rparr> #
    sent_packets T (off + length (encode s p)) ps"

section \<open>Marks\<close>

lemma ts_from_append_later: "o1 < k \<Longrightarrow> ts_from ts (ms @ [(k, t)]) o1 = ts_from ts ms o1"
  by (induction ms arbitrary: ts) auto

lemma ts_from_append_now:
  "\<forall>m \<in> set ms. fst m \<le> o1 \<Longrightarrow> k \<le> o1 \<Longrightarrow> ts_from ts (ms @ [(k, t)]) o1 = t"
  by (induction ms arbitrary: ts) auto

lemma ts_from_drop_marks:
  "sorted (map fst ms) \<Longrightarrow> c \<le> o1 \<Longrightarrow> ts_from ts (drop_marks c ms) o1 = ts_from ts ms o1"
proof (induction c ms arbitrary: ts rule: drop_marks.induct)
  case (1 c m1 m2 ms)
  obtain a ta b tb where m: "m1 = (a, ta)" "m2 = (b, tb)" by fastforce
  show ?case
  proof (cases "b \<le> c")
    case True
    then have "ts_from ts (drop_marks c (m1 # m2 # ms)) o1 = ts_from ts (m2 # ms) o1"
      using 1 m by simp
    with True "1.prems" m show ?thesis by simp
  qed (simp add: m)
qed simp_all

lemma drop_marks_set: "set (drop_marks c ms) \<subseteq> set ms"
  by (induction c ms rule: drop_marks.induct) auto

lemma drop_marks_sorted: "sorted (map fst ms) \<Longrightarrow> sorted (map fst (drop_marks c ms))"
  by (induction c ms rule: drop_marks.induct) auto

lemma chunk_time_append:
  "chunk_time (cs @ [(t, d)]) o1 =
    (if o1 < length (stream_of cs) then chunk_time cs o1
     else if o1 < length (stream_of cs) + length d then t else 0)"
  by (induction cs arbitrary: o1) (auto simp: stream_of_def)

lemma ts_for_chunk_marks:
  "o1 < off + length (stream_of cs) \<Longrightarrow> off \<le> o1 \<Longrightarrow> \<forall>c \<in> set cs. snd c \<noteq> [] \<Longrightarrow>
    ts_from ts (chunk_marks off cs) o1 = chunk_time cs (o1 - off)"
proof (induction off cs arbitrary: ts rule: chunk_marks.induct)
  case (2 off t d cs)
  show ?case
  proof (cases "o1 < off + length d")
    case True
    have "ts_from t (chunk_marks (off + length d) cs) o1 = t"
      using True by (cases cs) auto
    with True 2 show ?thesis by auto
  next
    case False
    with 2 show ?thesis by (auto simp: stream_of_def)
  qed
qed (simp add: stream_of_def)

section \<open>The loop on a longer buffer\<close>

lemma next_frame_append:
  "next_frame s = Some (seq, body, rest) \<Longrightarrow> next_frame (s @ t) = Some (seq, body, rest @ t)"
  by (induction s rule: next_frame.induct) (auto simp: Let_def split: if_splits)

lemma next_frame_body: "next_frame s = Some (seq, body, rest) \<Longrightarrow> length body < 2 ^ 24"
proof (induction s rule: next_frame.induct)
  case (1 a b c q r)
  have "le_val [a, b, c] < 256 ^ length [a, b, c]" by (rule le_val_bound)
  with 1 show ?case by (auto simp: Let_def split: if_splits)
qed simp_all

lemma next_frame_None: "next_frame s = None \<Longrightarrow> length s < 2 ^ 24 + 4"
proof (induction s rule: next_frame.induct)
  case (1 a b c q r)
  have "le_val [a, b, c] < 256 ^ length [a, b, c]" by (rule le_val_bound)
  with 1 show ?case by (auto simp: Let_def split: if_splits)
qed simp_all

lemma feed_loop_append:
  "feed_loop m off p s = (p1, n1, r1, out1, False) \<Longrightarrow>
    feed_loop m off p (s @ t) =
      (case feed_loop m n1 p1 (r1 @ t) of (p2, n2, r2, out2, br) \<Rightarrow> (p2, n2, r2, out1 @ out2, br))"
proof (induction m off p s arbitrary: out1 rule: feed_loop.induct)
  case (1 m off p s)
  show ?case
  proof (cases "next_frame s")
    case None
    with "1.prems" show ?thesis by (auto simp: feed_loop.simps [of m off p s] split: prod.splits)
  next
    case (Some x)
    then obtain seq body rest where f: "next_frame s = Some (seq, body, rest)" by (cases x) auto
    obtain p' ps where j: "join_frame m off p seq body = Some (p', ps)"
      using "1.prems" f by (auto simp: feed_loop.simps [of m off p s] split: option.splits)
    obtain q n r o' br where l: "feed_loop m (off + (4 + length body)) p' rest = (q, n, r, o', br)"
      by (metis prod_cases5)
    then have e: "q = p1" "n = n1" "r = r1" "br = False" "out1 = ps @ o'"
      using "1.prems" f j by (auto simp: feed_loop.simps [of m off p s])
    have "feed_loop m (off + (4 + length body)) p' (rest @ t) =
        (case feed_loop m n1 p1 (r1 @ t) of (p2, n2, r2, out2, br) \<Rightarrow> (p2, n2, r2, o' @ out2, br))"
      using "1.IH" [OF f refl refl j refl, of o'] l e by simp
    then show ?thesis
      by (simp add: feed_loop.simps [of m off p "s @ t"] next_frame_append [OF f] j e
          split: prod.splits)
  qed
qed

lemma feed_loop_broken_append:
  "feed_loop m off p s = (p1, n1, r1, out1, True) \<Longrightarrow>
    snd (snd (snd (snd (feed_loop m off p (s @ t)))))"
proof (induction m off p s arbitrary: out1 rule: feed_loop.induct)
  case (1 m off p s)
  obtain seq body rest where f: "next_frame s = Some (seq, body, rest)"
    using "1.prems" by (auto simp: feed_loop.simps [of m off p s] split: option.splits)
  show ?case
  proof (cases "join_frame m off p seq body")
    case None
    then show ?thesis
      by (simp add: feed_loop.simps [of m off p "s @ t"] next_frame_append [OF f])
  next
    case (Some x)
    then obtain p' ps where j: "join_frame m off p seq body = Some (p', ps)" by (cases x) auto
    obtain o' where "feed_loop m (off + (4 + length body)) p' rest = (p1, n1, r1, o', True)"
      using "1.prems" f j by (auto simp: feed_loop.simps [of m off p s] split: prod.splits)
    then have "snd (snd (snd (snd (feed_loop m (off + (4 + length body)) p' (rest @ t)))))"
      using "1.IH" [OF f refl refl j refl] by blast
    then show ?thesis
      by (cases "feed_loop m (off + (4 + length body)) p' (rest @ t)")
        (simp add: feed_loop.simps [of m off p "s @ t"] next_frame_append [OF f] j)
  qed
qed

lemma join_frame_cong:
  "ts_for m1 off = ts_for m2 off \<Longrightarrow> join_frame m1 off p seq body = join_frame m2 off p seq body"
  by (simp add: join_frame_def split: option.splits)

lemma feed_loop_cong:
  "(\<And>o1. off \<le> o1 \<Longrightarrow> o1 < off + length s \<Longrightarrow> ts_for m1 o1 = ts_for m2 o1) \<Longrightarrow>
    feed_loop m1 off p s = feed_loop m2 off p s"
proof (induction m1 off p s rule: feed_loop.induct)
  case (1 m1 off p s)
  show ?case
  proof (cases "next_frame s")
    case (Some x)
    then obtain seq body rest where f: "next_frame s = Some (seq, body, rest)" by (cases x) auto
    note len = next_frame_length [OF f]
    have j: "join_frame m1 off p seq body = join_frame m2 off p seq body"
      using "1.prems" [of off] len by (intro join_frame_cong) simp
    show ?thesis
    proof (cases "join_frame m1 off p seq body")
      case (Some y)
      then obtain p' ps where y: "join_frame m1 off p seq body = Some (p', ps)" by (cases y) auto
      have "feed_loop m1 (off + (4 + length body)) p' rest = feed_loop m2 (off + (4 + length body)) p' rest"
        using "1.IH" [OF f refl refl y refl] "1.prems" len by simp
      with f y j show ?thesis
        by (simp add: feed_loop.simps [of m1 off p s] feed_loop.simps [of m2 off p s])
    qed (simp add: feed_loop.simps [of m1 off p s] feed_loop.simps [of m2 off p s] f j [symmetric])
  qed (simp add: feed_loop.simps [of m1 off p s] feed_loop.simps [of m2 off p s])
qed

lemma feed_loop_left:
  "feed_loop m off p s = (p1, n1, r1, out, False) \<Longrightarrow>
    next_frame r1 = None \<and> n1 + length r1 = off + length s \<and> off \<le> n1"
proof (induction m off p s arbitrary: out rule: feed_loop.induct)
  case (1 m off p s)
  show ?case
  proof (cases "next_frame s")
    case None
    with "1.prems" show ?thesis by (simp add: feed_loop.simps [of m off p s])
  next
    case (Some x)
    then obtain seq body rest where f: "next_frame s = Some (seq, body, rest)" by (cases x) auto
    obtain p' ps where j: "join_frame m off p seq body = Some (p', ps)"
      using "1.prems" f by (auto simp: feed_loop.simps [of m off p s] split: option.splits)
    obtain o' where "feed_loop m (off + (4 + length body)) p' rest = (p1, n1, r1, o', False)"
      using "1.prems" f j by (auto simp: feed_loop.simps [of m off p s] split: prod.splits)
    from "1.IH" [OF f refl refl j refl this] next_frame_length [OF f] show ?thesis by simp
  qed
qed

section \<open>Feeding chunk by chunk\<close>

definition chunks_ok :: "chunk list \<Rightarrow> bool" where
  "chunks_ok cs \<longleftrightarrow> (\<forall>c \<in> set cs. snd c \<noteq> [])"

definition whole_loop :: "chunk list \<Rightarrow> fragment \<times> nat \<times> bytes \<times> packet list \<times> bool" where
  "whole_loop cs = feed_loop (chunk_marks 0 cs) 0 None (stream_of cs)"

lemma ts_for_chunks:
  "chunks_ok cs \<Longrightarrow> o1 < length (stream_of cs) \<Longrightarrow> ts_for (chunk_marks 0 cs) o1 = chunk_time cs o1"
  using ts_for_chunk_marks [of o1 0 cs 0] by (simp add: ts_for_def chunks_ok_def)

lemma stream_of_snoc [simp]: "stream_of (cs @ [(t, d)]) = stream_of cs @ d"
  by (simp add: stream_of_def)

lemma chunk_time_snoc_old:
  "o1 < length (stream_of cs) \<Longrightarrow> chunk_time (cs @ [c]) o1 = chunk_time cs o1"
  by (cases c) (simp add: chunk_time_append)

lemma whole_loop_snoc:
  assumes "chunks_ok (cs @ [(t, d)])" and "whole_loop cs = (p1, n1, r1, out1, False)"
  shows "whole_loop (cs @ [(t, d)]) =
    (case feed_loop (chunk_marks 0 (cs @ [(t, d)])) n1 p1 (r1 @ d) of
       (p2, n2, r2, out2, br) \<Rightarrow> (p2, n2, r2, out1 @ out2, br))"
proof -
  let ?M = "chunk_marks 0 (cs @ [(t, d)])"
  have ok: "chunks_ok cs" using assms(1) by (simp add: chunks_ok_def)
  have "feed_loop ?M 0 None (stream_of cs) = feed_loop (chunk_marks 0 cs) 0 None (stream_of cs)"
    by (rule feed_loop_cong)
      (simp add: ts_for_chunks [OF ok] ts_for_chunks [OF assms(1)] chunk_time_snoc_old)
  then have "feed_loop ?M 0 None (stream_of cs) = (p1, n1, r1, out1, False)"
    using assms(2) by (simp add: whole_loop_def)
  from feed_loop_append [OF this, of d] show ?thesis by (simp add: whole_loop_def)
qed

lemma whole_loop_prefix_ok:
  assumes "chunks_ok (cs @ [(t, d)])" and "whole_loop (cs @ [(t, d)]) = (p2, n2, r2, out2, False)"
  shows "\<exists>p1 n1 r1 out1. whole_loop cs = (p1, n1, r1, out1, False)"
proof (rule ccontr)
  let ?M = "chunk_marks 0 (cs @ [(t, d)])"
  assume a: "\<nexists>p1 n1 r1 out1. whole_loop cs = (p1, n1, r1, out1, False)"
  obtain p1 n1 r1 out1 br where w: "whole_loop cs = (p1, n1, r1, out1, br)" by (metis prod_cases5)
  with a have br by auto
  have ok: "chunks_ok cs" using assms(1) by (simp add: chunks_ok_def)
  have "feed_loop ?M 0 None (stream_of cs) = feed_loop (chunk_marks 0 cs) 0 None (stream_of cs)"
    by (rule feed_loop_cong)
      (simp add: ts_for_chunks [OF ok] ts_for_chunks [OF assms(1)] chunk_time_snoc_old)
  then have "feed_loop ?M 0 None (stream_of cs) = (p1, n1, r1, out1, True)"
    using w \<open>br\<close> by (simp add: whole_loop_def)
  from feed_loop_broken_append [OF this, of d] assms(2) show False by (simp add: whole_loop_def)
qed

text \<open>The state of the assembler after the chunks \<open>cs\<close>, given the packets it produced.\<close>

definition assembled :: "assembler \<Rightarrow> chunk list \<Rightarrow> packet list \<Rightarrow> bool" where
  "assembled a cs out \<longleftrightarrow>
    whole_loop cs = (asm_partial a, asm_consumed a, asm_buf a, out, False) \<and>
    \<not> asm_broken a \<and>
    sorted (map fst (asm_marks a)) \<and>
    (\<forall>m \<in> set (asm_marks a). fst m \<le> length (stream_of cs)) \<and>
    (\<forall>o1. asm_consumed a \<le> o1 \<longrightarrow> o1 < length (stream_of cs) \<longrightarrow>
      ts_for (asm_marks a) o1 = chunk_time cs o1)"

lemma assembled_new: "assembled new_assembler [] []"
  by (simp add: assembled_def new_assembler_def whole_loop_def stream_of_def feed_loop.simps)

lemma whole_loop_position:
  "whole_loop cs = (p1, n1, r1, out1, False) \<Longrightarrow> n1 + length r1 = length (stream_of cs)"
  using feed_loop_left [of "chunk_marks 0 cs" 0 None "stream_of cs" p1 n1 r1 out1]
  by (simp add: whole_loop_def)

lemma assembled_step:
  assumes "assembled a cs out" and "chunks_ok (cs @ [(t, d)])"
    and "whole_loop (cs @ [(t, d)]) = (p2, n2, r2, out2, False)"
  shows "\<exists>out1. snd (feed a t d) = out1 \<and> out2 = out @ out1 \<and>
    assembled (fst (feed a t d)) (cs @ [(t, d)]) out2"
proof -
  let ?n = "asm_consumed a" and ?b = "asm_buf a" and ?cs = "cs @ [(t, d)]"
  define marks where "marks = asm_marks a @ [(?n + length ?b, t)]"
  have w: "whole_loop cs = (asm_partial a, ?n, ?b, out, False)"
    and nb: "\<not> asm_broken a" and srt: "sorted (map fst (asm_marks a))"
    and le: "\<forall>m \<in> set (asm_marks a). fst m \<le> length (stream_of cs)"
    and ts: "\<And>o1. ?n \<le> o1 \<Longrightarrow> o1 < length (stream_of cs) \<Longrightarrow>
      ts_for (asm_marks a) o1 = chunk_time cs o1"
    using assms(1) by (auto simp: assembled_def)
  have pos: "?n + length ?b = length (stream_of cs)" using whole_loop_position [OF w] .
  have d: "d \<noteq> []" using assms(2) by (simp add: chunks_ok_def)
  have tm: "ts_for marks o1 = chunk_time ?cs o1" if "?n \<le> o1" "o1 < length (stream_of ?cs)" for o1
  proof (cases "o1 < length (stream_of cs)")
    case True
    then show ?thesis using ts [OF that(1) True] pos
      by (simp add: marks_def ts_for_def ts_from_append_later chunk_time_append)
  next
    case False
    then show ?thesis using le pos that
      by (auto simp: marks_def ts_for_def chunk_time_append intro!: ts_from_append_now)
  qed
  have "feed_loop (chunk_marks 0 ?cs) ?n (asm_partial a) (?b @ d) =
      feed_loop marks ?n (asm_partial a) (?b @ d)"
    by (rule feed_loop_cong) (use pos in \<open>simp add: tm ts_for_chunks [OF assms(2)]\<close>)
  then obtain out1 where l: "feed_loop marks ?n (asm_partial a) (?b @ d) = (p2, n2, r2, out1, False)"
    and o2: "out2 = out @ out1"
    using whole_loop_snoc [OF assms(2) w] assms(3) by (auto split: prod.splits)
  note left = feed_loop_left [OF l]
  have "length r2 < 2 ^ 24 + 4" using left next_frame_None by blast
  then have nb2: "\<not> MAX_LOGICAL_PACKET < length r2" by (simp add: MAX_LOGICAL_PACKET_def)
  have f: "feed a t d = (a\<lparr>asm_buf := r2, asm_marks := drop_marks n2 marks, asm_consumed := n2,
      asm_partial := p2, asm_broken := False\<rparr>, out1)"
    using nb d l nb2 by (simp add: feed_def marks_def Let_def)
  have srt2: "sorted (map fst marks)"
    using srt le pos by (auto simp: marks_def sorted_append)
  have le2: "\<forall>m \<in> set marks. fst m \<le> length (stream_of ?cs)"
    using le pos by (auto simp: marks_def)
  have "assembled (fst (feed a t d)) ?cs out2"
    unfolding assembled_def f fst_conv
  proof (intro conjI)
    show "sorted (map fst (asm_marks (a\<lparr>asm_buf := r2, asm_marks := drop_marks n2 marks,
        asm_consumed := n2, asm_partial := p2, asm_broken := False\<rparr>)))"
      using drop_marks_sorted [OF srt2] by simp
    show "\<forall>m \<in> set (asm_marks (a\<lparr>asm_buf := r2, asm_marks := drop_marks n2 marks,
        asm_consumed := n2, asm_partial := p2, asm_broken := False\<rparr>)). fst m \<le> length (stream_of ?cs)"
      using drop_marks_set [of n2 marks] le2 by auto
    show "\<forall>o1. asm_consumed (a\<lparr>asm_buf := r2, asm_marks := drop_marks n2 marks,
        asm_consumed := n2, asm_partial := p2, asm_broken := False\<rparr>) \<le> o1 \<longrightarrow>
        o1 < length (stream_of ?cs) \<longrightarrow>
        ts_for (asm_marks (a\<lparr>asm_buf := r2, asm_marks := drop_marks n2 marks,
        asm_consumed := n2, asm_partial := p2, asm_broken := False\<rparr>)) o1 = chunk_time ?cs o1"
      using left tm srt2 by (simp add: ts_for_def ts_from_drop_marks)
  qed (use assms(3) in simp_all)
  then show ?thesis using f o2 by simp
qed

lemma feed_all_snoc:
  "feed_all a (cs @ [(t, d)]) =
    (case feed_all a cs of (a1, out1) \<Rightarrow> case feed a1 t d of (a2, out2) \<Rightarrow> (a2, out1 @ out2))"
  by (induction a cs rule: feed_all.induct) (auto split: prod.splits)

lemma feed_all_assembled:
  "chunks_ok cs \<Longrightarrow> whole_loop cs = (p2, n2, r2, out2, False) \<Longrightarrow>
    snd (feed_all new_assembler cs) = out2 \<and>
    assembled (fst (feed_all new_assembler cs)) cs out2"
proof (induction cs arbitrary: p2 n2 r2 out2 rule: rev_induct)
  case Nil
  then have "out2 = []" by (simp add: whole_loop_def stream_of_def feed_loop.simps)
  then show ?case using assembled_new by simp
next
  case (snoc c cs)
  obtain t d where c: "c = (t, d)" by fastforce
  note pr = snoc.prems [unfolded c]
  obtain p1 n1 r1 out1 where w: "whole_loop cs = (p1, n1, r1, out1, False)"
    using whole_loop_prefix_ok [OF pr] by blast
  have "chunks_ok cs" using pr(1) by (simp add: chunks_ok_def)
  note ih = snoc.IH [OF this w]
  obtain a1 where a1: "feed_all new_assembler cs = (a1, out1)"
    using ih by (metis prod.collapse)
  with ih have "assembled a1 cs out1" by simp
  from assembled_step [OF this pr] a1 show ?case
    by (auto simp: c feed_all_snoc split: prod.splits)
qed

text \<open>C22: Chunking does not matter: whatever the sizes of the TCP chunks, feeding them one by one
  yields the packets that one pass over the whole stream yields, and leaves the same fragment
  and the same bytes.\<close>
theorem feed_chunking:
  assumes "chunks_ok cs" and "whole_loop cs = (partial, off, rest, out, False)"
  shows "snd (feed_all new_assembler cs) = out \<and>
    asm_buf (fst (feed_all new_assembler cs)) = rest \<and>
    asm_partial (fst (feed_all new_assembler cs)) = partial \<and>
    \<not> asm_broken (fst (feed_all new_assembler cs))"
  using feed_all_assembled [OF assms] assms(2) by (simp add: assembled_def)

theorem feed_chunking_witness:
  "snd (feed_all new_assembler [(5, [1, 0]), (6, [0, 0, 14, 2])]) =
    [\<lparr>first_seq = 0, last_seq = 0, pkt_ts = 5, payload = [14]\<rparr>]"
proof -
  have "whole_loop [(5, [1, 0]), (6, [0, 0, 14, 2])] =
      (None, 5, [2], [\<lparr>first_seq = 0, last_seq = 0, pkt_ts = 5, payload = [14]\<rparr>], False)"
    by (simp add: whole_loop_def stream_of_def feed_loop.simps join_frame_def FULL_def ts_for_def)
  from feed_chunking [OF _ this] show ?thesis by (simp add: chunks_ok_def)
qed

section \<open>What a peer frames\<close>

lemma next_frame_frame:
  assumes "length body < 2 ^ 24"
  shows "next_frame (frame seq body @ rest) = Some (seq, body, rest)"
proof -
  have e: "le_bytes 3 n = [word_of_nat n, word_of_nat (n div 256), word_of_nat (n div 256 div 256)]"
    for n by (simp add: numeral_3_eq_3)
  have "le_val (le_bytes 3 (length body)) = length body" using assms by simp
  then show ?thesis unfolding frame_def e by simp
qed

lemma length_frame [simp]: "length (frame seq body) = 4 + length body"
  by (simp add: frame_def)

lemma feed_loop_frame:
  assumes "length body < 2 ^ 24" and "join_frame m off p seq body = Some (p', ps)"
  shows "feed_loop m off p (frame seq body @ rest) =
    (case feed_loop m (off + (4 + length body)) p' rest of (q, n, r, out, br) \<Rightarrow> (q, n, r, ps @ out, br))"
  using next_frame_frame [OF assms(1)] assms(2) by (simp add: feed_loop.simps [of m off p])

lemma feed_loop_encode_more:
  "length acc + length p \<le> MAX_LOGICAL_PACKET \<Longrightarrow>
    feed_loop m off (Some (first, ts, acc)) (encode seq p @ rest) =
      (case feed_loop m (off + length (encode seq p)) None rest of (q, n, r, out, br) \<Rightarrow>
        (q, n, r, \<lparr>first_seq = first, last_seq = last_frame_seq seq p, pkt_ts = ts,
          payload = acc @ p\<rparr> # out, br))"
proof (induction seq p arbitrary: off acc rule: encode.induct)
  case (1 seq p)
  have F: "FULL < 2 ^ 24" by (simp add: FULL_def)
  show ?case
  proof (cases "length p < FULL")
    case True
    then have "join_frame m off (Some (first, ts, acc)) seq p = Some (None,
        [\<lparr>first_seq = first, last_seq = seq, pkt_ts = ts, payload = acc @ p\<rparr>])"
      using "1.prems" by (simp add: join_frame_def)
    from feed_loop_frame [OF _ this] True F show ?thesis
      by (simp add: encode.simps [of seq p] last_frame_seq.simps [of seq p] split: prod.splits)
  next
    case False
    let ?b = "take FULL p"
    have l: "length ?b = FULL" using False by simp
    then have "join_frame m off (Some (first, ts, acc)) seq ?b = Some (Some (first, ts, acc @ ?b), [])"
      using "1.prems" False by (simp add: join_frame_def)
    from feed_loop_frame [OF _ this, of "encode (seq + 1) (drop FULL p) @ rest"] l F
    have "feed_loop m off (Some (first, ts, acc)) (encode seq p @ rest) =
        feed_loop m (off + (4 + FULL)) (Some (first, ts, acc @ ?b)) (encode (seq + 1) (drop FULL p) @ rest)"
      using False by (simp add: encode.simps [of seq p] split: prod.splits)
    moreover have "length (acc @ ?b) + length (drop FULL p) \<le> MAX_LOGICAL_PACKET"
      using "1.prems" False by simp
    note "1.IH" [OF False this, of "off + (4 + FULL)"]
    moreover have "length (encode seq p) = 4 + FULL + length (encode (seq + 1) (drop FULL p))"
      using False l by (simp add: encode.simps [of seq p])
    ultimately show ?thesis using False
      by (simp add: last_frame_seq.simps [of seq p] add.assoc)
  qed
qed

lemma feed_loop_encode:
  assumes "length p \<le> MAX_LOGICAL_PACKET"
  shows "feed_loop m off None (encode seq p @ rest) =
      (case feed_loop m (off + length (encode seq p)) None rest of (q, n, r, out, br) \<Rightarrow>
        (q, n, r, \<lparr>first_seq = seq, last_seq = last_frame_seq seq p, pkt_ts = ts_for m off,
          payload = p\<rparr> # out, br))"
proof (cases "length p < FULL")
  case True
  have F: "FULL < 2 ^ 24" by (simp add: FULL_def)
  have "join_frame m off None seq p = Some (None,
      [\<lparr>first_seq = seq, last_seq = seq, pkt_ts = ts_for m off, payload = p\<rparr>])"
    using True by (simp add: join_frame_def)
  from feed_loop_frame [OF _ this] True F show ?thesis
    by (simp add: encode.simps [of seq p] last_frame_seq.simps [of seq p] split: prod.splits)
next
  case False
  let ?b = "take FULL p"
  have F: "FULL < 2 ^ 24" by (simp add: FULL_def)
  have l: "length ?b = FULL" using False by simp
  then have "join_frame m off None seq ?b = Some (Some (seq, ts_for m off, ?b), [])"
    by (simp add: join_frame_def)
  from feed_loop_frame [OF _ this, of "encode (seq + 1) (drop FULL p) @ rest"] l F
  have "feed_loop m off None (encode seq p @ rest) =
      feed_loop m (off + (4 + FULL)) (Some (seq, ts_for m off, ?b)) (encode (seq + 1) (drop FULL p) @ rest)"
    using False by (simp add: encode.simps [of seq p] split: prod.splits)
  moreover have "length ?b + length (drop FULL p) \<le> MAX_LOGICAL_PACKET"
    using assms False by simp
  note feed_loop_encode_more [OF this, of m "off + (4 + FULL)"]
  moreover have "length (encode seq p) = 4 + FULL + length (encode (seq + 1) (drop FULL p))"
    using False l by (simp add: encode.simps [of seq p])
  ultimately show ?thesis using False
    by (simp add: last_frame_seq.simps [of seq p] add.assoc)
qed

definition fits :: "(u8 \<times> bytes) list \<Rightarrow> bool" where
  "fits ps \<longleftrightarrow> (\<forall>x \<in> set ps. length (snd x) \<le> MAX_LOGICAL_PACKET)"

lemma feed_loop_encode_all:
  "fits ps \<Longrightarrow> feed_loop m off None (encode_all ps) =
    (None, off + length (encode_all ps), [], sent_packets (ts_for m) off ps, False)"
proof (induction ps arbitrary: off)
  case Nil
  then show ?case by (simp add: encode_all_def feed_loop.simps)
next
  case (Cons x ps)
  obtain s p where x: "x = (s, p)" by fastforce
  have "length p \<le> MAX_LOGICAL_PACKET" "fits ps" using Cons.prems x by (auto simp: fits_def)
  with Cons.IH feed_loop_encode [of p m off s "encode_all ps"] show ?case
    by (simp add: x encode_all_def add.assoc)
qed

lemma length_encode: "4 \<le> length (encode s p)"
  by (simp add: encode.simps [of s p])

lemma sent_packets_cong:
  "(\<And>o1. off \<le> o1 \<Longrightarrow> o1 < off + length (encode_all ps) \<Longrightarrow> T1 o1 = T2 o1) \<Longrightarrow>
    sent_packets T1 off ps = sent_packets T2 off ps"
proof (induction ps arbitrary: off)
  case (Cons x ps)
  obtain s p where x: "x = (s, p)" by fastforce
  have e: "length (encode_all (x # ps)) = length (encode s p) + length (encode_all ps)"
    by (simp add: x encode_all_def)
  have "off < off + length (encode_all (x # ps))" using length_encode [of s p] e by linarith
  then have "T1 off = T2 off" using Cons.prems by blast
  moreover have "sent_packets T1 (off + length (encode s p)) ps =
      sent_packets T2 (off + length (encode s p)) ps"
    using Cons.prems e by (intro Cons.IH) auto
  ultimately show ?case by (simp add: x)
qed simp

text \<open>What a peer frames is what the assembler delivers, in order and complete: for payloads
  of up to 64 MiB each, split into frames by the peer and into chunks by TCP in any way, the
  packets have the sent payloads and sequence ids and the arrival time of their first byte, and
  nothing is left over.\<close>
theorem assembler_roundtrip:
  assumes "fits ps" and "chunks_ok cs" and "stream_of cs = encode_all ps"
  shows "snd (feed_all new_assembler cs) = sent_packets (chunk_time cs) 0 ps \<and>
    asm_buf (fst (feed_all new_assembler cs)) = [] \<and>
    \<not> asm_broken (fst (feed_all new_assembler cs))"
proof -
  let ?M = "chunk_marks 0 cs"
  have "whole_loop cs = (None, 0 + length (encode_all ps), [], sent_packets (ts_for ?M) 0 ps, False)"
    unfolding whole_loop_def assms(3) by (rule feed_loop_encode_all [OF assms(1)])
  moreover have "sent_packets (ts_for ?M) 0 ps = sent_packets (chunk_time cs) 0 ps"
    by (rule sent_packets_cong) (simp add: ts_for_chunks [OF assms(2)] assms(3))
  ultimately show ?thesis
    using feed_all_assembled [OF assms(2)] by (fastforce simp: assembled_def)
qed

text \<open>A COM_PING (one byte) and a two-byte packet, in three chunks.\<close>

theorem assembler_roundtrip_witness:
  "snd (feed_all new_assembler [(5, [1, 0]), (6, [0, 0, 14, 2, 0, 0]), (9, [1, 7, 7])]) =
    sent_packets (chunk_time [(5, [1, 0]), (6, [0, 0, 14, 2, 0, 0]), (9, [1, 7, 7])]) 0
      [(0, [14]), (1, [7, 7])]"
proof -
  have "encode_all [(0, [14]), (1, [7, 7])] = [1, 0, 0, 0, 14, 2, 0, 0, 1, 7, 7]"
    by (simp add: encode_all_def encode.simps FULL_def frame_def numeral_3_eq_3)
  then show ?thesis
    using assembler_roundtrip [of "[(0, [14]), (1, [7, 7])]"
        "[(5, [1, 0]), (6, [0, 0, 14, 2, 0, 0]), (9, [1, 7, 7])]"]
    by (simp add: fits_def chunks_ok_def stream_of_def MAX_LOGICAL_PACKET_def)
qed

end
