(* ===== verification/Float64.thy ===== *)
theory Float64
  imports Complex_Main "HOL-Library.Log_Nat" Rust_Text
begin

text \<open>
  Rust's \<open>f64\<close>: binary64 numbers as exact rationals, with the negative zero, the infinities and
  NaN apart, and every operation rounded to nearest, ties to even, at 53 bits. Also the casts,
  the order \<open>total_cmp\<close> and the shortest decimal that \<open>to_string\<close> prints.
\<close>

section \<open>Rounding\<close>

definition pow2 :: "int \<Rightarrow> rat" where
  "pow2 e = power_int 2 e"

text \<open>The exponent of the leading bit of a positive rational.\<close>

definition ilog2 :: "rat \<Rightarrow> int" where
  "ilog2 q =
    (case quotient_of q of
       (n, d) \<Rightarrow>
         let k = int (floorlog 2 (nat n)) - int (floorlog 2 (nat d)) in
         if pow2 k \<le> q then k else k - 1)"

definition round_half_even :: "rat \<Rightarrow> int" where
  "round_half_even q =
    (let f = \<lfloor>q\<rfloor>; r = q - of_int f in
     if r < 1 / 2 then f else if 1 / 2 < r then f + 1 else if even f then f else f + 1)"

text \<open>A positive rational at \<open>p\<close> bits, the exponent not below \<open>emin\<close>.\<close>

definition round_bin :: "int \<Rightarrow> int \<Rightarrow> rat \<Rightarrow> rat" where
  "round_bin p emin q =
    (let u = pow2 (max (ilog2 q) emin - (p - 1)) in of_int (round_half_even (q / u)) * u)"

datatype f64 = Fin rat | Minus_Zero | Infinity bool | NaN

text \<open>The rounding of an exact result; \<open>neg\<close> is the sign a zero gets, \<open>Infinity True\<close> is minus
  infinity.\<close>

definition f64_round :: "bool \<Rightarrow> rat \<Rightarrow> f64" where
  "f64_round neg q =
    (let m = (if q = 0 then 0 else round_bin 53 (- 1022) \<bar>q\<bar>) in
     if m = 0 then (if neg then Minus_Zero else Fin 0)
     else if 2 ^ 1024 \<le> m then Infinity (q < 0)
     else Fin (if q < 0 then - m else m))"

definition f64_of_int :: "int \<Rightarrow> f64" where
  "f64_of_int n = f64_round False (of_int n)"

section \<open>Arithmetic\<close>

fun f64_val :: "f64 \<Rightarrow> rat" where
  "f64_val (Fin q) = q"
| "f64_val _ = 0"

fun f64_neg :: "f64 \<Rightarrow> bool" where
  "f64_neg (Fin q) \<longleftrightarrow> q < 0"
| "f64_neg Minus_Zero \<longleftrightarrow> True"
| "f64_neg (Infinity s) \<longleftrightarrow> s"
| "f64_neg NaN \<longleftrightarrow> False"

definition is_finite :: "f64 \<Rightarrow> bool" where
  "is_finite x \<longleftrightarrow> (case x of Infinity s \<Rightarrow> False | NaN \<Rightarrow> False | _ \<Rightarrow> True)"

definition is_zero :: "f64 \<Rightarrow> bool" where
  "is_zero x \<longleftrightarrow> is_finite x \<and> f64_val x = 0"

fun f64_uminus :: "f64 \<Rightarrow> f64" where
  "f64_uminus (Fin q) = (if q = 0 then Minus_Zero else Fin (- q))"
| "f64_uminus Minus_Zero = Fin 0"
| "f64_uminus (Infinity s) = Infinity (\<not> s)"
| "f64_uminus NaN = NaN"

definition f64_add :: "f64 \<Rightarrow> f64 \<Rightarrow> f64" where
  "f64_add x y =
    (case (x, y) of
       (NaN, _) \<Rightarrow> NaN
     | (_, NaN) \<Rightarrow> NaN
     | (Infinity s, Infinity t) \<Rightarrow> if s = t then Infinity s else NaN
     | (Infinity s, _) \<Rightarrow> Infinity s
     | (_, Infinity t) \<Rightarrow> Infinity t
     | _ \<Rightarrow> f64_round (x = Minus_Zero \<and> y = Minus_Zero) (f64_val x + f64_val y))"

definition f64_sub :: "f64 \<Rightarrow> f64 \<Rightarrow> f64" where
  "f64_sub x y = f64_add x (f64_uminus y)"

definition f64_mul :: "f64 \<Rightarrow> f64 \<Rightarrow> f64" where
  "f64_mul x y =
    (let s = (f64_neg x \<noteq> f64_neg y) in
     if x = NaN \<or> y = NaN then NaN
     else if \<not> is_finite x \<or> \<not> is_finite y then
       (if is_zero x \<or> is_zero y then NaN else Infinity s)
     else f64_round s (f64_val x * f64_val y))"

definition f64_div :: "f64 \<Rightarrow> f64 \<Rightarrow> f64" where
  "f64_div x y =
    (let s = (f64_neg x \<noteq> f64_neg y) in
     if x = NaN \<or> y = NaN then NaN
     else if \<not> is_finite x then (if \<not> is_finite y then NaN else Infinity s)
     else if \<not> is_finite y then f64_round s 0
     else if f64_val y = 0 then (if f64_val x = 0 then NaN else Infinity s)
     else f64_round s (f64_val x / f64_val y))"

definition f64_lt :: "f64 \<Rightarrow> f64 \<Rightarrow> bool" where
  "f64_lt x y =
    (case (x, y) of
       (NaN, _) \<Rightarrow> False
     | (_, NaN) \<Rightarrow> False
     | (Infinity s, Infinity t) \<Rightarrow> s \<and> \<not> t
     | (Infinity s, _) \<Rightarrow> s
     | (_, Infinity t) \<Rightarrow> \<not> t
     | _ \<Rightarrow> f64_val x < f64_val y)"

definition f64_le :: "f64 \<Rightarrow> f64 \<Rightarrow> bool" where
  "f64_le x y \<longleftrightarrow> x \<noteq> NaN \<and> y \<noteq> NaN \<and> \<not> f64_lt y x"

text \<open>\<open>f64::max\<close> and \<open>f64::min\<close> ignore a NaN.\<close>

definition f64_max :: "f64 \<Rightarrow> f64 \<Rightarrow> f64" where
  "f64_max x y = (if x = NaN then y else if y = NaN then x else if f64_lt x y then y else x)"

definition f64_min :: "f64 \<Rightarrow> f64 \<Rightarrow> f64" where
  "f64_min x y = (if x = NaN then y else if y = NaN then x else if f64_lt y x then y else x)"

definition f64_abs :: "f64 \<Rightarrow> f64" where
  "f64_abs x = (if f64_neg x then f64_uminus x else x)"

text \<open>\<open>total_cmp\<close> on the values of the program (a NaN it can meet is the positive one): the key
  is the class, then the value.\<close>

fun total_key :: "f64 \<Rightarrow> nat \<times> rat" where
  "total_key (Infinity True) = (0, 0)"
| "total_key (Fin q) = (if q < 0 then (1, q) else (3, q))"
| "total_key Minus_Zero = (2, 0)"
| "total_key (Infinity False) = (4, 0)"
| "total_key NaN = (5, 0)"

definition total_less :: "f64 \<Rightarrow> f64 \<Rightarrow> bool" where
  "total_less x y =
    (case (total_key x, total_key y) of
       ((a, p), (b, q)) \<Rightarrow> a < b \<or> (a = b \<and> p < q))"

section \<open>Casts and rounding to integers\<close>

text \<open>\<open>round\<close>: half away from zero; the sign of a zero result is the argument's.\<close>

definition f64_round_int :: "f64 \<Rightarrow> f64" where
  "f64_round_int x =
    (case x of
       Fin q \<Rightarrow>
         let m = \<lfloor>\<bar>q\<bar> + 1 / 2\<rfloor> in
         if m = 0 then (if q < 0 then Minus_Zero else Fin 0)
         else Fin (of_int (if q < 0 then - m else m))
     | _ \<Rightarrow> x)"

text \<open>\<open>as i64\<close> and \<open>as u64\<close> truncate and saturate; NaN becomes 0.\<close>

definition f64_to_int :: "int \<Rightarrow> int \<Rightarrow> f64 \<Rightarrow> int" where
  "f64_to_int lo hi x =
    (case x of
       Fin q \<Rightarrow> max lo (min hi (if q < 0 then \<lceil>q\<rceil> else \<lfloor>q\<rfloor>))
     | Minus_Zero \<Rightarrow> 0
     | Infinity s \<Rightarrow> if s then lo else hi
     | NaN \<Rightarrow> 0)"

definition f64_to_i64 :: "f64 \<Rightarrow> int" where
  "f64_to_i64 x = f64_to_int (- (2 ^ 63)) (2 ^ 63 - 1) x"

definition f64_to_u64 :: "f64 \<Rightarrow> nat" where
  "f64_to_u64 x = nat (f64_to_int 0 (2 ^ 64 - 1) x)"

section \<open>Printing\<close>

text \<open>The decimal \<open>m * 10 ^ k\<close> without an exponent, as \<open>Display\<close> writes it.\<close>

definition dec_plain :: "nat \<Rightarrow> int \<Rightarrow> string" where
  "dec_plain m k =
    (let ds = dec m in
     if 0 \<le> k then ds @ replicate (nat k) (CHR ''0'')
     else
       let f = nat (- k) in
       if f < length ds then take (length ds - f) ds @ ''.'' @ drop (length ds - f) ds
       else ''0.'' @ replicate (f - length ds) (CHR ''0'') @ ds)"

definition pow10 :: "int \<Rightarrow> rat" where
  "pow10 e = power_int 10 e"

text \<open>The position of the leading decimal digit of a positive rational: the \<open>k\<close> with
  \<open>pow10 k \<le> q < pow10 (k + 1)\<close>. It is at most two below the estimate from the binary
  exponent (\<open>log10 2 = 0.30103\<close> to five digits, exponents between -1074 and 1024).\<close>

fun ilog10_down :: "nat \<Rightarrow> int \<Rightarrow> rat \<Rightarrow> int" where
  "ilog10_down 0 k q = k"
| "ilog10_down (Suc n) k q = (if pow10 k \<le> q then k else ilog10_down n (k - 1) q)"

definition ilog10 :: "rat \<Rightarrow> int" where
  "ilog10 q = ilog10_down 4 (ilog2 q * 30103 div 100000 + 2) q"

text \<open>With \<open>n\<close> digits: the decimals next to \<open>q\<close> from below and above that read back as \<open>q\<close>, the
  nearer one preferred.\<close>

definition digits_candidate :: "(rat \<Rightarrow> rat) \<Rightarrow> rat \<Rightarrow> nat \<Rightarrow> (nat \<times> int) option" where
  "digits_candidate rnd q n =
    (let k = ilog10 q - (int n - 1); lo = \<lfloor>q / pow10 k\<rfloor>; hi = lo + 1;
         ok = (\<lambda>m. rnd (of_int m * pow10 k) = q);
         near_lo = (q / pow10 k - of_int lo \<le> of_int hi - q / pow10 k)
     in if ok lo \<and> (near_lo \<or> \<not> ok hi) then Some (nat lo, k)
        else if ok hi then (if hi = 10 ^ n then Some (1, k + int n) else Some (nat hi, k))
        else None)"

fun shortest_from :: "(rat \<Rightarrow> rat) \<Rightarrow> rat \<Rightarrow> nat \<Rightarrow> nat \<Rightarrow> nat \<times> int" where
  "shortest_from rnd q 0 n = (nat \<lfloor>q\<rfloor>, 0)"
| "shortest_from rnd q (Suc fuel) n =
    (case digits_candidate rnd q n of
       Some c \<Rightarrow> c
     | None \<Rightarrow> shortest_from rnd q fuel (Suc n))"

text \<open>Seventeen digits always read back.\<close>

definition show_rat :: "(rat \<Rightarrow> rat) \<Rightarrow> rat \<Rightarrow> string" where
  "show_rat rnd q =
    (if q = 0 then ''0''
     else
       let sgn = (if q < 0 then ''-'' else []) in
       case shortest_from rnd \<bar>q\<bar> 17 1 of (m, k) \<Rightarrow> sgn @ dec_plain m k)"

fun show_f64 :: "f64 \<Rightarrow> string" where
  "show_f64 (Fin q) = show_rat (round_bin 53 (- 1022)) q"
| "show_f64 Minus_Zero = ''-0''"
| "show_f64 (Infinity s) = (if s then ''-inf'' else ''inf'')"
| "show_f64 NaN = ''NaN''"

section \<open>The bit patterns\<close>

text \<open>\<open>f64::from_le_bytes\<close> and \<open>f32::from_le_bytes\<close> (an \<open>f32\<close> is a value of the same type, the
  conversion to \<open>f64\<close> is exact): exponent field \<open>e\<close> of \<open>w\<close> bits, fraction \<open>f\<close> of \<open>b\<close> bits.\<close>

definition decode_float :: "nat \<Rightarrow> nat \<Rightarrow> nat \<Rightarrow> f64" where
  "decode_float w b v =
    (let f = v mod 2 ^ b; e = (v div 2 ^ b) mod 2 ^ w; neg = odd (v div 2 ^ (b + w));
         bias = int (2 ^ (w - 1)) - 1;
         m = (if e = 0 then of_nat f * pow2 (1 - bias - int b)
              else of_nat (2 ^ b + f) * pow2 (int e - bias - int b))
     in if e = 2 ^ w - 1 then (if f = 0 then Infinity neg else NaN)
        else if m = 0 then (if neg then Minus_Zero else Fin 0)
        else Fin (if neg then - m else m))"

definition f64_from_bits :: "nat \<Rightarrow> f64" where
  "f64_from_bits v = decode_float 11 52 v"

definition f32_from_bits :: "nat \<Rightarrow> f64" where
  "f32_from_bits v = decode_float 8 23 v"

fun show_f32 :: "f64 \<Rightarrow> string" where
  "show_f32 (Fin q) = show_rat (round_bin 24 (- 126)) q"
| "show_f32 x = show_f64 x"

section \<open>Exactness\<close>

lemma pow2_pos: "0 < pow2 e"
  by (simp add: pow2_def)

lemma pow2_add: "pow2 (a + b) = pow2 a * pow2 b"
  by (simp add: pow2_def power_int_add)

lemma pow2_nat: "pow2 (int n) = 2 ^ n"
  by (simp add: pow2_def)

lemma pow2_le_iff: "pow2 a \<le> pow2 b \<longleftrightarrow> a \<le> b"
proof
  assume le: "pow2 a \<le> pow2 b"
  show "a \<le> b"
  proof (rule ccontr)
    assume "\<not> a \<le> b"
    then have "pow2 b < pow2 a" by (simp add: pow2_def power_int_strict_increasing)
    with le show False by simp
  qed
qed (simp add: pow2_def power_int_increasing)

lemma round_half_even_int [simp]: "round_half_even (of_int n) = n"
  by (simp add: round_half_even_def Let_def)

lemma ilog2_le:
  assumes "0 < q"
  shows "pow2 (ilog2 q) \<le> q"
proof -
  obtain n d where nd: "quotient_of q = (n, d)" by fastforce
  have q: "q = of_int n / of_int d" using quotient_of_div [OF nd] .
  have d: "0 < d" using quotient_of_denom_pos [OF nd] .
  have n: "0 < n" using assms q d by (simp add: zero_less_divide_iff)
  define a where "a = floorlog 2 (nat n)"
  define b where "b = floorlog 2 (nat d)"
  have a: "2 ^ (a - 1) \<le> nat n" "1 \<le> a"
    using floorlog_bounds [of "nat n" 2] n by (auto simp: a_def floorlog_def)
  have b: "nat d < 2 ^ b" using floorlog_bounds [of "nat d" 2] d by (auto simp: b_def)
  have na: "(2 :: rat) ^ (a - 1) \<le> of_int n"
  proof -
    have "(of_nat (2 ^ (a - 1)) :: rat) \<le> of_nat (nat n)" using a(1) of_nat_le_iff by blast
    then show ?thesis using n by simp
  qed
  have db: "of_int d \<le> (2 :: rat) ^ b"
  proof -
    have "(of_nat (nat d) :: rat) \<le> of_nat (2 ^ b)" using b of_nat_le_iff less_imp_le by blast
    then show ?thesis using d by simp
  qed
  have "pow2 (int a - int b - 1) * pow2 (int b) = pow2 (int (a - 1))"
    using a(2) by (simp add: pow2_add [symmetric] of_nat_diff)
  then have e: "pow2 (int a - int b - 1) * 2 ^ b = 2 ^ (a - 1)" by (simp only: pow2_nat)
  have "pow2 (int a - int b - 1) * of_int d \<le> pow2 (int a - int b - 1) * 2 ^ b"
    using db pow2_pos [of "int a - int b - 1"] by (intro mult_left_mono) auto
  also have "\<dots> \<le> of_int n" unfolding e by (rule na)
  finally have "pow2 (int a - int b - 1) * of_int d \<le> of_int n" .
  then have "pow2 (int a - int b - 1) \<le> q" using d by (simp add: q pos_le_divide_eq)
  then show ?thesis by (simp add: ilog2_def nd Let_def a_def b_def)
qed

lemma f64_of_int_exact:
  assumes "\<bar>n\<bar> \<le> 2 ^ 53"
  shows "f64_of_int n = Fin (of_int n)"
proof (cases "n = 0")
  case True
  then show ?thesis by (simp add: f64_of_int_def f64_round_def)
next
  case False
  let ?q = "\<bar>of_int n :: rat\<bar>"
  define e where "e = ilog2 ?q"
  have q: "0 < ?q" using False by simp
  have qn: "?q = of_nat (nat \<bar>n\<bar>)" by simp
  have le: "?q \<le> 2 ^ 53"
    using assms by (metis of_int_abs of_int_le_iff of_int_numeral of_int_power)
  have "pow2 e \<le> pow2 53"
    using ilog2_le [OF q] le by (simp add: e_def pow2_nat [of 53, simplified])
  then have e53: "e \<le> 53" by (simp add: pow2_le_iff)
  have "\<exists>k. ?q = of_int k * pow2 (max e (- 1022) - 52)"
  proof (cases "max e (- 1022) \<le> 52")
    case True
    then have "?q = of_int (\<bar>n\<bar> * 2 ^ nat (52 - max e (- 1022))) * pow2 (max e (- 1022) - 52)"
      using pow2_add [of "52 - max e (- 1022)" "max e (- 1022) - 52"]
        pow2_nat [of "nat (52 - max e (- 1022))"]
      by (simp add: pow2_def)
    then show ?thesis by blast
  next
    case False
    with e53 have "e = 53" "max e (- 1022) = 53" by auto
    then have "?q = 2 ^ 53" using ilog2_le [OF q] le pow2_nat [of 53] by (simp add: e_def)
    then show ?thesis using \<open>max e (- 1022) = 53\<close>
      by (intro exI [of _ "2 ^ 52"]) (simp add: pow2_def)
  qed
  then obtain k where k: "?q = of_int k * pow2 (max e (- 1022) - 52)" by blast
  define u where "u = pow2 (max e (- 1022) - 52)"
  have "0 < u" by (simp add: u_def pow2_pos)
  then have "?q / u = of_int k" unfolding k u_def [symmetric] by simp
  moreover have "round_bin 53 (- 1022) ?q = of_int (round_half_even (?q / u)) * u"
    by (simp add: round_bin_def u_def e_def Let_def)
  ultimately have "round_bin 53 (- 1022) ?q = ?q" using k by (simp add: u_def)
  moreover have "\<not> (2 ^ 1024 \<le> ?q)" using le by simp
  ultimately show ?thesis using False
    by (auto simp: f64_of_int_def f64_round_def Let_def abs_if split: if_splits)
qed

end
