(* ===== verification/Binary_Value.thy ===== *)
theory Binary_Value
  imports Wire Float64 Classify
begin

text \<open>
  Prepared statements of \<open>mysqlproto.rs\<close>: the binary parameter values of COM_STMT_EXECUTE as SQL
  literals (\<open>decode_binary_value\<close>, \<open>string_literal\<close>, \<open>bytes_literal\<close>) and their substitution
  for the placeholders (\<open>interpolate\<close>).
\<close>

section \<open>Literals\<close>

text \<open>\<open>string_literal\<close>: every escaped character is ASCII, so the loop over characters is a loop
  over bytes.\<close>

definition escape_char :: "char \<Rightarrow> string" where
  "escape_char c =
    (if c = SQUOTE then [SQUOTE, SQUOTE]
     else if c = BSLASH then [BSLASH, BSLASH]
     else if c = CHR 0x00 then [BSLASH, CHR ''0'']
     else if c = CHR 0x0A then [BSLASH, CHR ''n'']
     else if c = CHR 0x0D then [BSLASH, CHR ''r'']
     else if c = CHR 0x1A then [BSLASH, CHR ''Z'']
     else [c])"

definition string_literal :: "string \<Rightarrow> string" where
  "string_literal s = [SQUOTE] @ concat (map escape_char s) @ [SQUOTE]"

definition hex_digit_upper :: "nat \<Rightarrow> char" where
  "hex_digit_upper d = (if d < 10 then char_of (48 + d) else char_of (55 + d))"

definition hex_of :: "bytes \<Rightarrow> string" where
  "hex_of b = concat (map (\<lambda>x. [hex_digit_upper (unat x div 16), hex_digit_upper (unat x mod 16)]) b)"

definition bytes_literal :: "bytes \<Rightarrow> string" where
  "bytes_literal b =
    (case from_utf8 (text_of b) of
       Some s \<Rightarrow> string_literal s
     | None \<Rightarrow> ''X'' @ [SQUOTE] @ hex_of b @ [SQUOTE])"

definition float_literal :: "f64 \<Rightarrow> string \<Rightarrow> string" where
  "float_literal v formatted = (if is_finite v then formatted else ''NULL'')"

section \<open>Binary values\<close>

definition UNSIGNED_FLAG :: u8 where
  "UNSIGNED_FLAG = 0x80"

text \<open>The integer types: \<open>n\<close> bytes, unsigned or two's complement.\<close>

definition signed_val :: "nat \<Rightarrow> nat \<Rightarrow> int" where
  "signed_val n v = (if v < 2 ^ (8 * n - 1) then int v else int v - 2 ^ (8 * n))"

definition int_literal :: "nat \<Rightarrow> bool \<Rightarrow> string reader" where
  "int_literal n uns r =
    (case rd_uint n r of
       None \<Rightarrow> None
     | Some (v, r') \<Rightarrow> Some (if uns then dec v else dec_int (signed_val n v), r'))"

definition quote_sql :: "string \<Rightarrow> string" where
  "quote_sql s = [SQUOTE] @ s @ [SQUOTE]"

definition date_text :: "bytes \<Rightarrow> string" where
  "date_text b =
    dec_pad 4 (le_val (take 2 b)) @ ''-'' @ dec_pad 2 (unat (b ! 2)) @ ''-'' @ dec_pad 2 (unat (b ! 3))"

definition clock_text :: "nat \<Rightarrow> u8 \<Rightarrow> u8 \<Rightarrow> string" where
  "clock_text h m s = dec_pad 2 h @ '':'' @ dec_pad 2 (unat m) @ '':'' @ dec_pad 2 (unat s)"

text \<open>DATE, DATETIME and TIMESTAMP: a length byte, then 0, 4, 7 or 11 bytes.\<close>

definition datetime_literal :: "string reader" where
  "datetime_literal r =
    (case rd_u8 r of
       None \<Rightarrow> None
     | Some (len, r1) \<Rightarrow>
        (case rd_take (unat len) r1 of
           None \<Rightarrow> None
         | Some (b, r2) \<Rightarrow>
            if len = 0 then Some (quote_sql ''0000-00-00 00:00:00'', r2)
            else if len = 4 then Some (quote_sql (date_text b), r2)
            else if len = 7 then
              Some (quote_sql (date_text b @ '' '' @ clock_text (unat (b ! 4)) (b ! 5) (b ! 6)), r2)
            else if len = 11 then
              Some (quote_sql (date_text b @ '' '' @ clock_text (unat (b ! 4)) (b ! 5) (b ! 6) @ ''.'' @
                dec_pad 6 (le_val (take 4 (drop 7 b)))), r2)
            else None))"

text \<open>TIME: sign, days, hours, minutes, seconds, microseconds; the hours are a \<open>u32\<close> that wraps
  in the release build.\<close>

definition time_hours :: "bytes \<Rightarrow> u32" where
  "time_hours b = word_of_nat (le_val (take 4 (drop 1 b))) * 24 + word_of_nat (unat (b ! 5))"

definition time_literal :: "string reader" where
  "time_literal r =
    (case rd_u8 r of
       None \<Rightarrow> None
     | Some (len, r1) \<Rightarrow>
        (case rd_take (unat len) r1 of
           None \<Rightarrow> None
         | Some (b, r2) \<Rightarrow>
            if len = 0 then Some (quote_sql ''00:00:00'', r2)
            else if len = 8 \<or> len = 12 then
              let neg = (if b ! 0 \<noteq> 0 then ''-'' else []);
                  micros = (if len = 12 then ''.'' @ dec_pad 6 (le_val (take 4 (drop 8 b))) else [])
              in Some (quote_sql (neg @ clock_text (unat (time_hours b)) (b ! 6) (b ! 7) @ micros), r2)
            else None))"

definition decimal_char :: "char \<Rightarrow> bool" where
  "decimal_char c \<longleftrightarrow> is_ascii_digit c \<or> c \<in> set ''-+.eE''"

definition decimal_literal :: "string reader" where
  "decimal_literal r =
    (case lenenc_bytes r of
       None \<Rightarrow> None
     | Some (b, r') \<Rightarrow>
        (case from_utf8 (text_of b) of
           None \<Rightarrow> None
         | Some s \<Rightarrow>
            Some (if s \<noteq> [] \<and> list_all decimal_char s then s else string_literal s, r')))"

definition float_value :: "nat \<Rightarrow> (nat \<Rightarrow> f64) \<Rightarrow> (f64 \<Rightarrow> string) \<Rightarrow> string reader" where
  "float_value n from_bits show r =
    (case rd_uint n r of
       None \<Rightarrow> None
     | Some (v, r') \<Rightarrow> Some (float_literal (from_bits v) (show (from_bits v)), r'))"

definition decode_binary_value :: "u8 \<Rightarrow> u8 \<Rightarrow> string reader" where
  "decode_binary_value ftype flags r =
    (let uns = (and flags UNSIGNED_FLAG \<noteq> 0) in
     if ftype = 0x06 then Some (''NULL'', r)
     else if ftype = 0x01 then int_literal 1 uns r
     else if ftype \<in> {0x02, 0x0D} then int_literal 2 uns r
     else if ftype \<in> {0x03, 0x09} then int_literal 4 uns r
     else if ftype = 0x08 then int_literal 8 uns r
     else if ftype = 0x04 then float_value 4 f32_from_bits show_f32 r
     else if ftype = 0x05 then float_value 8 f64_from_bits show_f64 r
     else if ftype \<in> {0x0A, 0x0C, 0x07} then datetime_literal r
     else if ftype = 0x0B then time_literal r
     else if ftype \<in> {0x00, 0xF6} then decimal_literal r
     else if ftype = 0x10 then
       (case lenenc_bytes r of None \<Rightarrow> None | Some (b, r') \<Rightarrow> Some (''X'' @ quote_sql (hex_of b), r'))
     else if ftype \<in> {0x0F, 0xF5, 0xF7, 0xF8, 0xF9, 0xFA, 0xFB, 0xFC, 0xFD, 0xFE} then
       (case lenenc_bytes r of None \<Rightarrow> None | Some (b, r') \<Rightarrow> Some (bytes_literal b, r'))
     else None)"

section \<open>Placeholders\<close>

text \<open>The loop of \<open>interpolate\<close>: the text written from here on and the number of values used.
  \<open>copied s rest\<close> is the part of \<open>s\<close> before its suffix \<open>rest\<close>.\<close>

definition copied :: "string \<Rightarrow> string \<Rightarrow> string" where
  "copied s rest = take (length s - length rest) s"

definition put_text :: "string \<Rightarrow> (string \<times> nat) option \<Rightarrow> (string \<times> nat) option" where
  "put_text t r = map_option (\<lambda>(out, used). (t @ out, used)) r"

text \<open>The piece of SQL the loop copies when it is not at a placeholder: the suffix after it.\<close>

definition skip_piece :: "char \<Rightarrow> string \<Rightarrow> string" where
  "skip_piece c cs =
    (if is_quote c then skip_quoted (c # cs)
     else if dash_comment (c # cs) then skip_line (c # cs)
     else if c = CHR ''#'' then skip_line (c # cs)
     else if starts_comment (c # cs) then skip_comment (tl cs)
     else dropWhile is_cont cs)"

lemma length_skip_piece: "length (skip_piece c cs) \<le> length cs"
  using length_skip_line_comment [of c cs] length_skip_quoted_body [of c cs]
    length_skip_comment [of "tl cs"] length_dropWhile_shrinks [of is_cont cs]
  by (auto simp: skip_piece_def)

function interp :: "string list \<Rightarrow> nat \<Rightarrow> string \<Rightarrow> (string \<times> nat) option" where
  "interp values used [] = Some ([], used)"
| "interp values used (c # cs) =
    (if c = CHR ''?'' then
       (if used < length values then put_text (values ! used) (interp values (Suc used) cs) else None)
     else put_text (copied (c # cs) (skip_piece c cs)) (interp values used (skip_piece c cs)))"
  by pat_completeness auto
termination
  by (relation "measure (\<lambda>(v, u, s). length s)") (auto simp: less_Suc_eq_le length_skip_piece)

definition interpolate :: "string \<Rightarrow> string list \<Rightarrow> nat \<Rightarrow> string option" where
  "interpolate sql values expected =
    (case interp values 0 sql of
       None \<Rightarrow> None
     | Some (out, used) \<Rightarrow> if used = expected then Some out else None)"

end
