(* ===== verification/Binary_Value_Props.thy ===== *)
theory Binary_Value_Props
  imports Binary_Value Fingerprint_Tokens
begin

text \<open>
  Literals cannot break out of their quotes and read back as the value they were made from, and
  \<open>interpolate\<close> is the filling of a template: the SQL text cut at its placeholders.
\<close>

section \<open>Escaping\<close>

text \<open>What a MySQL server reads between single quotes (default escapes).\<close>

fun unescape :: "string \<Rightarrow> string" where
  "unescape [] = []"
| "unescape [c] = [c]"
| "unescape (c # d # cs) =
    (if c = SQUOTE \<and> d = SQUOTE then SQUOTE # unescape cs
     else if c = BSLASH then
       (if d = CHR ''0'' then CHR 0x00
        else if d = CHR ''n'' then CHR 0x0A
        else if d = CHR ''r'' then CHR 0x0D
        else if d = CHR ''Z'' then CHR 0x1A
        else d) # unescape cs
     else c # unescape (d # cs))"

definition escape :: "string \<Rightarrow> string" where
  "escape s = concat (map escape_char s)"

lemma escape_Cons: "escape (c # s) = escape_char c @ escape s"
  by (simp add: escape_def)

lemma escape_char_cases:
  obtains (plain) "escape_char c = [c]" "c \<noteq> SQUOTE" "c \<noteq> BSLASH"
    | (quote) "escape_char c = [SQUOTE, SQUOTE]" "c = SQUOTE"
    | (esc) d where "escape_char c = [BSLASH, d]" "unescape [BSLASH, d] = [c]"
proof -
  have "(escape_char c = [c] \<and> c \<noteq> SQUOTE \<and> c \<noteq> BSLASH) \<or>
      (escape_char c = [SQUOTE, SQUOTE] \<and> c = SQUOTE) \<or>
      (\<exists>d. escape_char c = [BSLASH, d] \<and> unescape [BSLASH, d] = [c])"
    by (auto simp: escape_char_def)
  then show ?thesis using that by blast
qed

lemma body_ok_plain: "c \<noteq> q \<Longrightarrow> c \<noteq> BSLASH \<Longrightarrow> body_ok q (c # cs) = body_ok q cs"
  by (cases cs) auto

lemma body_ok_escape: "body_ok SQUOTE (escape s)"
proof (induction s)
  case (Cons c s)
  show ?case
  proof (cases c rule: escape_char_cases)
    case plain
    with Cons show ?thesis by (simp add: escape_Cons body_ok_plain)
  qed (use Cons in \<open>simp_all add: escape_Cons\<close>)
qed (simp add: escape_def)

lemma unescape_plain: "c \<noteq> SQUOTE \<Longrightarrow> c \<noteq> BSLASH \<Longrightarrow> unescape (c # cs) = c # unescape cs"
  by (cases cs) auto

lemma unescape_escape: "unescape (escape s) = s"
proof (induction s)
  case (Cons c s)
  show ?case
  proof (cases c rule: escape_char_cases)
    case plain
    with Cons show ?thesis by (simp add: escape_Cons unescape_plain)
  next
    case (esc d)
    with Cons show ?thesis by (auto simp: escape_Cons split: if_splits)
  qed (use Cons in \<open>simp add: escape_Cons\<close>)
qed (simp add: escape_def)

lemma string_literal_eq: "string_literal s = SQUOTE # escape s @ [SQUOTE]"
  by (simp add: string_literal_def escape_def)

text \<open>C26: A parameter value cannot end its own literal: whatever the value, a scanner that starts
  at the literal resumes exactly behind it, and what it read between the quotes unescapes to the
  value.\<close>
theorem string_literal_safe:
  assumes "rest = [] \<or> hd rest \<noteq> SQUOTE"
  shows "skip_string (string_literal s @ rest) = rest \<and>
    unescape (butlast (tl (string_literal s))) = s"
  using skip_body_ok [OF body_ok_escape [of s] _ assms]
  by (simp add: string_literal_eq unescape_escape)

theorem string_literal_safe_witness:
  "skip_string (string_literal [SQUOTE, BSLASH, CHR ''x''] @ '' OR 1'') = '' OR 1''"
  using string_literal_safe [of "'' OR 1''" "[SQUOTE, BSLASH, CHR ''x'']"] by simp

section \<open>Templates\<close>

text \<open>The SQL text cut at its placeholders: the first piece and the pieces after each \<open>?\<close>.\<close>

function template :: "string \<Rightarrow> string list" where
  "template [] = [[]]"
| "template (c # cs) =
    (if c = CHR ''?'' then [] # template cs
     else
       case template (skip_piece c cs) of
         [] \<Rightarrow> [copied (c # cs) (skip_piece c cs)]
       | t # ts \<Rightarrow> (copied (c # cs) (skip_piece c cs) @ t) # ts)"
  by pat_completeness auto
termination by (relation "measure length") (auto simp: less_Suc_eq_le length_skip_piece)

fun weave :: "string list \<Rightarrow> string list \<Rightarrow> string" where
  "weave [] vs = []"
| "weave [t] vs = t"
| "weave (t # ts) (v # vs) = t @ v @ weave ts vs"
| "weave (t # ts) [] = t"

definition placeholders :: "string \<Rightarrow> nat" where
  "placeholders sql = length (template sql) - 1"

lemma template_not_Nil: "template s \<noteq> []"
  by (induction s rule: template.induct) (auto split: list.splits)

lemma weave_put:
  "ts \<noteq> [] \<Longrightarrow> p @ weave ts vs = weave ((p @ hd ts) # tl ts) vs"
  by (cases ts; cases "tl ts"; cases vs) auto

lemma interp_template:
  "used \<le> length values \<Longrightarrow>
    interp values used s =
      (if used + placeholders s \<le> length values
       then Some (weave (template s) (drop used values), used + placeholders s) else None)"
proof (induction "values" used s rule: interp.induct)
  case (1 vs used)
  then show ?case by (simp add: placeholders_def)
next
  case (2 vs used c cs)
  show ?case
  proof (cases "c = CHR ''?''")
    case True
    note q = True
    have n: "length (template cs) - Suc 0 = placeholders cs" "0 < length (template cs)"
      using template_not_Nil by (auto simp: placeholders_def)
    obtain t ts where t: "template cs = t # ts" using template_not_Nil [of cs] by (cases "template cs") auto
    show ?thesis
    proof (cases "used < length vs")
      case True
      have d: "drop used vs = vs ! used # drop (Suc used) vs"
        using True by (rule drop_eq_Cons_nth)
      show ?thesis
        using "2.IH"(1) [OF q True] True q t
        by (simp add: put_text_def placeholders_def d)
    next
      case False
      then show ?thesis using "2.prems" q t by (simp add: placeholders_def)
    qed
  next
    case False
    let ?r = "skip_piece c cs"
    obtain t ts where t: "template ?r = t # ts" using template_not_Nil [of ?r] by (cases "template ?r") auto
    have "placeholders (c # cs) = placeholders ?r" using False t by (simp add: placeholders_def)
    moreover have "weave (template (c # cs)) ws = copied (c # cs) ?r @ weave (template ?r) ws" for ws
      using False t weave_put [of "template ?r" "copied (c # cs) ?r" ws] by simp
    ultimately show ?thesis using "2.IH"(2) [OF False "2.prems"] False by (simp add: put_text_def)
  qed
qed

text \<open>The pieces joined by \<open>?\<close> are the SQL text again.\<close>

lemma suffix_skip_quoted_body: "suffix (skip_quoted_body q s) s"
proof (induction q s rule: skip_quoted_body.induct)
  case (2 q c cs)
  have "suffix (tl cs) (c # cs)" by (metis suffix_ConsI suffix_tl)
  with 2 show ?case by (auto intro: suffix_order.order_trans suffix_ConsI)
qed simp

lemma suffix_skip_comment: "suffix (skip_comment s) s"
  by (induction s rule: skip_comment.induct) (auto intro: suffix_ConsI)

lemma suffix_skip_piece: "suffix (skip_piece c cs) (c # cs)"
proof -
  have "suffix (skip_comment (tl cs)) (c # cs)"
    using suffix_skip_comment [of "tl cs"] by (metis suffix_ConsI suffix_order.order_trans suffix_tl)
  then show ?thesis
    by (auto simp: skip_piece_def skip_line_def suffix_skip_quoted_body suffix_dropWhile
        intro: suffix_ConsI)
qed

lemma copied_append: "suffix r s \<Longrightarrow> copied s r @ r = s"
  by (auto simp: copied_def suffix_def)

lemma weave_template: "weave (template s) (replicate (placeholders s) ''?'') = s"
proof (induction s rule: template.induct)
  case (2 c cs)
  show ?case
  proof (cases "c = CHR ''?''")
    case True
    obtain t ts where t: "template cs = t # ts" using template_not_Nil [of cs] by (cases "template cs") auto
    with True 2 show ?thesis by (simp add: placeholders_def)
  next
    case False
    let ?r = "skip_piece c cs"
    obtain t ts where t: "template ?r = t # ts" using template_not_Nil [of ?r] by (cases "template ?r") auto
    have "placeholders (c # cs) = placeholders ?r" using False t by (simp add: placeholders_def)
    moreover have "weave (template (c # cs)) vs = copied (c # cs) ?r @ weave (template ?r) vs" for vs
      using False t weave_put [of "template ?r" "copied (c # cs) ?r" vs] by simp
    ultimately show ?thesis using 2 False copied_append [OF suffix_skip_piece [of c cs]] by simp
  qed
qed (simp add: placeholders_def)


end
