(* ===== verification/Rust_Parse.thy ===== *)
theory Rust_Parse
  imports Float64
begin

text \<open>
  The searching, splitting and number parsing of \<open>str\<close> that the text parsers use, on UTF-8 byte
  strings: \<open>find\<close>, \<open>rfind\<close>, \<open>split\<close>, \<open>split_whitespace\<close>, \<open>trim_end_matches\<close>, \<open>strip_suffix\<close>,
  \<open>replace\<close> and \<open>parse::<f64>\<close>.
\<close>

section \<open>Searching and splitting\<close>

fun find_str :: "string \<Rightarrow> string \<Rightarrow> nat option" where
  "find_str p [] = (if p = [] then Some 0 else None)"
| "find_str p (c # cs) =
    (if prefix p (c # cs) then Some 0 else map_option Suc (find_str p cs))"

fun rfind_str :: "string \<Rightarrow> string \<Rightarrow> nat option" where
  "rfind_str p [] = (if p = [] then Some 0 else None)"
| "rfind_str p (c # cs) =
    (case rfind_str p cs of
       Some i \<Rightarrow> Some (Suc i)
     | None \<Rightarrow> if prefix p (c # cs) then Some 0 else None)"

fun split_char :: "char \<Rightarrow> string \<Rightarrow> string list" where
  "split_char d [] = [[]]"
| "split_char d (c # cs) =
    (if c = d then [] # split_char d cs
     else case split_char d cs of [] \<Rightarrow> [[c]] | p # ps \<Rightarrow> (c # p) # ps)"

text \<open>The bytes up to the next white space, and the rest from there.\<close>

fun next_token :: "string \<Rightarrow> string \<times> string" where
  "next_token [] = ([], [])"
| "next_token (c # cs) =
    (if starts_with_space (c # cs) then ([], c # cs)
     else case next_token cs of (w, r) \<Rightarrow> (c # w, r))"

lemma next_token_append: "next_token s = (w, r) \<Longrightarrow> s = w @ r"
  by (induction s arbitrary: w) (auto split: if_splits prod.splits)

lemma trim_start_stops: "trim_start s = c # cs \<Longrightarrow> \<not> starts_with_space (c # cs)"
  unfolding trim_start_def starts_with_space_def
proof (induction white_space s rule: strip_start.induct)
  case (1 s)
  show ?case
  proof (cases "lead_space white_space s = 0 \<or> s = []")
    case True
    then have "strip_start white_space s = s" by (subst strip_start.simps) (auto simp: Let_def)
    with True "1.prems" show ?thesis by auto
  next
    case False
    then have "strip_start white_space s = strip_start white_space (drop (lead_space white_space s) s)"
      by (subst strip_start.simps) (auto simp: Let_def)
    then show ?thesis using "1.hyps" [OF refl] False "1.prems" by auto
  qed
qed

lemma next_token_shrinks [shrinks]:
  assumes "trim_start s \<noteq> []"
  shows "length (snd (next_token (trim_start s))) < length s"
proof -
  obtain c cs where t: "trim_start s = c # cs" using assms by (cases "trim_start s") auto
  obtain w r where n: "next_token cs = (w, r)" by fastforce
  have "length r \<le> length cs" using next_token_append [OF n] by simp
  moreover have "length (c # cs) \<le> length s" using length_trim_start [of s] t by simp
  ultimately show ?thesis using trim_start_stops [OF t] t n by simp
qed

function split_whitespace :: "string \<Rightarrow> string list" where
  "split_whitespace s =
    (let t = trim_start s in
     if t = [] then [] else case next_token t of (w, r) \<Rightarrow> w # split_whitespace r)"
  by pat_completeness auto
termination
proof (relation "measure length")
  fix s t w r
  assume "t = trim_start s" "t \<noteq> []" "(w, r) = next_token t"
  then show "(r, s) \<in> measure length" using next_token_shrinks [of s] by (metis in_measure snd_conv)
qed simp

declare split_whitespace.simps [simp del]

fun has_space :: "string \<Rightarrow> bool" where
  "has_space [] \<longleftrightarrow> False"
| "has_space (c # cs) \<longleftrightarrow> starts_with_space (c # cs) \<or> has_space cs"

definition ends_with :: "string \<Rightarrow> string \<Rightarrow> bool" where
  "ends_with s p \<longleftrightarrow> suffix p s"

definition trim_end_matches :: "char \<Rightarrow> string \<Rightarrow> string" where
  "trim_end_matches c s = rev (dropWhile ((=) c) (rev s))"

definition strip_suffix_char :: "char \<Rightarrow> string \<Rightarrow> string option" where
  "strip_suffix_char c s = (if s \<noteq> [] \<and> last s = c then Some (butlast s) else None)"

text \<open>The replacement of two backticks by one.\<close>

fun undouble_backticks :: "string \<Rightarrow> string" where
  "undouble_backticks (c # d # cs) =
    (if c = BTICK \<and> d = BTICK then BTICK # undouble_backticks cs else c # undouble_backticks (d # cs))"
| "undouble_backticks s = s"

section \<open>Floating-point numbers\<close>

text \<open>The grammar of \<open>f64::from_str\<close>: a sign, then \<open>inf\<close>, \<open>infinity\<close>, \<open>nan\<close> or digits with an
  optional point and exponent.\<close>

definition digits_nat :: "string \<Rightarrow> nat" where
  "digits_nat s = foldl (\<lambda>acc c. 10 * acc + (byte c - 48)) 0 s"

definition split_sign :: "string \<Rightarrow> bool \<times> string" where
  "split_sign s =
    (case s of
       c # cs \<Rightarrow> if c = CHR ''-'' then (True, cs) else if c = CHR ''+'' then (False, cs) else (False, s)
     | [] \<Rightarrow> (False, []))"

definition parse_exponent :: "string \<Rightarrow> int option" where
  "parse_exponent s =
    (case s of
       [] \<Rightarrow> Some 0
     | c # cs \<Rightarrow>
        (if c \<noteq> CHR ''e'' \<and> c \<noteq> CHR ''E'' then None
         else case split_sign cs of
           (neg, ds) \<Rightarrow>
             if ds = [] \<or> \<not> list_all is_ascii_digit ds then None
             else Some (if neg then - int (digits_nat ds) else int (digits_nat ds))))"

definition parse_number :: "bool \<Rightarrow> string \<Rightarrow> f64 option" where
  "parse_number neg s =
    (let ip = takeWhile is_ascii_digit s;
         r = dropWhile is_ascii_digit s;
         (fp, r') = (case r of
             c # cs \<Rightarrow>
               if c = CHR ''.'' then (takeWhile is_ascii_digit cs, dropWhile is_ascii_digit cs)
               else ([], r)
           | [] \<Rightarrow> ([], []))
     in if ip = [] \<and> fp = [] then None
        else case parse_exponent r' of
          None \<Rightarrow> None
        | Some e \<Rightarrow>
            let v = of_nat (digits_nat (ip @ fp)) * pow10 (e - int (length fp))
            in Some (f64_round neg (if neg then - v else v)))"

definition parse_f64 :: "string \<Rightarrow> f64 option" where
  "parse_f64 s =
    (case split_sign s of
       (neg, r) \<Rightarrow>
         if lower r = ''inf'' \<or> lower r = ''infinity'' then Some (Infinity neg)
         else if lower r = ''nan'' then Some NaN
         else parse_number neg r)"

section \<open>Tokens and numbers the code prints\<close>

lemma starts_with_space_solid [simp]: "solid c \<Longrightarrow> \<not> starts_with_space (c # cs)"
  using trim_start_stops [of "c # cs" c cs] by simp

lemma next_token_solid:
  "\<forall>c \<in> set w. solid c \<Longrightarrow> r = [] \<or> starts_with_space r \<Longrightarrow> next_token (w @ r) = (w, r)"
proof (induction w)
  case Nil
  then show ?case by (cases r) auto
qed auto

lemma split_whitespace_Nil [simp]: "split_whitespace [] = []"
  by (simp add: split_whitespace.simps)

lemma split_whitespace_word:
  assumes "w \<noteq> []" and "\<forall>c \<in> set w. solid c" and "r = [] \<or> starts_with_space r"
  shows "split_whitespace (w @ r) = w # split_whitespace r"
proof -
  obtain c cs where "w = c # cs" using assms(1) by (cases w) auto
  then have "trim_start (w @ r) = w @ r" using assms(2) by simp
  then show ?thesis using assms next_token_solid [of w r]
    by (subst split_whitespace.simps) (simp add: Let_def)
qed

lemma lead_space_space [simp]: "lead_space white_space (CHR '' '' # s) = 1"
  by (simp add: lead_space_def white_space_def)

lemma starts_with_space_space [simp]: "starts_with_space (CHR '' '' # s)"
  by (simp add: starts_with_space_def)

lemma trim_start_space [simp]: "trim_start (CHR '' '' # s) = trim_start s"
  unfolding trim_start_def by (subst strip_start.simps) (simp add: Let_def)

lemma split_whitespace_space [simp]: "split_whitespace (CHR '' '' # s) = split_whitespace s"
  by (subst (1 2) split_whitespace.simps) simp

lemma rfind_str_append:
  "rfind_str p s = Some i \<Longrightarrow> rfind_str p (a @ s) = Some (length a + i)"
  by (induction a) auto

lemma rfind_str_None: "p \<noteq> [] \<Longrightarrow> hd p \<notin> set s \<Longrightarrow> rfind_str p s = None"
  by (induction s) (auto simp: prefix_Cons neq_Nil_conv)

lemma find_str_skip:
  "p \<noteq> [] \<Longrightarrow> hd p \<notin> set a \<Longrightarrow> find_str p (a @ p @ s) = Some (length a)"
proof (induction a)
  case Nil
  then show ?case by (cases p) auto
qed (auto simp: prefix_Cons neq_Nil_conv)

lemma trim_solid:
  assumes "solid c" and "solid d"
  shows "trim (c # s @ [d]) = c # s @ [d]"
  using trim_end_solid [OF assms(2), of "c # s"] assms(1) by (simp add: trim_def)

lemma trim_all_solid: "\<forall>c \<in> set s. solid c \<Longrightarrow> trim s = s"
proof (cases s rule: rev_cases)
  case (snoc t d)
  assume a: "\<forall>c \<in> set s. solid c"
  then show ?thesis using snoc trim_end_solid [of d t] by (cases t) (auto simp: trim_def)
qed simp

lemma digit_solid: "is_ascii_digit c \<Longrightarrow> solid c"
  by (auto simp: solid_def ascii_class_defs)

lemma digits_val_digits_nat:
  "list_all is_ascii_digit s \<Longrightarrow> digits_val n s = Some (foldl (\<lambda>acc c. 10 * acc + (byte c - 48)) n s)"
  by (induction s arbitrary: n) auto

lemma digits_nat_dec [simp]: "digits_nat (dec n) = n"
  using digits_val_dec [of n] digits_val_digits_nat [of "dec n" 0] dec_digits [of n]
  by (simp add: digits_nat_def list_all_iff)

lemma dec_not_alpha: "lower (dec n) = dec n"
proof -
  have "to_ascii_lowercase c = c" if "c \<in> set (dec n)" for c
    using dec_digits [of n] that by (auto simp: to_ascii_lowercase_def ascii_class_defs)
  then show ?thesis by (simp add: map_idI)
qed

lemma parse_f64_dec:
  assumes "n \<le> 2 ^ 53"
  shows "parse_f64 (dec n) = Some (Fin (of_nat n))"
proof -
  obtain c cs where d: "dec n = c # cs" "c \<noteq> CHR ''+''" "c \<noteq> CHR ''-''"
    using dec_hd_not_plus [of n] by blast
  have digit: "is_ascii_digit c" using dec_digits [of n] d(1) by (metis list.set_intros(1))
  have k: "c \<noteq> CHR ''i''" "c \<noteq> CHR ''n''" using digit by (auto simp: is_ascii_digit_def byte_def)
  have dr: "dropWhile is_ascii_digit (dec n) = []" using dec_digits [of n] by simp
  have tw: "takeWhile is_ascii_digit (dec n) = dec n" "dropWhile is_ascii_digit (dec n) = []"
    by (simp_all add: dr takeWhile_eq_all_conv dec_digits)
  have "f64_round False (of_nat n) = Fin (of_nat n)"
    using f64_of_int_exact [of "int n"] assms by (simp add: f64_of_int_def)
  then have "parse_number False (dec n) = Some (Fin (of_nat n))"
    by (simp only: parse_number_def tw Let_def list.case prod.case) (simp add: parse_exponent_def pow10_def Let_def)
  moreover have "split_sign (dec n) = (False, dec n)" using d by (simp add: split_sign_def)
  moreover have "dec n \<noteq> ''inf''" "dec n \<noteq> ''infinity''" "dec n \<noteq> ''nan''"
    using d(1) k by (simp_all)
  ultimately show ?thesis
    by (simp add: parse_f64_def dec_not_alpha)
qed

lemma undouble_doubled:
  "undouble_backticks (concat (map (\<lambda>c. if c = BTICK then [BTICK, BTICK] else [c]) db)) = db"
proof (induction db)
  case (Cons c cs)
  then show ?case by (cases "concat (map (\<lambda>c. if c = BTICK then [BTICK, BTICK] else [c]) cs)") auto
qed simp

lemma trim_end_id: "s \<noteq> [] \<Longrightarrow> solid (last s) \<Longrightarrow> trim_end s = s"
  using trim_end_solid [of "last s" "butlast s"] by simp

lemma trim_id: "s \<noteq> [] \<Longrightarrow> solid (hd s) \<Longrightarrow> solid (last s) \<Longrightarrow> trim s = s"
  by (cases s) (simp_all add: trim_def trim_end_id)

lemma ends_with_last: "s \<noteq> [] \<Longrightarrow> p \<noteq> [] \<Longrightarrow> last s \<noteq> last p \<Longrightarrow> \<not> ends_with s p"
  by (auto simp: ends_with_def suffix_def)

lemma has_space_solid: "\<forall>c \<in> set s. solid c \<Longrightarrow> \<not> has_space s"
  by (induction s) auto

lemma trim_end_space [simp]: "trim_end (s @ '' '') = trim_end s"
proof -
  have "lead_space (map rev white_space) (CHR '' '' # t) = 1" for t
    by (simp add: lead_space_def white_space_def)
  then have "strip_start (map rev white_space) (CHR '' '' # rev s) =
      strip_start (map rev white_space) (rev s)"
    by (subst strip_start.simps) (simp add: Let_def)
  then show ?thesis by (simp add: trim_end_def)
qed

end
