(* ===== verification/Conn_Decoder.thy ===== *)
theory Conn_Decoder
  imports Binary_Value Rust_Parse
begin

text \<open>
  \<open>ConnDecoder\<close> of \<open>mysqlproto.rs\<close>: the state machine that turns one connection's reassembled
  bytes into statement events. Statement ids (u32), parameter indices (u16), parameter counts
  and the counters (u64) are naturals: they are read from at most eight bytes and only compared
  or counted up; the capability flags are 32-bit words, sequence ids wrap as 8-bit words.
\<close>

section \<open>Data\<close>

datatype dir = Client | Server

datatype disposition = Active | Tls | Compressed | BadHandshake | Broken

datatype phase = Greeting | Login | Established

record proto_event =
  pe_ts :: int
  pe_query :: string
  pe_latency :: f64
  pe_response_seen :: bool
  pe_db :: "string option"
  pe_user :: "string option"

record conn_stats =
  statements_expanded :: nat
  statements_inexpandable :: nat
  commands_ignored :: nat
  responses_missing :: nat

record prepared_stmt =
  ps_sql :: string
  ps_num_params :: nat
  ps_param_types :: "(u8 \<times> u8) list option"

datatype pending = Event_pending proto_event | Prepare_pending string | Silent_pending

record in_flight =
  resp_seq :: u8
  in_pending :: pending

record conn =
  cn_phase :: phase
  cn_client :: assembler
  cn_server :: assembler
  cn_disposition :: disposition
  cn_caps :: u32
  cn_server_caps :: u32
  cn_query_attrs :: bool
  cn_user :: "string option"
  cn_db :: "string option"
  cn_server_version :: "string option"
  cn_thread_id :: "nat option"
  cn_stmts :: "nat \<rightharpoonup> prepared_stmt"
  cn_long_data :: "nat \<times> nat \<rightharpoonup> bytes"
  cn_pending :: "in_flight list"
  cn_server_cont_seq :: "u8 option"
  cn_stats :: conn_stats
  cn_finished :: bool

definition new_conn :: conn where
  "new_conn =
    \<lparr>cn_phase = Greeting, cn_client = new_assembler, cn_server = new_assembler,
     cn_disposition = Active, cn_caps = 0, cn_server_caps = 0, cn_query_attrs = False,
     cn_user = None, cn_db = None, cn_server_version = None, cn_thread_id = None,
     cn_stmts = Map.empty, cn_long_data = Map.empty, cn_pending = [],
     cn_server_cont_seq = None,
     cn_stats = \<lparr>statements_expanded = 0, statements_inexpandable = 0, commands_ignored = 0,
       responses_missing = 0\<rparr>,
     cn_finished = False\<rparr>"

definition CLIENT_CONNECT_WITH_DB :: u32 where "CLIENT_CONNECT_WITH_DB = 0x00000008"
definition CLIENT_COMPRESS :: u32 where "CLIENT_COMPRESS = 0x00000020"
definition CLIENT_PROTOCOL_41 :: u32 where "CLIENT_PROTOCOL_41 = 0x00000200"
definition CLIENT_SSL :: u32 where "CLIENT_SSL = 0x00000800"
definition CLIENT_SECURE_CONNECTION :: u32 where "CLIENT_SECURE_CONNECTION = 0x00008000"
definition CLIENT_PLUGIN_AUTH_LENENC_CLIENT_DATA :: u32 where
  "CLIENT_PLUGIN_AUTH_LENENC_CLIENT_DATA = 0x00200000"
definition CLIENT_ZSTD_COMPRESSION_ALGORITHM :: u32 where
  "CLIENT_ZSTD_COMPRESSION_ALGORITHM = 0x04000000"
definition CLIENT_QUERY_ATTRIBUTES :: u32 where "CLIENT_QUERY_ATTRIBUTES = 0x08000000"
definition PARAMETER_COUNT_AVAILABLE :: u8 where "PARAMETER_COUNT_AVAILABLE = 0x08"

definition has_flag :: "'a::len word \<Rightarrow> 'a word \<Rightarrow> bool" where
  "has_flag caps f \<longleftrightarrow> and caps f \<noteq> 0"

section \<open>Small parsers\<close>

text \<open>The text of bytes that may not be UTF-8.\<close>

definition lossy :: "bytes \<Rightarrow> string" where
  "lossy b = from_utf8_lossy (text_of b)"

text \<open>\<open>parse_greeting\<close>: version, thread id, capability flags (0 bits past a short greeting).\<close>

definition greeting_caps :: "bytes \<Rightarrow> u32" where
  "greeting_caps r =
    (case rd_take 2 (rd_skip 9 r) of
       None \<Rightarrow> 0
     | Some (low, r1) \<Rightarrow>
        (case rd_take 2 (rd_skip 3 r1) of
           None \<Rightarrow> word_of_nat (le_val low)
         | Some (high, _) \<Rightarrow> or (word_of_nat (le_val low)) (push_bit 16 (word_of_nat (le_val high)))))"

definition parse_greeting :: "bytes \<Rightarrow> (string \<times> nat \<times> u32) option" where
  "parse_greeting p =
    (if p = [] \<or> hd p \<noteq> 10 then None
     else case rd_cstring (tl p) of
       None \<Rightarrow> None
     | Some (version, r) \<Rightarrow>
        (case rd_uint 4 r of
           None \<Rightarrow> None
         | Some (thread_id, r1) \<Rightarrow> Some (lossy version, thread_id, greeting_caps r1)))"

text \<open>\<open>split_once(char::is_whitespace)\<close>, \<open>strip_suffix\<close> and the two replacements of backticks.\<close>

fun split_space :: "string \<Rightarrow> (string \<times> string) option" where
  "split_space [] = None"
| "split_space (c # cs) =
    (let n = lead_space white_space (c # cs) in
     if n \<noteq> 0 then Some ([], drop n (c # cs))
     else map_option (\<lambda>(a, b). (c # a, b)) (split_space cs))"

definition double_backticks :: "string \<Rightarrow> string" where
  "double_backticks s = concat (map (\<lambda>c. if c = BTICK then [BTICK, BTICK] else [c]) s)"

definition parse_use_target :: "string \<Rightarrow> string option" where
  "parse_use_target sql =
    (let t = trim sql;
         rest = trim (case strip_suffix_char (CHR '';'') t of Some u \<Rightarrow> u | None \<Rightarrow> t)
     in case split_space rest of
          None \<Rightarrow> None
        | Some (kw, target) \<Rightarrow>
           if \<not> eq_ignore_ascii_case kw ''use'' then None
           else
             let target' = trim target;
                 db = (case strip_prefix [BTICK] target' of
                         Some inner \<Rightarrow> map_option undouble_backticks (strip_suffix_char BTICK inner)
                       | None \<Rightarrow> Some target')
             in case db of None \<Rightarrow> None | Some d \<Rightarrow> if d = [] then None else Some d)"

section \<open>COM_QUERY and COM_STMT_EXECUTE payloads\<close>

text \<open>The loop over type and flag bytes; \<open>named\<close> when every pair is followed by a name.\<close>

fun read_types :: "bool \<Rightarrow> nat \<Rightarrow> (u8 \<times> u8) list reader" where
  "read_types named 0 r = Some ([], r)"
| "read_types named (Suc n) r =
    (case rd_u8 r of None \<Rightarrow> None
     | Some (t, r1) \<Rightarrow>
        (case rd_u8 r1 of None \<Rightarrow> None
         | Some (f, r2) \<Rightarrow>
            (case (if named then map_option snd (lenenc_bytes r2) else Some r2) of
               None \<Rightarrow> None
             | Some r3 \<Rightarrow>
                (case read_types named n r3 of
                   None \<Rightarrow> None
                 | Some (ts, r4) \<Rightarrow> Some ((t, f) # ts, r4)))))"

definition null_bit :: "bytes \<Rightarrow> nat \<Rightarrow> bool" where
  "null_bit bitmap i \<longleftrightarrow> bit (bitmap ! (i div 8)) (i mod 8)"

definition bitmap_len :: "nat \<Rightarrow> nat" where
  "bitmap_len n = (n + 7) div 8"

text \<open>Query attributes are decoded only to be skipped.\<close>

fun skip_attrs :: "bytes \<Rightarrow> nat \<Rightarrow> (u8 \<times> u8) list \<Rightarrow> bytes \<Rightarrow> bytes option" where
  "skip_attrs bitmap i [] r = Some r"
| "skip_attrs bitmap i ((t, f) # ts) r =
    (if null_bit bitmap i then skip_attrs bitmap (Suc i) ts r
     else case decode_binary_value t f r of
       None \<Rightarrow> None
     | Some (_, r') \<Rightarrow> skip_attrs bitmap (Suc i) ts r')"

definition com_query_text :: "conn \<Rightarrow> bytes \<Rightarrow> bytes option" where
  "com_query_text c p =
    (if \<not> cn_query_attrs c then Some p
     else case lenenc_int p of None \<Rightarrow> None
     | Some (param_count, r1) \<Rightarrow>
        (case lenenc_int r1 of None \<Rightarrow> None
         | Some (_, r2) \<Rightarrow>
            if param_count = 0 then Some r2
            else (case rd_take (bitmap_len param_count) r2 of None \<Rightarrow> None
             | Some (bitmap, r3) \<Rightarrow>
                (case rd_u8 r3 of None \<Rightarrow> None
                 | Some (bound, r4) \<Rightarrow>
                    if bound \<noteq> 1 then None
                    else (case read_types True param_count r4 of None \<Rightarrow> None
                     | Some (types, r5) \<Rightarrow> skip_attrs bitmap 0 types r5)))))"

text \<open>The values of an execute: NULL by the bitmap, long data by statement and index, else from
  the packet.\<close>

fun read_values ::
  "(nat \<times> nat \<rightharpoonup> bytes) \<Rightarrow> nat \<Rightarrow> bytes \<Rightarrow> nat \<Rightarrow> (u8 \<times> u8) list \<Rightarrow> bytes \<Rightarrow> string list option" where
  "read_values long stmt_id bitmap i [] r = Some []"
| "read_values long stmt_id bitmap i ((t, f) # ts) r =
    (if null_bit bitmap i then
       map_option (\<lambda>vs. ''NULL'' # vs) (read_values long stmt_id bitmap (Suc i) ts r)
     else case long (stmt_id, i mod 2 ^ 16) of
       Some data \<Rightarrow>
         map_option (\<lambda>vs. bytes_literal data # vs) (read_values long stmt_id bitmap (Suc i) ts r)
     | None \<Rightarrow>
        (case decode_binary_value t f r of
           None \<Rightarrow> None
         | Some (v, r') \<Rightarrow>
            map_option (\<lambda>vs. v # vs) (read_values long stmt_id bitmap (Suc i) ts r')))"

text \<open>\<open>retain(|(sid, _), _| *sid != stmt_id)\<close>\<close>

definition drop_long_data :: "nat \<Rightarrow> conn \<Rightarrow> conn" where
  "drop_long_data stmt_id c =
    c\<lparr>cn_long_data := (\<lambda>k. if fst k = stmt_id then None else cn_long_data c k)\<rparr>"

definition set_param_types :: "nat \<Rightarrow> (u8 \<times> u8) list \<Rightarrow> conn \<Rightarrow> conn" where
  "set_param_types stmt_id types c =
    (case cn_stmts c stmt_id of
       None \<Rightarrow> c
     | Some s \<Rightarrow> c\<lparr>cn_stmts := (cn_stmts c)(stmt_id \<mapsto> s\<lparr>ps_param_types := Some types\<rparr>)\<rparr>)"

text \<open>The part of \<open>decode_execute\<close> that reads the parameter values; the types bound by this
  packet are remembered even when a value fails. \<open>None\<close> is the early return.\<close>

definition execute_types ::
  "conn \<Rightarrow> nat \<Rightarrow> bool \<Rightarrow> nat \<Rightarrow> u8 \<Rightarrow> bytes \<Rightarrow> conn \<times> ((u8 \<times> u8) list \<times> bytes) option" where
  "execute_types c stmt_id named param_count bound r =
    (if bound = 1 then
       (case read_types named param_count r of
          None \<Rightarrow> (c, None)
        | Some (types, r') \<Rightarrow> (set_param_types stmt_id types c, Some (types, r')))
     else case cn_stmts c stmt_id of
       None \<Rightarrow> (c, None)
     | Some s \<Rightarrow> (c, map_option (\<lambda>types. (types, r)) (ps_param_types s)))"

definition execute_values ::
  "conn \<Rightarrow> nat \<Rightarrow> bool \<Rightarrow> nat \<Rightarrow> bytes \<Rightarrow> conn \<times> string list option" where
  "execute_values c stmt_id named param_count r =
    (if param_count = 0 then (c, Some [])
     else case rd_take (bitmap_len param_count) r of None \<Rightarrow> (c, None)
     | Some (bitmap, r1) \<Rightarrow>
        (case rd_u8 r1 of None \<Rightarrow> (c, None)
         | Some (bound, r2) \<Rightarrow>
            (case execute_types c stmt_id named param_count bound r2 of
               (c', None) \<Rightarrow> (c', None)
             | (c', Some (types, r3)) \<Rightarrow>
                if length types < param_count then (c', None)
                else (c', read_values (cn_long_data c') stmt_id bitmap 0 (take param_count types) r3))))"

definition decode_execute :: "conn \<Rightarrow> bytes \<Rightarrow> conn \<times> string option" where
  "decode_execute c p =
    (case rd_uint 4 p of None \<Rightarrow> (c, None)
     | Some (stmt_id, r1) \<Rightarrow>
        (case rd_u8 r1 of None \<Rightarrow> (c, None)
         | Some (flags, r2) \<Rightarrow>
            (case rd_take 4 r2 of None \<Rightarrow> (c, None)
             | Some (_, r3) \<Rightarrow>
                (case cn_stmts c stmt_id of None \<Rightarrow> (c, None)
                 | Some stmt \<Rightarrow>
                    let num_params = ps_num_params stmt;
                        named = (cn_query_attrs c \<and> has_flag flags PARAMETER_COUNT_AVAILABLE)
                    in case (if named then lenenc_int r3 else Some (num_params, r3)) of
                         None \<Rightarrow> (c, None)
                       | Some (param_count, r4) \<Rightarrow>
                          (case execute_values c stmt_id named param_count r4 of
                             (c', None) \<Rightarrow> (c', None)
                           | (c', Some vals) \<Rightarrow>
                              (drop_long_data stmt_id c',
                               interpolate (ps_sql stmt) (take num_params vals) num_params))))))"

section \<open>Requests\<close>

definition push_pending :: "u8 \<Rightarrow> pending \<Rightarrow> conn \<Rightarrow> conn" where
  "push_pending seq p c = c\<lparr>cn_pending := cn_pending c @ [\<lparr>resp_seq = seq, in_pending = p\<rparr>]\<rparr>"

definition queue_event :: "u8 \<Rightarrow> int \<Rightarrow> string \<Rightarrow> conn \<Rightarrow> conn" where
  "queue_event seq ts query c =
    (let c' = (case parse_use_target query of Some db \<Rightarrow> c\<lparr>cn_db := Some db\<rparr> | None \<Rightarrow> c) in
     push_pending seq
       (Event_pending \<lparr>pe_ts = ts, pe_query = query, pe_latency = Fin 0, pe_response_seen = False,
          pe_db = cn_db c', pe_user = cn_user c'\<rparr>) c')"

definition count_ignored :: "conn \<Rightarrow> conn" where
  "count_ignored c =
    c\<lparr>cn_stats := (cn_stats c)\<lparr>commands_ignored := commands_ignored (cn_stats c) + 1\<rparr>\<rparr>"

definition com_query :: "u8 \<Rightarrow> int \<Rightarrow> bytes \<Rightarrow> conn \<Rightarrow> conn" where
  "com_query seq ts body c =
    (case com_query_text c body of
       Some text \<Rightarrow> queue_event seq ts (lossy text) c
     | None \<Rightarrow> push_pending seq Silent_pending (count_ignored c))"

definition com_init_db :: "u8 \<Rightarrow> int \<Rightarrow> bytes \<Rightarrow> conn \<Rightarrow> conn" where
  "com_init_db seq ts body c =
    (let db = lossy body in
     queue_event seq ts (''USE '' @ [BTICK] @ double_backticks db @ [BTICK]) (c\<lparr>cn_db := Some db\<rparr>))"

definition com_stmt_execute :: "u8 \<Rightarrow> int \<Rightarrow> bytes \<Rightarrow> conn \<Rightarrow> conn" where
  "com_stmt_execute seq ts body c =
    (case decode_execute c body of
       (c', Some query) \<Rightarrow>
         queue_event seq ts query
           (c'\<lparr>cn_stats := (cn_stats c')\<lparr>statements_expanded := statements_expanded (cn_stats c') + 1\<rparr>\<rparr>)
     | (c', None) \<Rightarrow>
         push_pending seq Silent_pending
           (c'\<lparr>cn_stats := (cn_stats c')
             \<lparr>statements_inexpandable := statements_inexpandable (cn_stats c') + 1\<rparr>\<rparr>))"

definition com_send_long_data :: "bytes \<Rightarrow> conn \<Rightarrow> conn" where
  "com_send_long_data p c =
    (if 7 \<le> length p then
       let k = (le_val (take 4 (drop 1 p)), le_val (take 2 (drop 5 p)));
           old = (case cn_long_data c k of Some d \<Rightarrow> d | None \<Rightarrow> [])
       in c\<lparr>cn_long_data := (cn_long_data c)(k \<mapsto> old @ drop 7 p)\<rparr>
     else c)"

definition com_stmt_close :: "bytes \<Rightarrow> conn \<Rightarrow> conn" where
  "com_stmt_close p c =
    (if 5 \<le> length p then
       let stmt_id = le_val (take 4 (drop 1 p)) in
       drop_long_data stmt_id (c\<lparr>cn_stmts := (cn_stmts c)(stmt_id := None)\<rparr>)
     else c)"

definition com_stmt_reset :: "u8 \<Rightarrow> bytes \<Rightarrow> conn \<Rightarrow> conn" where
  "com_stmt_reset seq p c =
    push_pending seq Silent_pending
      (if 5 \<le> length p then drop_long_data (le_val (take 4 (drop 1 p))) c else c)"

definition on_command :: "packet \<Rightarrow> conn \<Rightarrow> conn" where
  "on_command pkt c0 =
    (let c = (if cn_pending c0 = [] then c0\<lparr>cn_server_cont_seq := None\<rparr> else c0);
         seq = last_seq pkt + 1; p = payload pkt; ts = pkt_ts pkt
     in case p of [] \<Rightarrow> c
        | cmd # body \<Rightarrow>
           if cmd = 0x03 then com_query seq ts body c
           else if cmd = 0x02 then com_init_db seq ts body c
           else if cmd = 0x16 then push_pending seq (Prepare_pending (lossy body)) c
           else if cmd = 0x17 then com_stmt_execute seq ts body c
           else if cmd = 0x18 then com_send_long_data p c
           else if cmd = 0x19 then com_stmt_close p c
           else if cmd = 0x1A then com_stmt_reset seq p c
           else if cmd = 0x01 then c\<lparr>cn_finished := True\<rparr>
           else push_pending seq Silent_pending (count_ignored c))"

section \<open>The handshake response\<close>

definition auth_rest :: "u32 \<Rightarrow> bytes \<Rightarrow> bytes option" where
  "auth_rest caps r =
    (if has_flag caps CLIENT_PLUGIN_AUTH_LENENC_CLIENT_DATA then map_option snd (lenenc_bytes r)
     else if has_flag caps CLIENT_SECURE_CONNECTION then
       (case rd_u8 r of None \<Rightarrow> None | Some (n, r') \<Rightarrow> map_option snd (rd_take (unat n) r'))
     else map_option snd (rd_cstring r))"

definition login_names :: "u32 \<Rightarrow> bytes \<Rightarrow> conn \<Rightarrow> conn" where
  "login_names caps p c =
    (case rd_cstring (rd_skip 32 p) of
       None \<Rightarrow> c
     | Some (user, r1) \<Rightarrow>
        let c1 = c\<lparr>cn_user := Some (lossy user)\<rparr> in
        (case auth_rest caps r1 of
           None \<Rightarrow> c1
         | Some r2 \<Rightarrow>
            if \<not> has_flag caps CLIENT_CONNECT_WITH_DB then c1
            else (case rd_cstring r2 of
               None \<Rightarrow> c1
             | Some (db, _) \<Rightarrow> if db = [] then c1 else c1\<lparr>cn_db := Some (lossy db)\<rparr>)))"

definition on_login :: "packet \<Rightarrow> conn \<Rightarrow> conn" where
  "on_login pkt c =
    (let p = payload pkt; caps = word_of_nat (le_val (take 4 p)) :: u32 in
     if length p < 4 then c\<lparr>cn_disposition := BadHandshake\<rparr>
     else if \<not> has_flag caps CLIENT_PROTOCOL_41 then c\<lparr>cn_disposition := BadHandshake\<rparr>
     else if has_flag caps CLIENT_SSL then c\<lparr>cn_disposition := Tls\<rparr>
     else if has_flag caps (or CLIENT_COMPRESS CLIENT_ZSTD_COMPRESSION_ALGORITHM) then
       c\<lparr>cn_disposition := Compressed\<rparr>
     else
       let c1 = c\<lparr>cn_caps := caps,
         cn_query_attrs := has_flag (and caps (cn_server_caps c)) CLIENT_QUERY_ATTRIBUTES\<rparr>
       in (login_names caps p c1)\<lparr>cn_phase := Established\<rparr>)"

definition on_client_packet :: "packet \<Rightarrow> conn \<Rightarrow> conn" where
  "on_client_packet pkt c =
    (case cn_phase c of
       Greeting \<Rightarrow> c\<lparr>cn_disposition := BadHandshake\<rparr>
     | Login \<Rightarrow> on_login pkt c
     | Established \<Rightarrow> if first_seq pkt \<noteq> 0 then c else on_command pkt c)"

section \<open>Responses\<close>

definition latency_of :: "int \<Rightarrow> int \<Rightarrow> f64" where
  "latency_of resp_ts req_ts =
    f64_div (f64_of_int (max (wrap_i64 (resp_ts - req_ts)) 0)) (f64_of_int 1000000)"

definition register_stmt :: "string \<Rightarrow> bytes \<Rightarrow> conn \<Rightarrow> conn" where
  "register_stmt sql p c =
    (if 9 \<le> length p \<and> p ! 0 = 0 then
       c\<lparr>cn_stmts := (cn_stmts c)(le_val (take 4 (drop 1 p)) \<mapsto>
         \<lparr>ps_sql = sql, ps_num_params = le_val (take 2 (drop 7 p)), ps_param_types = None\<rparr>)\<rparr>
     else c)"

text \<open>The front request meets its response.\<close>

definition complete_request :: "packet \<Rightarrow> pending \<Rightarrow> conn \<Rightarrow> conn \<times> proto_event list" where
  "complete_request pkt p c =
    (case p of
       Event_pending ev \<Rightarrow>
         (c, [ev\<lparr>pe_latency := latency_of (pkt_ts pkt) (pe_ts ev), pe_response_seen := True\<rparr>])
     | Prepare_pending sql \<Rightarrow> (register_stmt sql (payload pkt) c, [])
     | Silent_pending \<Rightarrow> (c, []))"

definition on_response :: "packet \<Rightarrow> conn \<Rightarrow> conn \<times> proto_event list" where
  "on_response pkt c =
    (if cn_server_cont_seq c = Some (first_seq pkt) then
       (c\<lparr>cn_server_cont_seq := Some (last_seq pkt + 1)\<rparr>, [])
     else case cn_pending c of
       [] \<Rightarrow> (c\<lparr>cn_server_cont_seq := None\<rparr>, [])
     | f # rest \<Rightarrow>
        if resp_seq f \<noteq> first_seq pkt then (c\<lparr>cn_server_cont_seq := None\<rparr>, [])
        else complete_request pkt (in_pending f)
          (c\<lparr>cn_server_cont_seq := Some (last_seq pkt + 1), cn_pending := rest\<rparr>))"

definition on_server_packet :: "packet \<Rightarrow> conn \<Rightarrow> conn \<times> proto_event list" where
  "on_server_packet pkt c =
    (case cn_phase c of
       Greeting \<Rightarrow>
        (case parse_greeting (payload pkt) of
           Some (version, thread_id, caps) \<Rightarrow>
             (c\<lparr>cn_server_version := Some version, cn_thread_id := Some thread_id,
                cn_server_caps := caps, cn_phase := Login\<rparr>, [])
         | None \<Rightarrow> (c\<lparr>cn_disposition := BadHandshake\<rparr>, []))
     | Login \<Rightarrow> (c\<lparr>cn_disposition := BadHandshake\<rparr>, [])
     | Established \<Rightarrow> on_response pkt c)"

section \<open>The connection\<close>

definition decoding :: "conn \<Rightarrow> bool" where
  "decoding c \<longleftrightarrow> \<not> cn_finished c \<and> cn_disposition c = Active"

definition on_packet :: "dir \<Rightarrow> packet \<Rightarrow> conn \<Rightarrow> conn \<times> proto_event list" where
  "on_packet d pkt c =
    (case d of Client \<Rightarrow> (on_client_packet pkt c, []) | Server \<Rightarrow> on_server_packet pkt c)"

text \<open>The loop over the packets of one chunk, left as soon as the connection is not decoding.\<close>

fun on_packets :: "dir \<Rightarrow> packet list \<Rightarrow> conn \<Rightarrow> conn \<times> proto_event list" where
  "on_packets d [] c = (c, [])"
| "on_packets d (pkt # pkts) c =
    (case on_packet d pkt c of
       (c1, out1) \<Rightarrow>
         if \<not> decoding c1 then (c1, out1)
         else case on_packets d pkts c1 of (c2, out2) \<Rightarrow> (c2, out1 @ out2))"

definition feed_dir :: "dir \<Rightarrow> int \<Rightarrow> bytes \<Rightarrow> conn \<Rightarrow> conn \<times> packet list" where
  "feed_dir d ts data c =
    (case d of
       Client \<Rightarrow> (case feed (cn_client c) ts data of (a, ps) \<Rightarrow> (c\<lparr>cn_client := a\<rparr>, ps))
     | Server \<Rightarrow> (case feed (cn_server c) ts data of (a, ps) \<Rightarrow> (c\<lparr>cn_server := a\<rparr>, ps)))"

definition on_data :: "dir \<Rightarrow> int \<Rightarrow> bytes \<Rightarrow> conn \<Rightarrow> conn \<times> proto_event list" where
  "on_data d ts data c =
    (if \<not> decoding c then (c, [])
     else case feed_dir d ts data c of
       (c1, packets) \<Rightarrow>
         if asm_broken (cn_client c1) \<or> asm_broken (cn_server c1)
         then (c1\<lparr>cn_disposition := Broken\<rparr>, [])
         else on_packets d packets c1)"

text \<open>\<open>finish\<close>: in-flight events leave as response-missing events.\<close>

definition missing_event :: "in_flight \<Rightarrow> proto_event list" where
  "missing_event f =
    (case in_pending f of
       Event_pending ev \<Rightarrow> [ev\<lparr>pe_response_seen := False, pe_latency := Fin 0\<rparr>]
     | _ \<Rightarrow> [])"

definition finish_conn :: "conn \<Rightarrow> conn \<times> proto_event list" where
  "finish_conn c =
    (if cn_finished c then (c, [])
     else
       let out = concat (map missing_event (cn_pending c)) in
       (c\<lparr>cn_finished := True, cn_pending := [],
          cn_stats := (cn_stats c)\<lparr>responses_missing := responses_missing (cn_stats c) + length out\<rparr>\<rparr>,
        out))"

end
