(* ===== verification/Conn_Props.thy ===== *)
theory Conn_Props
  imports Conn_Decoder
begin

text \<open>
  What the connection decoder promises, for any sequence of chunks: requests leave in the order
  they were sent, each exactly once, and nothing is emitted for an opaque or broken stream. The
  one exception is proved as such: COM_QUIT drops what is in flight.
\<close>

section \<open>Runs\<close>

datatype input = Data dir int bytes | Close

fun step :: "input \<Rightarrow> conn \<Rightarrow> conn \<times> proto_event list" where
  "step (Data d ts data) c = on_data d ts data c"
| "step Close c = finish_conn c"

fun run :: "input list \<Rightarrow> conn \<Rightarrow> conn \<times> proto_event list" where
  "run [] c = (c, [])"
| "run (i # is) c =
    (case step i c of (c1, out1) \<Rightarrow> case run is c1 of (c2, out2) \<Rightarrow> (c2, out1 @ out2))"

text \<open>The request of an event: what was known when it was queued.\<close>

definition request :: "proto_event \<Rightarrow> proto_event" where
  "request ev = ev\<lparr>pe_latency := Fin 0, pe_response_seen := False\<rparr>"

definition event_of :: "in_flight \<Rightarrow> proto_event list" where
  "event_of f = (case in_pending f of Event_pending ev \<Rightarrow> [ev] | _ \<Rightarrow> [])"

definition pending_events :: "conn \<Rightarrow> proto_event list" where
  "pending_events c = concat (map event_of (cn_pending c))"

text \<open>The statements a client packet queues, and those of a run, in order.\<close>

definition queued_by :: "packet \<Rightarrow> conn \<Rightarrow> proto_event list" where
  "queued_by pkt c =
    concat (map event_of (drop (length (cn_pending c)) (cn_pending (on_client_packet pkt c))))"

fun queued_packets :: "dir \<Rightarrow> packet list \<Rightarrow> conn \<Rightarrow> proto_event list" where
  "queued_packets d [] c = []"
| "queued_packets d (pkt # pkts) c =
    (case d of Client \<Rightarrow> queued_by pkt c | Server \<Rightarrow> []) @
    (let c1 = fst (on_packet d pkt c) in if decoding c1 then queued_packets d pkts c1 else [])"

definition queued_data :: "dir \<Rightarrow> int \<Rightarrow> bytes \<Rightarrow> conn \<Rightarrow> proto_event list" where
  "queued_data d ts data c =
    (if \<not> decoding c then []
     else case feed_dir d ts data c of
       (c1, packets) \<Rightarrow>
         if asm_broken (cn_client c1) \<or> asm_broken (cn_server c1) then []
         else queued_packets d packets c1)"

fun queued_run :: "input list \<Rightarrow> conn \<Rightarrow> proto_event list" where
  "queued_run [] c = []"
| "queued_run (i # is) c =
    (case i of Data d ts data \<Rightarrow> queued_data d ts data c | Close \<Rightarrow> []) @
    queued_run is (fst (step i c))"

section \<open>The queue\<close>

text \<open>Events in flight are as queued.\<close>

definition fresh :: "conn \<Rightarrow> bool" where
  "fresh c \<longleftrightarrow> (\<forall>ev \<in> set (pending_events c). request ev = ev)"

text \<open>A client command appends to the queue, and what it appends is fresh.\<close>

definition grows :: "conn \<Rightarrow> conn \<Rightarrow> bool" where
  "grows c c' \<longleftrightarrow>
    (\<exists>new. cn_pending c' = cn_pending c @ new \<and>
      (\<forall>f \<in> set new. \<forall>ev \<in> set (event_of f). request ev = ev))"

lemma grows_refl: "cn_pending c' = cn_pending c \<Longrightarrow> grows c c'"
  by (simp add: grows_def)

lemma grows_push:
  "cn_pending c' = cn_pending c \<Longrightarrow> (\<And>ev. p = Event_pending ev \<Longrightarrow> request ev = ev) \<Longrightarrow>
    grows c (push_pending seq p c')"
  by (auto simp: grows_def push_pending_def event_of_def split: pending.splits)

lemma grows_queue: "cn_pending c' = cn_pending c \<Longrightarrow> grows c (queue_event seq ts q c')"
  by (auto simp: queue_event_def Let_def request_def intro!: grows_push split: option.splits)

lemma pending_drop_long_data [simp]: "cn_pending (drop_long_data k c) = cn_pending c"
  by (simp add: drop_long_data_def)

lemma pending_set_param_types [simp]: "cn_pending (set_param_types k ts c) = cn_pending c"
  by (simp add: set_param_types_def split: option.splits)

lemma pending_execute_types:
  "execute_types c k named n b r = (c', x) \<Longrightarrow> cn_pending c' = cn_pending c"
  by (auto simp: execute_types_def split: if_splits option.splits)

lemma pending_execute_values:
  "execute_values c k named n r = (c', x) \<Longrightarrow> cn_pending c' = cn_pending c"
  by (auto simp: execute_values_def dest!: pending_execute_types
      split: if_splits option.splits prod.splits)

lemma pending_decode_execute:
  "decode_execute c p = (c', x) \<Longrightarrow> cn_pending c' = cn_pending c"
  by (auto simp: decode_execute_def Let_def dest!: pending_execute_values
      split: option.splits prod.splits)

lemma pending_login_names: "cn_pending (login_names caps p c) = cn_pending c"
  by (simp add: login_names_def Let_def split: option.splits prod.splits)

lemma pending_on_login: "cn_pending (on_login pkt c) = cn_pending c"
  by (simp add: on_login_def Let_def pending_login_names)

lemma grows_on_command: "grows c (on_command pkt c)"
proof -
  define c1 where "c1 = (if cn_pending c = [] then c\<lparr>cn_server_cont_seq := None\<rparr> else c)"
  have p: "cn_pending c1 = cn_pending c" by (simp add: c1_def)
  have ig: "cn_pending (count_ignored c1) = cn_pending c" by (simp add: count_ignored_def p)
  have "grows c (com_query s t b c1)" for s t b
    using p ig by (auto simp: com_query_def intro: grows_queue grows_push split: option.splits)
  moreover have "grows c (com_init_db s t b c1)" for s t b
    using p by (auto simp: com_init_db_def Let_def intro: grows_queue)
  moreover have "grows c (com_stmt_execute s t b c1)" for s t b
    using p by (auto simp: com_stmt_execute_def intro!: grows_queue grows_push
        dest!: pending_decode_execute split: option.splits prod.splits)
  moreover have "grows c (com_send_long_data b c1)" for b
    using p by (auto simp: com_send_long_data_def Let_def intro: grows_refl)
  moreover have "grows c (com_stmt_close b c1)" for b
    using p by (auto simp: com_stmt_close_def Let_def intro: grows_refl)
  moreover have "grows c (com_stmt_reset s b c1)" for s b
    using p by (auto simp: com_stmt_reset_def intro: grows_push)
  moreover have "grows c (push_pending s Silent_pending (count_ignored c1))" for s
    using ig by (auto intro: grows_push)
  moreover have "grows c (push_pending s (Prepare_pending q) c1)" for s q
    using p by (auto intro: grows_push)
  moreover have "grows c (c1\<lparr>cn_finished := True\<rparr>)" "grows c c1" using p by (auto intro: grows_refl)
  ultimately show ?thesis
    unfolding on_command_def Let_def c1_def [symmetric] by (simp split: list.splits)
qed

lemma grows_on_client_packet: "grows c (on_client_packet pkt c)"
  using grows_on_command pending_on_login
  by (auto simp: on_client_packet_def intro: grows_refl split: phase.splits)

lemma client_step:
  assumes "fresh c"
  shows "pending_events (on_client_packet pkt c) = pending_events c @ queued_by pkt c \<and>
    fresh (on_client_packet pkt c)"
proof -
  obtain new where n: "cn_pending (on_client_packet pkt c) = cn_pending c @ new"
    "\<forall>f \<in> set new. \<forall>ev \<in> set (event_of f). request ev = ev"
    using grows_on_client_packet [of c pkt] unfolding grows_def by blast
  then show ?thesis using assms by (auto simp: pending_events_def queued_by_def fresh_def)
qed

lemma request_idem [simp]: "request (request ev) = request ev"
  by (simp add: request_def)

lemma request_update [simp]:
  "request (ev\<lparr>pe_latency := l, pe_response_seen := s\<rparr>) = request ev"
  "request (ev\<lparr>pe_response_seen := s, pe_latency := l\<rparr>) = request ev"
  by (simp_all add: request_def)

lemma pending_register [simp]: "cn_pending (register_stmt sql p c) = cn_pending c"
  by (simp add: register_stmt_def)

lemma server_step:
  assumes "fresh c" and "on_server_packet pkt c = (c', out)"
  shows "map request out @ pending_events c' = pending_events c \<and> fresh c'"
proof -
  have r: "map request out @ pending_events c' = pending_events c" if "on_response pkt c = (c', out)"
  proof (cases "cn_pending c")
    case (Cons f rest)
    then show ?thesis using that assms(1)
      by (auto simp: on_response_def complete_request_def pending_events_def fresh_def event_of_def
          split: if_splits pending.splits)
  qed (use that in \<open>auto simp: on_response_def pending_events_def split: if_splits\<close>)
  have "map request out @ pending_events c' = pending_events c"
    using assms(2) r
    by (auto simp: on_server_packet_def pending_events_def split: phase.splits option.splits)
  moreover from this have "set (pending_events c') \<subseteq> set (pending_events c)"
    by (metis Un_upper2 set_append)
  ultimately show ?thesis using assms(1) by (auto simp: fresh_def)
qed

lemma on_packets_queue:
  assumes "fresh c" and "on_packets d pkts c = (c', out)"
  shows "map request out @ pending_events c' = pending_events c @ queued_packets d pkts c \<and> fresh c'"
  using assms
proof (induction d pkts c arbitrary: out rule: on_packets.induct)
  case (2 d pkt pkts c)
  obtain c1 out1 where s: "on_packet d pkt c = (c1, out1)" by fastforce
  have st: "map request out1 @ pending_events c1 =
      pending_events c @ (case d of Client \<Rightarrow> queued_by pkt c | Server \<Rightarrow> []) \<and> fresh c1"
  proof (cases d)
    case Client
    with s client_step [OF "2.prems"(1), of pkt] show ?thesis by (auto simp: on_packet_def)
  next
    case Server
    with s server_step [OF "2.prems"(1)] show ?thesis by (auto simp: on_packet_def)
  qed
  show ?case
  proof (cases "decoding c1")
    case True
    obtain c2 out2 where l: "on_packets d pkts c1 = (c2, out2)" by fastforce
    have "c2 = c'" using "2.prems"(2) s l True by simp
    then have "map request out2 @ pending_events c2 = pending_events c1 @ queued_packets d pkts c1 \<and> fresh c2"
      using "2.IH" [OF s [symmetric]] True st l by simp
    then show ?thesis using st s l True "2.prems"(2) by auto
  next
    case False
    then show ?thesis using st s "2.prems"(2) by auto
  qed
qed simp

lemma pending_feed_dir: "feed_dir d ts data c = (c', ps) \<Longrightarrow> cn_pending c' = cn_pending c"
  by (auto simp: feed_dir_def split: dir.splits prod.splits)

lemma on_data_queue:
  assumes "fresh c" and "on_data d ts data c = (c', out)"
  shows "map request out @ pending_events c' = pending_events c @ queued_data d ts data c \<and> fresh c'"
proof (cases "decoding c")
  case True
  obtain c1 ps where f: "feed_dir d ts data c = (c1, ps)" by fastforce
  have pe: "pending_events c1 = pending_events c"
    using pending_feed_dir [OF f] by (simp add: pending_events_def)
  then have "fresh c1" using assms(1) by (simp add: fresh_def)
  show ?thesis
  proof (cases "asm_broken (cn_client c1) \<or> asm_broken (cn_server c1)")
    case True
    have "pending_events (c1\<lparr>cn_disposition := Broken\<rparr>) = pending_events c"
      using pe by (simp add: pending_events_def)
    then show ?thesis using True \<open>decoding c\<close> assms f
      by (auto simp: on_data_def queued_data_def fresh_def)
  next
    case False
    then show ?thesis using \<open>decoding c\<close> assms f pe on_packets_queue [OF \<open>fresh c1\<close>]
      by (simp add: on_data_def queued_data_def)
  qed
qed (use assms in \<open>auto simp: on_data_def queued_data_def\<close>)

lemma finish_queue:
  assumes "fresh c" and "finish_conn c = (c', out)"
  shows "map request out @ pending_events c' = pending_events c \<and> fresh c'"
proof -
  have m: "map request (missing_event f) = event_of f" if "\<forall>ev \<in> set (event_of f). request ev = ev" for f
    using that by (auto simp: missing_event_def event_of_def split: pending.splits)
  have "map request (concat (map missing_event fs)) = concat (map event_of fs)"
    if "\<forall>f \<in> set fs. \<forall>ev \<in> set (event_of f). request ev = ev" for fs
    using that by (induction fs) (simp_all add: m)
  then show ?thesis using assms
    by (auto simp: finish_conn_def Let_def pending_events_def fresh_def split: if_splits)
qed

lemma run_queue:
  assumes "fresh c" and "run is c = (c', out)"
  shows "map request out @ pending_events c' = pending_events c @ queued_run is c"
  using assms
proof (induction "is" arbitrary: c out)
  case (Cons i "is")
  obtain c1 out1 where s: "step i c = (c1, out1)" by fastforce
  obtain out2 where r: "run is c1 = (c', out2)" "out = out1 @ out2"
    using Cons.prems(2) s by (auto split: prod.splits)
  have st: "map request out1 @ pending_events c1 =
      pending_events c @ (case i of Data d ts data \<Rightarrow> queued_data d ts data c | Close \<Rightarrow> []) \<and> fresh c1"
    using s on_data_queue [OF Cons.prems(1)] finish_queue [OF Cons.prems(1)]
    by (cases i) auto
  have "map request out2 @ pending_events c' = pending_events c1 @ queued_run is c1"
    using Cons.IH st r(1) by blast
  then show ?case using st r(2) s by simp
qed simp

text \<open>C23: Conservation and order: after any run, the statements the client queued are, in order
  and each once, those that were emitted followed by those still in flight; an emitted event is
  its request with only the latency and the response flag filled in.\<close>
theorem events_fifo:
  "queued_run is new_conn =
    map request (snd (run is new_conn)) @ pending_events (fst (run is new_conn))"
proof -
  obtain c out where r: "run is new_conn = (c, out)" by fastforce
  have "fresh new_conn" "pending_events new_conn = []"
    by (simp_all add: fresh_def pending_events_def new_conn_def)
  with run_queue [OF _ r] r show ?thesis by simp
qed

section \<open>The end of a connection\<close>

text \<open>Unless the client quit, closing the connection empties the queue: every statement the
  client ever queued has been emitted.\<close>
theorem close_emits_all:
  assumes "\<not> cn_finished (fst (run is new_conn))"
  shows "map request (snd (run (is @ [Close]) new_conn)) = queued_run is new_conn"
proof -
  obtain c out where r: "run is new_conn = (c, out)" by fastforce
  have app: "run (is @ js) d = (case run is d of (d1, o1) \<Rightarrow> case run js d1 of (d2, o2) \<Rightarrow> (d2, o1 @ o2))"
    for js d by (induction "is" arbitrary: d) (auto split: prod.splits)
  have qapp: "queued_run (is @ js) d = queued_run is d @ queued_run js (fst (run is d))" for js d
    by (induction "is" arbitrary: d) (auto split: prod.splits)
  have "pending_events (fst (run (is @ [Close]) new_conn)) = []"
    using assms r by (simp add: app finish_conn_def Let_def pending_events_def)
  with events_fifo [of "is @ [Close]"] show ?thesis by (simp add: qapp)
qed

text \<open>Evaluation of a connection on concrete packets.\<close>

lemmas conn_eval =
  new_conn_def new_assembler_def on_data_def decoding_def feed_dir_def feed_def feed_loop.simps
  join_frame_def FULL_def ts_for_def MAX_LOGICAL_PACKET_def on_packet_def on_server_packet_def
  parse_greeting_def rd_cstring_def rd_uint_def rd_take_def greeting_caps_def rd_skip_def
  on_client_packet_def on_login_def has_flag_def CLIENT_PROTOCOL_41_def CLIENT_SSL_def
  CLIENT_COMPRESS_def CLIENT_ZSTD_COMPRESSION_ALGORITHM_def Let_def login_names_def
  on_command_def com_query_def com_query_text_def queue_event_def push_pending_def

text \<open>A greeting, a handshake response and a COM_QUERY that is still in flight.\<close>

definition small_session :: "input list" where
  "small_session =
    [Data Server 1 [7, 0, 0, 0, 10, 56, 0, 7, 0, 0, 0],
     Data Client 2 [4, 0, 0, 1, 0, 2, 0, 0],
     Data Client 1000 [3, 0, 0, 0, 3, 68, 79]]"

lemma no_use_target: "parse_use_target (lossy [68, 79]) = None"
  by code_simp

lemma small_session_open: "\<not> cn_finished (fst (run small_session new_conn))"
  by (simp add: small_session_def conn_eval no_use_target)

theorem close_emits_all_witness:
  "map request (snd (run (small_session @ [Close]) new_conn)) = queued_run small_session new_conn"
  by (rule close_emits_all [OF small_session_open])

text \<open>COM_QUIT with statements in flight loses them: once the quit is seen, closing the
  connection emits nothing and counts no missing response.\<close>
theorem quit_drops_in_flight:
  assumes "cn_phase c = Established" and "payload pkt = [0x01]" and "first_seq pkt = 0"
  shows "pending_events (on_client_packet pkt c) = pending_events c \<and>
    finish_conn (on_client_packet pkt c) = (on_client_packet pkt c, []) \<and>
    cn_stats (on_client_packet pkt c) = cn_stats c"
  using assms by (simp add: on_client_packet_def on_command_def finish_conn_def pending_events_def)

theorem quit_drops_in_flight_witness:
  "\<exists>c pkt. pending_events c \<noteq> [] \<and> pending_events (on_client_packet pkt c) = pending_events c \<and>
    finish_conn (on_client_packet pkt c) = (on_client_packet pkt c, [])"
proof -
  let ?ev = "\<lparr>pe_ts = 1000, pe_query = ''DO'', pe_latency = Fin 0, pe_response_seen = False,
    pe_db = None, pe_user = None\<rparr>"
  let ?c = "new_conn\<lparr>cn_phase := Established,
    cn_pending := [\<lparr>resp_seq = 1, in_pending = Event_pending ?ev\<rparr>]\<rparr>"
  let ?q = "\<lparr>first_seq = 0, last_seq = 0, pkt_ts = 2000, payload = [0x01]\<rparr>"
  have "pending_events ?c \<noteq> []" by (simp add: pending_events_def event_of_def)
  with quit_drops_in_flight [of ?c ?q] show ?thesis by fastforce
qed

section \<open>Opaque streams\<close>

lemma not_decoding_data: "\<not> decoding c \<Longrightarrow> step (Data d ts data) c = (c, [])"
  by (simp add: on_data_def)

lemma not_decoding_run:
  "\<not> decoding c \<Longrightarrow> Close \<notin> set is \<Longrightarrow> run is c = (c, [])"
proof (induction "is")
  case (Cons i "is")
  then obtain d ts data where "i = Data d ts data" by (cases i) auto
  with Cons show ?case by (simp add: on_data_def)
qed simp

text \<open>After a handshake response that negotiates TLS or compression nothing that follows on
  the wire, in either direction, is decoded: no event, no change of the decoder.\<close>
theorem opaque_stream_is_silent:
  assumes "cn_phase c = Login" and "4 \<le> length (payload pkt)"
    and "has_flag (word_of_nat (le_val (take 4 (payload pkt)))) CLIENT_PROTOCOL_41"
    and "has_flag (word_of_nat (le_val (take 4 (payload pkt)))) CLIENT_SSL \<or>
      has_flag (word_of_nat (le_val (take 4 (payload pkt))))
        (or CLIENT_COMPRESS CLIENT_ZSTD_COMPRESSION_ALGORITHM)"
    and "Close \<notin> set is"
  shows "run is (on_client_packet pkt c) = (on_client_packet pkt c, [])"
proof (rule not_decoding_run)
  show "\<not> decoding (on_client_packet pkt c)"
    using assms by (auto simp: on_client_packet_def on_login_def decoding_def Let_def)
qed (fact assms(5))

theorem opaque_stream_is_silent_witness:
  "snd (run [Data Client 5 [1, 0, 0, 0, 14]]
    (on_client_packet \<lparr>first_seq = 1, last_seq = 1, pkt_ts = 2, payload = [0, 0x0A, 0, 0]\<rparr>
      (new_conn\<lparr>cn_phase := Login\<rparr>))) = []"
proof -
  let ?p = "\<lparr>first_seq = 1, last_seq = 1, pkt_ts = 2, payload = [0, 0x0A, 0, 0]\<rparr>"
  have "run [Data Client 5 [1, 0, 0, 0, 14]] (on_client_packet ?p (new_conn\<lparr>cn_phase := Login\<rparr>)) =
      (on_client_packet ?p (new_conn\<lparr>cn_phase := Login\<rparr>), [])"
    by (rule opaque_stream_is_silent)
      (simp_all add: has_flag_def CLIENT_PROTOCOL_41_def CLIENT_SSL_def)
  then show ?thesis by simp
qed

end
