(* ===== verification/Tcp_Stream.thy ===== *)
theory Tcp_Stream
  imports Wire
begin

text \<open>
  \<open>SeqStream\<close> of \<open>pcap.rs\<close>: one direction's TCP reassembler. Sequence numbers are 32-bit words;
  relative offsets (u64) are naturals with the reduction modulo \<open>2 ^ 64\<close> written out where the
  code's shifts and additions can overflow; the \<open>BTreeMap\<close> of out-of-order segments is a list
  sorted by offset. Deliveries are returned in order as (timestamp, bytes).
\<close>

definition MAX_PENDING_BYTES :: nat where
  "MAX_PENDING_BYTES = 8 * 1024 * 1024"

type_synonym seg_map = "(nat \<times> int \<times> bytes) list"

record seq_stream =
  ss_started :: bool
  ss_isn :: u32
  ss_next_rel :: nat
  ss_pending :: seg_map
  ss_pending_bytes :: nat
  ss_overflow :: bool

definition new_stream :: seq_stream where
  "new_stream =
    \<lparr>ss_started = False, ss_isn = 0, ss_next_rel = 0, ss_pending = [], ss_pending_bytes = 0,
     ss_overflow = False\<rparr>"

definition on_syn :: "u32 \<Rightarrow> seq_stream \<Rightarrow> seq_stream" where
  "on_syn seq s =
    s\<lparr>ss_isn := seq + 1, ss_started := True, ss_next_rel := 0, ss_pending := [],
      ss_pending_bytes := 0\<rparr>"

text \<open>\<open>rel\<close>: the candidates \<open>(kk << 32) | low\<close> for the current epoch, the one before and the one
  after; \<open>low\<close> has 32 bits, so the \<open>|\<close> is an addition.\<close>

definition abs_diff :: "nat \<Rightarrow> nat \<Rightarrow> nat" where
  "abs_diff a b = (if a < b then b - a else a - b)"

definition candidate :: "nat \<Rightarrow> nat \<Rightarrow> nat" where
  "candidate kk low = kk * 2 ^ 32 mod 2 ^ 64 + low"

definition closer :: "nat \<Rightarrow> nat \<Rightarrow> nat \<Rightarrow> nat" where
  "closer base best cand = (if abs_diff cand base < abs_diff best base then cand else best)"

definition rel :: "seq_stream \<Rightarrow> u32 \<Rightarrow> nat" where
  "rel s seq =
    (let low = unat (seq - ss_isn s); base = ss_next_rel s; k = base div 2 ^ 32;
         best = candidate k low;
         best1 = closer base best (candidate ((k + (2 ^ 64 - 1)) mod 2 ^ 64) low)
     in closer base best1 (candidate ((k + 1) mod 2 ^ 64) low))"

text \<open>\<open>BTreeMap::entry(rel)\<close>, vacant: insertion in key order.\<close>

fun insert_seg :: "nat \<Rightarrow> int \<times> bytes \<Rightarrow> seg_map \<Rightarrow> seg_map" where
  "insert_seg k v [] = [(k, v)]"
| "insert_seg k v ((k1, v1) # m) = (if k < k1 then (k, v) # (k1, v1) # m else (k1, v1) # insert_seg k v m)"

text \<open>\<open>drain\<close>: pops while the first key is not beyond the expected byte. The result: the pending
  map, its bytes, the next offset, the deliveries.\<close>

fun drain :: "seg_map \<Rightarrow> nat \<Rightarrow> nat \<Rightarrow> seg_map \<times> nat \<times> nat \<times> (int \<times> bytes) list" where
  "drain [] pb next = ([], pb, next, [])"
| "drain ((r, ts, data) # m) pb next =
    (if next < r then ((r, ts, data) # m, pb, next, [])
     else
       let pb' = pb - length data; e = (r + length data) mod 2 ^ 64 in
       if e \<le> next then drain m pb' next
       else case drain m pb' e of (m', pb2, n, out) \<Rightarrow> (m', pb2, n, (ts, drop (next - r) data) # out))"

definition stream_data :: "int \<Rightarrow> u32 \<Rightarrow> bytes \<Rightarrow> seq_stream \<Rightarrow> seq_stream \<times> (int \<times> bytes) list" where
  "stream_data ts seq body s0 =
    (if body = [] \<or> ss_overflow s0 then (s0, [])
     else
       let s = (if ss_started s0 then s0 else s0\<lparr>ss_isn := seq, ss_started := True\<rparr>);
           r = rel s seq; e = (r + length body) mod 2 ^ 64; next = ss_next_rel s
       in if e \<le> next then (s, [])
          else if r \<le> next then
            (case drain (ss_pending s) (ss_pending_bytes s) e of
               (m, pb, n, out) \<Rightarrow>
                 (s\<lparr>ss_next_rel := n, ss_pending := m, ss_pending_bytes := pb\<rparr>,
                  (ts, drop (next - r) body) # out))
          else if MAX_PENDING_BYTES < ss_pending_bytes s + length body then
            (s\<lparr>ss_overflow := True, ss_pending := [], ss_pending_bytes := 0\<rparr>, [])
          else if r \<in> fst ` set (ss_pending s) then (s, [])
          else (s\<lparr>ss_pending_bytes := ss_pending_bytes s + length body,
                  ss_pending := insert_seg r (ts, body) (ss_pending s)\<rparr>, []))"

end
