(* ===== verification/Tcp_Stream_Props.thy ===== *)
theory Tcp_Stream_Props
  imports Tcp_Stream
begin

text \<open>
  Reassembly delivers the sender's bytes: whatever the order, the duplicates and the overlaps of
  the segments, and across wrap-arounds of the sequence number, what has been delivered is the
  front of the stream. Two cases where captured bytes are not delivered are proved as such.
\<close>

section \<open>Sequence numbers\<close>

text \<open>A stream position stays below this bound (a connection of \<open>2 ^ 62\<close> bytes).\<close>

definition REL_BOUND :: nat where
  "REL_BOUND = 2 ^ 62"

lemma candidate_small: "kk < 2 ^ 32 \<Longrightarrow> candidate kk low = kk * 2 ^ 32 + low"
proof -
  assume "kk < 2 ^ 32"
  then have "kk * 2 ^ 32 < (2 :: nat) ^ 64" by simp
  then show ?thesis by (simp add: candidate_def)
qed

lemma rel_near:
  assumes "seq = ss_isn s + word_of_nat p" and "ss_next_rel s < REL_BOUND"
    and "p < ss_next_rel s + 2 ^ 31" and "ss_next_rel s < p + 2 ^ 31"
  shows "rel s seq = p"
proof -
  define b where "b = ss_next_rel s"
  define k where "k = b div 2 ^ 32"
  define low where "low = unat (seq - ss_isn s)"
  have low: "low = p mod 2 ^ 32" using assms(1) by (simp add: low_def unat_of_nat)
  have b: "b = k * 2 ^ 32 + b mod 2 ^ 32" unfolding k_def by (rule div_mult_mod_eq [symmetric])
  have k: "k < 2 ^ 30" using assms(2) unfolding k_def b_def REL_BOUND_def by (simp add: less_mult_imp_div_less)
  have p: "p = (p div 2 ^ 32) * 2 ^ 32 + low" unfolding low by (rule div_mult_mod_eq [symmetric])
  have lt: "low < 2 ^ 32" "b mod 2 ^ 32 < 2 ^ 32" unfolding low by simp_all
  have c1: "candidate k low = k * 2 ^ 32 + low" using k by (intro candidate_small) simp
  have c2: "candidate ((k + 1) mod 2 ^ 64) low = (k + 1) * 2 ^ 32 + low"
    using k by (subst candidate_small) auto
  define c3 where "c3 = candidate ((k + (2 ^ 64 - 1)) mod 2 ^ 64) low"
  have c3: "c3 = (k - 1) * 2 ^ 32 + low" if "0 < k"
  proof -
    have "(k + (2 ^ 64 - 1)) mod 2 ^ 64 = k - 1"
    proof -
      have "k + (2 ^ 64 - 1) = (k - 1) + 2 ^ 64" using that by simp
      then have "(k + (2 ^ 64 - 1)) mod 2 ^ 64 = (k - 1) mod 2 ^ 64" by (metis mod_add_self2)
      then show ?thesis using k by simp
    qed
    then show ?thesis unfolding c3_def using k by (subst candidate_small) auto
  qed
  have c30: "2 ^ 64 - 2 ^ 32 \<le> c3" if "k = 0"
    using that by (simp add: c3_def candidate_def)
  have r: "rel s seq = closer b (closer b (candidate k low) c3) ((k + 1) * 2 ^ 32 + low)"
    unfolding rel_def Let_def b_def [symmetric] low_def [symmetric] k_def [symmetric] c2 [symmetric] c3_def
    by simp
  have near: "p < b + 2 ^ 31" "b < p + 2 ^ 31" using assms(3,4) by (simp_all add: b_def)
  define q where "q = p div 2 ^ 32"
  have pq: "p = q * 2 ^ 32 + low" using p by (simp add: q_def)
  have q: "q = k \<or> q = k + 1 \<or> (0 < k \<and> q = k - 1)"
  proof -
    have "q * 2 ^ 32 < (k + 2) * 2 ^ 32" "k * 2 ^ 32 < (q + 2) * 2 ^ 32"
      using near b pq lt by simp_all
    then show ?thesis by auto
  qed
  show ?thesis
  proof (cases "k = 0")
    case True
    then have "q = 0 \<or> q = 1" using q by auto
    then show ?thesis
      using c30 [OF True] near True b pq lt unfolding r c1 closer_def abs_diff_def by auto
  next
    case False
    then show ?thesis
      using c3 q near b pq lt unfolding r c1 closer_def abs_diff_def
      by (cases k) auto
  qed
qed

lemma rel_start:
  assumes "ss_isn s = 0" and "ss_next_rel s < 2 ^ 31 - 2"
  shows "rel s 0 = 0" and "rel s 1 = 1" and "rel s 2 = 2"
  using assms rel_near [of 0 s 0] rel_near [of 1 s 1] rel_near [of 2 s 2]
  by (simp_all add: REL_BOUND_def)

text \<open>The offset of a segment is recovered from its 32-bit sequence number across any number of
  wrap-arounds, as long as the segment starts within \<open>2 ^ 31\<close> bytes of the expected one.\<close>
theorem rel_correct:
  assumes "seq = ss_isn s + word_of_nat p" and "ss_next_rel s < REL_BOUND"
    and "p < ss_next_rel s + 2 ^ 31" and "ss_next_rel s < p + 2 ^ 31"
  shows "rel s seq = p"
  using assms by (rule rel_near)

theorem rel_correct_witness:
  "rel (new_stream\<lparr>ss_isn := 5, ss_next_rel := 2 ^ 32 - 10\<rparr>) (5 + word_of_nat (2 ^ 32 + 7)) = 2 ^ 32 + 7"
  by (rule rel_correct) (simp_all add: REL_BOUND_def new_stream_def)

section \<open>Soundness\<close>

text \<open>A segment as the sender made it: capture time, position in the stream, bytes.\<close>

type_synonym segment = "int \<times> nat \<times> bytes"

definition part_of :: "bytes \<Rightarrow> nat \<Rightarrow> bytes \<Rightarrow> bool" where
  "part_of S p body \<longleftrightarrow> p + length body \<le> length S \<and> body = take (length body) (drop p S)"

fun receive :: "u32 \<Rightarrow> segment list \<Rightarrow> seq_stream \<Rightarrow> seq_stream \<times> (int \<times> bytes) list" where
  "receive isn [] s = (s, [])"
| "receive isn ((ts, p, body) # segs) s =
    (case stream_data ts (isn + word_of_nat p) body s of
       (s1, out1) \<Rightarrow> case receive isn segs s1 of (s2, out2) \<Rightarrow> (s2, out1 @ out2))"

text \<open>Every segment arrives within \<open>2 ^ 31\<close> bytes of the byte expected then (the TCP window is
  smaller than that).\<close>

fun in_window :: "u32 \<Rightarrow> segment list \<Rightarrow> seq_stream \<Rightarrow> bool" where
  "in_window isn [] s = True"
| "in_window isn ((ts, p, body) # segs) s \<longleftrightarrow>
    p < ss_next_rel s + 2 ^ 31 \<and> ss_next_rel s < p + 2 ^ 31 \<and>
    in_window isn segs (fst (stream_data ts (isn + word_of_nat p) body s))"

definition delivered :: "(int \<times> bytes) list \<Rightarrow> bytes" where
  "delivered out = concat (map snd out)"

lemma delivered_simps [simp]:
  "delivered [] = []" "delivered (x # xs) = snd x @ delivered xs"
  "delivered (xs @ ys) = delivered xs @ delivered ys"
  by (simp_all add: delivered_def)

definition seg_ok :: "bytes \<Rightarrow> seg_map \<Rightarrow> bool" where
  "seg_ok S m \<longleftrightarrow> (\<forall>x \<in> set m. part_of S (fst x) (snd (snd x)))"

lemma set_insert_seg: "set (insert_seg k v m) = insert (k, v) (set m)"
  by (induction k v m rule: insert_seg.induct) auto

lemma take_from:
  assumes "part_of S r data" and "r \<le> next" and "next < r + length data"
  shows "drop (next - r) data = take (r + length data - next) (drop next S)"
proof -
  have "drop (next - r) data = drop (next - r) (take (length data) (drop r S))"
    using assms(1) unfolding part_of_def by simp
  then show ?thesis using assms(2,3) by (simp add: drop_take add.commute)
qed

lemma take_drop_join:
  assumes "a \<le> b" and "b \<le> c"
  shows "take (b - a) (drop a S) @ take (c - b) (drop b S) = take (c - a) (drop a S)"
proof -
  have "take (c - a) (drop a S) = take ((b - a) + (c - b)) (drop a S)" using assms by simp
  also have "\<dots> = take (b - a) (drop a S) @ take (c - b) (drop (b - a) (drop a S))"
    by (rule take_add)
  also have "drop (b - a) (drop a S) = drop b S" using assms by simp
  finally show ?thesis by simp
qed

lemma drain_sound:
  "seg_ok S m \<Longrightarrow> length S < REL_BOUND \<Longrightarrow> next \<le> length S \<Longrightarrow> drain m pb next = (m', pb', n, out) \<Longrightarrow>
    next \<le> n \<and> n \<le> length S \<and> seg_ok S m' \<and> delivered out = take (n - next) (drop next S)"
proof (induction m pb "next" arbitrary: out rule: drain.induct)
  case (2 r ts data m pb "next")
  have po: "part_of S r data" and ok: "seg_ok S m" using "2.prems"(1) by (auto simp: seg_ok_def)
  have e: "(r + length data) mod 2 ^ 64 = r + length data"
    using po "2.prems"(2) by (simp add: part_of_def REL_BOUND_def)
  show ?case
  proof (cases "next < r")
    case True
    then show ?thesis using "2.prems" by simp
  next
    case False
    note nr = False
    show ?thesis
    proof (cases "r + length data \<le> next")
      case True
      then have "drain m (pb - length data) next = (m', pb', n, out)"
        using "2.prems"(4) nr e by (simp add: Let_def)
      then show ?thesis using "2.IH"(1) [OF nr refl refl] True e ok "2.prems"(2,3) by simp
    next
      case False
      obtain out' where d: "drain m (pb - length data) (r + length data) = (m', pb', n, out')"
        and out: "out = (ts, drop (next - r) data) # out'"
        using "2.prems"(4) nr e False by (auto simp: Let_def split: prod.splits)
      have le: "r + length data \<le> length S" using po by (simp add: part_of_def)
      have ih: "r + length data \<le> n \<and> n \<le> length S \<and> seg_ok S m' \<and>
          delivered out' = take (n - (r + length data)) (drop (r + length data) S)"
        using "2.IH"(2) [OF nr refl refl] False e ok "2.prems"(2) le d by simp
      have "drop (next - r) data = take (r + length data - next) (drop next S)"
        using po nr False by (intro take_from) auto
      then have "delivered out = take (r + length data - next) (drop next S) @
          take (n - (r + length data)) (drop (r + length data) S)"
        using out ih by simp
      also have "\<dots> = take (n - next) (drop next S)"
        using ih False by (intro take_drop_join) auto
      finally show ?thesis using ih False by simp
    qed
  qed
qed simp

definition sound_inv :: "u32 \<Rightarrow> bytes \<Rightarrow> seq_stream \<Rightarrow> bytes \<Rightarrow> bool" where
  "sound_inv isn S s got \<longleftrightarrow>
    ss_started s \<and> ss_isn s = isn \<and> ss_next_rel s \<le> length S \<and> seg_ok S (ss_pending s) \<and>
    got = take (ss_next_rel s) S"

lemma stream_data_sound:
  assumes "sound_inv isn S s got" and "length S < REL_BOUND" and "part_of S p body"
    and "p < ss_next_rel s + 2 ^ 31" and "ss_next_rel s < p + 2 ^ 31"
    and "stream_data ts (isn + word_of_nat p) body s = (s', out)"
  shows "sound_inv isn S s' (got @ delivered out)"
proof -
  let ?n = "ss_next_rel s"
  have st: "ss_started s" "ss_isn s = isn" "?n \<le> length S" "seg_ok S (ss_pending s)" "got = take ?n S"
    using assms(1) by (auto simp: sound_inv_def)
  have r: "rel s (isn + word_of_nat p) = p"
    using assms(2,4,5) st by (intro rel_near) auto
  have e: "(p + length body) mod 2 ^ 64 = p + length body"
    using assms(2,3) by (simp add: part_of_def REL_BOUND_def)
  have le: "p + length body \<le> length S" using assms(3) by (simp add: part_of_def)
  consider "body = [] \<or> ss_overflow s \<or> p + length body \<le> ?n"
    | "body \<noteq> []" "\<not> ss_overflow s" "?n < p + length body" "p \<le> ?n"
    | "body \<noteq> []" "\<not> ss_overflow s" "?n < p"
    by linarith
  then show ?thesis
  proof cases
    case 1
    then show ?thesis using assms(1,6) st r e by (auto simp: stream_data_def Let_def split: if_splits)
  next
    case 2
    obtain m pb n out' where d: "drain (ss_pending s) (ss_pending_bytes s) (p + length body) = (m, pb, n, out')"
      by (metis prod_cases4)
    note ds = drain_sound [OF st(4) assms(2) le d]
    have o: "out = (ts, drop (?n - p) body) # out'"
      and s': "s' = s\<lparr>ss_next_rel := n, ss_pending := m, ss_pending_bytes := pb\<rparr>"
      using assms(6) 2 st r e d by (auto simp: stream_data_def Let_def)
    have "drop (?n - p) body = take (p + length body - ?n) (drop ?n S)"
      using assms(3) 2 by (intro take_from) auto
    then have "delivered out = take (p + length body - ?n) (drop ?n S) @
        take (n - (p + length body)) (drop (p + length body) S)"
      using o ds by simp
    also have "\<dots> = take (n - ?n) (drop ?n S)" using ds 2 by (intro take_drop_join) auto
    finally have "got @ delivered out = take (?n - 0) (drop 0 S) @ take (n - ?n) (drop ?n S)"
      using st by simp
    also have "\<dots> = take (n - 0) (drop 0 S)" using ds 2 by (intro take_drop_join) auto
    finally have "got @ delivered out = take n S" by simp
    then show ?thesis using st ds s' by (simp add: sound_inv_def)
  next
    case 3
    have "seg_ok S (insert_seg p (ts, body) (ss_pending s))"
      using st(4) assms(3) by (auto simp: seg_ok_def set_insert_seg)
    then show ?thesis using assms(6) 3 st r e
      by (auto simp: stream_data_def Let_def sound_inv_def seg_ok_def split: if_splits)
  qed
qed

lemma receive_sound:
  assumes "sound_inv isn S s got" and "length S < REL_BOUND"
    and "\<forall>g \<in> set segs. part_of S (fst (snd g)) (snd (snd g))" and "in_window isn segs s"
    and "receive isn segs s = (s', out)"
  shows "sound_inv isn S s' (got @ delivered out)"
  using assms
proof (induction isn segs s arbitrary: got out rule: receive.induct)
  case (2 isn ts p body segs s)
  obtain s1 out1 where d: "stream_data ts (isn + word_of_nat p) body s = (s1, out1)" by fastforce
  obtain out2 where r: "receive isn segs s1 = (s', out2)" "out = out1 @ out2"
    using "2.prems"(5) d by (auto split: prod.splits)
  have "sound_inv isn S s1 (got @ delivered out1)"
    using "2.prems" d by (intro stream_data_sound [OF "2.prems"(1,2) _ _ _ d]) auto
  then have "sound_inv isn S s' ((got @ delivered out1) @ delivered out2)"
    using "2.IH" [OF d [symmetric], of "got @ delivered out1" out2] "2.prems" d r by auto
  then show ?case using r by simp
qed simp

text \<open>A stream of less than \<open>2 ^ 31\<close> bytes is always within the window.\<close>

lemma in_window_small:
  assumes "sound_inv isn S s got" and "length S < 2 ^ 31"
    and "\<forall>g \<in> set segs. part_of S (fst (snd g)) (snd (snd g))"
  shows "in_window isn segs s"
  using assms
proof (induction isn segs s arbitrary: got rule: in_window.induct)
  case (2 isn ts p body segs s)
  obtain s1 out1 where d: "stream_data ts (isn + word_of_nat p) body s = (s1, out1)" by fastforce
  have p: "part_of S p body" "p \<le> length S" "length S < REL_BOUND"
    using "2.prems"(2,3) by (auto simp: part_of_def REL_BOUND_def)
  have w: "p < ss_next_rel s + 2 ^ 31" "ss_next_rel s < p + 2 ^ 31"
    using p "2.prems"(1,2) by (auto simp: sound_inv_def)
  have "sound_inv isn S s1 (got @ delivered out1)"
    by (rule stream_data_sound [OF "2.prems"(1) p(3,1) w d])
  with "2.IH" "2.prems" d w show ?case by auto
qed simp

lemma sound_inv_start: "sound_inv (syn + 1) S (on_syn syn new_stream) []"
  by (simp add: sound_inv_def on_syn_def new_stream_def seg_ok_def)

text \<open>C18: Reassembly is sound: for segments of a stream in any order, repeated, overlapping or
  re-cut, with any initial sequence number and wrap-around, what the reassembler delivers is
  the front of the stream up to the byte it expects next: no byte lost, doubled or out of place.\<close>
theorem reassembly_sound:
  assumes "length S < REL_BOUND"
    and "\<forall>g \<in> set segs. part_of S (fst (snd g)) (snd (snd g))"
    and "in_window (syn + 1) segs (on_syn syn new_stream)"
  shows "delivered (snd (receive (syn + 1) segs (on_syn syn new_stream))) =
    take (ss_next_rel (fst (receive (syn + 1) segs (on_syn syn new_stream)))) S"
proof -
  obtain s' out where r: "receive (syn + 1) segs (on_syn syn new_stream) = (s', out)" by fastforce
  from receive_sound [OF sound_inv_start assms r] r show ?thesis by (simp add: sound_inv_def)
qed

theorem reassembly_sound_witness:
  "delivered (snd (receive (- 1 + 1) [(3, 2, [7, 8]), (4, 0, [5]), (5, 0, [5, 6, 7])] (on_syn (- 1) new_stream)))
    = take (ss_next_rel (fst (receive (- 1 + 1) [(3, 2, [7, 8]), (4, 0, [5]), (5, 0, [5, 6, 7])]
        (on_syn (- 1) new_stream)))) [5, 6, 7, 8, 9]"
proof (rule reassembly_sound)
  show seg: "\<forall>g \<in> set [(3, 2, [7, 8]), (4, 0, [5]), (5, 0, [5, 6, 7])].
      part_of [5, 6, 7, 8, 9] (fst (snd g)) (snd (snd g))" by (simp add: part_of_def)
  show "in_window (- 1 + 1) [(3, 2, [7, 8]), (4, 0, [5]), (5, 0, [5, 6, 7])] (on_syn (- 1) new_stream)"
    by (rule in_window_small [OF sound_inv_start _ seg]) simp
qed (simp add: REL_BOUND_def)

section \<open>Completeness\<close>

text \<open>The sender's segmentation: the pieces \<open>bs\<close>, none of them empty; piece \<open>i\<close> starts at
  \<open>cut bs i\<close>.\<close>

definition cut :: "bytes list \<Rightarrow> nat \<Rightarrow> nat" where
  "cut bs i = length (concat (take i bs))"

definition arrivals :: "bytes list \<Rightarrow> (int \<times> nat) list \<Rightarrow> segment list" where
  "arrivals bs is = map (\<lambda>(ts, i). (ts, cut bs i, bs ! i)) is"

definition pieces_ok :: "bytes list \<Rightarrow> bool" where
  "pieces_ok bs \<longleftrightarrow> (\<forall>b \<in> set bs. b \<noteq> []) \<and> length (concat bs) < 2 ^ 31"

lemma cut_Suc: "i < length bs \<Longrightarrow> cut bs (Suc i) = cut bs i + length (bs ! i)"
  by (simp add: cut_def take_Suc_conv_app_nth)

lemma cut_mono: "i \<le> j \<Longrightarrow> cut bs i \<le> cut bs j"
proof -
  assume "i \<le> j"
  then have "take j bs = take i bs @ take (j - i) (drop i bs)"
    by (metis le_add_diff_inverse take_add)
  then show ?thesis by (simp add: cut_def)
qed

lemma cut_le: "cut bs i \<le> length (concat bs)"
proof -
  have "concat bs = concat (take i bs) @ concat (drop i bs)"
    by (metis append_take_drop_id concat_append)
  then show ?thesis by (simp add: cut_def)
qed

lemma cut_strict:
  assumes "pieces_ok bs" and "i < length bs" and "i < j"
  shows "cut bs i < cut bs j"
proof -
  have "cut bs i < cut bs (Suc i)"
    using assms(1,2) by (auto simp: cut_Suc pieces_ok_def)
  also have "\<dots> \<le> cut bs j" using assms(3) by (intro cut_mono) simp
  finally show ?thesis .
qed

lemma part_of_piece: "i < length bs \<Longrightarrow> part_of (concat bs) (cut bs i) (bs ! i)"
proof -
  assume i: "i < length bs"
  have "concat bs = concat (take i bs) @ bs ! i @ concat (drop (Suc i) bs)"
    using i by (metis append_take_drop_id concat.simps(2) concat_append Cons_nth_drop_Suc)
  then show ?thesis by (simp add: part_of_def cut_def)
qed

definition keys :: "seg_map \<Rightarrow> nat set" where
  "keys m = fst ` set m"

text \<open>Buffered segments are pieces, in strict order, all beyond the expected byte.\<close>

definition pieces_in :: "bytes list \<Rightarrow> seg_map \<Rightarrow> bool" where
  "pieces_in bs m \<longleftrightarrow>
    (\<forall>x \<in> set m. \<exists>i < length bs. fst x = cut bs i \<and> snd (snd x) = bs ! i) \<and>
    sorted_wrt (<) (map fst m)"

definition boundary_at :: "bytes list \<Rightarrow> nat \<Rightarrow> bool" where
  "boundary_at bs n \<longleftrightarrow> (\<exists>i \<le> length bs. n = cut bs i)"

lemma piece_end:
  assumes "pieces_ok bs" and "i < length bs"
  shows "(cut bs i + length (bs ! i)) mod 2 ^ 64 = cut bs (Suc i)"
proof -
  have "cut bs (Suc i) < 2 ^ 31"
    using assms(1) cut_le [of bs "Suc i"] by (simp add: pieces_ok_def)
  then show ?thesis using assms(2) by (simp add: cut_Suc)
qed

lemma drain_complete:
  assumes "pieces_ok bs"
  shows "pieces_in bs m \<Longrightarrow> boundary_at bs next \<Longrightarrow> drain m pb next = (m', pb', n, out) \<Longrightarrow>
    pieces_in bs m' \<and> boundary_at bs n \<and> next \<le> n \<and> (\<forall>k \<in> keys m'. n < k) \<and>
    (\<forall>i < length bs. cut bs i \<in> keys m \<longrightarrow> cut bs (Suc i) \<le> n \<or> cut bs i \<in> keys m')"
proof (induction m pb "next" arbitrary: out rule: drain.induct)
  case (1 pb "next")
  then show ?case by (simp add: keys_def pieces_in_def)
next
  case (2 r ts data m pb "next")
  have m: "pieces_in bs m" and gt: "\<forall>k \<in> keys m. r < k"
    using "2.prems"(1) by (auto simp: pieces_in_def keys_def)
  obtain j where j: "j < length bs" "r = cut bs j" "data = bs ! j"
    using "2.prems"(1) by (auto simp: pieces_in_def)
  have e: "(r + length data) mod 2 ^ 64 = cut bs (Suc j)" using piece_end [OF assms j(1)] j by simp
  have only: "cut bs (Suc i) = cut bs (Suc j)" if "cut bs i = r" "i < length bs" for i
    using that j cut_strict [OF assms] by (metis linorder_neqE_nat nat_neq_iff)
  show ?case
  proof (cases "next < r")
    case True
    then have "m' = (r, ts, data) # m" "n = next" using "2.prems"(3) by auto
    then show ?thesis using "2.prems"(1,2) gt True by (auto simp: keys_def dest: order.strict_trans)
  next
    case False
    note nr = False
    show ?thesis
    proof (cases "cut bs (Suc j) \<le> next")
      case True
      then have d: "drain m (pb - length data) next = (m', pb', n, out)"
        using "2.prems"(3) nr e by (simp add: Let_def)
      have le: "(r + length data) mod 2 ^ 64 \<le> next" using True e by simp
      note ih = "2.IH"(1) [OF nr refl refl le m "2.prems"(2) d]
      show ?thesis
      proof (intro conjI allI impI)
        fix i
        assume i: "i < length bs" "cut bs i \<in> keys ((r, ts, data) # m)"
        then consider "cut bs i = r" | "cut bs i \<in> keys m" by (auto simp: keys_def)
        then show "cut bs (Suc i) \<le> n \<or> cut bs i \<in> keys m'"
        proof cases
          case 1
          then have "cut bs (Suc i) = cut bs (Suc j)" using only i(1) by blast
          then show ?thesis using True ih by simp
        qed (use ih i(1) in blast)
      qed (use ih in blast)+
    next
      case False
      obtain out' where d: "drain m (pb - length data) (cut bs (Suc j)) = (m', pb', n, out')"
        using "2.prems"(3) nr e False by (auto simp: Let_def split: prod.splits)
      have b: "boundary_at bs (cut bs (Suc j))"
        unfolding boundary_at_def using j(1) by (intro exI [of _ "Suc j"]) simp
      have ih: "pieces_in bs m' \<and> boundary_at bs n \<and> cut bs (Suc j) \<le> n \<and> (\<forall>k \<in> keys m'. n < k) \<and>
          (\<forall>i < length bs. cut bs i \<in> keys m \<longrightarrow> cut bs (Suc i) \<le> n \<or> cut bs i \<in> keys m')"
        using "2.IH"(2) [OF nr refl refl] False e m b d by simp
      show ?thesis
      proof (intro conjI allI impI)
        fix i
        assume i: "i < length bs" "cut bs i \<in> keys ((r, ts, data) # m)"
        then consider "cut bs i = r" | "cut bs i \<in> keys m" by (auto simp: keys_def)
        then show "cut bs (Suc i) \<le> n \<or> cut bs i \<in> keys m'"
        proof cases
          case 1
          then have "cut bs (Suc i) = cut bs (Suc j)" using only i(1) by blast
          then show ?thesis using ih by simp
        qed (use ih i(1) in blast)
      qed (use ih False in auto)
    qed
  qed
qed

definition complete_inv :: "u32 \<Rightarrow> bytes list \<Rightarrow> nat set \<Rightarrow> seq_stream \<Rightarrow> bool" where
  "complete_inv isn bs got s \<longleftrightarrow>
    pieces_in bs (ss_pending s) \<and> boundary_at bs (ss_next_rel s) \<and>
    (\<forall>k \<in> keys (ss_pending s). ss_next_rel s < k) \<and>
    (\<forall>i \<in> got. i < length bs \<longrightarrow> cut bs (Suc i) \<le> ss_next_rel s \<or> cut bs i \<in> keys (ss_pending s))"

lemma pieces_in_insert:
  assumes "pieces_in bs m" and "i < length bs" and "cut bs i \<notin> keys m"
  shows "pieces_in bs (insert_seg (cut bs i) (ts, bs ! i) m)"
proof -
  have srt: "sorted_wrt (<) (map fst (insert_seg k v m))"
    if "sorted_wrt (<) (map fst m)" "k \<notin> fst ` set m" for k v and m :: seg_map
    using that
  proof (induction k v m rule: insert_seg.induct)
    case (2 k v k1 v1 m)
    then show ?case by (auto simp: set_insert_seg dest: order.strict_trans)
  qed simp
  show ?thesis using assms srt by (auto simp: pieces_in_def set_insert_seg keys_def)
qed

lemma stream_data_complete:
  assumes "pieces_ok bs" and "complete_inv isn bs got s" and "sound_inv isn (concat bs) s d"
    and "i < length bs"
    and "stream_data ts (isn + word_of_nat (cut bs i)) (bs ! i) s = (s', out)"
    and "\<not> ss_overflow s'"
  shows "complete_inv isn bs (insert i got) s'"
proof -
  let ?n = "ss_next_rel s" and ?p = "cut bs i"
  have st: "ss_started s" "ss_isn s = isn" "?n \<le> length (concat bs)"
    using assms(3) by (auto simp: sound_inv_def)
  have inv: "pieces_in bs (ss_pending s)" "boundary_at bs ?n" "\<forall>k \<in> keys (ss_pending s). ?n < k"
      "\<forall>i \<in> got. i < length bs \<longrightarrow> cut bs (Suc i) \<le> ?n \<or> cut bs i \<in> keys (ss_pending s)"
    using assms(2) by (auto simp: complete_inv_def)
  have small: "?n < 2 ^ 31" "?p < 2 ^ 31"
    using st assms(1) cut_le [of bs i] by (auto simp: pieces_ok_def)
  have r: "rel s (isn + word_of_nat ?p) = ?p"
    using small st by (intro rel_near) (auto simp: REL_BOUND_def)
  have e: "(?p + length (bs ! i)) mod 2 ^ 64 = cut bs (Suc i)" by (rule piece_end [OF assms(1,4)])
  have ne: "bs ! i \<noteq> []" using assms(1,4) by (simp add: pieces_ok_def)
  have no: "\<not> ss_overflow s"
    using assms(5,6) by (auto simp: stream_data_def)
  consider "cut bs (Suc i) \<le> ?n" | "?n < cut bs (Suc i)" "?p \<le> ?n" | "?n < ?p"
    by linarith
  then show ?thesis
  proof cases
    case 1
    then have "s' = s" using assms(5) st r e no ne by (simp add: stream_data_def Let_def)
    with 1 inv show ?thesis by (simp add: complete_inv_def)
  next
    case 2
    obtain m pb n out' where d: "drain (ss_pending s) (ss_pending_bytes s) (cut bs (Suc i)) = (m, pb, n, out')"
      by (metis prod_cases4)
    have s': "s' = s\<lparr>ss_next_rel := n, ss_pending := m, ss_pending_bytes := pb\<rparr>"
      using assms(5) 2 st r e d no ne by (auto simp: stream_data_def Let_def)
    have b: "boundary_at bs (cut bs (Suc i))"
      unfolding boundary_at_def using assms(4) by (intro exI [of _ "Suc i"]) simp
    note dc = drain_complete [OF assms(1) inv(1) b d]
    then show ?thesis using s' inv(4) 2 by (auto simp: complete_inv_def)
  next
    case 3
    have "?p < cut bs (Suc i)" using ne assms(4) by (simp add: cut_Suc)
    with 3 have n: "\<not> cut bs (Suc i) \<le> ?n" by simp
    show ?thesis
    proof (cases "?p \<in> keys (ss_pending s)")
      case True
      then have "s' = s" using assms(5,6) 3 n st r e no ne
        by (auto simp: stream_data_def Let_def keys_def split: if_splits)
      with True inv show ?thesis by (auto simp: complete_inv_def)
    next
      case False
      then have "s' = s\<lparr>ss_pending_bytes := ss_pending_bytes s + length (bs ! i),
          ss_pending := insert_seg ?p (ts, bs ! i) (ss_pending s)\<rparr>"
        using assms(5,6) 3 n st r e no ne
        by (auto simp: stream_data_def Let_def keys_def split: if_splits)
      with False inv 3 pieces_in_insert [OF inv(1) assms(4)] show ?thesis
        by (auto simp: complete_inv_def keys_def set_insert_seg)
    qed
  qed
qed

lemma overflow_stays:
  "receive isn segs s = (s', out) \<Longrightarrow> \<not> ss_overflow s' \<Longrightarrow> \<not> ss_overflow s"
proof (induction isn segs s arbitrary: out rule: receive.induct)
  case (2 isn ts p body segs s)
  obtain s1 out1 where d: "stream_data ts (isn + word_of_nat p) body s = (s1, out1)" by fastforce
  obtain out2 where "receive isn segs s1 = (s', out2)"
    using "2.prems"(1) d by (auto split: prod.splits)
  then have no: "\<not> ss_overflow s1" using "2.IH" [OF d [symmetric]] "2.prems"(2) by blast
  show ?case
  proof
    assume "ss_overflow s"
    then have "s1 = s" using d by (simp add: stream_data_def)
    with no \<open>ss_overflow s\<close> show False by simp
  qed
qed simp

lemma receive_complete:
  assumes "pieces_ok bs" and "complete_inv isn bs got s" and "sound_inv isn (concat bs) s d"
    and "\<forall>x \<in> set is. snd x < length bs" and "receive isn (arrivals bs is) s = (s', out)"
    and "\<not> ss_overflow s'"
  shows "complete_inv isn bs (snd ` set is \<union> got) s'"
  using assms(2-)
proof (induction "is" arbitrary: got s d out)
  case (Cons x "is")
  obtain ts i where x: "x = (ts, i)" by fastforce
  obtain s1 out1 where st: "stream_data ts (isn + word_of_nat (cut bs i)) (bs ! i) s = (s1, out1)"
    by fastforce
  obtain out2 where r: "receive isn (arrivals bs is) s1 = (s', out2)"
    using Cons.prems(4) st x by (auto simp: arrivals_def split: prod.splits)
  have i: "i < length bs" using Cons.prems(3) x by simp
  have no: "\<not> ss_overflow s1" using overflow_stays [OF r Cons.prems(5)] .
  have c: "complete_inv isn bs (insert i got) s1"
    by (rule stream_data_complete [OF assms(1) Cons.prems(1,2) i st no])
  have small: "length (concat bs) < 2 ^ 31" using assms(1) by (simp add: pieces_ok_def)
  have w: "cut bs i < ss_next_rel s + 2 ^ 31" "ss_next_rel s < cut bs i + 2 ^ 31"
    using small cut_le [of bs i] Cons.prems(2) by (auto simp: sound_inv_def)
  have "sound_inv isn (concat bs) s1 (d @ delivered out1)"
    by (rule stream_data_sound [OF Cons.prems(2) _ part_of_piece [OF i] w st])
      (use small in \<open>simp add: REL_BOUND_def\<close>)
  from Cons.IH [OF c this _ r Cons.prems(5)] Cons.prems(3) x show ?case by simp
qed (simp add: arrivals_def)

lemma stream_delivered:
  assumes "pieces_ok bs" and "\<forall>x \<in> set is. snd x < length bs" and "snd ` set is = {..<length bs}"
    and "\<not> ss_overflow (fst (receive (syn + 1) (arrivals bs is) (on_syn syn new_stream)))"
  shows "delivered (snd (receive (syn + 1) (arrivals bs is) (on_syn syn new_stream))) = concat bs"
proof -
  obtain s' out where r: "receive (syn + 1) (arrivals bs is) (on_syn syn new_stream) = (s', out)"
    by fastforce
  have b0: "boundary_at bs 0" by (auto simp: boundary_at_def cut_def intro: exI [of _ 0])
  then have "complete_inv (syn + 1) bs {} (on_syn syn new_stream)"
    by (simp add: complete_inv_def on_syn_def pieces_in_def keys_def)
  from receive_complete [OF assms(1) this sound_inv_start assms(2) r] assms(3,4) r
  have c: "complete_inv (syn + 1) bs {..<length bs} s'" by simp
  have seg: "\<forall>g \<in> set (arrivals bs is). part_of (concat bs) (fst (snd g)) (snd (snd g))"
    using assms(2) part_of_piece by (auto simp: arrivals_def)
  have small: "length (concat bs) < 2 ^ 31" using assms(1) by (simp add: pieces_ok_def)
  have "sound_inv (syn + 1) (concat bs) s' ([] @ delivered out)"
    by (rule receive_sound [OF sound_inv_start _ seg in_window_small [OF sound_inv_start small seg] r])
      (use small in \<open>simp add: REL_BOUND_def\<close>)
  then have d: "delivered out = take (ss_next_rel s') (concat bs)" by (simp add: sound_inv_def)
  obtain j where j: "j \<le> length bs" "ss_next_rel s' = cut bs j"
    using c by (auto simp: complete_inv_def boundary_at_def)
  have "j = length bs"
  proof (rule ccontr)
    assume "j \<noteq> length bs"
    with j have jl: "j < length bs" by simp
    then have "cut bs (Suc j) \<le> cut bs j \<or> cut bs j \<in> keys (ss_pending s')"
      using c j by (auto simp: complete_inv_def)
    then show False using cut_strict [OF assms(1) jl, of "Suc j"] c j by (auto simp: complete_inv_def)
  qed
  then show ?thesis using d j r by (simp add: cut_def)
qed



text \<open>A longer retransmission of a buffered segment is thrown away: a gap is followed by the
  byte 2, then by a retransmission that carries 2 and 3; when the gap fills, the byte 3 (which
  was captured) is not delivered.\<close>
theorem longer_retransmission_lost:
  "delivered (snd (receive 0 [(1, 1, [2]), (2, 1, [2, 3]), (3, 0, [1])] (on_syn (- 1) new_stream))) = [1, 2]"
proof -
  show ?thesis
    by (simp add: on_syn_def new_stream_def stream_data_def rel_start Let_def MAX_PENDING_BYTES_def)
qed

text \<open>Data carried by a SYN segment never enters the stream: it is taken for bytes 4 GiB ahead
  and stays in the buffer.\<close>
theorem syn_payload_not_delivered:
  assumes "body \<noteq> []" and "length body \<le> MAX_PENDING_BYTES"
  shows "stream_data ts seq body (on_syn seq new_stream) =
    ((on_syn seq new_stream)\<lparr>ss_pending := [(2 ^ 32 - 1, ts, body)], ss_pending_bytes := length body\<rparr>, [])"
proof -
  have l: "unat (- 1 :: u32) = 2 ^ 32 - 1"
    by (subst unsigned_minus_1_eq_mask) (simp add: mask_eq_exp_minus_1)
  have r: "rel (on_syn seq new_stream) seq = 2 ^ 32 - 1"
    by (simp add: rel_def on_syn_def new_stream_def l candidate_def closer_def abs_diff_def Let_def)
  have "length body < 2 ^ 31" using assms(2) by (simp add: MAX_PENDING_BYTES_def)
  then show ?thesis using assms r
    by (auto simp: stream_data_def Let_def on_syn_def new_stream_def)
qed

theorem syn_payload_not_delivered_witness:
  "snd (stream_data 1 9 [1, 2, 3] (on_syn 9 new_stream)) = []"
  using syn_payload_not_delivered [of "[1, 2, 3]" 1 9] by (simp add: MAX_PENDING_BYTES_def)

end
