(* ===== verification/Packet_Parse.thy ===== *)
theory Packet_Parse
  imports Prelude
begin

text \<open>
  The header parsers of \<open>pcap.rs\<close>: link layer (\<open>strip_link\<close>), IP and TCP (\<open>parse_ip_tcp\<close>,
  \<open>is_ip_fragment\<close>). A frame is its list of bytes; an index is only used behind the length test
  that the code makes.
\<close>

record endpoint =
  ep_addr :: bytes
  ep_port :: nat

record tcp_segment =
  seg_src :: endpoint
  seg_dst :: endpoint
  seg_seq :: u32
  seg_syn :: bool
  seg_fin :: bool
  seg_ack :: bool
  seg_rst :: bool
  seg_payload :: bytes

text \<open>\<open>u16::from_be_bytes([s[i], s[i + 1]])\<close>\<close>

definition be16 :: "bytes \<Rightarrow> nat \<Rightarrow> nat" where
  "be16 s i = be_val (take 2 (drop i s))"

definition v4mapped :: "bytes \<Rightarrow> bytes" where
  "v4mapped a = replicate 10 0 @ [0xFF, 0xFF] @ take 4 a"

definition NULL_LINK :: int where "NULL_LINK = 0"
definition ETHERNET :: int where "ETHERNET = 1"
definition RAW :: int where "RAW = 101"
definition LOOP :: int where "LOOP = 108"
definition LINUX_SLL :: int where "LINUX_SLL = 113"
definition LINUX_SLL2 :: int where "LINUX_SLL2 = 276"

text \<open>The loop over VLAN tags: the offset of the ethertype and its value.\<close>

function skip_vlan :: "bytes \<Rightarrow> nat \<Rightarrow> nat \<Rightarrow> (nat \<times> nat) option" where
  "skip_vlan frame off ethertype =
    (if ethertype = 0x8100 \<or> ethertype = 0x88A8 then
       (if length frame < off + 4 + 2 then None
        else skip_vlan frame (off + 4) (be16 frame (off + 4)))
     else Some (off, ethertype))"
  by pat_completeness auto
termination
  by (relation "measure (\<lambda>(frame, off, t). length frame - off)") auto

declare skip_vlan.simps [simp del]

definition is_ip_ethertype :: "nat \<Rightarrow> bool" where
  "is_ip_ethertype t \<longleftrightarrow> t = 0x0800 \<or> t = 0x86DD"

definition strip_link :: "int \<Rightarrow> bytes \<Rightarrow> bytes option" where
  "strip_link linktype frame =
    (if linktype = ETHERNET then
       (if length frame < 14 then None
        else case skip_vlan frame 12 (be16 frame 12) of
          None \<Rightarrow> None
        | Some (off, t) \<Rightarrow> if is_ip_ethertype t then Some (drop (off + 2) frame) else None)
     else if linktype = LINUX_SLL then
       (if length frame < 16 then None
        else if is_ip_ethertype (be16 frame 14) then Some (drop 16 frame) else None)
     else if linktype = LINUX_SLL2 then
       (if length frame < 20 then None
        else if is_ip_ethertype (be16 frame 0) then Some (drop 20 frame) else None)
     else if linktype = RAW then Some frame
     else if linktype = NULL_LINK \<or> linktype = LOOP then
       (if length frame < 4 then None else Some (drop 4 frame))
     else None)"

definition ip_version :: "bytes \<Rightarrow> u8" where
  "ip_version ip = drop_bit 4 (hd ip)"

definition is_ip_fragment :: "bytes \<Rightarrow> bool" where
  "is_ip_fragment ip \<longleftrightarrow>
    ip \<noteq> [] \<and>
    (if ip_version ip = 4 \<and> 8 \<le> length ip then be16 ip 6 mod 2 ^ 14 \<noteq> 0
     else if ip_version ip = 6 \<and> 40 \<le> length ip then ip ! 6 = 44
     else False)"

text \<open>The walk along IPv6 extension headers to the TCP header.\<close>

function tcp_offset6 :: "bytes \<Rightarrow> u8 \<Rightarrow> nat \<Rightarrow> nat option" where
  "tcp_offset6 ip nxt off =
    (if nxt = 6 then Some off
     else if nxt = 0 \<or> nxt = 43 \<or> nxt = 60 then
       (if length ip < off + 8 then None
        else
          let off' = off + (unat (ip ! (off + 1)) + 1) * 8 in
          if length ip < off' then None else tcp_offset6 ip (ip ! off) off')
     else None)"
  by pat_completeness auto
termination
  by (relation "measure (\<lambda>(ip, nxt, off). length ip - off)") auto

declare tcp_offset6.simps [simp del]

text \<open>Source address, destination address, TCP bytes.\<close>

definition parse_ipv4 :: "bytes \<Rightarrow> (bytes \<times> bytes \<times> bytes) option" where
  "parse_ipv4 ip =
    (if length ip < 20 then None
     else
       let ihl = unat (and (ip ! 0) 0x0F) * 4; total = be16 ip 2 in
       if ihl < 20 \<or> length ip < ihl then None
       else if be16 ip 6 mod 2 ^ 14 \<noteq> 0 then None
       else if ip ! 9 \<noteq> 6 then None
       else
         let e = (if ihl \<le> total \<and> total \<le> length ip then total else length ip) in
         Some (v4mapped (drop 12 ip), v4mapped (drop 16 ip), drop ihl (take e ip)))"

definition parse_ipv6 :: "bytes \<Rightarrow> (bytes \<times> bytes \<times> bytes) option" where
  "parse_ipv6 ip =
    (if length ip < 40 then None
     else case tcp_offset6 ip (ip ! 6) 40 of
       None \<Rightarrow> None
     | Some off \<Rightarrow>
        let e = min (40 + be16 ip 4) (length ip) in
        if e < off then None
        else Some (take 16 (drop 8 ip), take 16 (drop 24 ip), drop off (take e ip)))"

definition tcp_flag :: "bytes \<Rightarrow> u8 \<Rightarrow> bool" where
  "tcp_flag tcp f \<longleftrightarrow> and (tcp ! 13) f \<noteq> 0"

definition parse_tcp :: "bytes \<Rightarrow> bytes \<Rightarrow> bytes \<Rightarrow> tcp_segment option" where
  "parse_tcp src dst tcp =
    (if length tcp < 20 then None
     else
       let doff = unat (drop_bit 4 (tcp ! 12)) * 4 in
       if doff < 20 \<or> length tcp < doff then None
       else Some
         \<lparr>seg_src = \<lparr>ep_addr = src, ep_port = be16 tcp 0\<rparr>,
          seg_dst = \<lparr>ep_addr = dst, ep_port = be16 tcp 2\<rparr>,
          seg_seq = word_of_nat (be_val (take 4 (drop 4 tcp))),
          seg_syn = tcp_flag tcp 0x02, seg_fin = tcp_flag tcp 0x01,
          seg_ack = tcp_flag tcp 0x10, seg_rst = tcp_flag tcp 0x04,
          seg_payload = drop doff tcp\<rparr>)"

definition parse_ip_tcp :: "bytes \<Rightarrow> tcp_segment option" where
  "parse_ip_tcp ip =
    (if ip = [] then None
     else
       let parts = (if ip_version ip = 4 then parse_ipv4 ip
                    else if ip_version ip = 6 then parse_ipv6 ip else None)
       in case parts of None \<Rightarrow> None | Some (src, dst, tcp) \<Rightarrow> parse_tcp src dst tcp)"

section \<open>Fragments\<close>

lemma parse_tcp_ports:
  "parse_tcp src dst tcp = Some seg \<Longrightarrow> ep_addr (seg_src seg) = src \<and> ep_addr (seg_dst seg) = dst"
  by (auto simp: parse_tcp_def Let_def split: if_splits)

text \<open>A datagram that counts as an IP fragment is never decoded as TCP, so the fragment counter
  and the decoder are exclusive.\<close>
theorem fragments_not_decoded:
  assumes "is_ip_fragment ip"
  shows "parse_ip_tcp ip = None"
proof -
  have "parse_ipv4 ip = None" if "ip_version ip = 4"
    using assms that by (auto simp: is_ip_fragment_def parse_ipv4_def Let_def split: if_splits)
  moreover have "parse_ipv6 ip = None" if "ip_version ip = 6"
    using assms that
    by (auto simp: is_ip_fragment_def parse_ipv6_def tcp_offset6.simps split: if_splits)
  ultimately show ?thesis by (simp add: parse_ip_tcp_def)
qed

theorem fragments_not_decoded_witness:
  "parse_ip_tcp ([0x45, 0, 0, 40, 0, 0, 0x20, 0] @ replicate 32 0) = None"
  by (rule fragments_not_decoded) (simp add: is_ip_fragment_def ip_version_def be16_def be_val_def)

text \<open>A fragment header behind another extension header is not recognised: such a datagram is
  dropped without being counted.\<close>
theorem fragment_behind_options_uncounted:
  assumes "40 \<le> length ip" and "ip_version ip = 6" and "ip ! 6 = 0"
    and "48 \<le> length ip" and "ip ! 40 = 44" and "ip ! 41 = 0"
  shows "parse_ip_tcp ip = None \<and> \<not> is_ip_fragment ip"
proof -
  have "tcp_offset6 ip 0 40 = None"
    using assms by (simp add: tcp_offset6.simps [of ip 0] tcp_offset6.simps [of ip 44])
  then have "parse_ipv6 ip = None" using assms(3) by (simp add: parse_ipv6_def)
  then show ?thesis using assms by (simp add: parse_ip_tcp_def is_ip_fragment_def)
qed

theorem fragment_behind_options_uncounted_witness:
  "\<not> is_ip_fragment (0x60 # replicate 39 0 @ [44, 0] @ replicate 14 0)"
  using fragment_behind_options_uncounted [of "0x60 # replicate 39 0 @ [44, 0] @ replicate 14 0"]
  by (simp add: ip_version_def nth_Cons' nth_append)

section \<open>A sender's frame\<close>

text \<open>An IPv4 datagram that carries a TCP segment without options, and its Ethernet frame; \<open>pad\<close>
  is the padding up to the Ethernet minimum.\<close>

definition tcp_bytes :: "nat \<Rightarrow> nat \<Rightarrow> u32 \<Rightarrow> u8 \<Rightarrow> bytes \<Rightarrow> bytes" where
  "tcp_bytes sport dport seq flags body =
    be_bytes 2 sport @ be_bytes 2 dport @ be_bytes 4 (unat seq) @ [0, 0, 0, 0] @ [0x50, flags] @
    replicate 6 0 @ body"

definition ipv4_bytes :: "bytes \<Rightarrow> bytes \<Rightarrow> bytes \<Rightarrow> bytes" where
  "ipv4_bytes src dst tcp =
    [0x45, 0] @ be_bytes 2 (20 + length tcp) @ [0, 0] @ [0, 0] @ [64, 6, 0, 0] @ src @ dst @ tcp"

definition ethernet_bytes :: "bytes \<Rightarrow> bytes \<Rightarrow> bytes" where
  "ethernet_bytes ip pad = replicate 12 0 @ [0x08, 0x00] @ ip @ pad"

lemma be16_at:
  "length pre = i \<Longrightarrow> v < 2 ^ 16 \<Longrightarrow> be16 (pre @ be_bytes 2 v @ rest) i = v"
  by (simp add: be16_def)

lemma parse_tcp_bytes:
  assumes "sport < 2 ^ 16" and "dport < 2 ^ 16"
  shows "parse_tcp src dst (tcp_bytes sport dport seq flags body) = Some
    \<lparr>seg_src = \<lparr>ep_addr = src, ep_port = sport\<rparr>, seg_dst = \<lparr>ep_addr = dst, ep_port = dport\<rparr>,
     seg_seq = seq, seg_syn = (and flags 0x02 \<noteq> 0), seg_fin = (and flags 0x01 \<noteq> 0),
     seg_ack = (and flags 0x10 \<noteq> 0), seg_rst = (and flags 0x04 \<noteq> 0), seg_payload = body\<rparr>"
proof -
  let ?t = "tcp_bytes sport dport seq flags body"
  have p: "be16 ?t 0 = sport" "be16 ?t 2 = dport"
    using be16_at [of "[]" 0 sport] be16_at [of "be_bytes 2 sport" 2 dport] assms
    by (simp_all add: tcp_bytes_def)
  have t: "?t = (be_bytes 2 sport @ be_bytes 2 dport @ be_bytes 4 (unat seq) @ [0, 0, 0, 0]) @
      [0x50, flags] @ replicate 6 0 @ body" by (simp add: tcp_bytes_def)
  have "?t ! 12 = 0x50" "?t ! 13 = flags" unfolding t by (simp_all add: nth_append)
  moreover have "take 4 (drop 4 ?t) = be_bytes 4 (unat seq)" by (simp add: tcp_bytes_def)
  moreover have "be_val (be_bytes 4 (unat seq)) = unat seq"
    using unsigned_less [of seq, where 'a = nat] by simp
  moreover have "drop 20 ?t = body" "20 \<le> length ?t" by (simp_all add: tcp_bytes_def)
  ultimately show ?thesis using p by (simp add: parse_tcp_def tcp_flag_def Let_def)
qed

lemma parse_ipv4_bytes:
  assumes "length src = 4" and "length dst = 4" and "20 + length tcp < 2 ^ 16"
  shows "parse_ipv4 (ipv4_bytes src dst tcp @ pad) = Some (v4mapped src, v4mapped dst, tcp)"
proof -
  let ?h = "[0x45, 0] @ be_bytes 2 (20 + length tcp) @ [0, 0] @ [0, 0] @ [64, 6, 0, 0] :: bytes"
  let ?ip = "ipv4_bytes src dst tcp @ pad"
  have ip: "?ip = ?h @ src @ dst @ tcp @ pad" by (simp add: ipv4_bytes_def)
  have h: "length ?h = 12" by simp
  have b: "be_bytes 2 v = [word_of_nat (v div 256), word_of_nat v]" for v
    by (simp add: be_bytes_def numeral_2_eq_2)
  have n: "?ip ! 0 = 0x45" "?ip ! 9 = 6" unfolding ip by (simp_all add: b nth_Cons')
  have total: "be16 ?ip 2 = 20 + length tcp"
    using be16_at [of "[0x45, 0]" 2 "20 + length tcp"] assms(3) unfolding ip by simp
  have frag: "be16 ?ip 6 = 0" unfolding ip by (simp add: b be16_def be_val_def)
  have l: "length (ipv4_bytes src dst tcp) = 20 + length tcp"
    using assms(1,2) by (simp add: ipv4_bytes_def)
  have d: "drop 12 ?ip = src @ dst @ tcp @ pad" "drop 16 ?ip = dst @ tcp @ pad"
    unfolding ip using h assms(1) by (simp_all add: drop_append)
  have e: "ipv4_bytes src dst tcp = (?h @ src @ dst) @ tcp" by (simp add: ipv4_bytes_def)
  have "drop 20 (ipv4_bytes src dst tcp) = tcp" unfolding e using assms(1,2) by simp
  then have t: "drop 20 (take (20 + length tcp) ?ip) = tcp" using l by simp
  have "unat (and (?ip ! 0) 0x0F) * 4 = 20" unfolding n by simp
  then show ?thesis
    using n(2) total frag l d t assms(1,2) by (simp add: parse_ipv4_def Let_def v4mapped_def)
qed

lemma frame_parsed:
  assumes "length src = 4" and "length dst = 4" and "sport < 2 ^ 16" and "dport < 2 ^ 16"
    and "length body < 60000"
  shows "map_option parse_ip_tcp
      (strip_link ETHERNET (ethernet_bytes (ipv4_bytes src dst (tcp_bytes sport dport seq flags body)) pad)) =
    Some (Some
      \<lparr>seg_src = \<lparr>ep_addr = v4mapped src, ep_port = sport\<rparr>,
       seg_dst = \<lparr>ep_addr = v4mapped dst, ep_port = dport\<rparr>,
       seg_seq = seq, seg_syn = (and flags 0x02 \<noteq> 0), seg_fin = (and flags 0x01 \<noteq> 0),
       seg_ack = (and flags 0x10 \<noteq> 0), seg_rst = (and flags 0x04 \<noteq> 0), seg_payload = body\<rparr>)"
proof -
  let ?tcp = "tcp_bytes sport dport seq flags body"
  let ?ip = "ipv4_bytes src dst ?tcp"
  let ?f = "ethernet_bytes ?ip pad"
  have "be16 ?f 12 = 0x0800" by (simp add: ethernet_bytes_def be16_def be_val_def)
  then have "skip_vlan ?f 12 (be16 ?f 12) = Some (12, 0x0800)"
    by (simp add: skip_vlan.simps [of ?f 12])
  moreover have "14 \<le> length ?f" by (simp add: ethernet_bytes_def)
  moreover have "drop 14 ?f = ?ip @ pad" by (simp add: ethernet_bytes_def)
  ultimately have s: "strip_link ETHERNET ?f = Some (?ip @ pad)"
    by (simp add: strip_link_def is_ip_ethertype_def)
  have v: "ip_version (?ip @ pad) = 4" "?ip @ pad \<noteq> []"
    by (simp_all add: ip_version_def ipv4_bytes_def)
  have "20 + length ?tcp < 2 ^ 16" using assms(5) by (simp add: tcp_bytes_def)
  with v s show ?thesis
    using parse_ipv4_bytes [OF assms(1,2), of ?tcp pad]
      parse_tcp_bytes [OF assms(3,4), of "v4mapped src" "v4mapped dst" seq flags body]
    by (simp add: parse_ip_tcp_def)
qed

text \<open>What a host sends is what the decoder sees: a TCP segment in an IPv4 datagram in an
  Ethernet frame, padded or not, parses to its ports, addresses, sequence number, flags and
  payload.\<close>
theorem ethernet_tcp_roundtrip:
  assumes "length src = 4" and "length dst = 4" and "sport < 2 ^ 16" and "dport < 2 ^ 16"
    and "length body < 60000"
  shows "map_option parse_ip_tcp
      (strip_link ETHERNET (ethernet_bytes (ipv4_bytes src dst (tcp_bytes sport dport seq flags body)) pad)) =
    Some (Some
      \<lparr>seg_src = \<lparr>ep_addr = v4mapped src, ep_port = sport\<rparr>,
       seg_dst = \<lparr>ep_addr = v4mapped dst, ep_port = dport\<rparr>,
       seg_seq = seq, seg_syn = (and flags 0x02 \<noteq> 0), seg_fin = (and flags 0x01 \<noteq> 0),
       seg_ack = (and flags 0x10 \<noteq> 0), seg_rst = (and flags 0x04 \<noteq> 0), seg_payload = body\<rparr>)"
  using assms by (rule frame_parsed)

theorem ethernet_tcp_roundtrip_witness:
  "map_option parse_ip_tcp (strip_link ETHERNET (ethernet_bytes
      (ipv4_bytes [10, 0, 0, 1] [10, 0, 0, 2] (tcp_bytes 40000 3306 7 0x18 [1, 2])) [0, 0])) =
    Some (Some
      \<lparr>seg_src = \<lparr>ep_addr = v4mapped [10, 0, 0, 1], ep_port = 40000\<rparr>,
       seg_dst = \<lparr>ep_addr = v4mapped [10, 0, 0, 2], ep_port = 3306\<rparr>,
       seg_seq = 7, seg_syn = False, seg_fin = False, seg_ack = True, seg_rst = False,
       seg_payload = [1, 2]\<rparr>)"
  using ethernet_tcp_roundtrip [where src = "[10, 0, 0, 1]" and dst = "[10, 0, 0, 2]" and
      sport = 40000 and dport = 3306 and body = "[1, 2]" and seq = 7 and flags = "0x18" and pad = "[0, 0]"]
  by simp

end
