(* ===== verification/Pcap_Engine.thy ===== *)
theory Pcap_Engine
  imports Conn_Decoder Tcp_Stream Packet_Parse
begin

text \<open>
  \<open>PcapEngine\<close> of \<open>pcap.rs\<close>: frames in, (session id, event) pairs out, with the counters of the
  capture summary; and the block loop of \<open>scan_pcap_file\<close> over what the pcap reader (a crate, not
  modelled) returns. The connection table is a map; the order in which the hash map lists its
  keys at the end of the file is an argument of \<open>finish_engine\<close>. Counters (u64) are naturals.
\<close>

section \<open>State\<close>

record flow_key =
  fk_client :: endpoint
  fk_server :: endpoint

record conn_state =
  cs_dec :: conn
  cs_c2s :: seq_stream
  cs_s2c :: seq_stream
  cs_session_id :: "nat option"
  cs_fin_client :: bool
  cs_fin_server :: bool
  cs_finished :: bool
  cs_version_recorded :: bool

definition new_conn_state :: conn_state where
  "new_conn_state =
    \<lparr>cs_dec = new_conn, cs_c2s = new_stream, cs_s2c = new_stream, cs_session_id = None,
     cs_fin_client = False, cs_fin_server = False, cs_finished = False,
     cs_version_recorded = False\<rparr>"

record pcap_stats =
  st_packets :: nat
  st_truncated_packets :: nat
  st_ip_fragments_skipped :: nat
  st_connections :: nat
  st_decoded :: nat
  st_tls_skipped :: nat
  st_compressed_skipped :: nat
  st_midstream_skipped :: nat
  st_broken :: nat
  st_expanded :: nat
  st_inexpandable :: nat
  st_ignored :: nat
  st_missing :: nat
  st_server_versions :: "string list"

definition new_pcap_stats :: pcap_stats where
  "new_pcap_stats =
    \<lparr>st_packets = 0, st_truncated_packets = 0, st_ip_fragments_skipped = 0, st_connections = 0,
     st_decoded = 0, st_tls_skipped = 0, st_compressed_skipped = 0, st_midstream_skipped = 0,
     st_broken = 0, st_expanded = 0, st_inexpandable = 0, st_ignored = 0, st_missing = 0,
     st_server_versions = []\<rparr>"

record engine =
  en_port :: nat
  en_conns :: "flow_key \<rightharpoonup> conn_state"
  en_used :: "nat set"
  en_synthetic :: nat
  en_stats :: pcap_stats
  en_evbuf :: "proto_event list"

definition new_engine :: "nat \<Rightarrow> engine" where
  "new_engine port =
    \<lparr>en_port = port, en_conns = Map.empty, en_used = {}, en_synthetic = 2 ^ 48,
     en_stats = new_pcap_stats, en_evbuf = []\<rparr>"

type_synonym emission = "nat \<times> proto_event"

section \<open>Sessions and the end of a connection\<close>

definition pick_session_id :: "engine \<Rightarrow> conn_state \<Rightarrow> engine \<times> nat" where
  "pick_session_id e c =
    (case cn_thread_id (cs_dec c) of
       Some t \<Rightarrow>
         if t \<notin> en_used e then (e\<lparr>en_used := insert t (en_used e)\<rparr>, t)
         else (e\<lparr>en_used := insert (en_synthetic e) (en_used e), en_synthetic := en_synthetic e + 1\<rparr>,
           en_synthetic e)
     | None \<Rightarrow>
         (e\<lparr>en_used := insert (en_synthetic e) (en_used e), en_synthetic := en_synthetic e + 1\<rparr>,
           en_synthetic e))"

definition drain_events :: "engine \<Rightarrow> conn_state \<Rightarrow> engine \<times> conn_state \<times> emission list" where
  "drain_events e c =
    (if en_evbuf e = [] then (e, c, [])
     else case (case cs_session_id c of Some i \<Rightarrow> (e, i) | None \<Rightarrow> pick_session_id e c) of
       (e1, sid) \<Rightarrow>
         (e1\<lparr>en_evbuf := []\<rparr>, c\<lparr>cs_session_id := Some sid\<rparr>, map (\<lambda>ev. (sid, ev)) (en_evbuf e)))"

definition count_disposition :: "conn_state \<Rightarrow> pcap_stats \<Rightarrow> pcap_stats" where
  "count_disposition c st =
    (let lost = (ss_overflow (cs_c2s c) \<or> ss_overflow (cs_s2c c)) in
     case cn_disposition (cs_dec c) of
       Active \<Rightarrow> if lost then st\<lparr>st_broken := st_broken st + 1\<rparr> else st\<lparr>st_decoded := st_decoded st + 1\<rparr>
     | Tls \<Rightarrow> st\<lparr>st_tls_skipped := st_tls_skipped st + 1\<rparr>
     | Compressed \<Rightarrow> st\<lparr>st_compressed_skipped := st_compressed_skipped st + 1\<rparr>
     | BadHandshake \<Rightarrow> st\<lparr>st_midstream_skipped := st_midstream_skipped st + 1\<rparr>
     | Broken \<Rightarrow> st\<lparr>st_broken := st_broken st + 1\<rparr>)"

definition accumulate :: "conn_state \<Rightarrow> pcap_stats \<Rightarrow> pcap_stats" where
  "accumulate c st =
    (let s = cn_stats (cs_dec c) in
     st\<lparr>st_expanded := st_expanded st + statements_expanded s,
        st_inexpandable := st_inexpandable st + statements_inexpandable s,
        st_ignored := st_ignored st + commands_ignored s,
        st_missing := st_missing st + responses_missing s\<rparr>)"

definition finalize :: "engine \<Rightarrow> conn_state \<Rightarrow> engine \<times> conn_state \<times> emission list" where
  "finalize e c =
    (if cs_finished c then (e, c, [])
     else case finish_conn (cs_dec c) of
       (dc, evs) \<Rightarrow>
         (case drain_events (e\<lparr>en_evbuf := en_evbuf e @ evs\<rparr>) (c\<lparr>cs_finished := True, cs_dec := dc\<rparr>) of
            (e1, c1, out) \<Rightarrow>
              (e1\<lparr>en_stats := accumulate c1 (count_disposition c1 (en_stats e1))\<rparr>, c1, out)))"

section \<open>One segment\<close>

text \<open>Direction and connection from the server port.\<close>

definition direction :: "nat \<Rightarrow> tcp_segment \<Rightarrow> (flow_key \<times> dir) option" where
  "direction port seg =
    (if ep_port (seg_src seg) = port then
       Some (\<lparr>fk_client = seg_dst seg, fk_server = seg_src seg\<rparr>, Server)
     else if ep_port (seg_dst seg) = port then
       Some (\<lparr>fk_client = seg_src seg, fk_server = seg_dst seg\<rparr>, Client)
     else None)"

definition count_packet :: "bool \<Rightarrow> engine \<Rightarrow> engine" where
  "count_packet truncated e =
    (let st = (en_stats e)\<lparr>st_packets := st_packets (en_stats e) + 1\<rparr> in
     e\<lparr>en_stats := (if truncated then st\<lparr>st_truncated_packets := st_truncated_packets st + 1\<rparr> else st)\<rparr>)"

text \<open>A fresh SYN that is not a retransmission ends the connection that had the same ports.\<close>

definition is_syn_retransmit :: "engine \<Rightarrow> flow_key \<Rightarrow> tcp_segment \<Rightarrow> bool" where
  "is_syn_retransmit e key seg =
    (case en_conns e key of
       None \<Rightarrow> False
     | Some c \<Rightarrow> \<not> cs_finished c \<and> ss_started (cs_c2s c) \<and> ss_isn (cs_c2s c) = seg_seq seg + 1)"

definition replace_conn :: "engine \<Rightarrow> flow_key \<Rightarrow> dir \<Rightarrow> tcp_segment \<Rightarrow> engine \<times> emission list" where
  "replace_conn e key d seg =
    (if seg_syn seg \<and> \<not> seg_ack seg \<and> d = Client \<and> \<not> is_syn_retransmit e key seg then
       (case en_conns e key of
          None \<Rightarrow> (e, [])
        | Some old \<Rightarrow>
           (case finalize (e\<lparr>en_conns := (en_conns e)(key := None)\<rparr>) old of
              (e1, _, out) \<Rightarrow> (e1, out)))
     else (e, []))"

definition lookup_conn :: "engine \<Rightarrow> flow_key \<Rightarrow> engine \<times> conn_state" where
  "lookup_conn e key =
    (case en_conns e key of
       Some c \<Rightarrow> (e, c)
     | None \<Rightarrow>
        (e\<lparr>en_stats := (en_stats e)\<lparr>st_connections := st_connections (en_stats e) + 1\<rparr>,
           en_conns := (en_conns e)(key \<mapsto> new_conn_state)\<rparr>, new_conn_state))"

text \<open>SYN, then the payload into the reassembler and what it delivers into the decoder.\<close>

fun feed_decoder :: "dir \<Rightarrow> (int \<times> bytes) list \<Rightarrow> conn \<Rightarrow> conn \<times> proto_event list" where
  "feed_decoder d [] c = (c, [])"
| "feed_decoder d ((ts, data) # chunks) c =
    (case on_data d ts data c of
       (c1, out1) \<Rightarrow> case feed_decoder d chunks c1 of (c2, out2) \<Rightarrow> (c2, out1 @ out2))"

definition get_stream :: "dir \<Rightarrow> conn_state \<Rightarrow> seq_stream" where
  "get_stream d c = (case d of Client \<Rightarrow> cs_c2s c | Server \<Rightarrow> cs_s2c c)"

definition set_stream :: "dir \<Rightarrow> seq_stream \<Rightarrow> conn_state \<Rightarrow> conn_state" where
  "set_stream d s c = (case d of Client \<Rightarrow> c\<lparr>cs_c2s := s\<rparr> | Server \<Rightarrow> c\<lparr>cs_s2c := s\<rparr>)"

definition feed_segment ::
  "dir \<Rightarrow> int \<Rightarrow> tcp_segment \<Rightarrow> conn_state \<Rightarrow> conn_state \<times> proto_event list" where
  "feed_segment d ts seg c =
    (let s = get_stream d c;
         s1 = (if seg_syn seg then on_syn (seg_seq seg) s else s)
     in case stream_data ts (seg_seq seg) (seg_payload seg) s1 of
          (s2, chunks) \<Rightarrow>
            (case feed_decoder d chunks (cs_dec c) of
               (dc, evs) \<Rightarrow> ((set_stream d s2 c)\<lparr>cs_dec := dc\<rparr>, evs)))"

definition record_version :: "engine \<Rightarrow> conn_state \<Rightarrow> engine \<times> conn_state" where
  "record_version e c =
    (if cs_version_recorded c then (e, c)
     else case cn_server_version (cs_dec c) of
       None \<Rightarrow> (e, c)
     | Some v \<Rightarrow>
        let vs = st_server_versions (en_stats e) in
        (if v \<notin> set vs \<and> length vs < 8
         then e\<lparr>en_stats := (en_stats e)\<lparr>st_server_versions := vs @ [v]\<rparr>\<rparr> else e,
         c\<lparr>cs_version_recorded := True\<rparr>))"

definition note_fin :: "dir \<Rightarrow> tcp_segment \<Rightarrow> conn_state \<Rightarrow> conn_state" where
  "note_fin d seg c =
    (case d of
       Client \<Rightarrow> c\<lparr>cs_fin_client := cs_fin_client c \<or> seg_fin seg\<rparr>
     | Server \<Rightarrow> c\<lparr>cs_fin_server := cs_fin_server c \<or> seg_fin seg\<rparr>)"

definition conn_over :: "tcp_segment \<Rightarrow> conn_state \<Rightarrow> bool" where
  "conn_over seg c \<longleftrightarrow>
    seg_rst seg \<or> (cs_fin_client c \<and> cs_fin_server c) \<or>
    cn_disposition (cs_dec c) \<noteq> Active \<or> ss_overflow (cs_c2s c) \<or> ss_overflow (cs_s2c c)"

definition process_segment ::
  "engine \<Rightarrow> flow_key \<Rightarrow> dir \<Rightarrow> int \<Rightarrow> tcp_segment \<Rightarrow> conn_state \<Rightarrow> engine \<times> emission list" where
  "process_segment e key d ts seg c =
    (if cs_finished c then (e, [])
     else case feed_segment d ts seg c of
       (c1, evs) \<Rightarrow>
         (case record_version (e\<lparr>en_evbuf := en_evbuf e @ evs\<rparr>) c1 of
            (e2, c2) \<Rightarrow>
              let c3 = note_fin d seg c2 in
              (case (if conn_over seg c3 then finalize e2 c3 else drain_events e2 c3) of
                 (e4, c4, out) \<Rightarrow> (e4\<lparr>en_conns := (en_conns e4)(key \<mapsto> c4)\<rparr>, out))))"

definition on_segment :: "engine \<Rightarrow> int \<Rightarrow> tcp_segment \<Rightarrow> bool \<Rightarrow> engine \<times> emission list" where
  "on_segment e ts seg truncated =
    (case direction (en_port e) seg of
       None \<Rightarrow> (e, [])
     | Some (key, d) \<Rightarrow>
        (case replace_conn (count_packet truncated e) key d seg of
           (e1, out1) \<Rightarrow>
             (case lookup_conn e1 key of
                (e2, c) \<Rightarrow>
                  (case process_segment e2 key d ts seg c of (e3, out2) \<Rightarrow> (e3, out1 @ out2)))))"

definition on_frame :: "engine \<Rightarrow> int \<Rightarrow> int \<Rightarrow> bytes \<Rightarrow> bool \<Rightarrow> engine \<times> emission list" where
  "on_frame e ts linktype frame truncated =
    (case strip_link linktype frame of
       None \<Rightarrow> (e, [])
     | Some ip \<Rightarrow>
        (case parse_ip_tcp ip of
           Some seg \<Rightarrow> on_segment e ts seg truncated
         | None \<Rightarrow>
            (if is_ip_fragment ip
             then e\<lparr>en_stats := (en_stats e)
               \<lparr>st_ip_fragments_skipped := st_ip_fragments_skipped (en_stats e) + 1\<rparr>\<rparr>
             else e, [])))"

text \<open>\<open>finish\<close>: every connection still in the table, in the order \<open>keys\<close>.\<close>

fun finish_engine :: "flow_key list \<Rightarrow> engine \<Rightarrow> engine \<times> emission list" where
  "finish_engine [] e = (e, [])"
| "finish_engine (k # ks) e =
    (case en_conns e k of
       None \<Rightarrow> finish_engine ks e
     | Some c \<Rightarrow>
        (case finalize (e\<lparr>en_conns := (en_conns e)(k := None)\<rparr>) c of
           (e1, _, out1) \<Rightarrow> case finish_engine ks e1 of (e2, out2) \<Rightarrow> (e2, out1 @ out2)))"

section \<open>Warnings\<close>

definition EM_DASH :: string where
  "EM_DASH = [CHR 0xE2, CHR 0x80, CHR 0x94]"

definition warn_line :: "nat \<Rightarrow> string \<Rightarrow> string list" where
  "warn_line n msg = (if 0 < n then [dec n @ '' '' @ msg] else [])"

definition warnings :: "pcap_stats \<Rightarrow> string list" where
  "warnings st =
    warn_line (st_tls_skipped st) (''connection(s) negotiated TLS and were skipped (TLS traffic is opaque; '' @
      ''capture on a plaintext segment or disable TLS for the capture window)'') @
    warn_line (st_compressed_skipped st)
      ''connection(s) negotiated the compressed protocol and were skipped'' @
    warn_line (st_midstream_skipped st)
      ''connection(s) started before the capture (handshake not seen) and were skipped'' @
    warn_line (st_broken st)
      ''connection(s) had broken/incomplete streams and were only partially decoded'' @
    warn_line (st_truncated_packets st) (''packet(s) were truncated by the capture snaplen '' @ EM_DASH @
      '' capture with `-s 0`'') @
    warn_line (st_ip_fragments_skipped st) ''IP fragment(s) were skipped'' @
    warn_line (st_inexpandable st) (''prepared-statement execution(s) could not be expanded into SQL text '' @
      ''(statement prepared before the capture started, or unsupported '' @
      ''parameter encoding) and were dropped'') @
    warn_line (st_missing st)
      ''statement(s) never got a captured response; their recorded latency is 0''"

section \<open>The block loop\<close>

text \<open>What \<open>reader.next()\<close> returns, reduced to what \<open>scan_pcap_file\<close> reads: legacy header (link type,
  nanosecond flag), legacy packet (seconds, sub-seconds, caplen, origlen, data), pcap-ng section
  header, interface (link type, units per second, offset in seconds), enhanced packet (interface,
  time units, caplen, origlen, data); the errors carry what the code asks the reader for.\<close>

datatype block =
    Legacy_header int bool
  | Legacy_packet int int nat nat bytes
  | Section_header
  | Interface int "nat option" int
  | Enhanced_packet nat nat nat nat bytes
  | Other_block

datatype read_result =
    Block_ok block
  | Eof
  | Unexpected_eof
  | Incomplete bool bool
  | Buffer_too_small bool
  | Read_error

record scan_state =
  sc_linktype :: int
  sc_nanos :: bool
  sc_ifaces :: "(int \<times> nat \<times> int) list"
  sc_buffer_cap :: nat

definition new_scan :: scan_state where
  "new_scan = \<lparr>sc_linktype = ETHERNET, sc_nanos = False, sc_ifaces = [], sc_buffer_cap = 2 ^ 20\<rparr>"

text \<open>The timestamps, as \<open>i64\<close> with wrap-around: u32 seconds and sub-seconds cannot overflow; the
  pcap-ng division is done in u128 and cast.\<close>

definition legacy_ts :: "bool \<Rightarrow> int \<Rightarrow> int \<Rightarrow> int" where
  "legacy_ts nanos secs sub = secs * 1000000 + (if nanos then sub div 1000 else sub)"

definition ng_ts :: "nat \<Rightarrow> nat \<Rightarrow> int \<Rightarrow> int" where
  "ng_ts units resol tsoff =
    wrap_i64 (wrap_i64 (int (units * 1000000 div max resol 1)) + wrap_i64 (tsoff * 1000000))"

definition on_block :: "scan_state \<Rightarrow> engine \<Rightarrow> block \<Rightarrow> scan_state \<times> engine \<times> emission list" where
  "on_block sc e b =
    (case b of
       Legacy_header lt nanos \<Rightarrow> (sc\<lparr>sc_linktype := lt, sc_nanos := nanos\<rparr>, e, [])
     | Legacy_packet secs sub caplen origlen data \<Rightarrow>
        (case on_frame e (legacy_ts (sc_nanos sc) secs sub) (sc_linktype sc) data (caplen < origlen) of
           (e1, out) \<Rightarrow> (sc, e1, out))
     | Section_header \<Rightarrow> (sc\<lparr>sc_ifaces := []\<rparr>, e, [])
     | Interface lt resol off \<Rightarrow>
        (sc\<lparr>sc_ifaces := sc_ifaces sc @ [(lt, (case resol of Some r \<Rightarrow> r | None \<Rightarrow> 1000000), off)]\<rparr>, e, [])
     | Enhanced_packet ifid units caplen origlen data \<Rightarrow>
        (if ifid < length (sc_ifaces sc) then
           (case sc_ifaces sc ! ifid of
              (lt, resol, off) \<Rightarrow>
                (case on_frame e (ng_ts units resol off) lt (take caplen data) (caplen < origlen) of
                   (e1, out) \<Rightarrow> (sc, e1, out)))
         else (sc, e, []))
     | Other_block \<Rightarrow> (sc, e, []))"

text \<open>The sink takes an emission or fails; the first failure is kept, later emissions are dropped.\<close>

fun sink_all ::
  "('s \<Rightarrow> nat \<Rightarrow> proto_event \<Rightarrow> 'err + 's) \<Rightarrow> emission list \<Rightarrow> 'err option \<times> 's \<Rightarrow> 'err option \<times> 's" where
  "sink_all sink [] st = st"
| "sink_all sink ((sid, ev) # out) (Some err, s) = (Some err, s)"
| "sink_all sink ((sid, ev) # out) (None, s) =
    (case sink s sid ev of Inl err \<Rightarrow> (Some err, s) | Inr s' \<Rightarrow> sink_all sink out (None, s'))"

datatype 'err scan_error = Sink_failed 'err | Refill_failed | Record_too_large | Malformed

text \<open>The loop: the state after the last block, or the error that ends the scan at once. A list of
  reader results that ends is a reader that stops (as \<open>Eof\<close>).\<close>

fun scan_blocks ::
  "('s \<Rightarrow> nat \<Rightarrow> proto_event \<Rightarrow> 'err + 's) \<Rightarrow> read_result list \<Rightarrow> scan_state \<Rightarrow> engine \<Rightarrow>
    'err option \<times> 's \<Rightarrow> 'err scan_error + (engine \<times> ('err option \<times> 's))"
where
  "scan_blocks sink [] sc e st = Inr (e, st)"
| "scan_blocks sink (r # rs) sc e st =
    (if fst st \<noteq> None then Inr (e, st)
     else case r of
       Block_ok b \<Rightarrow>
        (case on_block sc e b of
           (sc1, e1, out) \<Rightarrow> scan_blocks sink rs sc1 e1 (sink_all sink out st))
     | Eof \<Rightarrow> Inr (e, st)
     | Unexpected_eof \<Rightarrow> Inr (e, st)
     | Incomplete exhausted refilled \<Rightarrow>
        (if exhausted then Inr (e, st)
         else if refilled then scan_blocks sink rs sc e st else Inl Refill_failed)
     | Buffer_too_small grown \<Rightarrow>
        (let cap = 2 * sc_buffer_cap sc in
         if 2 ^ 30 < cap \<or> \<not> grown then Inl Record_too_large
         else scan_blocks sink rs (sc\<lparr>sc_buffer_cap := cap\<rparr>) e st)
     | Read_error \<Rightarrow> Inl Malformed)"

definition scan_pcap_file ::
  "('s \<Rightarrow> nat \<Rightarrow> proto_event \<Rightarrow> 'err + 's) \<Rightarrow> (engine \<Rightarrow> flow_key list) \<Rightarrow> nat \<Rightarrow> read_result list \<Rightarrow> 's \<Rightarrow>
    'err scan_error + (pcap_stats \<times> 's)"
where
  "scan_pcap_file sink keys port results s0 =
    (case scan_blocks sink results new_scan (new_engine port) (None, s0) of
       Inl err \<Rightarrow> Inl err
     | Inr (e, (Some err, s)) \<Rightarrow> Inl (Sink_failed err)
     | Inr (e, (None, s)) \<Rightarrow>
        (case finish_engine (keys e) e of
           (e1, out) \<Rightarrow>
             (case sink_all sink out (None, s) of
                (Some err, s1) \<Rightarrow> Inl (Sink_failed err)
              | (None, s1) \<Rightarrow> Inr (en_stats e1, s1))))"

definition looks_like_pcap :: "bytes \<Rightarrow> bool" where
  "looks_like_pcap file \<longleftrightarrow>
    4 \<le> length file \<and>
    take 4 file \<in>
      {[0xA1, 0xB2, 0xC3, 0xD4], [0xD4, 0xC3, 0xB2, 0xA1], [0xA1, 0xB2, 0x3C, 0x4D],
       [0x4D, 0x3C, 0xB2, 0xA1], [0x0A, 0x0D, 0x0D, 0x0A]}"

end
