(* ===== verification/Pcap_Props.thy ===== *)
theory Pcap_Props
  imports Pcap_Engine
begin

text \<open>
  The capture engine's bookkeeping: every TCP connection seen is accounted for under exactly one
  heading of the summary, and a session id is never shared by two connections.
\<close>

section \<open>Runs\<close>

record captured_frame =
  fr_ts :: int
  fr_link :: int
  fr_bytes :: bytes
  fr_truncated :: bool

fun run_frames :: "captured_frame list \<Rightarrow> engine \<Rightarrow> engine \<times> emission list" where
  "run_frames [] e = (e, [])"
| "run_frames (f # fs) e =
    (case on_frame e (fr_ts f) (fr_link f) (fr_bytes f) (fr_truncated f) of
       (e1, out1) \<Rightarrow> case run_frames fs e1 of (e2, out2) \<Rightarrow> (e2, out1 @ out2))"

section \<open>Accounting\<close>

definition closed_count :: "pcap_stats \<Rightarrow> nat" where
  "closed_count st = st_decoded st + st_tls_skipped st + st_compressed_skipped st +
    st_midstream_skipped st + st_broken st"

definition live :: "engine \<Rightarrow> flow_key set" where
  "live e = {k. \<exists>c. en_conns e k = Some c \<and> \<not> cs_finished c}"

definition accounted :: "engine \<Rightarrow> bool" where
  "accounted e \<longleftrightarrow>
    finite (dom (en_conns e)) \<and>
    st_connections (en_stats e) = closed_count (en_stats e) + card (live e)"

lemma live_finite: "finite (dom (en_conns e)) \<Longrightarrow> finite (live e)"
  by (rule finite_subset [of _ "dom (en_conns e)"]) (auto simp: live_def)

lemma count_disposition_counts:
  "closed_count (count_disposition c st) = closed_count st + 1"
  "st_connections (count_disposition c st) = st_connections st"
  by (auto simp: count_disposition_def closed_count_def Let_def split: disposition.splits)

lemma accumulate_counts [simp]:
  "closed_count (accumulate c st) = closed_count st"
  "st_connections (accumulate c st) = st_connections st"
  by (auto simp: accumulate_def closed_count_def Let_def)

lemma pick_session_id_keeps:
  "pick_session_id e c = (e', i) \<Longrightarrow>
    en_stats e' = en_stats e \<and> en_conns e' = en_conns e \<and> en_port e' = en_port e"
  by (auto simp: pick_session_id_def split: option.splits if_splits)

lemma drain_events_keeps:
  "drain_events e c = (e', c', out) \<Longrightarrow>
    en_stats e' = en_stats e \<and> en_conns e' = en_conns e \<and> en_port e' = en_port e \<and>
    cs_finished c' = cs_finished c \<and> cs_dec c' = cs_dec c"
  by (auto simp: drain_events_def dest!: pick_session_id_keeps split: if_splits option.splits prod.splits)

lemma finalize_counts:
  assumes "finalize e c = (e', c', out)"
  shows "en_conns e' = en_conns e \<and> en_port e' = en_port e \<and> cs_finished c' \<and>
    st_connections (en_stats e') = st_connections (en_stats e) \<and>
    closed_count (en_stats e') = closed_count (en_stats e) + (if cs_finished c then 0 else 1)"
proof (cases "cs_finished c")
  case False
  obtain dc evs where f: "finish_conn (cs_dec c) = (dc, evs)" by fastforce
  obtain e1 c1 where d: "drain_events (e\<lparr>en_evbuf := en_evbuf e @ evs\<rparr>)
      (c\<lparr>cs_finished := True, cs_dec := dc\<rparr>) = (e1, c1, out)"
    using assms False f by (auto simp: finalize_def split: prod.splits)
  have e': "e' = e1\<lparr>en_stats := accumulate c1 (count_disposition c1 (en_stats e1))\<rparr>" "c' = c1"
    using assms False f d by (auto simp: finalize_def)
  from drain_events_keeps [OF d] False show ?thesis
    by (simp add: e' count_disposition_counts)
qed (use assms in \<open>auto simp: finalize_def\<close>)

lemma feed_segment_finished:
  "feed_segment d ts seg c = (c', evs) \<Longrightarrow> cs_finished c' = cs_finished c"
  by (auto simp: feed_segment_def Let_def set_stream_def split: prod.splits dir.splits)

lemma record_version_keeps:
  "record_version e c = (e', c') \<Longrightarrow>
    en_conns e' = en_conns e \<and> st_connections (en_stats e') = st_connections (en_stats e) \<and>
    closed_count (en_stats e') = closed_count (en_stats e) \<and> cs_finished c' = cs_finished c"
  by (auto simp: record_version_def Let_def closed_count_def split: if_splits option.splits)

lemma note_fin_finished [simp]: "cs_finished (note_fin d seg c) = cs_finished c"
  by (simp add: note_fin_def split: dir.splits)

lemma accounted_remove:
  assumes "accounted e" and "en_conns e key = Some c"
    and "finalize (e\<lparr>en_conns := (en_conns e)(key := None)\<rparr>) c = (e', c', out)"
  shows "accounted e' \<and> en_conns e' = (en_conns e)(key := None)"
proof -
  note f = finalize_counts [OF assms(3)]
  have fin: "finite (dom (en_conns e))" using assms(1) by (simp add: accounted_def)
  have l: "live e' = live e - {key}"
    using f by (auto simp: live_def)
  have "card (live e') + (if cs_finished c then 0 else 1) = card (live e)"
  proof (cases "cs_finished c")
    case True
    then have "key \<notin> live e" using assms(2) by (simp add: live_def)
    then show ?thesis using l True by simp
  next
    case False
    then have "key \<in> live e" using assms(2) by (simp add: live_def)
    then show ?thesis using l False card.remove [OF live_finite [OF fin], of key] by simp
  qed
  then show ?thesis using f assms(1) fin by (auto simp: accounted_def)
qed

lemma accounted_replace:
  assumes "accounted e" and "replace_conn e key d seg = (e', out)"
  shows "accounted e'"
proof (cases "en_conns e key")
  case (Some c)
  obtain e1 c1 o1 where f: "finalize (e\<lparr>en_conns := (en_conns e)(key := None)\<rparr>) c = (e1, c1, o1)"
    by (metis prod_cases3)
  then show ?thesis using assms accounted_remove [OF assms(1) Some f] Some
    by (auto simp: replace_conn_def split: if_splits)
qed (use assms in \<open>auto simp: replace_conn_def split: if_splits\<close>)

lemma accounted_lookup:
  assumes "accounted e" and "lookup_conn e key = (e', c)"
  shows "accounted e' \<and> en_conns e' key = Some c"
proof (cases "en_conns e key")
  case None
  let ?e = "e\<lparr>en_stats := (en_stats e)\<lparr>st_connections := st_connections (en_stats e) + 1\<rparr>,
     en_conns := (en_conns e)(key \<mapsto> new_conn_state)\<rparr>"
  have e: "e' = ?e" "c = new_conn_state" using assms(2) None by (auto simp: lookup_conn_def)
  have "live ?e = insert key (live e)" using None by (auto simp: live_def new_conn_state_def)
  moreover have "key \<notin> live e" using None by (simp add: live_def)
  ultimately have "card (live ?e) = card (live e) + 1"
    using assms(1) live_finite by (simp add: accounted_def)
  then show ?thesis using assms(1) e by (simp add: accounted_def closed_count_def)
qed (use assms in \<open>auto simp: lookup_conn_def\<close>)

lemma accounted_process:
  assumes "accounted e" and "en_conns e key = Some c" and "process_segment e key d ts seg c = (e', out)"
  shows "accounted e'"
proof (cases "cs_finished c")
  case False
  obtain c1 evs where f: "feed_segment d ts seg c = (c1, evs)" by fastforce
  obtain e2 c2 where v: "record_version (e\<lparr>en_evbuf := en_evbuf e @ evs\<rparr>) c1 = (e2, c2)" by fastforce
  let ?c3 = "note_fin d seg c2"
  obtain e4 c4 o4 where x: "(if conn_over seg ?c3 then finalize e2 ?c3 else drain_events e2 ?c3) = (e4, c4, o4)"
    by (metis prod_cases3)
  have e': "e' = e4\<lparr>en_conns := (en_conns e4)(key \<mapsto> c4)\<rparr>"
    using assms(3) False f v x by (simp add: process_segment_def Let_def)
  have c3: "\<not> cs_finished ?c3" using False feed_segment_finished [OF f] record_version_keeps [OF v] by simp
  have e2: "en_conns e2 = en_conns e" "st_connections (en_stats e2) = st_connections (en_stats e)"
      "closed_count (en_stats e2) = closed_count (en_stats e)"
    using record_version_keeps [OF v] by simp_all
  have fin: "finite (live e)" "finite (dom (en_conns e))"
    using assms(1) live_finite by (auto simp: accounted_def)
  have key: "key \<in> live e" using assms(2) False by (simp add: live_def)
  show ?thesis
  proof (cases "conn_over seg ?c3")
    case True
    note g = finalize_counts [of e2 ?c3 e4 c4 o4]
    have "live e' = live e - {key}" using g x True e2 by (auto simp: e' live_def)
    then have "card (live e') + 1 = card (live e)" using card.remove [OF fin(1) key] by simp
    then show ?thesis using g x True e2 assms(1) c3 by (simp add: e' accounted_def)
  next
    case False
    note g = drain_events_keeps [of e2 ?c3 e4 c4 o4]
    have "live e' = live e" using g x False e2 c3 key by (auto simp: e' live_def)
    then show ?thesis using g x False e2 assms(1) by (simp add: e' accounted_def)
  qed
qed (use assms in \<open>simp add: process_segment_def\<close>)

lemma accounted_on_segment:
  assumes "accounted e" and "on_segment e ts seg tr = (e', out)"
  shows "accounted e'"
proof (cases "direction (en_port e) seg")
  case (Some kd)
  obtain key d where kd: "kd = (key, d)" by fastforce
  have c: "accounted (count_packet tr e)"
    using assms(1) by (simp add: accounted_def count_packet_def Let_def closed_count_def live_def)
  obtain e1 o1 where r: "replace_conn (count_packet tr e) key d seg = (e1, o1)" by fastforce
  obtain e2 c2 where l: "lookup_conn e1 key = (e2, c2)" by fastforce
  obtain e3 o3 where p: "process_segment e2 key d ts seg c2 = (e3, o3)" by fastforce
  have "accounted e2 \<and> en_conns e2 key = Some c2"
    using accounted_lookup [OF accounted_replace [OF c r] l] .
  with accounted_process [OF _ _ p] have "accounted e3" by blast
  then show ?thesis using assms(2) Some kd r l p by (simp add: on_segment_def)
qed (use assms in \<open>simp add: on_segment_def\<close>)

lemma accounted_on_frame:
  assumes "accounted e" and "on_frame e ts lt frame tr = (e', out)"
  shows "accounted e'"
proof -
  have "accounted (e\<lparr>en_stats := (en_stats e)
      \<lparr>st_ip_fragments_skipped := st_ip_fragments_skipped (en_stats e) + 1\<rparr>\<rparr>)"
    using assms(1) by (simp add: accounted_def closed_count_def live_def)
  then show ?thesis using assms accounted_on_segment
    by (auto simp: on_frame_def split: option.splits if_splits)
qed

lemma accounted_run:
  "accounted e \<Longrightarrow> run_frames fs e = (e', out) \<Longrightarrow> accounted e'"
proof (induction fs arbitrary: e out)
  case (Cons f fs)
  then show ?case by (auto split: prod.splits dest: accounted_on_frame)
qed simp

lemma accounted_finish:
  assumes "accounted e" and "finish_engine ks e = (e', out)"
  shows "accounted e' \<and> en_conns e' = (\<lambda>k. if k \<in> set ks then None else en_conns e k)"
  using assms
proof (induction ks arbitrary: e out)
  case (Cons k ks)
  show ?case
  proof (cases "en_conns e k")
    case None
    then show ?thesis using Cons by (auto simp: fun_eq_iff)
  next
    case (Some c)
    obtain e1 c1 o1 where f: "finalize (e\<lparr>en_conns := (en_conns e)(k := None)\<rparr>) c = (e1, c1, o1)"
      by (metis prod_cases3)
    obtain o2 where r: "finish_engine ks e1 = (e', o2)"
      using Cons.prems(2) Some f by (auto split: prod.splits)
    note a = accounted_remove [OF Cons.prems(1) Some f]
    from Cons.IH [OF _ r] a show ?thesis by (auto simp: fun_eq_iff)
  qed
qed auto

text \<open>C24: Every connection is accounted for: after any captured frames and the end of the file, the
  connections seen are those decoded, skipped for TLS, skipped for compression, skipped as
  mid-stream and broken, whatever the order in which the table is emptied.\<close>
theorem connections_accounted:
  assumes "run_frames fs (new_engine port) = (e, out)" and "dom (en_conns e) \<subseteq> set ks"
    and "finish_engine ks e = (e', out')"
  shows "st_connections (en_stats e') =
    st_decoded (en_stats e') + st_tls_skipped (en_stats e') + st_compressed_skipped (en_stats e') +
    st_midstream_skipped (en_stats e') + st_broken (en_stats e')"
proof -
  have "accounted (new_engine port)"
    by (simp add: accounted_def new_engine_def new_pcap_stats_def closed_count_def live_def)
  from accounted_finish [OF accounted_run [OF this assms(1)] assms(3)]
  have a: "accounted e'" "en_conns e' = (\<lambda>k. if k \<in> set ks then None else en_conns e k)" by auto
  have "live e' = {}" using a(2) assms(2) by (auto simp: live_def)
  then show ?thesis using a(1) by (simp add: accounted_def closed_count_def)
qed

text \<open>A capture of one SYN from 10.0.0.1:40000 to 10.0.0.2:3306, on a raw IP link.\<close>

definition syn_frame :: captured_frame where
  "syn_frame = \<lparr>fr_ts = 5, fr_link = RAW,
    fr_bytes = ipv4_bytes [10, 0, 0, 1] [10, 0, 0, 2] (tcp_bytes 40000 3306 7 0x02 []),
    fr_truncated = False\<rparr>"

definition syn_key :: flow_key where
  "syn_key = \<lparr>fk_client = \<lparr>ep_addr = v4mapped [10, 0, 0, 1], ep_port = 40000\<rparr>,
    fk_server = \<lparr>ep_addr = v4mapped [10, 0, 0, 2], ep_port = 3306\<rparr>\<rparr>"

lemma parse_syn_frame:
  "parse_ip_tcp (ipv4_bytes [10, 0, 0, 1] [10, 0, 0, 2] (tcp_bytes 40000 3306 7 0x02 [])) = Some
    \<lparr>seg_src = \<lparr>ep_addr = v4mapped [10, 0, 0, 1], ep_port = 40000\<rparr>,
     seg_dst = \<lparr>ep_addr = v4mapped [10, 0, 0, 2], ep_port = 3306\<rparr>,
     seg_seq = 7, seg_syn = True, seg_fin = False, seg_ack = False, seg_rst = False, seg_payload = []\<rparr>"
proof -
  let ?tcp = "tcp_bytes 40000 3306 7 0x02 []"
  have "parse_ipv4 (ipv4_bytes [10, 0, 0, 1] [10, 0, 0, 2] ?tcp @ []) =
      Some (v4mapped [10, 0, 0, 1], v4mapped [10, 0, 0, 2], ?tcp)"
    by (rule parse_ipv4_bytes) (simp_all add: tcp_bytes_def)
  moreover have "ip_version (ipv4_bytes [10, 0, 0, 1] [10, 0, 0, 2] ?tcp) = 4"
      "ipv4_bytes [10, 0, 0, 1] [10, 0, 0, 2] ?tcp \<noteq> []"
    by (simp_all add: ip_version_def ipv4_bytes_def)
  ultimately show ?thesis using parse_tcp_bytes [of 40000 3306] by (simp add: parse_ip_tcp_def)
qed

lemma run_syn_frame:
  "dom (en_conns (fst (run_frames [syn_frame] (new_engine 3306)))) = {syn_key} \<and>
   st_connections (en_stats (fst (run_frames [syn_frame] (new_engine 3306)))) = 1"
  by (simp add: syn_frame_def on_frame_def strip_link_def RAW_def ETHERNET_def LINUX_SLL_def
      LINUX_SLL2_def parse_syn_frame on_segment_def direction_def new_engine_def count_packet_def
      replace_conn_def is_syn_retransmit_def lookup_conn_def process_segment_def
      new_conn_state_def feed_segment_def get_stream_def stream_data_def set_stream_def
      record_version_def new_conn_def note_fin_def conn_over_def on_syn_def new_stream_def
      drain_events_def new_pcap_stats_def syn_key_def Let_def)

theorem connections_accounted_witness:
  "\<exists>e'. fst (finish_engine [syn_key] (fst (run_frames [syn_frame] (new_engine 3306)))) = e' \<and>
    st_connections (en_stats e') =
      st_decoded (en_stats e') + st_tls_skipped (en_stats e') + st_compressed_skipped (en_stats e') +
      st_midstream_skipped (en_stats e') + st_broken (en_stats e')"
proof -
  obtain e out where r: "run_frames [syn_frame] (new_engine 3306) = (e, out)" by fastforce
  obtain e' out' where f: "finish_engine [syn_key] e = (e', out')" by fastforce
  have "dom (en_conns e) \<subseteq> set [syn_key]" using run_syn_frame r by simp
  from connections_accounted [OF r this f] r f show ?thesis by simp
qed

section \<open>Session ids\<close>

text \<open>The server's thread id is read from four bytes.\<close>

definition tid_ok :: "conn \<Rightarrow> bool" where
  "tid_ok c \<longleftrightarrow> (\<forall>t. cn_thread_id c = Some t \<longrightarrow> t < 2 ^ 32)"

lemma tid_simps [simp]:
  "cn_thread_id (drop_long_data k c) = cn_thread_id c"
  "cn_thread_id (push_pending s p c) = cn_thread_id c"
  "cn_thread_id (count_ignored c) = cn_thread_id c"
  "cn_thread_id (set_param_types k ts c) = cn_thread_id c"
  "cn_thread_id (register_stmt q b c) = cn_thread_id c"
  by (simp_all add: drop_long_data_def push_pending_def count_ignored_def set_param_types_def
      register_stmt_def split: option.splits)

lemma tid_queue_event [simp]: "cn_thread_id (queue_event s t q c) = cn_thread_id c"
  by (simp add: queue_event_def Let_def split: option.splits)

lemma tid_execute_values:
  "execute_values c k named n r = (c', x) \<Longrightarrow> cn_thread_id c' = cn_thread_id c"
  by (auto simp: execute_values_def execute_types_def split: if_splits option.splits prod.splits)

lemma tid_decode_execute: "decode_execute c p = (c', x) \<Longrightarrow> cn_thread_id c' = cn_thread_id c"
  by (auto simp: decode_execute_def Let_def dest!: tid_execute_values
      split: option.splits prod.splits)

lemma tid_on_command: "cn_thread_id (on_command pkt c) = cn_thread_id c"
proof -
  have e: "cn_thread_id (com_stmt_execute s t b d) = cn_thread_id d" for s t b d
    by (auto simp: com_stmt_execute_def dest!: tid_decode_execute split: prod.splits option.splits)
  show ?thesis
    by (simp add: on_command_def Let_def e com_query_def com_init_db_def com_send_long_data_def
        com_stmt_close_def com_stmt_reset_def split: list.splits option.splits)
qed

lemma tid_login_names: "cn_thread_id (login_names caps p c) = cn_thread_id c"
  by (simp add: login_names_def Let_def split: option.splits prod.splits)

lemma tid_client: "tid_ok c \<Longrightarrow> tid_ok (on_client_packet pkt c)"
  by (simp add: tid_ok_def on_client_packet_def tid_on_command on_login_def Let_def tid_login_names
      split: phase.splits)

lemma rd_uint_bound: "rd_uint n r = Some (v, r') \<Longrightarrow> v < 256 ^ n"
  using le_val_bound [of "take n r"] by (auto simp: rd_uint_def rd_take_def split: if_splits)

lemma parse_greeting_tid: "parse_greeting p = Some (v, t, caps) \<Longrightarrow> t < 2 ^ 32"
  by (auto simp: parse_greeting_def dest!: rd_uint_bound split: if_splits option.splits prod.splits)

lemma tid_server: "tid_ok c \<Longrightarrow> on_server_packet pkt c = (c', out) \<Longrightarrow> tid_ok c'"
  by (auto simp: tid_ok_def on_server_packet_def on_response_def complete_request_def
      dest: parse_greeting_tid
      split: phase.splits option.splits list.splits if_splits pending.splits)

lemma tid_on_packets: "tid_ok c \<Longrightarrow> on_packets d pkts c = (c', out) \<Longrightarrow> tid_ok c'"
proof (induction d pkts c arbitrary: out rule: on_packets.induct)
  case (2 d pkt pkts c)
  obtain c1 out1 where s: "on_packet d pkt c = (c1, out1)" by fastforce
  have t: "tid_ok c1" using s "2.prems"(1) tid_client tid_server
    by (auto simp: on_packet_def split: dir.splits)
  show ?case
  proof (cases "decoding c1")
    case True
    then obtain out2 where "on_packets d pkts c1 = (c', out2)"
      using "2.prems"(2) s by (auto split: prod.splits)
    with "2.IH" [OF s [symmetric]] True t show ?thesis by simp
  qed (use "2.prems" s t in auto)
qed simp

lemma tid_on_data: "tid_ok c \<Longrightarrow> on_data d ts data c = (c', out) \<Longrightarrow> tid_ok c'"
proof -
  assume t: "tid_ok c" and o: "on_data d ts data c = (c', out)"
  obtain c1 ps where f: "feed_dir d ts data c = (c1, ps)" by fastforce
  have "tid_ok c1" using t f by (auto simp: feed_dir_def tid_ok_def split: dir.splits prod.splits)
  moreover have "tid_ok (c1\<lparr>cn_disposition := Broken\<rparr>)" using calculation by (simp add: tid_ok_def)
  ultimately show "tid_ok c'" using o f t tid_on_packets
    by (auto simp: on_data_def split: if_splits)
qed

lemma tid_feed_decoder: "tid_ok c \<Longrightarrow> feed_decoder d chunks c = (c', out) \<Longrightarrow> tid_ok c'"
  by (induction d chunks c arbitrary: out rule: feed_decoder.induct)
    (auto split: prod.splits dest: tid_on_data)

lemma tid_finish: "tid_ok c \<Longrightarrow> finish_conn c = (c', out) \<Longrightarrow> tid_ok c'"
  by (auto simp: finish_conn_def tid_ok_def Let_def split: if_splits)

text \<open>The invariant: ids in use are thread ids or synthetic ids already given; every connection's id
  is in use; two connections have different ids.\<close>

definition ids_ok :: "engine \<Rightarrow> bool" where
  "ids_ok e \<longleftrightarrow>
    2 ^ 48 \<le> en_synthetic e \<and>
    (\<forall>i \<in> en_used e. i < 2 ^ 32 \<or> i < en_synthetic e \<and> 2 ^ 48 \<le> i)"

definition conn_ids :: "engine \<Rightarrow> bool" where
  "conn_ids e \<longleftrightarrow>
    (\<forall>k c. en_conns e k = Some c \<longrightarrow> tid_ok (cs_dec c) \<and>
      (\<forall>i. cs_session_id c = Some i \<longrightarrow> i \<in> en_used e)) \<and>
    (\<forall>k1 k2 c1 c2 i. k1 \<noteq> k2 \<longrightarrow> en_conns e k1 = Some c1 \<longrightarrow> en_conns e k2 = Some c2 \<longrightarrow>
      cs_session_id c1 = Some i \<longrightarrow> cs_session_id c2 \<noteq> Some i)"

definition sessions_ok :: "engine \<Rightarrow> bool" where
  "sessions_ok e \<longleftrightarrow> ids_ok e \<and> conn_ids e \<and> en_evbuf e = []"

lemma pick_fresh:
  assumes "ids_ok e" and "tid_ok (cs_dec c)" and "pick_session_id e c = (e', i)"
  shows "i \<notin> en_used e \<and> en_used e' = insert i (en_used e) \<and> ids_ok e' \<and>
    en_conns e' = en_conns e \<and> en_stats e' = en_stats e \<and> en_evbuf e' = en_evbuf e"
proof -
  have s: "en_synthetic e \<notin> en_used e"
  proof
    assume "en_synthetic e \<in> en_used e"
    then have "en_synthetic e < 2 ^ 32" using assms(1) by (auto simp: ids_ok_def)
    then show False using assms(1) by (simp add: ids_ok_def)
  qed
  show ?thesis
  proof (cases "\<exists>t. cn_thread_id (cs_dec c) = Some t \<and> t \<notin> en_used e")
    case True
    then obtain t where "cn_thread_id (cs_dec c) = Some t" "t \<notin> en_used e" by blast
    then show ?thesis using assms by (auto simp: pick_session_id_def ids_ok_def tid_ok_def)
  next
    case False
    then have "(e', i) = (e\<lparr>en_used := insert (en_synthetic e) (en_used e),
        en_synthetic := en_synthetic e + 1\<rparr>, en_synthetic e)"
      using assms(3) by (auto simp: pick_session_id_def split: option.splits if_splits)
    then show ?thesis using s assms(1) by (fastforce simp: ids_ok_def)
  qed
qed

text \<open>What draining does to one connection: its id stays or becomes a fresh one, and everything
  emitted carries it.\<close>

lemma drain_ids:
  assumes "ids_ok e" and "tid_ok (cs_dec c)" and "\<forall>i. cs_session_id c = Some i \<longrightarrow> i \<in> en_used e"
    and "drain_events e c = (e', c', out)"
  shows "ids_ok e' \<and> en_conns e' = en_conns e \<and> en_evbuf e' = [] \<and> en_used e \<subseteq> en_used e' \<and>
    cs_dec c' = cs_dec c \<and>
    (cs_session_id c' = cs_session_id c \<or>
      (cs_session_id c = None \<and> (\<exists>i. cs_session_id c' = Some i \<and> i \<notin> en_used e \<and> i \<in> en_used e'))) \<and>
    (\<forall>x \<in> set out. cs_session_id c' = Some (fst x))"
proof (cases "en_evbuf e = []")
  case False
  show ?thesis
  proof (cases "cs_session_id c")
    case None
    obtain e1 i where p: "pick_session_id e c = (e1, i)" by fastforce
    from pick_fresh [OF assms(1,2) p] p None False assms(4) show ?thesis
      by (auto simp: drain_events_def ids_ok_def)
  next
    case (Some i)
    with False assms show ?thesis by (auto simp: drain_events_def ids_ok_def)
  qed
qed (use assms in \<open>auto simp: drain_events_def\<close>)

lemma finalize_ids:
  assumes "ids_ok e" and "tid_ok (cs_dec c)" and "\<forall>i. cs_session_id c = Some i \<longrightarrow> i \<in> en_used e"
    and "finalize e c = (e', c', out)" and "\<not> cs_finished c \<or> en_evbuf e = []"
  shows "ids_ok e' \<and> en_conns e' = en_conns e \<and> en_evbuf e' = [] \<and> en_used e \<subseteq> en_used e' \<and>
    tid_ok (cs_dec c') \<and>
    (cs_session_id c' = cs_session_id c \<or>
      (cs_session_id c = None \<and> (\<exists>i. cs_session_id c' = Some i \<and> i \<notin> en_used e \<and> i \<in> en_used e'))) \<and>
    (\<forall>x \<in> set out. cs_session_id c' = Some (fst x))"
proof (cases "cs_finished c")
  case True
  then show ?thesis using assms by (auto simp: finalize_def)
next
  case False
  obtain dc evs where f: "finish_conn (cs_dec c) = (dc, evs)" by fastforce
  let ?e = "e\<lparr>en_evbuf := en_evbuf e @ evs\<rparr>" and ?c = "c\<lparr>cs_finished := True, cs_dec := dc\<rparr>"
  obtain e1 c1 where d: "drain_events ?e ?c = (e1, c1, out)"
    using assms(4) False f by (auto simp: finalize_def split: prod.splits)
  have e': "e' = e1\<lparr>en_stats := accumulate c1 (count_disposition c1 (en_stats e1))\<rparr>" "c' = c1"
    using assms(4) False f d by (auto simp: finalize_def)
  have "ids_ok ?e" using assms(1) by (simp add: ids_ok_def)
  moreover have t: "tid_ok dc" using tid_finish [OF assms(2) f] .
  ultimately show ?thesis using drain_ids [OF _ _ _ d] assms(3) e' by (auto simp: ids_ok_def)
qed

text \<open>An emission belongs to a connection of the table, or carries an id never used before.\<close>

definition emits_own :: "engine \<Rightarrow> emission list \<Rightarrow> bool" where
  "emits_own e out \<longleftrightarrow>
    (\<forall>x \<in> set out. (\<exists>k c. en_conns e k = Some c \<and> cs_session_id c = Some (fst x)) \<or>
      fst x \<notin> en_used e)"

lemma emits_ownI:
  assumes "en_conns e key = Some c"
    and "cs_session_id c1 = cs_session_id c \<or> (cs_session_id c = None \<and>
      (\<exists>i. cs_session_id c1 = Some i \<and> i \<notin> en_used e \<and> P i))"
    and "\<forall>x \<in> set out. cs_session_id c1 = Some (fst x)"
  shows "emits_own e out"
  unfolding emits_own_def
proof
  fix x
  assume "x \<in> set out"
  then have x: "cs_session_id c1 = Some (fst x)" using assms(3) by blast
  from assms(2) show "(\<exists>k c. en_conns e k = Some c \<and> cs_session_id c = Some (fst x)) \<or>
      fst x \<notin> en_used e"
  proof (elim disjE conjE exE)
    assume "cs_session_id c1 = cs_session_id c"
    then show ?thesis using x assms(1) by metis
  qed (use x in simp)
qed

lemma replace_ids:
  assumes "sessions_ok e" and "replace_conn e key d seg = (e', out)"
  shows "sessions_ok e' \<and> en_used e \<subseteq> en_used e' \<and> emits_own e out \<and>
    (\<forall>k c. en_conns e' k = Some c \<longrightarrow> en_conns e k = Some c)"
proof -
  have same: ?thesis if "e' = e" "out = []" using that assms(1) by (simp add: emits_own_def)
  show ?thesis
  proof (cases "en_conns e key")
    case None
    then show ?thesis using assms(2) same by (auto simp: replace_conn_def split: if_splits)
  next
    case (Some old)
    obtain e1 c1 o1 where f: "finalize (e\<lparr>en_conns := (en_conns e)(key := None)\<rparr>) old = (e1, c1, o1)"
      by (metis prod_cases3)
    have old: "tid_ok (cs_dec old)" "\<forall>i. cs_session_id old = Some i \<longrightarrow> i \<in> en_used e"
      using assms(1) Some by (auto simp: sessions_ok_def conn_ids_def)
    have r: "ids_ok e1 \<and> en_conns e1 = (en_conns e)(key := None) \<and> en_evbuf e1 = [] \<and>
        en_used e \<subseteq> en_used e1 \<and>
        (cs_session_id c1 = cs_session_id old \<or>
          (cs_session_id old = None \<and> (\<exists>i. cs_session_id c1 = Some i \<and> i \<notin> en_used e \<and> i \<in> en_used e1))) \<and>
        (\<forall>x \<in> set o1. cs_session_id c1 = Some (fst x))"
      using finalize_ids [OF _ old(1) _ f] old(2) assms(1) by (simp add: sessions_ok_def ids_ok_def)
    have "conn_ids e1"
      using r assms(1) unfolding sessions_ok_def conn_ids_def by auto
    moreover have "emits_own e o1" by (rule emits_ownI [OF Some, of c1 "\<lambda>i. i \<in> en_used e1"]) (use r in blast)+
    ultimately have "sessions_ok e1 \<and> en_used e \<subseteq> en_used e1 \<and> emits_own e o1 \<and>
        (\<forall>k c. en_conns e1 k = Some c \<longrightarrow> en_conns e k = Some c)"
      using r by (auto simp: sessions_ok_def split: if_splits)
    then show ?thesis using same assms(2) Some f
      by (auto simp: replace_conn_def split: if_splits)
  qed
qed

lemma lookup_ids:
  assumes "sessions_ok e" and "lookup_conn e key = (e', c)"
  shows "sessions_ok e' \<and> en_used e' = en_used e \<and> en_conns e' key = Some c \<and>
    (\<forall>k c i. en_conns e' k = Some c \<longrightarrow> cs_session_id c = Some i \<longrightarrow> en_conns e k = Some c)"
proof (cases "en_conns e key")
  case None
  have n: "tid_ok (cs_dec new_conn_state)" "cs_session_id new_conn_state = None"
    by (simp_all add: tid_ok_def new_conn_def new_conn_state_def)
  have c: "c = new_conn_state" "en_conns e' = (en_conns e)(key \<mapsto> new_conn_state)"
    "en_used e' = en_used e" "en_synthetic e' = en_synthetic e" "en_evbuf e' = en_evbuf e"
    using None assms(2) by (auto simp: lookup_conn_def)
  have old: "ids_ok e" "conn_ids e" "en_evbuf e = []" using assms(1) by (auto simp: sessions_ok_def)
  have "ids_ok e'" using old(1) c by (simp add: ids_ok_def)
  moreover have "conn_ids e'"
    using old(2) n unfolding conn_ids_def c by (auto split: if_splits)
  ultimately show ?thesis using c n old by (auto simp: sessions_ok_def split: if_splits)
qed (use assms in \<open>auto simp: lookup_conn_def\<close>)

lemma feed_segment_ids:
  "feed_segment d ts seg c = (c', evs) \<Longrightarrow> tid_ok (cs_dec c) \<Longrightarrow>
    tid_ok (cs_dec c') \<and> cs_session_id c' = cs_session_id c"
  by (auto simp: feed_segment_def Let_def set_stream_def dest: tid_feed_decoder
      split: prod.splits dir.splits)

lemma record_version_ids:
  "record_version e c = (e', c') \<Longrightarrow>
    en_used e' = en_used e \<and> en_synthetic e' = en_synthetic e \<and> en_conns e' = en_conns e \<and>
    en_evbuf e' = en_evbuf e \<and> cs_dec c' = cs_dec c \<and> cs_session_id c' = cs_session_id c \<and>
    cs_finished c' = cs_finished c"
  by (auto simp: record_version_def Let_def split: if_splits option.splits)

lemma note_fin_ids [simp]:
  "cs_dec (note_fin d seg c) = cs_dec c" "cs_session_id (note_fin d seg c) = cs_session_id c"
  by (simp_all add: note_fin_def split: dir.splits)

lemma process_ids:
  assumes "sessions_ok e" and "en_conns e key = Some c"
    and "process_segment e key d ts seg c = (e', out)"
  shows "sessions_ok e' \<and> en_used e \<subseteq> en_used e' \<and> emits_own e out"
proof (cases "cs_finished c")
  case True
  then show ?thesis using assms by (simp add: process_segment_def emits_own_def)
next
  case False
  obtain c1 evs where f: "feed_segment d ts seg c = (c1, evs)" by fastforce
  obtain e2 c2 where v: "record_version (e\<lparr>en_evbuf := en_evbuf e @ evs\<rparr>) c1 = (e2, c2)" by fastforce
  let ?c3 = "note_fin d seg c2"
  obtain e4 c4 o4 where x: "(if conn_over seg ?c3 then finalize e2 ?c3 else drain_events e2 ?c3) = (e4, c4, o4)"
    by (metis prod_cases3)
  have e': "e' = e4\<lparr>en_conns := (en_conns e4)(key \<mapsto> c4)\<rparr>" "out = o4"
    using assms(3) False f v x by (simp_all add: process_segment_def Let_def)
  have c: "tid_ok (cs_dec c)" "\<forall>i. cs_session_id c = Some i \<longrightarrow> i \<in> en_used e"
    using assms(1,2) by (auto simp: sessions_ok_def conn_ids_def)
  note rv = record_version_ids [OF v]
  have c3: "tid_ok (cs_dec ?c3)" "cs_session_id ?c3 = cs_session_id c" "\<not> cs_finished ?c3"
    using feed_segment_ids [OF f c(1)] feed_segment_finished [OF f] rv False by auto
  have e2: "ids_ok e2" "en_used e2 = en_used e" "en_conns e2 = en_conns e"
    using rv assms(1) by (auto simp: sessions_ok_def ids_ok_def)
  have r: "ids_ok e4 \<and> en_conns e4 = en_conns e \<and> en_evbuf e4 = [] \<and> en_used e \<subseteq> en_used e4 \<and>
      tid_ok (cs_dec c4) \<and>
      (cs_session_id c4 = cs_session_id c \<or>
        (cs_session_id c = None \<and> (\<exists>i. cs_session_id c4 = Some i \<and> i \<notin> en_used e \<and> i \<in> en_used e4))) \<and>
      (\<forall>y \<in> set o4. cs_session_id c4 = Some (fst y))"
    using finalize_ids [OF e2(1) c3(1), of e4 c4 o4] drain_ids [OF e2(1) c3(1), of e4 c4 o4] x c(2) c3 e2
    by (auto split: if_splits)
  have "conn_ids e'"
    unfolding conn_ids_def
  proof (intro conjI allI impI)
    fix k cc
    assume "en_conns e' k = Some cc"
    then consider "k = key" "cc = c4" | "k \<noteq> key" "en_conns e k = Some cc"
      using e' r by (auto split: if_splits)
    note cases = this
    then show "tid_ok (cs_dec cc)"
      using r assms(1) by cases (auto simp: sessions_ok_def conn_ids_def)
    fix i
    assume "cs_session_id cc = Some i"
    with cases show "i \<in> en_used e'"
      using r c(2) assms(1) e' by cases (auto simp: sessions_ok_def conn_ids_def)
  next
    fix k1 k2 ca cb i
    assume k: "k1 \<noteq> k2" "en_conns e' k1 = Some ca" "en_conns e' k2 = Some cb" "cs_session_id ca = Some i"
    have ids: "en_conns e k = Some cc \<Longrightarrow> cs_session_id cc = Some j \<Longrightarrow> j \<in> en_used e" for k cc j
      using assms(1) by (auto simp: sessions_ok_def conn_ids_def)
    have apart: "k \<noteq> key \<Longrightarrow> en_conns e k = Some cc \<Longrightarrow> cs_session_id c4 = Some j \<Longrightarrow>
        cs_session_id cc \<noteq> Some j" for k cc j
      using r ids assms(1,2) unfolding sessions_ok_def conn_ids_def by (metis option.distinct(1) option.inject)
    have rest: "k \<noteq> key \<Longrightarrow> en_conns e' k = en_conns e k" for k using e' r by simp
    have here: "en_conns e' key = Some c4" using e' by simp
    show "cs_session_id cb \<noteq> Some i"
    proof (cases "k1 = key \<or> k2 = key")
      case True
      then show ?thesis using k here rest apart by (metis option.inject)
    next
      case False
      then have "en_conns e k1 = Some ca" "en_conns e k2 = Some cb" using k rest by auto
      then show ?thesis using k assms(1) unfolding sessions_ok_def conn_ids_def by blast
    qed
  qed
  then have "sessions_ok e'" using r e' by (simp add: sessions_ok_def ids_ok_def)
  moreover have "emits_own e out" unfolding e'(2) by (rule emits_ownI [OF assms(2), of c4 "\<lambda>i. i \<in> en_used e4"]) (use r in blast)+
  ultimately show ?thesis using r e' by simp
qed

lemma on_segment_ids:
  assumes "sessions_ok e" and "on_segment e ts seg tr = (e', out)"
  shows "sessions_ok e' \<and> en_used e \<subseteq> en_used e' \<and> emits_own e out"
proof (cases "direction (en_port e) seg")
  case (Some kd)
  obtain key d where kd: "kd = (key, d)" by fastforce
  have c: "sessions_ok (count_packet tr e)" "en_used (count_packet tr e) = en_used e"
      "en_conns (count_packet tr e) = en_conns e"
    using assms(1) by (auto simp: sessions_ok_def count_packet_def Let_def ids_ok_def conn_ids_def)
  obtain e1 o1 where r: "replace_conn (count_packet tr e) key d seg = (e1, o1)" by fastforce
  obtain e2 c2 where l: "lookup_conn e1 key = (e2, c2)" by fastforce
  obtain e3 o3 where p: "process_segment e2 key d ts seg c2 = (e3, o3)" by fastforce
  note r1 = replace_ids [OF c(1) r]
  have s1: "sessions_ok e1" using r1 by blast
  note l1 = lookup_ids [OF s1 l]
  have s2: "sessions_ok e2" "en_conns e2 key = Some c2" using l1 by blast+
  note p1 = process_ids [OF s2 p]
  have o3: "emits_own e o3"
    unfolding emits_own_def
  proof
    fix x
    assume x: "x \<in> set o3"
    then consider k cc where "en_conns e2 k = Some cc" "cs_session_id cc = Some (fst x)"
      | "fst x \<notin> en_used e2" using p1 by (auto simp: emits_own_def)
    then show "(\<exists>k c. en_conns e k = Some c \<and> cs_session_id c = Some (fst x)) \<or> fst x \<notin> en_used e"
    proof cases
      case 1
      then have "en_conns e1 k = Some cc" using l1 by blast
      then have "en_conns e k = Some cc" using r1 c(3) by simp
      then show ?thesis using 1 by blast
    next
      case 2
      then show ?thesis using l1 r1 c(2) by auto
    qed
  qed
  have "emits_own e o1" using r1 c by (simp add: emits_own_def)
  then have "emits_own e (o1 @ o3)" using o3 by (auto simp: emits_own_def)
  moreover have "e' = e3" "out = o1 @ o3"
    using assms(2) Some kd r l p by (simp_all add: on_segment_def)
  ultimately show ?thesis using p1 l1 r1 c(2) by auto
qed (use assms in \<open>simp add: on_segment_def emits_own_def\<close>)

lemma on_frame_ids:
  assumes "sessions_ok e" and "on_frame e ts lt frame tr = (e', out)"
  shows "sessions_ok e' \<and> en_used e \<subseteq> en_used e' \<and> emits_own e out"
proof -
  have "sessions_ok (e\<lparr>en_stats := s\<rparr>)" for s
    using assms(1) by (auto simp: sessions_ok_def ids_ok_def conn_ids_def)
  then show ?thesis using assms on_segment_ids [OF assms(1)]
    by (auto simp: on_frame_def emits_own_def split: option.splits if_splits)
qed

lemma run_frames_ids:
  "sessions_ok e \<Longrightarrow> run_frames fs e = (e', out) \<Longrightarrow> sessions_ok e'"
proof (induction fs arbitrary: e out)
  case (Cons f fs)
  then show ?case by (auto split: prod.splits dest: on_frame_ids)
qed simp

text \<open>C25: Session ids identify connections: at any point of a capture two connections of the table
  have different ids, and what the next frame emits carries the id of a connection of the table
  or an id that no connection (closed and replaced ones included) has ever had.\<close>
theorem session_ids_unique:
  assumes "run_frames fs (new_engine port) = (e, out)"
    and "on_frame e ts lt frame tr = (e', out')"
  shows "(\<forall>k1 k2 c1 c2 i. k1 \<noteq> k2 \<longrightarrow> en_conns e k1 = Some c1 \<longrightarrow> en_conns e k2 = Some c2 \<longrightarrow>
      cs_session_id c1 = Some i \<longrightarrow> cs_session_id c2 \<noteq> Some i) \<and>
    (\<forall>x \<in> set out'. (\<exists>k c. en_conns e k = Some c \<and> cs_session_id c = Some (fst x)) \<or>
      fst x \<notin> en_used e) \<and>
    en_used e \<subseteq> en_used e'"
proof -
  have "sessions_ok (new_engine port)"
    by (simp add: sessions_ok_def ids_ok_def conn_ids_def new_engine_def)
  from run_frames_ids [OF this assms(1)] have s: "sessions_ok e" .
  then have "\<forall>k1 k2 c1 c2 i. k1 \<noteq> k2 \<longrightarrow> en_conns e k1 = Some c1 \<longrightarrow> en_conns e k2 = Some c2 \<longrightarrow>
      cs_session_id c1 = Some i \<longrightarrow> cs_session_id c2 \<noteq> Some i"
    by (simp add: sessions_ok_def conn_ids_def)
  then show ?thesis using on_frame_ids [OF s assms(2)] by (auto simp: emits_own_def)
qed

theorem session_ids_unique_witness:
  "\<exists>e e' out'. run_frames [syn_frame] (new_engine 3306) = (e, []) \<and>
    on_frame e 9 RAW (fr_bytes syn_frame) False = (e', out') \<and> en_used e \<subseteq> en_used e'"
proof -
  obtain e out where r: "run_frames [syn_frame] (new_engine 3306) = (e, out)" by fastforce
  obtain e' out' where f: "on_frame e 9 RAW (fr_bytes syn_frame) False = (e', out')" by fastforce
  have "snd (run_frames [syn_frame] (new_engine 3306)) = []"
    by (simp add: syn_frame_def on_frame_def strip_link_def RAW_def ETHERNET_def LINUX_SLL_def
        LINUX_SLL2_def parse_syn_frame on_segment_def direction_def new_engine_def count_packet_def
        replace_conn_def is_syn_retransmit_def lookup_conn_def process_segment_def
        new_conn_state_def feed_segment_def get_stream_def stream_data_def set_stream_def
        record_version_def new_conn_def note_fin_def conn_over_def on_syn_def new_stream_def
        drain_events_def new_pcap_stats_def Let_def)
  then have "out = []" using r by simp
  then show ?thesis using r f session_ids_unique [OF r f] by blast
qed

end
