(* ===== verification/Slowlog.thy ===== *)
theory Slowlog
  imports Rust_Parse "HOL-Library.Signed_Division"
begin

text \<open>
  \<open>SlowLogParser\<close> of \<open>slowlog.rs\<close>: the line-driven parser of MySQL slow query logs. The date
  routines of the \<open>time\<close> crate are the parameter \<open>time_lib\<close> of the definitions that use them.
\<close>

section \<open>Data\<close>

datatype dialect = Mysql56OrOlder | Mysql57 | Mysql57OrNewer | Mysql80 | MariaDb

fun as_str :: "dialect \<Rightarrow> string" where
  "as_str Mysql56OrOlder = ''mysql-5.6-or-older''"
| "as_str Mysql57 = ''mysql-5.7''"
| "as_str Mysql57OrNewer = ''mysql-5.7-or-newer''"
| "as_str Mysql80 = ''mysql-8.0''"
| "as_str MariaDb = ''mariadb''"

record parsed_query =
  pq_ts_micros :: int
  pq_thread_id :: nat
  pq_user :: "string option"
  pq_db :: "string option"
  pq_query :: string
  pq_query_time_s :: f64

datatype sql_state = Normal | InString char | InComment

record parser =
  pa_dialect :: "dialect option"
  pa_from_banner :: bool
  pa_time_micros :: "int option"
  pa_set_ts_micros :: "int option"
  pa_user :: "string option"
  pa_thread_id :: "nat option"
  pa_schema :: "string option"
  pa_query_time_s :: f64
  pa_current_db :: "string option"
  pa_buf :: string
  pa_in_query :: bool
  pa_sql_state :: sql_state
  pa_admin_commands :: nat
  pa_restarts :: nat

definition new_parser :: parser where
  "new_parser =
    \<lparr>pa_dialect = None, pa_from_banner = False, pa_time_micros = None, pa_set_ts_micros = None,
     pa_user = None, pa_thread_id = None, pa_schema = None, pa_query_time_s = Fin 0,
     pa_current_db = None, pa_buf = [], pa_in_query = False, pa_sql_state = Normal,
     pa_admin_commands = 0, pa_restarts = 0\<rparr>"

text \<open>What the parser asks of the \<open>time\<close> crate, in nanoseconds since the epoch:
  \<open>OffsetDateTime::parse\<close> with the format RFC 3339, and the UTC instant of a calendar date
  (year, month, day) and a time of day, \<open>None\<close> when a component is out of range.\<close>

record time_lib =
  rfc3339 :: "string \<Rightarrow> int option"
  calendar :: "int \<Rightarrow> nat \<Rightarrow> nat \<Rightarrow> nat \<Rightarrow> nat \<Rightarrow> nat \<Rightarrow> int option"

section \<open>Recognising lines\<close>

definition is_entry_header :: "string \<Rightarrow> bool" where
  "is_entry_header line \<longleftrightarrow>
     prefix ''# Time: '' line \<or> prefix ''# User@Host: '' line \<or> prefix ''# Query_time: '' line \<or>
     prefix ''# Thread_id: '' line \<or> prefix ''# administrator command:'' line"

definition is_restart_banner :: "string \<Rightarrow> bool" where
  "is_restart_banner line \<longleftrightarrow>
     contains line '', Version: '' \<and> ends_with (trim_end line) ''started with:''"

text \<open>String and comment state across a line; an escape at the end of the line leaves nothing
  to skip.\<close>

function scan_sql_state :: "sql_state \<Rightarrow> string \<Rightarrow> sql_state" where
  "scan_sql_state st [] = st"
| "scan_sql_state (InString q) (c # cs) =
    (if c = BSLASH \<and> q \<noteq> BTICK then scan_sql_state (InString q) (drop 1 cs)
     else if c = q then
       (if cs \<noteq> [] \<and> hd cs = q then scan_sql_state (InString q) (drop 1 cs)
        else scan_sql_state Normal cs)
     else scan_sql_state (InString q) cs)"
| "scan_sql_state InComment (c # cs) =
    (if c = CHR ''*'' \<and> cs \<noteq> [] \<and> hd cs = CHR ''/'' then scan_sql_state Normal (drop 1 cs)
     else scan_sql_state InComment cs)"
| "scan_sql_state Normal (c # cs) =
    (if c = SQUOTE \<or> c = DQUOTE \<or> c = BTICK then scan_sql_state (InString c) cs
     else if c = CHR ''/'' \<and> cs \<noteq> [] \<and> hd cs = CHR ''*'' then scan_sql_state InComment (drop 1 cs)
     else if c = CHR ''-'' \<and> cs \<noteq> [] \<and> hd cs = CHR ''-'' \<and>
       (length cs < 2 \<or> is_ascii_whitespace (cs ! 1)) then Normal
     else if c = CHR ''#'' then Normal
     else scan_sql_state Normal cs)"
  by pat_completeness auto
termination by (relation "measure (length \<circ> snd)") auto

section \<open>Header values\<close>

definition old_date :: "time_lib \<Rightarrow> string \<Rightarrow> string \<Rightarrow> int option" where
  "old_date lib date tod =
    (if length date \<noteq> 6 \<or> \<not> list_all is_ascii_digit date then None
     else case (parse_signed (2 ^ 31 - 1) (take 2 date), parse_unsigned 255 (take 2 (drop 2 date)),
        parse_unsigned 255 (drop 4 date)) of
       (Some year, Some month, Some day) \<Rightarrow>
         (case split_char (CHR '':'') tod of
            h # m # s # _ \<Rightarrow>
              (case (parse_unsigned 255 (trim h), parse_unsigned 255 m, parse_unsigned 255 s) of
                 (Some hour, Some minute, Some sec) \<Rightarrow> calendar lib (2000 + year) month day hour minute sec
               | _ \<Rightarrow> None)
          | _ \<Rightarrow> None)
     | _ \<Rightarrow> None)"

definition micros_of :: "int \<Rightarrow> int" where
  "micros_of nanos = wrap_i64 (nanos sdiv 1000)"

definition parse_time_value :: "time_lib \<Rightarrow> string \<Rightarrow> (int \<times> dialect) option" where
  "parse_time_value lib s0 =
    (let s = trim s0 in
     if CHR ''T'' \<in> set s then map_option (\<lambda>n. (micros_of n, Mysql57OrNewer)) (rfc3339 lib s)
     else case split_whitespace s of
       date # tod # _ \<Rightarrow> map_option (\<lambda>n. (micros_of n, Mysql56OrOlder)) (old_date lib date tod)
     | _ \<Rightarrow> None)"

definition parse_use_line :: "string \<Rightarrow> string option" where
  "parse_use_line t =
    (if length t < 5 \<or> \<not> eq_ignore_ascii_case (take 4 t) ''use '' then None
     else
       let db = trim (trim_end_matches (CHR '';'') (trim (drop 4 t))) in
       if prefix [BTICK] db \<and> ends_with db [BTICK] \<and> 2 \<le> length db then
         (let inner = undouble_backticks (take (length db - 2) (drop 1 db)) in
          if inner = [] then None else Some inner)
       else if db = [] \<or> has_space db then None
       else Some db)"

definition SET_TIMESTAMP :: string where
  "SET_TIMESTAMP = ''set timestamp=''"

definition parse_set_timestamp :: "string \<Rightarrow> int option" where
  "parse_set_timestamp t =
    (let n = length SET_TIMESTAMP in
     if length t \<le> n \<or> \<not> eq_ignore_ascii_case (take n t) SET_TIMESTAMP then None
     else map_option (\<lambda>secs. f64_to_i64 (f64_round_int (f64_mul secs (Fin 1000000))))
       (parse_f64 (trim (trim_end_matches (CHR '';'') (drop n t)))))"

section \<open>Entries\<close>

definition observe_banner_dialect :: "dialect \<Rightarrow> parser \<Rightarrow> parser" where
  "observe_banner_dialect d p =
    (if pa_from_banner p then p else p\<lparr>pa_dialect := Some d, pa_from_banner := True\<rparr>)"

definition observe_time_dialect :: "dialect \<Rightarrow> parser \<Rightarrow> parser" where
  "observe_time_dialect d p = (if pa_dialect p = None then p\<lparr>pa_dialect := Some d\<rparr> else p)"

definition observe_log_slow_extra :: "parser \<Rightarrow> parser" where
  "observe_log_slow_extra p =
    (if \<not> pa_from_banner p \<and> (pa_dialect p = None \<or> pa_dialect p = Some Mysql57OrNewer)
     then p\<lparr>pa_dialect := Some Mysql80\<rparr> else p)"

definition append_query_line :: "string \<Rightarrow> parser \<Rightarrow> parser" where
  "append_query_line line p =
    p\<lparr>pa_buf := (if pa_buf p = [] then line else pa_buf p @ [NEWLINE] @ line),
      pa_sql_state := scan_sql_state (pa_sql_state p) line\<rparr>"

definition reset_entry :: "parser \<Rightarrow> parser" where
  "reset_entry p = p\<lparr>pa_set_ts_micros := None, pa_schema := None, pa_query_time_s := Fin 0\<rparr>"

text \<open>The user is what stands before the bracket or the at sign, or inside the bracket when
  nothing stands before it; the id follows the last \<open>Id:\<close>.\<close>

definition host_user :: "string \<Rightarrow> string" where
  "host_user rest =
    (let front = trim (takeWhile (\<lambda>c. c \<noteq> CHR ''@'') rest) in
     case find_str ''['' front of
       Some i \<Rightarrow>
         (if i = 0 then
            (case find_str '']'' front of Some e \<Rightarrow> take (e - 1) (drop 1 front) | None \<Rightarrow> [])
          else take i front)
     | None \<Rightarrow> front)"

definition host_id :: "string \<Rightarrow> nat option" where
  "host_id rest =
    (case rfind_str ''Id:'' rest of
       None \<Rightarrow> None
     | Some i \<Rightarrow>
        (case split_whitespace (drop (i + 3) rest) of
           [] \<Rightarrow> None
         | tok # _ \<Rightarrow> parse_unsigned (2 ^ 64 - 1) tok))"

definition handle_user_host :: "string \<Rightarrow> parser \<Rightarrow> parser" where
  "handle_user_host rest p =
    (let u = host_user rest;
         p1 = (if u = [] then p else p\<lparr>pa_user := Some u\<rparr>)
     in case host_id rest of None \<Rightarrow> p1 | Some i \<Rightarrow> p1\<lparr>pa_thread_id := Some i\<rparr>)"

definition kv_set :: "string \<Rightarrow> string \<Rightarrow> parser \<Rightarrow> parser" where
  "kv_set key v p =
    (if key = ''Query_time'' then
       (case parse_f64 v of Some f \<Rightarrow> p\<lparr>pa_query_time_s := f\<rparr> | None \<Rightarrow> p)
     else if key = ''Thread_id'' then
       (case parse_unsigned (2 ^ 64 - 1) v of Some i \<Rightarrow> p\<lparr>pa_thread_id := Some i\<rparr> | None \<Rightarrow> p)
     else if key = ''Schema'' then p\<lparr>pa_schema := Some v\<rparr>
     else p)"

fun kv_tokens :: "string list \<Rightarrow> parser \<Rightarrow> parser" where
  "kv_tokens [] p = p"
| "kv_tokens [k] p = p"
| "kv_tokens (k # v # toks) p =
    (case strip_suffix_char (CHR '':'') k of
       None \<Rightarrow> kv_tokens (v # toks) p
     | Some key \<Rightarrow>
        if ends_with v '':'' then kv_tokens (v # toks) p else kv_tokens toks (kv_set key v p))"

definition handle_kv_line :: "string \<Rightarrow> parser \<Rightarrow> parser" where
  "handle_kv_line line p =
    kv_tokens (split_whitespace (trim_start (dropWhile ((=) (CHR ''#'')) line))) p"

definition handle_header :: "time_lib \<Rightarrow> string \<Rightarrow> parser \<Rightarrow> parser" where
  "handle_header lib line p =
    (case strip_prefix ''# Time: '' line of
       Some rest \<Rightarrow>
         (case parse_time_value lib (trim rest) of
            Some (micros, d) \<Rightarrow> observe_time_dialect d (p\<lparr>pa_time_micros := Some micros\<rparr>)
          | None \<Rightarrow> p)
     | None \<Rightarrow>
        (case strip_prefix ''# User@Host: '' line of
           Some rest \<Rightarrow> handle_user_host rest p
         | None \<Rightarrow>
            if prefix ''# administrator command:'' line then
              reset_entry (p\<lparr>pa_admin_commands := pa_admin_commands p + 1\<rparr>)
            else
              handle_kv_line line
                (if prefix ''# Query_time:'' line \<and>
                   (contains line ''Thread_id:'' \<or> contains line ''Errno:'')
                 then observe_log_slow_extra p else p)))"

text \<open>The version a banner names; MariaDB is looked for first.\<close>

definition banner_dialect :: "string \<Rightarrow> dialect option" where
  "banner_dialect line =
    (case find_str '', Version: '' line of
       None \<Rightarrow> None
     | Some pos \<Rightarrow>
        let ver = drop (pos + length '', Version: '') line in
        if contains ver ''MariaDB'' then Some MariaDb
        else if prefix ''5.7'' ver then Some Mysql57
        else if prefix ''5'' ver then Some Mysql56OrOlder
        else if prefix ''8'' ver then Some Mysql80
        else None)"

definition is_column_header :: "string \<Rightarrow> bool" where
  "is_column_header line \<longleftrightarrow>
    prefix ''Tcp port:'' line \<or> prefix ''TCP Port:'' line \<or>
    (let t = trim_start line in
     prefix ''Time'' t \<and> contains t ''Id'' \<and> contains t ''Command'' \<and> contains t ''Argument'')"

definition handle_banner :: "string \<Rightarrow> parser \<Rightarrow> parser \<times> bool" where
  "handle_banner line p =
    (if is_restart_banner line then
       (let p1 = p\<lparr>pa_restarts := pa_restarts p + 1, pa_current_db := None, pa_set_ts_micros := None\<rparr>
        in (case banner_dialect line of None \<Rightarrow> p1 | Some d \<Rightarrow> observe_banner_dialect d p1, True))
     else (p, is_column_header line))"

definition consume_meta_line :: "time_lib \<Rightarrow> string \<Rightarrow> parser \<Rightarrow> parser" where
  "consume_meta_line lib line p =
    (if prefix ''#'' line then handle_header lib line p
     else
       let (p1, consumed) = handle_banner line p; t = trim line in
       if consumed \<or> t = [] then p1
       else
         case (if pa_set_ts_micros p1 = None then parse_use_line t else None) of
           Some db \<Rightarrow> p1\<lparr>pa_current_db := Some db\<rparr>
         | None \<Rightarrow>
            (case parse_set_timestamp t of
               Some ts \<Rightarrow> p1\<lparr>pa_set_ts_micros := Some ts\<rparr>
             | None \<Rightarrow>
                append_query_line line
                  (p1\<lparr>pa_in_query := True, pa_buf := [], pa_sql_state := Normal\<rparr>)))"

text \<open>The statement without trailing white space and one semicolon.\<close>

definition statement_text :: "string \<Rightarrow> string" where
  "statement_text buf =
    (let q = trim_end buf in
     if ends_with q '';'' then trim_end (butlast q) else q)"

definition take_query :: "parser \<Rightarrow> parser \<times> parsed_query option" where
  "take_query p =
    (if \<not> pa_in_query p then (p, None)
     else
       let q = statement_text (pa_buf p);
           p1 = reset_entry (p\<lparr>pa_in_query := False, pa_sql_state := Normal, pa_buf := []\<rparr>)
       in (p1,
           if q = [] then None
           else Some
             \<lparr>pq_ts_micros = (case pa_set_ts_micros p of Some t \<Rightarrow> t | None \<Rightarrow>
                (case pa_time_micros p of Some t \<Rightarrow> t | None \<Rightarrow> 0)),
              pq_thread_id = (case pa_thread_id p of Some i \<Rightarrow> i | None \<Rightarrow> 0),
              pq_user = pa_user p,
              pq_db = (case pa_schema p of Some s \<Rightarrow> Some s | None \<Rightarrow> pa_current_db p),
              pq_query = q, pq_query_time_s = pa_query_time_s p\<rparr>))"

definition push_line :: "time_lib \<Rightarrow> string \<Rightarrow> parser \<Rightarrow> parser \<times> parsed_query option" where
  "push_line lib raw p =
    (let line = (case strip_suffix_char (CHR 0x0D) raw of Some l \<Rightarrow> l | None \<Rightarrow> raw) in
     if pa_in_query p then
       (if pa_sql_state p = Normal \<and> (is_entry_header line \<or> is_restart_banner line) then
          (case take_query p of (p1, q) \<Rightarrow> (consume_meta_line lib line p1, q))
        else (append_query_line line p, None))
     else (consume_meta_line lib line p, None))"

definition finish_parser :: "parser \<Rightarrow> parser \<times> parsed_query option" where
  "finish_parser p = take_query p"

text \<open>A whole log: every line pushed, then the end of input.\<close>

fun push_lines :: "time_lib \<Rightarrow> string list \<Rightarrow> parser \<Rightarrow> parser \<times> parsed_query list" where
  "push_lines lib [] p = (p, [])"
| "push_lines lib (l # ls) p =
    (case push_line lib l p of (p1, q) \<Rightarrow>
     case push_lines lib ls p1 of (p2, qs) \<Rightarrow> (p2, (case q of Some x \<Rightarrow> [x] | None \<Rightarrow> []) @ qs))"

definition parse_log :: "time_lib \<Rightarrow> string list \<Rightarrow> parser \<times> parsed_query list" where
  "parse_log lib ls =
    (case push_lines lib ls new_parser of (p, qs) \<Rightarrow>
     case finish_parser p of (p', q) \<Rightarrow> (p', qs @ (case q of Some x \<Rightarrow> [x] | None \<Rightarrow> [])))"

end
