(* ===== verification/Slowlog_Props.thy ===== *)
theory Slowlog_Props
  imports Slowlog
begin

text \<open>
  The slow log parser: the string and comment state it carries from line to line is that of the
  statement it accumulates, so header-looking text inside a literal never ends a statement; and
  a log written the way the server writes it is read back entry by entry.
\<close>

section \<open>The line-wise state is the state of the text\<close>

text \<open>The reference: one scan over the whole statement, in which a line comment ends at the next
  newline.\<close>

function text_state :: "sql_state \<Rightarrow> string \<Rightarrow> sql_state" where
  "text_state st [] = st"
| "text_state (InString q) (c # cs) =
    (if c = BSLASH \<and> q \<noteq> BTICK then text_state (InString q) (drop 1 cs)
     else if c = q then
       (if cs \<noteq> [] \<and> hd cs = q then text_state (InString q) (drop 1 cs) else text_state Normal cs)
     else text_state (InString q) cs)"
| "text_state InComment (c # cs) =
    (if c = CHR ''*'' \<and> cs \<noteq> [] \<and> hd cs = CHR ''/'' then text_state Normal (drop 1 cs)
     else text_state InComment cs)"
| "text_state Normal (c # cs) =
    (if c = SQUOTE \<or> c = DQUOTE \<or> c = BTICK then text_state (InString c) cs
     else if c = CHR ''/'' \<and> cs \<noteq> [] \<and> hd cs = CHR ''*'' then text_state InComment (drop 1 cs)
     else if (c = CHR ''-'' \<and> cs \<noteq> [] \<and> hd cs = CHR ''-'' \<and>
         (length cs < 2 \<or> is_ascii_whitespace (cs ! 1))) \<or> c = CHR ''#'' then
       text_state Normal (dropWhile (\<lambda>d. d \<noteq> NEWLINE) cs)
     else text_state Normal cs)"
  by pat_completeness auto
termination
  by (relation "measure (length \<circ> snd)") (auto simp: le_imp_less_Suc length_dropWhile_le)

lemma newline_space [simp]: "is_ascii_whitespace NEWLINE"
  by (simp add: is_ascii_whitespace_def byte_def)

text \<open>A literal never has the newline as its quote.\<close>

definition quote_ok :: "sql_state \<Rightarrow> bool" where
  "quote_ok st \<longleftrightarrow> st \<noteq> InString NEWLINE"

lemma scan_quote_ok: "quote_ok st \<Longrightarrow> quote_ok (scan_sql_state st s)"
  by (induction st s rule: scan_sql_state.induct) (auto simp: quote_ok_def)

lemma dropWhile_line:
  "NEWLINE \<notin> set l \<Longrightarrow> dropWhile (\<lambda>d. d \<noteq> NEWLINE) (l @ NEWLINE # r) = NEWLINE # r"
  by (induction l) auto

lemma text_state_newline:
  "quote_ok st \<Longrightarrow> text_state st (NEWLINE # r) = text_state st r"
  by (cases st) (auto simp: quote_ok_def)

lemma text_state_line:
  assumes "NEWLINE \<notin> set l" and "quote_ok st"
  shows "text_state st (l @ NEWLINE # r) = text_state (scan_sql_state st l) r"
  using assms
proof (induction st l rule: scan_sql_state.induct)
  case (1 st)
  then show ?case by (simp add: text_state_newline)
next
  case (2 q c cs)
  then show ?case by (cases cs) (auto simp: quote_ok_def text_state_newline)
next
  case (3 c cs)
  then show ?case by (cases cs) (auto simp: quote_ok_def text_state_newline)
next
  case (4 c cs)
  have d: "dropWhile (\<lambda>d. d \<noteq> NEWLINE) (cs @ NEWLINE # r) = NEWLINE # r"
    using 4 by (simp add: dropWhile_line)
  have hd: "cs @ NEWLINE # r \<noteq> [] \<and> hd (cs @ NEWLINE # r) = x \<longleftrightarrow> cs \<noteq> [] \<and> hd cs = x"
    if "x \<noteq> NEWLINE" for x
    using that by (cases cs) auto
  have ws: "cs \<noteq> [] \<and> hd cs = CHR ''-'' \<and> (length cs < 2 \<or> is_ascii_whitespace (cs ! 1)) \<longleftrightarrow>
      cs @ NEWLINE # r \<noteq> [] \<and> hd (cs @ NEWLINE # r) = CHR ''-'' \<and>
      (length (cs @ NEWLINE # r) < 2 \<or> is_ascii_whitespace ((cs @ NEWLINE # r) ! 1))"
    by (cases cs; cases "tl cs") (auto simp: nth_append)
  have nl: "c \<noteq> NEWLINE" "NEWLINE \<notin> set cs" "NEWLINE \<notin> set (drop 1 cs)"
    using 4(4) by (auto dest: in_set_dropD)
  have q: "quote_ok (InString c)" using nl(1) by (simp add: quote_ok_def)
  consider (quote) "c = SQUOTE \<or> c = DQUOTE \<or> c = BTICK"
    | (comment) "\<not> (c = SQUOTE \<or> c = DQUOTE \<or> c = BTICK)"
        "c = CHR ''/'' \<and> cs \<noteq> [] \<and> hd cs = CHR ''*''"
    | (line) "\<not> (c = SQUOTE \<or> c = DQUOTE \<or> c = BTICK)"
        "\<not> (c = CHR ''/'' \<and> cs \<noteq> [] \<and> hd cs = CHR ''*'')"
        "(c = CHR ''-'' \<and> cs \<noteq> [] \<and> hd cs = CHR ''-'' \<and>
           (length cs < 2 \<or> is_ascii_whitespace (cs ! 1))) \<or> c = CHR ''#''"
    | (plain) "\<not> (c = SQUOTE \<or> c = DQUOTE \<or> c = BTICK)"
        "\<not> (c = CHR ''/'' \<and> cs \<noteq> [] \<and> hd cs = CHR ''*'')"
        "\<not> (c = CHR ''-'' \<and> cs \<noteq> [] \<and> hd cs = CHR ''-'' \<and>
           (length cs < 2 \<or> is_ascii_whitespace (cs ! 1)))" "c \<noteq> CHR ''#''"
    by blast
  then show ?case
  proof cases
    case quote
    then show ?thesis using 4(1) [OF quote nl(2) q] by simp
  next
    case comment
    then have "drop 1 (cs @ NEWLINE # r) = drop 1 cs @ NEWLINE # r" by (cases cs) auto
    moreover have "quote_ok InComment" by (simp add: quote_ok_def)
    ultimately show ?thesis using comment 4(2) [OF comment nl(3)] hd [of "CHR ''*''"]
      by (simp only: text_state.simps scan_sql_state.simps append_Cons simp_thms if_True if_False) simp
  next
    case line
    then show ?thesis using d ws hd [of "CHR ''*''"] text_state_newline [OF 4(5), of r]
      by (simp only: text_state.simps scan_sql_state.simps append_Cons) auto
  next
    case plain
    then show ?thesis using ws hd [of "CHR ''*''"] 4(3) [OF plain nl(2) 4(5)]
      by (simp only: text_state.simps scan_sql_state.simps append_Cons) auto
  qed
qed

lemma text_state_last:
  "NEWLINE \<notin> set l \<Longrightarrow> text_state st l = scan_sql_state st l"
proof (induction st l rule: scan_sql_state.induct)
  case (2 q c cs)
  then show ?case by (cases cs) auto
next
  case (3 c cs)
  then show ?case by (cases cs) auto
next
  case (4 c cs)
  have d: "dropWhile (\<lambda>d. d \<noteq> NEWLINE) cs = []" using 4(4) by (auto simp: dropWhile_eq_Nil_conv)
  have nl: "NEWLINE \<notin> set cs" "NEWLINE \<notin> set (drop 1 cs)"
    using 4(4) by (auto dest: in_set_dropD)
  show ?case using 4(1-3) nl by (simp only: text_state.simps scan_sql_state.simps d) auto
qed simp

fun join_lines :: "string list \<Rightarrow> string" where
  "join_lines [] = []"
| "join_lines [l] = l"
| "join_lines (l # ls) = l @ NEWLINE # join_lines ls"

lemma join_lines_snoc: "ls \<noteq> [] \<Longrightarrow> join_lines (ls @ [l]) = join_lines ls @ NEWLINE # l"
  by (induction ls rule: join_lines.induct) auto

lemma join_lines_Nil_iff: "ls \<noteq> [] \<Longrightarrow> hd ls \<noteq> [] \<Longrightarrow> join_lines ls \<noteq> []"
  by (cases ls rule: join_lines.cases) auto

definition no_newline :: "string list \<Rightarrow> bool" where
  "no_newline ls \<longleftrightarrow> (\<forall>l \<in> set ls. NEWLINE \<notin> set l)"

lemma text_state_join:
  "ls \<noteq> [] \<Longrightarrow> no_newline ls \<Longrightarrow> quote_ok st \<Longrightarrow>
    text_state st (join_lines ls) = foldl scan_sql_state st ls"
  by (induction ls arbitrary: st rule: join_lines.induct)
    (auto simp: no_newline_def text_state_last text_state_line scan_quote_ok)

section \<open>The invariant of the parser\<close>

definition parser_inv :: "parser \<Rightarrow> bool" where
  "parser_inv p \<longleftrightarrow>
    (if pa_in_query p
     then \<exists>ls. ls \<noteq> [] \<and> hd ls \<noteq> [] \<and> no_newline ls \<and> pa_buf p = join_lines ls \<and>
       pa_sql_state p = foldl scan_sql_state Normal ls
     else pa_buf p = [] \<and> pa_sql_state p = Normal)"

text \<open>The parts of the state that header lines leave alone.\<close>

definition same_query :: "parser \<Rightarrow> parser \<Rightarrow> bool" where
  "same_query p p' \<longleftrightarrow> pa_in_query p' = pa_in_query p \<and> pa_buf p' = pa_buf p \<and>
    pa_sql_state p' = pa_sql_state p"

lemma same_query_trans: "same_query p q \<Longrightarrow> same_query q r \<Longrightarrow> same_query p r"
  by (simp add: same_query_def)

lemma same_query_kv_set: "same_query p (kv_set k v p)"
  by (auto simp: same_query_def kv_set_def split: option.splits)

lemma same_query_kv: "same_query p (kv_tokens toks p)"
proof (induction toks p rule: kv_tokens.induct)
  case (3 k v toks p)
  show ?case
  proof (cases "strip_suffix_char (CHR '':'') k")
    case None
    then show ?thesis using 3(1) by simp
  next
    case (Some key)
    show ?thesis
    proof (cases "ends_with v '':''")
      case True
      then show ?thesis using Some 3(2) by simp
    next
      case False
      then show ?thesis using Some 3(3) same_query_trans [OF same_query_kv_set] by simp
    qed
  qed
qed (auto simp: same_query_def)

lemma same_query_simps:
  "same_query p (observe_time_dialect d p)" "same_query p (observe_banner_dialect d p)"
  "same_query p (observe_log_slow_extra p)" "same_query p (reset_entry p)"
  "same_query p (handle_user_host rest p)" "same_query p (handle_kv_line line p)"
  by (auto simp: same_query_def observe_time_dialect_def observe_banner_dialect_def
      observe_log_slow_extra_def reset_entry_def handle_user_host_def handle_kv_line_def Let_def
      same_query_kv [unfolded same_query_def] split: option.splits)

lemma same_query_header: "same_query p (handle_header lib line p)"
  unfolding handle_header_def
  using same_query_simps [of p] same_query_simps [unfolded same_query_def]
  by (auto simp: same_query_def split: option.splits)

lemma same_query_banner: "handle_banner line p = (p', b) \<Longrightarrow> same_query p p'"
  using same_query_simps(2) [unfolded same_query_def]
  by (auto simp: handle_banner_def same_query_def Let_def split: if_splits option.splits)

lemma same_query_inv: "same_query p p' \<Longrightarrow> parser_inv p \<Longrightarrow> parser_inv p'"
  unfolding same_query_def parser_inv_def by presburger

lemma inv_append:
  assumes "parser_inv p" and "pa_in_query p" and "NEWLINE \<notin> set line"
  shows "parser_inv (append_query_line line p)"
proof -
  obtain ls where ls: "ls \<noteq> []" "hd ls \<noteq> []" "no_newline ls" "pa_buf p = join_lines ls"
      "pa_sql_state p = foldl scan_sql_state Normal ls"
    using assms(1,2) by (auto simp: parser_inv_def)
  then have "pa_buf p \<noteq> []" using join_lines_Nil_iff by simp
  then show ?thesis
    using ls assms(2,3) unfolding parser_inv_def append_query_line_def
    by (auto simp: join_lines_snoc no_newline_def intro!: exI [of _ "ls @ [line]"])
qed

lemma inv_consume:
  assumes "parser_inv p" and "\<not> pa_in_query p" and "NEWLINE \<notin> set line"
  shows "parser_inv (consume_meta_line lib line p)"
proof (cases "prefix ''#'' line")
  case True
  then show ?thesis using assms(1) same_query_inv [OF same_query_header]
    by (simp add: consume_meta_line_def)
next
  case False
  obtain p1 b where b: "handle_banner line p = (p1, b)" by fastforce
  have p1: "parser_inv p1" "\<not> pa_in_query p1"
    using same_query_inv [OF same_query_banner [OF b]] same_query_banner [OF b] assms
    by (auto simp: same_query_def)
  have "parser_inv (append_query_line line (p1\<lparr>pa_in_query := True, pa_buf := [], pa_sql_state := Normal\<rparr>))"
    if "trim line \<noteq> []"
  proof -
    have "line \<noteq> []" using that by auto
    then show ?thesis using assms(3) unfolding parser_inv_def append_query_line_def
      by (auto simp: no_newline_def intro!: exI [of _ "[line]"])
  qed
  moreover have "parser_inv (p1\<lparr>pa_current_db := d\<rparr>)" "parser_inv (p1\<lparr>pa_set_ts_micros := t\<rparr>)" for d t
    using p1 by (simp_all add: parser_inv_def)
  ultimately show ?thesis using False b p1(1)
    by (auto simp: consume_meta_line_def Let_def split: option.splits)
qed

lemma take_query_inv: "take_query p = (p', q) \<Longrightarrow> parser_inv p \<Longrightarrow> parser_inv p' \<and> \<not> pa_in_query p'"
  by (auto simp: take_query_def parser_inv_def reset_entry_def Let_def split: if_splits)

definition strip_cr :: "string \<Rightarrow> string" where
  "strip_cr raw = (case strip_suffix_char (CHR 0x0D) raw of Some l \<Rightarrow> l | None \<Rightarrow> raw)"

lemma strip_cr_newline: "NEWLINE \<notin> set raw \<Longrightarrow> NEWLINE \<notin> set (strip_cr raw)"
  by (auto simp: strip_cr_def strip_suffix_char_def dest: in_set_butlastD split: option.splits if_splits)

lemma push_line_eq:
  "push_line lib raw p =
    (let line = strip_cr raw in
     if \<not> pa_in_query p then (consume_meta_line lib line p, None)
     else if pa_sql_state p = Normal \<and> (is_entry_header line \<or> is_restart_banner line) then
       (consume_meta_line lib line (fst (take_query p)), snd (take_query p))
     else (append_query_line line p, None))"
  by (cases "take_query p") (auto simp: push_line_def strip_cr_def Let_def)

lemma push_line_inv:
  assumes "parser_inv p" and "NEWLINE \<notin> set raw"
  shows "parser_inv (fst (push_line lib raw p))"
proof -
  have "parser_inv (fst (take_query p)) \<and> \<not> pa_in_query (fst (take_query p))"
    using take_query_inv [of p "fst (take_query p)" "snd (take_query p)"] assms(1) by simp
  then show ?thesis
    using assms inv_append inv_consume strip_cr_newline [OF assms(2)]
    by (auto simp: push_line_eq Let_def)
qed

lemma push_lines_inv:
  "parser_inv p \<Longrightarrow> no_newline ls \<Longrightarrow> push_lines lib ls p = (p', qs) \<Longrightarrow> parser_inv p'"
proof (induction ls arbitrary: p qs)
  case (Cons l ls)
  obtain p1 q where p1: "push_line lib l p = (p1, q)" by fastforce
  then have "parser_inv p1" using push_line_inv [of p l lib] Cons.prems by (simp add: no_newline_def)
  then show ?case using Cons p1 by (auto simp: no_newline_def split: prod.splits)
qed simp

lemma parser_inv_new: "parser_inv new_parser"
  by (simp add: parser_inv_def new_parser_def)

lemma inv_text_state:
  assumes "parser_inv p" and "pa_in_query p"
  shows "pa_sql_state p = text_state Normal (pa_buf p)"
proof -
  have "quote_ok Normal" by (simp add: quote_ok_def)
  then show ?thesis using assms text_state_join by (fastforce simp: parser_inv_def)
qed

text \<open>C38: At any point of a log, the line-wise string and comment state is that of a scan of the
  whole statement accumulated so far; an entry header ends the statement exactly when that text
  is outside every literal and comment, and is otherwise taken for statement text.\<close>
theorem header_ends_closed_statement:
  assumes "no_newline ls" and "push_lines lib ls new_parser = (p, qs)" and "pa_in_query p"
    and "is_entry_header (strip_cr h)"
  shows "pa_sql_state p = text_state Normal (pa_buf p) \<and>
    push_line lib h p =
      (if text_state Normal (pa_buf p) = Normal
       then (consume_meta_line lib (strip_cr h) (fst (take_query p)), snd (take_query p))
       else (append_query_line (strip_cr h) p, None))"
  using inv_text_state [OF push_lines_inv [OF parser_inv_new assms(1,2)] assms(3)] assms(3,4)
  by (simp add: push_line_eq Let_def)

section \<open>Lines of an entry\<close>

definition starts_statement :: "string \<Rightarrow> bool" where
  "starts_statement l \<longleftrightarrow> \<not> prefix ''#'' l \<and> \<not> is_restart_banner l \<and> \<not> is_column_header l \<and>
    trim l \<noteq> [] \<and> parse_set_timestamp (trim l) = None"

lemma consume_statement:
  assumes "starts_statement l" and "pa_set_ts_micros p \<noteq> None \<or> parse_use_line (trim l) = None"
  shows "consume_meta_line lib l p =
    p\<lparr>pa_in_query := True, pa_buf := l, pa_sql_state := scan_sql_state Normal l\<rparr>"
  using assms
  by (auto simp: starts_statement_def consume_meta_line_def handle_banner_def append_query_line_def
      Let_def)

lemma not_banner: "l \<noteq> [] \<Longrightarrow> solid (last l) \<Longrightarrow> last l \<noteq> CHR '':'' \<Longrightarrow> \<not> is_restart_banner l"
  using ends_with_last [of l "''started with:''"] by (simp add: is_restart_banner_def trim_end_id)

lemma not_columns: "solid c \<Longrightarrow> c \<noteq> CHR ''T'' \<Longrightarrow> \<not> is_column_header (c # l)"
  by (simp add: is_column_header_def Let_def)

text \<open>A string literal that holds what looks like an entry header.\<close>

definition empty_lib :: time_lib where
  "empty_lib = \<lparr>rfc3339 = (\<lambda>_. None), calendar = (\<lambda>_ _ _ _ _ _. None)\<rparr>"

theorem header_ends_closed_statement_witness:
  "\<exists>p. push_lines empty_lib [[CHR ''x'', SQUOTE]] new_parser = (p, []) \<and>
    push_line empty_lib ''# Time: 1'' p = (append_query_line ''# Time: 1'' p, None)"
proof -
  let ?l = "[CHR ''x'', SQUOTE]"
  have st: "starts_statement ?l"
    using not_banner [of ?l] not_columns [of "CHR ''x''" "[SQUOTE]"] trim_id [of ?l]
    by (simp add: starts_statement_def parse_set_timestamp_def SET_TIMESTAMP_def solid_def
        is_ascii_def byte_def)
  have u: "parse_use_line (trim ?l) = None"
    using trim_id [of ?l] by (simp add: parse_use_line_def solid_def is_ascii_def byte_def)
  obtain p where p: "push_lines empty_lib [?l] new_parser = (p, [])" "pa_in_query p" "pa_buf p = ?l"
    using consume_statement [OF st, of new_parser empty_lib] u
    by (simp add: push_line_eq strip_cr_def strip_suffix_char_def new_parser_def)
  have "no_newline [?l]" by (simp add: no_newline_def)
  moreover have "strip_cr ''# Time: 1'' = ''# Time: 1''" "is_entry_header ''# Time: 1''"
    by (simp_all add: strip_cr_def strip_suffix_char_def is_entry_header_def)
  ultimately show ?thesis
    using header_ends_closed_statement [OF _ p(1,2), of "''# Time: 1''"] p by simp
qed

section \<open>A log as the server writes it\<close>

record log_entry =
  le_user :: string
  le_thread :: nat
  le_time :: string
  le_db :: "string option"
  le_ts :: nat
  le_stmt :: "string list"

definition user_line :: "log_entry \<Rightarrow> string" where
  "user_line e = ''# User@Host: '' @ le_user e @ ''['' @ le_user e @ ''] @ localhost []  Id: '' @
    dec (le_thread e)"

definition time_line :: "log_entry \<Rightarrow> string" where
  "time_line e = ''# Query_time: '' @ le_time e @
    ''  Lock_time: 0.000000 Rows_sent: 1  Rows_examined: 1''"

definition use_line :: "string \<Rightarrow> string" where
  "use_line d = ''use '' @ d @ '';''"

definition ts_line :: "log_entry \<Rightarrow> string" where
  "ts_line e = ''SET timestamp='' @ dec (le_ts e) @ '';''"

definition meta_lines :: "log_entry \<Rightarrow> string list" where
  "meta_lines e =
    [user_line e, time_line e] @ (case le_db e of Some d \<Rightarrow> [use_line d] | None \<Rightarrow> []) @ [ts_line e]"

definition entry_lines :: "log_entry \<Rightarrow> string list" where
  "entry_lines e = meta_lines e @ le_stmt e"

text \<open>Which statements can be told apart from the log around them: the text is closed at its end,
  and only inside a literal or comment does a line look like a header.\<close>

fun stmt_ok :: "sql_state \<Rightarrow> string list \<Rightarrow> bool" where
  "stmt_ok st [] \<longleftrightarrow> st = Normal"
| "stmt_ok st (l # ls) \<longleftrightarrow> strip_cr l = l \<and>
    (st = Normal \<longrightarrow> \<not> is_entry_header l \<and> \<not> is_restart_banner l) \<and>
    stmt_ok (scan_sql_state st l) ls"

definition meta_ok :: "log_entry \<Rightarrow> bool" where
  "meta_ok e \<longleftrightarrow>
    le_user e \<noteq> [] \<and> list_all (\<lambda>c. solid c \<and> c \<noteq> CHR ''@'' \<and> c \<noteq> CHR ''['') (le_user e) \<and>
    le_thread e < 2 ^ 64 \<and>
    le_time e \<noteq> [] \<and> list_all solid (le_time e) \<and> last (le_time e) \<noteq> CHR '':'' \<and>
    parse_f64 (le_time e) \<noteq> None \<and>
    (case le_db e of None \<Rightarrow> True
     | Some d \<Rightarrow> d \<noteq> [] \<and> list_all (\<lambda>c. solid c \<and> c \<noteq> CHR '';'' \<and> c \<noteq> BTICK) d) \<and>
    le_ts e * 1000000 \<le> 2 ^ 53"

definition entry_ok :: "log_entry \<Rightarrow> bool" where
  "entry_ok e \<longleftrightarrow> meta_ok e \<and> le_stmt e \<noteq> [] \<and> starts_statement (hd (le_stmt e)) \<and>
    stmt_ok Normal (le_stmt e) \<and> statement_text (join_lines (le_stmt e)) \<noteq> []"

definition entry_time :: "log_entry \<Rightarrow> f64" where
  "entry_time e = (case parse_f64 (le_time e) of Some f \<Rightarrow> f | None \<Rightarrow> Fin 0)"

definition entry_db :: "string option \<Rightarrow> log_entry \<Rightarrow> string option" where
  "entry_db cur e = (case le_db e of Some d \<Rightarrow> Some d | None \<Rightarrow> cur)"

definition entry_query :: "string option \<Rightarrow> log_entry \<Rightarrow> parsed_query" where
  "entry_query cur e =
    \<lparr>pq_ts_micros = int (le_ts e) * 1000000, pq_thread_id = le_thread e, pq_user = Some (le_user e),
     pq_db = entry_db cur e, pq_query = statement_text (join_lines (le_stmt e)),
     pq_query_time_s = entry_time e\<rparr>"

text \<open>What the log says: the database of a \<open>use\<close> line holds for the entries that follow.\<close>

fun log_queries :: "string option \<Rightarrow> log_entry list \<Rightarrow> parsed_query list" where
  "log_queries cur [] = []"
| "log_queries cur (e # es) = entry_query cur e # log_queries (entry_db cur e) es"

section \<open>Reading the lines of an entry\<close>

lemma host_id_after:
  assumes "n < 2 ^ 64"
  shows "host_id (a @ ''Id: '' @ dec n) = Some n"
proof -
  have "CHR ''I'' \<notin> set (''d: '' @ dec n)"
    using dec_digits [of n] by (auto simp: is_ascii_digit_def byte_def)
  then have "rfind_str ''Id:'' (''d: '' @ dec n) = None" by (intro rfind_str_None) auto
  then have "rfind_str ''Id:'' (''Id: '' @ dec n) = Some 0" by simp
  from rfind_str_append [OF this, of a]
  have "rfind_str ''Id:'' (a @ ''Id: '' @ dec n) = Some (length a)" by simp
  moreover have "split_whitespace (dec n) = [dec n]"
    using split_whitespace_word [of "dec n" "[]"] dec_digits [of n] digit_solid by auto
  ultimately show ?thesis using assms by (simp add: host_id_def)
qed

lemma consume_user_line:
  assumes "meta_ok e"
  shows "consume_meta_line lib (user_line e) p =
    p\<lparr>pa_user := Some (le_user e), pa_thread_id := Some (le_thread e)\<rparr>"
proof -
  let ?u = "le_user e" and ?r = "''] @ localhost []  Id: '' @ dec (le_thread e)"
  let ?h = "?u @ ''['' @ ?u @ ?r"
  have u: "?u \<noteq> []" "\<forall>c \<in> set ?u. solid c \<and> c \<noteq> CHR ''@'' \<and> c \<noteq> CHR ''[''"
    using assms by (auto simp: meta_ok_def list_all_iff)
  have "takeWhile (\<lambda>c. c \<noteq> CHR ''@'') ?h = (?u @ ''['' @ ?u @ '']'') @ '' ''"
    using takeWhile_append_stop [of "?u @ ''['' @ ?u @ ''] ''" "\<lambda>c. c \<noteq> CHR ''@''"
        "''@ localhost []  Id: '' @ dec (le_thread e)"] u(2) by auto
  moreover have "trim ((?u @ ''['' @ ?u @ '']'') @ '' '') = ?u @ ''['' @ ?u @ '']''"
  proof -
    have h: "solid (hd (?u @ ''[''))" using u by (cases ?u) auto
    have s: "solid (CHR '']'')" by (simp add: solid_def is_ascii_def byte_def)
    have "trim_start ((?u @ ''['' @ ?u @ '']'') @ '' '') = (?u @ ''['' @ ?u @ '']'') @ '' ''"
      using u h by (cases ?u) auto
    moreover have "trim_end (?u @ ''['' @ ?u @ '']'') = ?u @ ''['' @ ?u @ '']''"
      using s by (intro trim_end_id) auto
    moreover have "trim_end ((?u @ ''['' @ ?u @ '']'') @ '' '') = trim_end (?u @ ''['' @ ?u @ '']'')"
      by (rule trim_end_space)
    ultimately show ?thesis by (simp add: trim_def)
  qed
  moreover have "find_str ''['' (?u @ ''['' @ ?u @ '']'') = Some (length ?u)"
    using find_str_skip [of "''[''" ?u "?u @ '']''"] u(2) by auto
  ultimately have user: "host_user ?h = ?u" using u(1) by (simp add: host_user_def Let_def)
  have "host_id ?h = Some (le_thread e)"
    using host_id_after [of "le_thread e" "?u @ ''['' @ ?u @ ''] @ localhost []  ''"] assms
    by (simp add: meta_ok_def)
  then have "handle_user_host ?h p = p\<lparr>pa_user := Some ?u, pa_thread_id := Some (le_thread e)\<rparr>"
    using user u(1) by (simp add: handle_user_host_def Let_def)
  moreover have "strip_prefix ''# Time: '' (''# User@Host: '' @ ?h) = None"
    by (simp add: strip_prefix_def)
  ultimately show ?thesis
    by (simp add: consume_meta_line_def handle_header_def user_line_def strip_prefix_def)
qed

lemma consume_time_line:
  assumes "meta_ok e"
  shows "\<exists>d. consume_meta_line lib (time_line e) p =
    p\<lparr>pa_query_time_s := entry_time e, pa_dialect := d\<rparr>"
proof -
  let ?t = "le_time e" and ?rest = "''  Lock_time: 0.000000 Rows_sent: 1  Rows_examined: 1''"
  have t: "?t \<noteq> []" "\<forall>c \<in> set ?t. solid c" "last ?t \<noteq> CHR '':''"
    using assms by (auto simp: meta_ok_def list_all_iff)
  obtain f where f: "parse_f64 ?t = Some f" using assms by (auto simp: meta_ok_def)
  have key: "\<forall>c \<in> set w. solid c" if "w \<in> {''Query_time:'', ''Lock_time:'', ''0.000000'', ''Rows_sent:'',
      ''1'', ''Rows_examined:''}" for w
    using that by (auto simp: solid_def is_ascii_def byte_def)
  note word = split_whitespace_word [OF _ key]
  have "split_whitespace ?rest = [''Lock_time:'', ''0.000000'', ''Rows_sent:'', ''1'', ''Rows_examined:'', ''1'']"
    using word [of "''Lock_time:''" "'' 0.000000 Rows_sent: 1  Rows_examined: 1''"]
      word [of "''0.000000''" "'' Rows_sent: 1  Rows_examined: 1''"]
      word [of "''Rows_sent:''" "'' 1  Rows_examined: 1''"]
      word [of "''1''" "''  Rows_examined: 1''"] word [of "''Rows_examined:''" "'' 1''"]
      word [of "''1''" "[]"]
    by simp
  moreover have "split_whitespace (?t @ ?rest) = ?t # split_whitespace ?rest"
    using split_whitespace_word [of ?t ?rest] t by simp
  ultimately have toks: "split_whitespace (''Query_time:'' @ '' '' @ ?t @ ?rest) =
      [''Query_time:'', ?t, ''Lock_time:'', ''0.000000'', ''Rows_sent:'', ''1'', ''Rows_examined:'', ''1'']"
    using word [of "''Query_time:''" "'' '' @ ?t @ ?rest"] by simp
  have "\<not> ends_with ?t '':''" using ends_with_last [of ?t "'':''"] t by simp
  then have kv: "kv_tokens [''Query_time:'', ?t, ''Lock_time:'', ''0.000000'', ''Rows_sent:'', ''1'',
      ''Rows_examined:'', ''1''] q = q\<lparr>pa_query_time_s := f\<rparr>" for q
    using f ends_with_last [of "''0.000000''" "'':''"] ends_with_last [of "''1''" "'':''"]
    by (simp add: strip_suffix_char_def kv_set_def)
  have "trim_start (dropWhile ((=) (CHR ''#'')) (time_line e)) = ''Query_time:'' @ '' '' @ ?t @ ?rest"
    by (simp add: time_line_def solid_def is_ascii_def byte_def)
  then have h: "handle_kv_line (time_line e) q = q\<lparr>pa_query_time_s := f\<rparr>" for q
    unfolding handle_kv_line_def by (simp only: toks kv)
  obtain d where d: "(if contains (time_line e) ''Thread_id:'' \<or> contains (time_line e) ''Errno:''
       then observe_log_slow_extra p else p) = p\<lparr>pa_dialect := d\<rparr>"
    by (rule that [of "pa_dialect (if contains (time_line e) ''Thread_id:'' \<or>
        contains (time_line e) ''Errno:'' then observe_log_slow_extra p else p)"])
      (simp add: observe_log_slow_extra_def)
  have "consume_meta_line lib (time_line e) p = handle_kv_line (time_line e)
      (if contains (time_line e) ''Thread_id:'' \<or> contains (time_line e) ''Errno:''
       then observe_log_slow_extra p else p)"
    by (simp add: consume_meta_line_def handle_header_def time_line_def strip_prefix_def)
  then have "consume_meta_line lib (time_line e) p = p\<lparr>pa_query_time_s := f, pa_dialect := d\<rparr>"
    unfolding d h by simp
  then show ?thesis using f by (auto simp: entry_time_def)
qed

lemma consume_use_line:
  assumes "meta_ok e" and "le_db e = Some d" and "pa_set_ts_micros p = None"
  shows "consume_meta_line lib (use_line d) p = p\<lparr>pa_current_db := Some d\<rparr>"
proof -
  have d: "d \<noteq> []" "\<forall>c \<in> set d. solid c \<and> c \<noteq> CHR '';'' \<and> c \<noteq> BTICK"
    using assms(1,2) by (auto simp: meta_ok_def list_all_iff)
  have s: "solid (CHR '';'')" "solid (CHR ''u'')" by (simp_all add: solid_def is_ascii_def byte_def)
  have "trim_end_matches (CHR '';'') (d @ '';'') = d"
    using d by (cases "rev d") (auto simp: trim_end_matches_def)
  moreover have "trim (d @ '';'') = d @ '';''" using d s by (intro trim_id) (auto simp: hd_append)
  moreover have "trim d = d" using d by (intro trim_all_solid) auto
  moreover have "\<not> prefix [BTICK] d" using d by (cases d) auto
  moreover have "\<not> has_space d" using d by (intro has_space_solid) auto
  moreover have "lower ''use '' = ''use ''"
    by (simp add: to_ascii_lowercase_def is_ascii_upper_def byte_def)
  ultimately have "parse_use_line (''use '' @ d @ '';'') = Some d"
    using d(1) by (simp add: parse_use_line_def eq_ignore_ascii_case_def Let_def Suc_le_eq)
  moreover have "trim (''use '' @ d @ '';'') = ''use '' @ d @ '';''"
    using s by (intro trim_id) auto
  moreover have "\<not> is_restart_banner (use_line d)"
    using s by (intro not_banner) (auto simp: use_line_def)
  moreover have "\<not> is_column_header (use_line d)"
    using s not_columns [of "CHR ''u''"] by (simp add: use_line_def)
  ultimately show ?thesis using assms(3)
    by (simp add: consume_meta_line_def handle_banner_def use_line_def Let_def)
qed

lemma last_dec_digit: "is_ascii_digit (last (dec n))"
  using dec_digits [of n] last_in_set [of "dec n"] by simp

lemma last_dec: "last (dec n) \<noteq> CHR 0x0D" "last (dec n) \<noteq> CHR '';''"
  using last_dec_digit [of n] by (auto simp: is_ascii_digit_def byte_def)

lemma floor_half: "\<lfloor>1 / 2 :: rat\<rfloor> = 0"
  by (simp add: floor_eq_iff)

lemma parse_set_timestamp_dec:
  assumes "n * 1000000 \<le> 2 ^ 53"
  shows "parse_set_timestamp (''SET timestamp='' @ dec n @ '';'') = Some (int n * 1000000)"
proof -
  have l: "lower ''SET timestamp='' = SET_TIMESTAMP"
    by (simp add: SET_TIMESTAMP_def to_ascii_lowercase_def is_ascii_upper_def byte_def char_of_def bit_iff_odd)
  have s: "lower SET_TIMESTAMP = SET_TIMESTAMP" unfolding l [symmetric] by simp
  have "trim_end_matches (CHR '';'') (dec n @ '';'') = dec n"
    using last_dec(2) [of n] dec_not_Nil [of n]
    by (cases "dec n" rule: rev_cases) (auto simp: trim_end_matches_def)
  moreover have "trim (dec n) = dec n" using dec_digits [of n] digit_solid by (intro trim_all_solid) auto
  moreover have "parse_f64 (dec n) = Some (Fin (of_nat n))" using assms by (intro parse_f64_dec) simp
  moreover have "f64_mul (Fin (of_nat n)) (Fin 1000000) = Fin (of_int (int n * 1000000))"
    using f64_of_int_exact [of "int n * 1000000"] assms
    by (simp add: f64_mul_def is_finite_def f64_of_int_def Let_def)
  moreover have "f64_to_i64 (f64_round_int (Fin (of_int (int n * 1000000)))) = int n * 1000000"
  proof -
    have "f64_round_int (Fin (of_int m)) = Fin (of_int m)" if "0 \<le> m" for m :: int
      using that floor_add_int [of "1 / 2 :: rat" m] floor_half
      by (auto simp: f64_round_int_def Let_def add.commute)
    then show ?thesis using assms by (simp add: f64_to_i64_def f64_to_int_def del: of_int_mult)
  qed
  ultimately show ?thesis
    using l s by (simp add: parse_set_timestamp_def eq_ignore_ascii_case_def SET_TIMESTAMP_def Let_def)
qed

lemma consume_ts_line:
  assumes "meta_ok e"
  shows "consume_meta_line lib (ts_line e) p = p\<lparr>pa_set_ts_micros := Some (int (le_ts e) * 1000000)\<rparr>"
proof -
  have s: "solid (CHR '';'')" "solid (CHR ''S'')" by (simp_all add: solid_def is_ascii_def byte_def)
  have t: "trim (ts_line e) = ts_line e" using s by (intro trim_id) (auto simp: ts_line_def)
  have "\<not> is_restart_banner (ts_line e)" "\<not> is_column_header (ts_line e)"
    using s not_banner [of "ts_line e"] not_columns [of "CHR ''S''"] by (auto simp: ts_line_def)
  moreover have "parse_use_line (ts_line e) = None"
    by (simp add: parse_use_line_def ts_line_def eq_ignore_ascii_case_def to_ascii_lowercase_def
        is_ascii_upper_def byte_def char_of_def)
  moreover have "parse_set_timestamp (ts_line e) = Some (int (le_ts e) * 1000000)"
    using parse_set_timestamp_dec [of "le_ts e"] assms by (simp add: ts_line_def meta_ok_def)
  ultimately show ?thesis
    using t by (simp add: consume_meta_line_def handle_banner_def Let_def) (simp add: ts_line_def)
qed

section \<open>Round trip\<close>

definition resting :: "parser \<Rightarrow> bool" where
  "resting p \<longleftrightarrow> \<not> pa_in_query p \<and> pa_set_ts_micros p = None \<and> pa_schema p = None"

lemma push_lines_append:
  "push_lines lib (xs @ ys) p =
    (case push_lines lib xs p of (p1, qs) \<Rightarrow> case push_lines lib ys p1 of (p2, rs) \<Rightarrow> (p2, qs @ rs))"
  by (induction xs arbitrary: p) (auto split: prod.splits)

lemma strip_cr_last: "l \<noteq> [] \<Longrightarrow> last l \<noteq> CHR 0x0D \<Longrightarrow> strip_cr l = l"
  by (simp add: strip_cr_def strip_suffix_char_def)

lemma push_meta:
  "strip_cr l = l \<Longrightarrow> \<not> pa_in_query p \<Longrightarrow> push_line lib l p = (consume_meta_line lib l p, None)"
  by (simp add: push_line_eq Let_def)

lemma push_meta_lines:
  assumes "meta_ok e" and "resting p"
  shows "\<exists>d. push_lines lib (meta_lines e) p =
    (p\<lparr>pa_user := Some (le_user e), pa_thread_id := Some (le_thread e),
       pa_query_time_s := entry_time e, pa_dialect := d, pa_current_db := entry_db (pa_current_db p) e,
       pa_set_ts_micros := Some (int (le_ts e) * 1000000)\<rparr>, [])"
proof -
  have cr: "strip_cr (user_line e) = user_line e" "strip_cr (time_line e) = time_line e"
      "strip_cr (use_line d) = use_line d" "strip_cr (ts_line e) = ts_line e" for d
    by (rule strip_cr_last; simp add: user_line_def time_line_def use_line_def ts_line_def last_dec)+
  let ?p1 = "p\<lparr>pa_user := Some (le_user e), pa_thread_id := Some (le_thread e)\<rparr>"
  obtain d where d: "consume_meta_line lib (time_line e) ?p1 =
      ?p1\<lparr>pa_query_time_s := entry_time e, pa_dialect := d\<rparr>"
    using consume_time_line [OF assms(1)] by blast
  have p: "\<not> pa_in_query p" "pa_set_ts_micros p = None" using assms(2) by (auto simp: resting_def)
  note steps = push_meta cr consume_user_line [OF assms(1)] d consume_ts_line [OF assms(1)] p
  show ?thesis
  proof (cases "le_db e")
    case None
    then show ?thesis
      by (intro exI [of _ d]) (simp add: meta_lines_def entry_db_def steps)
  next
    case (Some db)
    then show ?thesis using consume_use_line [OF assms(1) Some]
      by (intro exI [of _ d]) (simp add: meta_lines_def entry_db_def steps)
  qed
qed

lemma push_statement:
  assumes "pa_in_query p" and "pa_buf p \<noteq> []" and "stmt_ok (pa_sql_state p) ls"
  shows "push_lines lib ls p = (p\<lparr>pa_buf := join_lines (pa_buf p # ls), pa_sql_state := Normal\<rparr>, [])"
  using assms
proof (induction ls arbitrary: p)
  case (Cons l ls)
  let ?p = "append_query_line l p"
  have "push_line lib l p = (?p, None)" using Cons.prems by (auto simp: push_line_eq Let_def)
  moreover have "push_lines lib ls ?p =
      (?p\<lparr>pa_buf := join_lines (pa_buf ?p # ls), pa_sql_state := Normal\<rparr>, [])"
    using Cons.prems by (intro Cons.IH) (simp_all add: append_query_line_def)
  moreover have "join_lines ((pa_buf p @ NEWLINE # l) # ls) = join_lines (pa_buf p # l # ls)"
    by (cases ls) auto
  ultimately show ?case using Cons.prems(2) by (simp add: append_query_line_def)
qed simp

lemma push_entry:
  assumes "entry_ok e" and "resting p"
  obtains q where "push_lines lib (entry_lines e) p = (q, [])" and "pa_in_query q"
    and "pa_sql_state q = Normal" and "resting (fst (take_query q))"
    and "snd (take_query q) = Some (entry_query (pa_current_db p) e)"
    and "pa_current_db (fst (take_query q)) = entry_db (pa_current_db p) e"
proof -
  have m: "meta_ok e" using assms(1) by (simp add: entry_ok_def)
  obtain p1 where p1: "push_lines lib (meta_lines e) p = (p1, [])" "\<not> pa_in_query p1"
      "pa_user p1 = Some (le_user e)" "pa_thread_id p1 = Some (le_thread e)"
      "pa_query_time_s p1 = entry_time e" "pa_current_db p1 = entry_db (pa_current_db p) e"
      "pa_set_ts_micros p1 = Some (int (le_ts e) * 1000000)" "pa_schema p1 = None"
    using push_meta_lines [OF m assms(2), of lib] assms(2) by (force simp: resting_def)
  obtain l ls where s: "le_stmt e = l # ls" "starts_statement l" "strip_cr l = l"
      "stmt_ok (scan_sql_state Normal l) ls" "statement_text (join_lines (l # ls)) \<noteq> []"
    using assms(1) by (cases "le_stmt e") (auto simp: entry_ok_def)
  have l: "l \<noteq> []" using s(2) by (auto simp: starts_statement_def)
  let ?p2 = "p1\<lparr>pa_in_query := True, pa_buf := l, pa_sql_state := scan_sql_state Normal l\<rparr>"
  let ?q = "?p2\<lparr>pa_buf := join_lines (l # ls), pa_sql_state := Normal\<rparr>"
  have "push_line lib l p1 = (?p2, None)"
    using consume_statement [OF s(2)] p1 s(3) by (simp add: push_line_eq Let_def)
  moreover have "push_lines lib ls ?p2 = (?q, [])" using push_statement [of ?p2 ls lib] l s(4) by simp
  ultimately have "push_lines lib (entry_lines e) p = (?q, [])"
    using p1(1) s(1) by (simp add: entry_lines_def push_lines_append)
  then show ?thesis
    by (rule that)
      (use p1 s in \<open>simp_all add: take_query_def reset_entry_def resting_def entry_query_def Let_def\<close>)
qed

text \<open>The rest of a log after a parser state.\<close>

definition parse_rest :: "time_lib \<Rightarrow> string list \<Rightarrow> parser \<Rightarrow> parsed_query list" where
  "parse_rest lib ls p =
    (case push_lines lib ls p of (q, qs) \<Rightarrow> qs @ (case snd (take_query q) of Some x \<Rightarrow> [x] | None \<Rightarrow> []))"

lemma parse_log_rest: "snd (parse_log lib ls) = parse_rest lib ls new_parser"
  by (simp add: parse_log_def parse_rest_def finish_parser_def split: prod.splits)

lemma parse_rest_closed:
  assumes "pa_in_query q" and "pa_sql_state q = Normal"
    and "ls = [] \<or> is_entry_header (strip_cr (hd ls))"
  shows "parse_rest lib ls q =
    (case snd (take_query q) of Some x \<Rightarrow> [x] | None \<Rightarrow> []) @ parse_rest lib ls (fst (take_query q))"
proof -
  have n: "\<not> pa_in_query (fst (take_query q))"
    using assms(1) by (simp add: take_query_def reset_entry_def Let_def)
  show ?thesis
  proof (cases ls)
    case Nil
    then show ?thesis using n by (simp add: parse_rest_def take_query_def [of "fst (take_query q)"])
  next
    case (Cons l ls')
    then show ?thesis using assms n
      by (simp add: parse_rest_def push_line_eq Let_def split: prod.splits option.splits)
  qed
qed

lemma header_user_line: "is_entry_header (strip_cr (user_line e))"
  using strip_cr_last [of "user_line e"]
  by (simp add: user_line_def last_dec is_entry_header_def)

lemma parse_rest_entries:
  assumes "list_all entry_ok es" and "resting p"
  shows "parse_rest lib (concat (map entry_lines es)) p = log_queries (pa_current_db p) es"
  using assms
proof (induction es arbitrary: p)
  case Nil
  then show ?case by (simp add: parse_rest_def take_query_def resting_def)
next
  case (Cons e es)
  obtain q where q: "push_lines lib (entry_lines e) p = (q, [])" "pa_in_query q"
      "pa_sql_state q = Normal" "resting (fst (take_query q))"
      "snd (take_query q) = Some (entry_query (pa_current_db p) e)"
      "pa_current_db (fst (take_query q)) = entry_db (pa_current_db p) e"
    using push_entry [of e p lib] Cons.prems by auto
  let ?rest = "concat (map entry_lines es)"
  have "?rest = [] \<or> is_entry_header (strip_cr (hd ?rest))"
    using header_user_line by (cases es) (simp_all add: entry_lines_def meta_lines_def)
  then have "parse_rest lib ?rest q = entry_query (pa_current_db p) e # parse_rest lib ?rest (fst (take_query q))"
    using parse_rest_closed [OF q(2,3)] q(5) by simp
  moreover have "parse_rest lib (entry_lines e @ ?rest) p = parse_rest lib ?rest q"
    using q(1) by (simp add: parse_rest_def push_lines_append split: prod.splits)
  ultimately show ?case using Cons.IH [OF _ q(4)] Cons.prems(1) q(6) by simp
qed

text \<open>C14: A slow log written the way the server writes it parses back to its entries: user,
  thread, database (the last \<open>use\<close> line), time stamp, duration and the statement, multi-line
  statements and header-looking text inside literals and comments included.\<close>
theorem slowlog_roundtrip:
  assumes "list_all entry_ok es"
  shows "snd (parse_log lib (concat (map entry_lines es))) = log_queries None es"
  using parse_rest_entries [OF assms, of new_parser lib]
  by (simp add: parse_log_rest resting_def new_parser_def)

definition sample_entry :: log_entry where
  "sample_entry =
    \<lparr>le_user = ''app'', le_thread = 7, le_time = ''0.5'', le_db = Some ''shop'', le_ts = 1693569601,
     le_stmt = [''SELECT '' @ [SQUOTE], ''# Time: now'' @ [SQUOTE] @ '';'']\<rparr>"

lemma meta_ok_sample: "meta_ok sample_entry"
  by (simp add: meta_ok_def sample_entry_def solid_def is_ascii_def byte_def parse_f64_def
      split_sign_def parse_number_def is_ascii_digit_def parse_exponent_def Let_def
      to_ascii_lowercase_def is_ascii_upper_def)

lemma entry_ok_sample: "entry_ok sample_entry"
proof -
  let ?a = "''SELECT '' @ [SQUOTE]" and ?b = "''# Time: now'' @ [SQUOTE] @ '';''"
  have s: "solid (CHR ''S'')" "solid SQUOTE" "solid (CHR '';'')"
    by (simp_all add: solid_def is_ascii_def byte_def)
  have banner: "\<not> is_restart_banner ?a"
    using s not_banner [of ?a] by simp
  have t: "trim ?a = ?a" using s trim_id [of ?a] by simp
  have "starts_statement ?a"
    unfolding starts_statement_def t using s banner not_columns [of "CHR ''S''"]
    by (simp add: parse_set_timestamp_def SET_TIMESTAMP_def)
  moreover have "stmt_ok Normal [?a, ?b]"
    using banner by (simp add: strip_cr_def strip_suffix_char_def is_entry_header_def)
  moreover have "statement_text (join_lines [?a, ?b]) = ?a @ NEWLINE # ''# Time: now'' @ [SQUOTE]"
    using s trim_end_id [of "?a @ NEWLINE # ?b"] trim_end_id [of "?a @ NEWLINE # ''# Time: now'' @ [SQUOTE]"]
    by (simp add: statement_text_def ends_with_def suffix_def Let_def)
  ultimately show ?thesis using meta_ok_sample
    by (simp add: entry_ok_def) (simp add: sample_entry_def)
qed

theorem slowlog_roundtrip_witness:
  "snd (parse_log empty_lib (concat (map entry_lines [sample_entry, sample_entry]))) =
    log_queries None [sample_entry, sample_entry]"
  by (rule slowlog_roundtrip) (simp add: entry_ok_sample)

section \<open>A logged SET timestamp\<close>

definition plain :: "char \<Rightarrow> bool" where
  "plain c \<longleftrightarrow> c \<notin> {SQUOTE, DQUOTE, BTICK, CHR ''/'', CHR ''-'', CHR ''#''}"

lemma scan_plain: "list_all plain s \<Longrightarrow> scan_sql_state Normal s = Normal"
  by (induction s) (auto simp: plain_def)

lemma plain_alphanumeric: "is_ascii_alphanumeric c \<Longrightarrow> plain c"
  by (auto simp: plain_def ascii_class_defs byte_def)

lemma trim_end_us: "\<exists>r. trim_end (CHR ''u'' # CHR ''s'' # t) = CHR ''u'' # r"
  using trim_end_stop [of "CHR ''s''" "''u''" t] by (simp add: solid_def is_ascii_def byte_def)

lemma statement_text_use: "statement_text (CHR ''u'' # CHR ''s'' # CHR ''e'' # t) \<noteq> []"
proof -
  obtain r where r: "trim_end (CHR ''u'' # CHR ''s'' # CHR ''e'' # t) = CHR ''u'' # CHR ''s'' # r"
    using trim_end_stop [of "CHR ''e''" "''us''" t] by (auto simp: solid_def is_ascii_def byte_def)
  show ?thesis
  proof (cases "ends_with (CHR ''u'' # CHR ''s'' # r) '';''")
    case True
    then have "r \<noteq> []" by (auto simp: ends_with_def suffix_def Cons_eq_append_conv)
    then show ?thesis using r trim_end_us [of "butlast r"] by (auto simp: statement_text_def Let_def)
  qed (use r in \<open>simp add: statement_text_def Let_def\<close>)
qed

text \<open>C40: A client's own \<open>SET timestamp\<close> statement in the log is taken for the metadata line: no
  event is produced for it, and the next entry, when it starts with a \<open>use\<close> line, becomes one
  statement made of the \<open>use\<close> line, the \<open>SET timestamp\<close> line and the statement, with the time
  stamp the client set and the database of the entry before.\<close>
theorem client_set_timestamp_merges:
  assumes "meta_ok e1" and "le_stmt e1 = [''SET timestamp='' @ dec n @ '';'']"
    and "n * 1000000 \<le> 2 ^ 53" and "entry_ok e2" and "le_db e2 = Some d"
    and "list_all is_ascii_alphanumeric d"
  shows "snd (parse_log lib (entry_lines e1 @ entry_lines e2)) =
    [\<lparr>pq_ts_micros = int n * 1000000, pq_thread_id = le_thread e2, pq_user = Some (le_user e2),
      pq_db = le_db e1, pq_query = statement_text (join_lines (use_line d # ts_line e2 # le_stmt e2)),
      pq_query_time_s = entry_time e2\<rparr>]"
proof -
  have m2: "meta_ok e2" using assms(4) by (simp add: entry_ok_def)
  have s: "solid (CHR '';'')" "solid (CHR ''u'')" by (simp_all add: solid_def is_ascii_def byte_def)
  let ?e = "e1\<lparr>le_ts := n\<rparr>"
  have e: "meta_ok ?e" using assms(1,3) by (simp add: meta_ok_def)
  have cr: "strip_cr (user_line e2) = user_line e2" "strip_cr (time_line e2) = time_line e2"
      "strip_cr (use_line d) = use_line d" "strip_cr (ts_line e) = ts_line e" for e
    by (rule strip_cr_last; simp add: user_line_def time_line_def use_line_def ts_line_def last_dec)+
  have r: "resting new_parser" by (simp add: resting_def new_parser_def)
  obtain p1 where p1: "push_lines lib (meta_lines e1) new_parser = (p1, [])" "\<not> pa_in_query p1"
      "pa_current_db p1 = le_db e1" "pa_schema p1 = None"
    using push_meta_lines [OF assms(1) r, of lib]
    by (auto simp: new_parser_def entry_db_def split: option.splits)
  let ?p2 = "p1\<lparr>pa_set_ts_micros := Some (int n * 1000000)\<rparr>"
  have "le_stmt e1 = [ts_line ?e]" using assms(2) by (simp add: ts_line_def)
  then have l1: "push_lines lib (entry_lines e1) new_parser = (?p2, [])"
    using p1(1) push_meta [OF cr(4) p1(2), of lib ?e] consume_ts_line [OF e, of lib p1]
    by (simp add: entry_lines_def push_lines_append)
  let ?p3 = "?p2\<lparr>pa_user := Some (le_user e2), pa_thread_id := Some (le_thread e2)\<rparr>"
  obtain dia where dia: "consume_meta_line lib (time_line e2) ?p3 =
      ?p3\<lparr>pa_query_time_s := entry_time e2, pa_dialect := dia\<rparr>"
    using consume_time_line [OF m2] by blast
  let ?p4 = "?p3\<lparr>pa_query_time_s := entry_time e2, pa_dialect := dia\<rparr>"
  have "list_all plain d" "list_all plain (dec (le_ts e2))"
    using assms(6) dec_digits [of "le_ts e2"] plain_alphanumeric
    by (auto simp: list_all_iff is_ascii_alphanumeric_def)
  then have "list_all plain (use_line d)" "list_all plain (ts_line e2)"
    by (simp_all add: use_line_def ts_line_def plain_def)
  then have plain: "scan_sql_state Normal (use_line d) = Normal" "scan_sql_state Normal (ts_line e2) = Normal"
    using scan_plain by blast+
  have b: "\<not> is_restart_banner (use_line d)" "\<not> is_restart_banner (ts_line e2)"
    using s not_banner [of "use_line d"] not_banner [of "ts_line e2"]
    by (auto simp: use_line_def ts_line_def)
  have "trim (use_line d) = use_line d" using s by (intro trim_id) (auto simp: use_line_def)
  moreover have "parse_set_timestamp (use_line d) = None"
    by (auto simp: parse_set_timestamp_def use_line_def eq_ignore_ascii_case_def SET_TIMESTAMP_def
        to_ascii_lowercase_def is_ascii_upper_def byte_def Let_def)
  ultimately have st: "starts_statement (use_line d)"
    using b s not_columns [of "CHR ''u''"] by (auto simp: starts_statement_def use_line_def)
  let ?p5 = "?p4\<lparr>pa_in_query := True, pa_buf := use_line d, pa_sql_state := Normal\<rparr>"
  have l2: "push_lines lib [user_line e2, time_line e2, use_line d] ?p2 = (?p5, [])"
    using push_meta [OF cr(1), of ?p2 lib] push_meta [OF cr(2), of ?p3 lib]
      push_meta [OF cr(3), of ?p4 lib] consume_user_line [OF m2, of lib ?p2] dia p1(2)
      consume_statement [OF st, of ?p4 lib] plain(1)
    by simp
  have "stmt_ok Normal (ts_line e2 # le_stmt e2)"
    using cr(4) b(2) plain(2) assms(4) by (simp add: entry_ok_def) (simp add: ts_line_def is_entry_header_def)
  then have l3: "push_lines lib (ts_line e2 # le_stmt e2) ?p5 =
      (?p5\<lparr>pa_buf := join_lines (use_line d # ts_line e2 # le_stmt e2), pa_sql_state := Normal\<rparr>, [])"
    using push_statement [of ?p5 "ts_line e2 # le_stmt e2" lib] by (simp add: use_line_def)
  have "entry_lines e2 = [user_line e2, time_line e2, use_line d] @ (ts_line e2 # le_stmt e2)"
    using assms(5) by (simp add: entry_lines_def meta_lines_def)
  then have "push_lines lib (entry_lines e1 @ entry_lines e2) new_parser =
      (?p5\<lparr>pa_buf := join_lines (use_line d # ts_line e2 # le_stmt e2), pa_sql_state := Normal\<rparr>, [])"
    using l1 l2 l3 by (simp only: push_lines_append prod.case append_Nil)
  moreover have "statement_text (join_lines (use_line d # ts_line e2 # le_stmt e2)) \<noteq> []"
    using statement_text_use by (simp add: use_line_def)
  ultimately show ?thesis using p1
    by (simp add: parse_log_rest parse_rest_def take_query_def Let_def del: join_lines.simps)
qed

theorem client_set_timestamp_merges_witness:
  "length (snd (parse_log empty_lib (entry_lines (sample_entry\<lparr>le_stmt := [''SET timestamp='' @ dec 5 @ '';'']\<rparr>) @
     entry_lines sample_entry))) = 1"
proof -
  have "meta_ok (sample_entry\<lparr>le_stmt := [''SET timestamp='' @ dec 5 @ '';'']\<rparr>)"
    using meta_ok_sample by (simp add: meta_ok_def)
  then show ?thesis
    using client_set_timestamp_merges [OF _ _ _ entry_ok_sample, of _ 5 "''shop''"]
    by (simp add: sample_entry_def ascii_class_defs byte_def)
qed

end
