(* ===== verification/Capture_Format.thy ===== *)
theory Capture_Format
  imports Pcap_Engine
begin

text \<open>
  The capture file of \<open>format.rs\<close>: the records and \<open>stream_capture\<close>. Compression, JSON and file
  access are not under src; what they return is a parameter: \<open>enc\<close> serialises and writes one
  record as a line (or fails), \<open>de\<close> parses a line, and a file is the list of the lines a reader
  gets from it, each of which may be an error.
\<close>

section \<open>Records\<close>

definition FORMAT_VERSION :: nat where
  "FORMAT_VERSION = 1"

record header =
  hd_version :: nat
  hd_tool_version :: string
  hd_created_at :: string

record event =
  ev_ts_micros :: int
  ev_session_id :: nat
  ev_user :: "string option"
  ev_db :: "string option"
  ev_query :: string
  ev_orig_query_time_s :: f64
  ev_fingerprint_id :: u32

record pcap_summary =
  ps_packets :: nat
  ps_truncated_packets :: nat
  ps_ip_fragments_skipped :: nat
  ps_connections :: nat
  ps_connections_decoded :: nat
  ps_connections_tls_skipped :: nat
  ps_connections_compressed_skipped :: nat
  ps_connections_midstream_skipped :: nat
  ps_connections_broken :: nat
  ps_statements_expanded :: nat
  ps_statements_inexpandable :: nat
  ps_responses_missing :: nat
  ps_server_versions :: "string list"

record fingerprint_entry =
  fe_id :: u32
  fe_text :: string

record summary =
  su_source_dialect :: string
  su_event_count :: nat
  su_session_count :: nat
  su_admin_commands_ignored :: nat
  su_server_restarts_seen :: nat
  su_pcap :: "pcap_summary option"
  su_fingerprints :: "fingerprint_entry list"

datatype capture_record = Header_Rec header | Event_Rec event | Summary_Rec summary

definition fingerprint_text :: "summary \<Rightarrow> u32 \<Rightarrow> string option" where
  "fingerprint_text s i = map_option fe_text (find (\<lambda>e. fe_id e = i) (su_fingerprints s))"

section \<open>Errors\<close>

text \<open>The errors of the capture and replay-ingestion paths; line numbers count from one.\<close>

datatype error =
    Open_Failed | Read_Failed nat | Malformed_Record nat | Unsupported_Version nat
  | No_Header | No_Summary | Count_Mismatch nat nat
  | Write_Failed | All_Filtered nat | No_Events
  | Session_Appeared nat | Region_Mismatch nat nat nat
  | Spool_Io | Record_Overruns_Region | Corrupt_Record

section \<open>Reading\<close>

record 's stream =
  sr_header :: "header option"
  sr_summary :: "summary option"
  sr_events :: nat
  sr_sink :: 's

definition stream_record ::
    "(event \<Rightarrow> 's \<Rightarrow> error + 's) \<Rightarrow> capture_record \<Rightarrow> 's stream \<Rightarrow> error + 's stream" where
  "stream_record on_event rec s =
    (case rec of
       Header_Rec h \<Rightarrow>
         if hd_version h \<noteq> FORMAT_VERSION then Inl (Unsupported_Version (hd_version h))
         else Inr (s\<lparr>sr_header := Some h\<rparr>)
     | Event_Rec e \<Rightarrow>
         bind_result (on_event e (sr_sink s))
           (\<lambda>t. Inr (s\<lparr>sr_events := sr_events s + 1, sr_sink := t\<rparr>))
     | Summary_Rec su \<Rightarrow> Inr (s\<lparr>sr_summary := Some su\<rparr>))"

fun stream_lines ::
    "(string \<Rightarrow> capture_record option) \<Rightarrow> (event \<Rightarrow> 's \<Rightarrow> error + 's) \<Rightarrow> nat \<Rightarrow>
      string option list \<Rightarrow> 's stream \<Rightarrow> error + 's stream" where
  "stream_lines de on_event i [] s = Inr s"
| "stream_lines de on_event i (l # ls) s =
    (case l of
       None \<Rightarrow> Inl (Read_Failed i)
     | Some line \<Rightarrow>
        if trim line = [] then stream_lines de on_event (i + 1) ls s
        else case de line of
          None \<Rightarrow> Inl (Malformed_Record i)
        | Some rec \<Rightarrow>
            bind_result (stream_record on_event rec s) (\<lambda>t. stream_lines de on_event (i + 1) ls t))"

definition stream_capture ::
    "(string \<Rightarrow> capture_record option) \<Rightarrow> (event \<Rightarrow> 's \<Rightarrow> error + 's) \<Rightarrow> 's \<Rightarrow>
      string option list option \<Rightarrow> error + (header \<times> summary \<times> 's)" where
  "stream_capture de on_event init file =
    (case file of
       None \<Rightarrow> Inl Open_Failed
     | Some ls \<Rightarrow>
        bind_result
          (stream_lines de on_event 1 ls
            \<lparr>sr_header = None, sr_summary = None, sr_events = 0, sr_sink = init\<rparr>)
          (\<lambda>s. case sr_header s of
             None \<Rightarrow> Inl No_Header
           | Some h \<Rightarrow>
              (case sr_summary s of
                 None \<Rightarrow> Inl No_Summary
               | Some su \<Rightarrow>
                  if su_event_count su \<noteq> sr_events s
                  then Inl (Count_Mismatch (su_event_count su) (sr_events s))
                  else Inr (h, su, sr_sink s))))"

text \<open>\<open>read_capture\<close>: the events collected in file order.\<close>

definition collect :: "event \<Rightarrow> event list \<Rightarrow> error + event list" where
  "collect e es = Inr (es @ [e])"

definition read_capture ::
    "(string \<Rightarrow> capture_record option) \<Rightarrow> string option list option \<Rightarrow>
      error + (header \<times> summary \<times> event list)" where
  "read_capture de file = stream_capture de collect [] file"

section \<open>Writing\<close>

text \<open>\<open>CaptureWriter::write\<close> appends a line.\<close>

definition write_record ::
    "(capture_record \<Rightarrow> string option) \<Rightarrow> capture_record \<Rightarrow> string list \<Rightarrow> error + string list" where
  "write_record enc rec ls = (case enc rec of None \<Rightarrow> Inl Write_Failed | Some l \<Rightarrow> Inr (ls @ [l]))"

end
