(* ===== verification/Capture.thy ===== *)
theory Capture
  imports Capture_Format Registry Slowlog
begin

text \<open>
  The capture command of \<open>capture.rs\<close>: the event emitter, which interns every statement's
  fingerprint, and its two sources, the slow log and the packet capture.
\<close>

section \<open>The emitter\<close>

record emitter =
  em_registry :: registry
  em_lines :: "string list"
  em_sessions :: "nat set"
  em_event_count :: nat

text \<open>The tool's version and the time of the capture are arguments; a file that cannot be created
  is \<open>None\<close>.\<close>

definition create_emitter ::
    "(capture_record \<Rightarrow> string option) \<Rightarrow> string \<Rightarrow> string \<Rightarrow> string list option \<Rightarrow> error + emitter" where
  "create_emitter enc version now file =
    (case file of
       None \<Rightarrow> Inl Write_Failed
     | Some ls \<Rightarrow>
        bind_result
          (write_record enc (Header_Rec
            \<lparr>hd_version = FORMAT_VERSION, hd_tool_version = version, hd_created_at = now\<rparr>) ls)
          (\<lambda>ls'. Inr \<lparr>em_registry = new_registry, em_lines = ls', em_sessions = {},
             em_event_count = 0\<rparr>))"

definition emit :: "(capture_record \<Rightarrow> string option) \<Rightarrow> event \<Rightarrow> emitter \<Rightarrow> error + emitter" where
  "emit enc ev em =
    (case intern (em_registry em) (ev_query ev) of
       (r, i) \<Rightarrow>
         bind_result (write_record enc (Event_Rec (ev\<lparr>ev_fingerprint_id := i\<rparr>)) (em_lines em))
           (\<lambda>ls. Inr
             \<lparr>em_registry = r, em_lines = ls,
              em_sessions = insert (ev_session_id ev) (em_sessions em),
              em_event_count = em_event_count em + 1\<rparr>))"

definition fingerprint_table :: "registry \<Rightarrow> fingerprint_entry list" where
  "fingerprint_table r =
    map (\<lambda>(i, t). \<lparr>fe_id = word_of_nat i, fe_text = t\<rparr>) (zip [0..<length (texts r)] (texts r))"

definition finish_emitter ::
    "(capture_record \<Rightarrow> string option) \<Rightarrow> summary \<Rightarrow> emitter \<Rightarrow> error + (string list \<times> summary)" where
  "finish_emitter enc s em =
    (let s' = s\<lparr>su_event_count := em_event_count em, su_session_count := card (em_sessions em),
         su_fingerprints := fingerprint_table (em_registry em)\<rparr>
     in bind_result (write_record enc (Summary_Rec s') (em_lines em)) (\<lambda>ls. Inr (ls, s')))"

fun emit_all :: "(capture_record \<Rightarrow> string option) \<Rightarrow> event list \<Rightarrow> emitter \<Rightarrow> error + emitter" where
  "emit_all enc [] em = Inr em"
| "emit_all enc (e # es) em = bind_result (emit enc e em) (\<lambda>em1. emit_all enc es em1)"

section \<open>Capturing a slow log\<close>

definition query_event :: "parsed_query \<Rightarrow> event" where
  "query_event pq =
    \<lparr>ev_ts_micros = pq_ts_micros pq, ev_session_id = pq_thread_id pq, ev_user = pq_user pq,
     ev_db = pq_db pq, ev_query = pq_query pq, ev_orig_query_time_s = pq_query_time_s pq,
     ev_fingerprint_id = 0\<rparr>"

text \<open>\<open>read_until\<close> on the newline: every line with its terminator, the last one without when the
  input ends there.\<close>

function raw_lines :: "string \<Rightarrow> string list" where
  "raw_lines s =
    (if s = [] then []
     else
       let n = length (takeWhile (\<lambda>c. c \<noteq> NEWLINE) s) + 1 in
       take n s # raw_lines (drop n s))"
  by pat_completeness auto
termination by (relation "measure length") auto

declare raw_lines.simps [simp del]

definition text_line :: "string \<Rightarrow> string" where
  "text_line raw =
    rev (dropWhile (\<lambda>c. c = NEWLINE \<or> c = CHR 0x0D) (rev (from_utf8_lossy raw)))"

definition emit_query ::
    "(capture_record \<Rightarrow> string option) \<Rightarrow> parsed_query option \<Rightarrow> emitter \<Rightarrow> error + emitter" where
  "emit_query enc q em = (case q of None \<Rightarrow> Inr em | Some pq \<Rightarrow> emit enc (query_event pq) em)"

text \<open>The read loop; \<open>None\<close> is a read error.\<close>

fun capture_lines ::
    "time_lib \<Rightarrow> (capture_record \<Rightarrow> string option) \<Rightarrow> string option list \<Rightarrow> parser \<Rightarrow> emitter \<Rightarrow>
      error + (parser \<times> emitter)" where
  "capture_lines lib enc [] p em = Inr (p, em)"
| "capture_lines lib enc (l # ls) p em =
    (case l of
       None \<Rightarrow> Inl (Read_Failed 0)
     | Some raw \<Rightarrow>
        (case push_line lib (text_line raw) p of
           (p1, q) \<Rightarrow> bind_result (emit_query enc q em) (\<lambda>em1. capture_lines lib enc ls p1 em1)))"

definition source_dialect :: "string option \<Rightarrow> parser \<Rightarrow> string" where
  "source_dialect dialect_override p =
    (case dialect_override of
       Some d \<Rightarrow> d
     | None \<Rightarrow> (case pa_dialect p of Some d \<Rightarrow> as_str d | None \<Rightarrow> ''unknown''))"

definition slowlog_summary :: "string option \<Rightarrow> parser \<Rightarrow> summary" where
  "slowlog_summary dialect_override p =
    \<lparr>su_source_dialect = source_dialect dialect_override p, su_event_count = 0, su_session_count = 0,
     su_admin_commands_ignored = pa_admin_commands p, su_server_restarts_seen = pa_restarts p,
     su_pcap = None, su_fingerprints = []\<rparr>"

definition run_capture ::
    "time_lib \<Rightarrow> (capture_record \<Rightarrow> string option) \<Rightarrow> string \<Rightarrow> string \<Rightarrow> string option \<Rightarrow>
      string option list option \<Rightarrow> string list option \<Rightarrow> error + (string list \<times> summary)" where
  "run_capture lib enc version now dialect_override input out =
    (case input of
       None \<Rightarrow> Inl Open_Failed
     | Some ls \<Rightarrow>
        bind_result (create_emitter enc version now out) (\<lambda>em.
        bind_result (capture_lines lib enc ls new_parser em) (\<lambda>(p, em1).
          case finish_parser p of
            (p1, q) \<Rightarrow>
              bind_result (emit_query enc q em1)
                (finish_emitter enc (slowlog_summary dialect_override p1)))))"

section \<open>Capturing packets\<close>

definition packet_event :: "emission \<Rightarrow> event" where
  "packet_event em =
    (case em of
       (sid, ev) \<Rightarrow>
         \<lparr>ev_ts_micros = pe_ts ev, ev_session_id = sid, ev_user = pe_user ev, ev_db = pe_db ev,
          ev_query = pe_query ev, ev_orig_query_time_s = pe_latency ev, ev_fingerprint_id = 0\<rparr>)"

definition pcap_dialect :: "string option \<Rightarrow> pcap_stats \<Rightarrow> string" where
  "pcap_dialect dialect_override st =
    (case dialect_override of
       Some d \<Rightarrow> d
     | None \<Rightarrow> (case st_server_versions st of v # _ \<Rightarrow> ''pcap:'' @ v | [] \<Rightarrow> ''pcap''))"

definition pcap_summary_of :: "pcap_stats \<Rightarrow> pcap_summary" where
  "pcap_summary_of st =
    \<lparr>ps_packets = st_packets st, ps_truncated_packets = st_truncated_packets st,
     ps_ip_fragments_skipped = st_ip_fragments_skipped st, ps_connections = st_connections st,
     ps_connections_decoded = st_decoded st,
     ps_connections_tls_skipped = st_tls_skipped st,
     ps_connections_compressed_skipped = st_compressed_skipped st,
     ps_connections_midstream_skipped = st_midstream_skipped st,
     ps_connections_broken = st_broken st,
     ps_statements_expanded = st_expanded st,
     ps_statements_inexpandable = st_inexpandable st,
     ps_responses_missing = st_missing st, ps_server_versions = st_server_versions st\<rparr>"

definition packets_summary :: "string option \<Rightarrow> pcap_stats \<Rightarrow> summary" where
  "packets_summary dialect_override st =
    \<lparr>su_source_dialect = pcap_dialect dialect_override st, su_event_count = 0, su_session_count = 0,
     su_admin_commands_ignored = st_ignored st, su_server_restarts_seen = 0,
     su_pcap = Some (pcap_summary_of st), su_fingerprints = []\<rparr>"

definition emission_sink ::
    "(capture_record \<Rightarrow> string option) \<Rightarrow> emitter \<Rightarrow> nat \<Rightarrow> proto_event \<Rightarrow> error + emitter" where
  "emission_sink enc em sid ev = emit enc (packet_event (sid, ev)) em"

text \<open>The order in which the connections left at the end of the file are flushed is that of a hash
  map: the parameter \<open>keys\<close>.\<close>

definition run_capture_pcap ::
    "(capture_record \<Rightarrow> string option) \<Rightarrow> (engine \<Rightarrow> flow_key list) \<Rightarrow> string \<Rightarrow> string \<Rightarrow> nat \<Rightarrow>
      string option \<Rightarrow> read_result list \<Rightarrow> string list option \<Rightarrow>
      error scan_error + (string list \<times> summary)" where
  "run_capture_pcap enc keys version now port dialect_override results out =
    (case create_emitter enc version now out of
       Inl err \<Rightarrow> Inl (Sink_failed err)
     | Inr em \<Rightarrow>
        bind_result (scan_pcap_file (emission_sink enc) keys port results em) (\<lambda>(st, em1).
          case finish_emitter enc (packets_summary dialect_override st) em1 of
            Inl err \<Rightarrow> Inl (Sink_failed err)
          | Inr r \<Rightarrow> Inr r))"

end
