(* ===== verification/Capture_Props.thy ===== *)
theory Capture_Props
  imports Capture Slowlog_Props
begin

text \<open>
  A capture file read back gives the events that went in, every fingerprint id of which resolves
  in the summary's table to the fingerprint of its statement. The emitter rests on the interface
  \<open>interner\<close> through its interpretation on the registry.
\<close>

section \<open>The table of the summary\<close>

lemma fingerprint_text_table:
  assumes "unat i < length (texts r)" and "length (texts r) \<le> 2 ^ 32"
    and "su_fingerprints s = fingerprint_table r"
  shows "fingerprint_text s i = Some (texts r ! unat i)"
proof -
  let ?n = "length (texts r)"
  let ?t = "map (\<lambda>k. \<lparr>fe_id = word_of_nat k :: u32, fe_text = texts r ! k\<rparr>) [0..<?n]"
  have t: "fingerprint_table r = ?t"
    unfolding fingerprint_table_def by (rule nth_equalityI) auto
  have "find (\<lambda>e. fe_id e = i) ?t = Some \<lparr>fe_id = i, fe_text = texts r ! unat i\<rparr>"
    unfolding find_Some_iff
  proof (intro exI [of _ "unat i"] conjI allI impI)
    fix j
    assume j: "j < unat i"
    then have "unat (word_of_nat j :: u32) = j" using assms by (intro unat_reg_index) simp
    then show "fe_id (?t ! j) \<noteq> i" using j assms(1) by auto
  qed (use assms(1) in simp_all)
  then show ?thesis using assms(3) t by (simp add: fingerprint_text_def)
qed

section \<open>The emitter\<close>

lemma emit_all_append:
  "emit_all enc (xs @ ys) em = bind_result (emit_all enc xs em) (emit_all enc ys)"
proof (induction xs arbitrary: em)
  case (Cons x xs)
  then show ?case by (cases "emit enc x em") auto
qed simp

lemma emit_query_all: "emit_query enc q em = emit_all enc (case q of Some pq \<Rightarrow> [query_event pq] | None \<Rightarrow> []) em"
  by (cases "emit enc (query_event (the q)) em") (auto simp: emit_query_def split: option.splits)

text \<open>What a run of the emitter wrote: one record per event, with the id the registry gave.\<close>

definition numbered :: "event list \<Rightarrow> u32 list \<Rightarrow> event list" where
  "numbered es is = map2 (\<lambda>e i. e\<lparr>ev_fingerprint_id := i\<rparr>) es is"

lemma emit_all_spec:
  assumes "emit_all enc es em = Inr em'"
  shows "\<exists>is. intern_run (em_registry em) (map ev_query es) = (em_registry em', is) \<and>
    (\<exists>ls. em_lines em' = em_lines em @ ls \<and>
      list_all2 (\<lambda>e l. enc (Event_Rec e) = Some l) (numbered es is) ls) \<and>
    em_sessions em' = em_sessions em \<union> ev_session_id ` set es \<and>
    em_event_count em' = em_event_count em + length es"
  using assms
proof (induction es arbitrary: em)
  case Nil
  then show ?case by (auto simp: numbered_def)
next
  case (Cons e es)
  obtain r i where r: "intern (em_registry em) (ev_query e) = (r, i)" by fastforce
  obtain l where l: "enc (Event_Rec (e\<lparr>ev_fingerprint_id := i\<rparr>)) = Some l"
    using Cons.prems r
    by (cases "enc (Event_Rec (e\<lparr>ev_fingerprint_id := i\<rparr>))") (auto simp: emit_def write_record_def)
  let ?em = "\<lparr>em_registry = r, em_lines = em_lines em @ [l],
    em_sessions = insert (ev_session_id e) (em_sessions em), em_event_count = em_event_count em + 1\<rparr>"
  have "emit_all enc es ?em = Inr em'" using Cons.prems r l by (simp add: emit_def write_record_def)
  from Cons.IH [OF this] obtain js ls where
    "intern_run r (map ev_query es) = (em_registry em', js)"
    "em_lines em' = em_lines em @ l # ls"
    "list_all2 (\<lambda>e l. enc (Event_Rec e) = Some l) (numbered es js) ls"
    "em_sessions em' = insert (ev_session_id e) (em_sessions em) \<union> ev_session_id ` set es"
    "em_event_count em' = em_event_count em + 1 + length es"
    by auto
  then show ?case using r l
    by (intro exI [of _ "i # js"]) (auto simp: numbered_def intro!: exI [of _ "l # ls"])
qed

section \<open>The slow log loop\<close>

lemma capture_lines_eq:
  "capture_lines lib enc (map Some raws) p em =
    (case push_lines lib (map text_line raws) p of
       (p', qs) \<Rightarrow> bind_result (emit_all enc (map query_event qs) em) (\<lambda>em'. Inr (p', em')))"
proof (induction raws arbitrary: p em)
  case (Cons raw raws)
  obtain p1 q where p1: "push_line lib (text_line raw) p = (p1, q)" by fastforce
  obtain p2 qs where p2: "push_lines lib (map text_line raws) p1 = (p2, qs)" by fastforce
  show ?case
  proof (cases q)
    case None
    then show ?thesis using p1 p2 Cons by (simp add: emit_query_def)
  next
    case (Some pq)
    then show ?thesis using p1 p2 Cons
      by (cases "emit enc (query_event pq) em") (simp_all add: emit_query_def)
  qed
qed simp

text \<open>A successful capture is a run of the emitter over the queries of the log.\<close>

lemma run_capture_Inr:
  assumes "run_capture lib enc version now ovr (Some (map Some raws)) (Some []) = Inr (ls, su)"
  obtains hl em p where
    "enc (Header_Rec \<lparr>hd_version = FORMAT_VERSION, hd_tool_version = version, hd_created_at = now\<rparr>) = Some hl"
    "emit_all enc (map query_event (snd (parse_log lib (map text_line raws))))
       \<lparr>em_registry = new_registry, em_lines = [hl], em_sessions = {}, em_event_count = 0\<rparr> = Inr em"
    "finish_emitter enc (slowlog_summary ovr p) em = Inr (ls, su)"
proof -
  let ?h = "Header_Rec \<lparr>hd_version = FORMAT_VERSION, hd_tool_version = version, hd_created_at = now\<rparr>"
  obtain hl where hl: "enc ?h = Some hl"
    using assms by (cases "enc ?h") (auto simp: run_capture_def create_emitter_def write_record_def)
  let ?em = "\<lparr>em_registry = new_registry, em_lines = [hl], em_sessions = {}, em_event_count = 0\<rparr>"
  obtain p qs where p: "push_lines lib (map text_line raws) new_parser = (p, qs)" by fastforce
  obtain p1 q where q: "finish_parser p = (p1, q)" by fastforce
  let ?last = "case q of Some x \<Rightarrow> [x] | None \<Rightarrow> []"
  have e: "snd (parse_log lib (map text_line raws)) = qs @ ?last"
    using p q by (simp add: parse_log_def)
  have m: "map query_event ?last = (case q of Some pq \<Rightarrow> [query_event pq] | None \<Rightarrow> [])"
    by (cases q) auto
  have "bind_result (emit_all enc (map query_event qs) ?em) (\<lambda>em1.
      bind_result (emit_query enc q em1) (finish_emitter enc (slowlog_summary ovr p1))) = Inr (ls, su)"
    using assms hl p q
    by (cases "emit_all enc (map query_event qs) ?em")
      (auto simp: run_capture_def create_emitter_def write_record_def capture_lines_eq)
  then obtain em where "emit_all enc (map query_event (qs @ ?last)) ?em = Inr em"
      "finish_emitter enc (slowlog_summary ovr p1) em = Inr (ls, su)"
    unfolding map_append emit_all_append m emit_query_all by (auto simp: bind_result_Inr_iff)
  then show ?thesis using that hl e by simp
qed

section \<open>Reading back\<close>

lemma stream_events:
  assumes "list_all2 (\<lambda>e l. de l = Some (Event_Rec e) \<and> trim l \<noteq> []) es ls"
  shows "stream_lines de collect i (map Some ls @ rest) s =
    stream_lines de collect (i + length ls) rest
      (s\<lparr>sr_events := sr_events s + length es, sr_sink := sr_sink s @ es\<rparr>)"
  using assms
proof (induction es ls arbitrary: i s rule: list_all2_induct)
  case (Cons e es l ls)
  then show ?case by (simp add: stream_record_def collect_def)
qed simp

lemma numbered_queries:
  "length is = length es \<Longrightarrow> map ev_query (numbered es is) = map ev_query es"
  "length is = length es \<Longrightarrow>
    map (\<lambda>e. e\<lparr>ev_fingerprint_id := 0\<rparr>) (numbered es is) = map (\<lambda>e. e\<lparr>ev_fingerprint_id := 0\<rparr>) es"
  by (induction es "is" rule: list_induct2') (auto simp: numbered_def)

text \<open>The file of a run of the emitter, read back, and the registry whose table its summary holds.\<close>

abbreviation unnumbered :: "event \<Rightarrow> event" where
  "unnumbered e \<equiv> e\<lparr>ev_fingerprint_id := 0\<rparr>"

lemma emitted_file:
  assumes codec: "\<forall>r l. enc r = Some l \<longrightarrow> de l = Some r \<and> trim l \<noteq> []"
    and header: "enc (Header_Rec \<lparr>hd_version = FORMAT_VERSION, hd_tool_version = version, hd_created_at = now\<rparr>) = Some hl"
    and emitted: "emit_all enc es \<lparr>em_registry = new_registry, em_lines = [hl], em_sessions = {}, em_event_count = 0\<rparr> = Inr em"
    and finished: "finish_emitter enc s em = Inr (ls, su)"
    and few: "length es \<le> 2 ^ 32"
  obtains h es' r where "read_capture de (Some (map Some ls)) = Inr (h, su, es')"
    and "map unnumbered es' = map unnumbered es"
    and "su_fingerprints su = fingerprint_table r" and "reg_inv r"
    and "\<forall>e \<in> set es'. unat (ev_fingerprint_id e) < length (texts r) \<and>
      texts r ! unat (ev_fingerprint_id e) = fingerprint (ev_query e)"
    and "su_event_count su = length es'" and "su_session_count su = card (ev_session_id ` set es')"
proof -
  from emit_all_spec [OF emitted] obtain "is" els where s:
    "intern_run new_registry (map ev_query es) = (em_registry em, is)"
    "em_lines em = hl # els" "list_all2 (\<lambda>e l. enc (Event_Rec e) = Some l) (numbered es is) els"
    "em_sessions em = ev_session_id ` set es" "em_event_count em = length es"
    by auto
  have reg: "length (texts (em_registry em)) \<le> 2 ^ 32"
      "list_all2 (\<lambda>q i. unat i < length (texts (em_registry em)) \<and>
        texts (em_registry em) ! unat i = fingerprint q) (map ev_query es) is"
    using reg.intern_all_spec [OF reg_inv_new, of "map ev_query es" "em_registry em" "is"] s(1) few
    unfolding intern_run_eq by (auto simp: new_registry_def)
  then have len: "length is = length es" by (auto dest: list_all2_lengthD)
  have inv: "reg_inv (em_registry em)"
    using reg.intern_all_spec [OF reg_inv_new, of "map ev_query es" "em_registry em" "is"] s(1) few
    unfolding intern_run_eq by (auto simp: new_registry_def)
  obtain sl where sl: "enc (Summary_Rec su) = Some sl" "ls = hl # els @ [sl]"
      "su_event_count su = length es" "su_session_count su = card (ev_session_id ` set es)"
      "su_fingerprints su = fingerprint_table (em_registry em)"
    using finished s
    by (auto simp: finish_emitter_def write_record_def Let_def split: option.splits)
  let ?ns = "numbered es is"
  have lines: "list_all2 (\<lambda>e l. de l = Some (Event_Rec e) \<and> trim l \<noteq> []) ?ns els"
    using s(3) codec by (auto elim!: list_all2_mono)
  have n: "length ?ns = length es" using len by (simp add: numbered_def)
  have "read_capture de (Some (map Some ls)) =
      Inr (\<lparr>hd_version = FORMAT_VERSION, hd_tool_version = version, hd_created_at = now\<rparr>, su, ?ns)"
    using codec header sl(1-3) n stream_events [OF lines]
    by (simp add: read_capture_def stream_capture_def stream_record_def)
  moreover have m: "map unnumbered ?ns = map unnumbered es" by (rule numbered_queries(2) [OF len])
  moreover have "\<forall>e \<in> set ?ns. unat (ev_fingerprint_id e) < length (texts (em_registry em)) \<and>
      texts (em_registry em) ! unat (ev_fingerprint_id e) = fingerprint (ev_query e)"
  proof
    fix e
    assume "e \<in> set ?ns"
    then obtain k where k: "k < length es" "e = (es ! k)\<lparr>ev_fingerprint_id := is ! k\<rparr>"
      using len by (auto simp: numbered_def in_set_conv_nth)
    then show "unat (ev_fingerprint_id e) < length (texts (em_registry em)) \<and>
        texts (em_registry em) ! unat (ev_fingerprint_id e) = fingerprint (ev_query e)"
      using list_all2_nthD [OF reg(2), of k] by simp
  qed
  moreover have "ev_session_id ` set ?ns = ev_session_id ` set es"
    using arg_cong [OF m, of "\<lambda>xs. ev_session_id ` set xs"] by (simp add: image_image)
  ultimately show thesis using that [OF _ _ sl(5) inv] sl(3,4) n by metis
qed

text \<open>The ids of such a file resolve in the table of its summary.\<close>

lemma ids_resolve:
  assumes "su_fingerprints su = fingerprint_table r" and "reg_inv r"
    and "\<forall>e \<in> set es. unat (ev_fingerprint_id e) < length (texts r) \<and>
      texts r ! unat (ev_fingerprint_id e) = fingerprint (ev_query e)"
  shows "\<forall>e \<in> set es. fingerprint_text su (ev_fingerprint_id e) = Some (fingerprint (ev_query e))"
proof -
  have "length (texts r) \<le> 2 ^ 32" using assms(2) by (simp add: reg_inv_def)
  then show ?thesis using assms(3) fingerprint_text_table [OF _ _ assms(1)] by fastforce
qed

text \<open>The capture file of a slow log.\<close>

lemma captured_file:
  assumes codec: "\<forall>r l. enc r = Some l \<longrightarrow> de l = Some r \<and> trim l \<noteq> []"
    and run: "run_capture lib enc version now ovr (Some (map Some raws)) (Some []) = Inr (ls, su)"
    and few: "length (snd (parse_log lib (map text_line raws))) \<le> 2 ^ 32"
  obtains h es r where "read_capture de (Some (map Some ls)) = Inr (h, su, es)"
    and "map unnumbered es = map query_event (snd (parse_log lib (map text_line raws)))"
    and "su_fingerprints su = fingerprint_table r" and "reg_inv r"
    and "\<forall>e \<in> set es. unat (ev_fingerprint_id e) < length (texts r) \<and>
      texts r ! unat (ev_fingerprint_id e) = fingerprint (ev_query e)"
    and "su_event_count su = length es" and "su_session_count su = card (ev_session_id ` set es)"
proof -
  let ?es = "map query_event (snd (parse_log lib (map text_line raws)))"
  have u: "map unnumbered ?es = ?es" by (simp add: query_event_def)
  obtain hl em p where r:
    "enc (Header_Rec \<lparr>hd_version = FORMAT_VERSION, hd_tool_version = version, hd_created_at = now\<rparr>) = Some hl"
    "emit_all enc ?es \<lparr>em_registry = new_registry, em_lines = [hl], em_sessions = {}, em_event_count = 0\<rparr> = Inr em"
    "finish_emitter enc (slowlog_summary ovr p) em = Inr (ls, su)"
    using run_capture_Inr [OF run] by metis
  have l: "length ?es \<le> 2 ^ 32" using few by simp
  show thesis by (rule emitted_file [OF codec r l, unfolded u]) (rule that)
qed

text \<open>C12: The capture file of a slow log, read back, holds exactly the parsed statements in order;
  each event's fingerprint id resolves in the summary to the fingerprint of its statement, and the
  summary counts the events and the distinct sessions.\<close>
theorem capture_readback:
  assumes codec: "\<forall>r l. enc r = Some l \<longrightarrow> de l = Some r \<and> trim l \<noteq> []"
    and run: "run_capture lib enc version now ovr (Some (map Some raws)) (Some []) = Inr (ls, su)"
    and few: "length (snd (parse_log lib (map text_line raws))) \<le> 2 ^ 32"
  shows "\<exists>h es. read_capture de (Some (map Some ls)) = Inr (h, su, es) \<and>
    map (\<lambda>e. e\<lparr>ev_fingerprint_id := 0\<rparr>) es = map query_event (snd (parse_log lib (map text_line raws))) \<and>
    (\<forall>e \<in> set es. fingerprint_text su (ev_fingerprint_id e) = Some (fingerprint (ev_query e))) \<and>
    su_event_count su = length es \<and> su_session_count su = card (ev_session_id ` set es)"
proof -
  obtain h es r where c: "read_capture de (Some (map Some ls)) = Inr (h, su, es)"
      "map unnumbered es = map query_event (snd (parse_log lib (map text_line raws)))"
      "su_fingerprints su = fingerprint_table r" "reg_inv r"
      "\<forall>e \<in> set es. unat (ev_fingerprint_id e) < length (texts r) \<and>
        texts r ! unat (ev_fingerprint_id e) = fingerprint (ev_query e)"
      "su_event_count su = length es" "su_session_count su = card (ev_session_id ` set es)"
    using captured_file [OF assms] by metis
  with ids_resolve [OF c(3-5)] show ?thesis by blast
qed

section \<open>A sample capture\<close>

definition sample_query :: parsed_query where
  "sample_query = \<lparr>pq_ts_micros = 0, pq_thread_id = 0, pq_user = None, pq_db = None,
     pq_query = ''DO 1'', pq_query_time_s = Fin 0\<rparr>"

definition sample_records :: "capture_record list" where
  "sample_records =
    [Header_Rec \<lparr>hd_version = FORMAT_VERSION, hd_tool_version = ''0'', hd_created_at = ''''\<rparr>,
     Event_Rec (query_event sample_query),
     Summary_Rec \<lparr>su_source_dialect = ''unknown'', su_event_count = 1, su_session_count = 1,
       su_admin_commands_ignored = 0, su_server_restarts_seen = 0, su_pcap = None,
       su_fingerprints = [\<lparr>fe_id = 0, fe_text = fingerprint ''DO 1''\<rparr>]\<rparr>]"

text \<open>A codec for three records: record \<open>k\<close> is a line of \<open>k + 1\<close> letters.\<close>

definition three_enc :: "capture_record list \<Rightarrow> capture_record \<Rightarrow> string option" where
  "three_enc rs r = (if r = rs ! 0 then Some ''a'' else if r = rs ! 1 then Some ''aa''
     else if r = rs ! 2 then Some ''aaa'' else None)"

definition three_de :: "capture_record list \<Rightarrow> string \<Rightarrow> capture_record option" where
  "three_de rs l = (if l = ''a'' then Some (rs ! 0) else if l = ''aa'' then Some (rs ! 1)
     else if l = ''aaa'' then Some (rs ! 2) else None)"

lemma three_codec: "\<forall>r l. three_enc rs r = Some l \<longrightarrow> three_de rs l = Some r \<and> trim l \<noteq> []"
  using trim_id by (auto simp: three_enc_def three_de_def solid_def is_ascii_def byte_def split: if_splits)

abbreviation sample_enc :: "capture_record \<Rightarrow> string option" where
  "sample_enc \<equiv> three_enc sample_records"

abbreviation sample_de :: "string \<Rightarrow> capture_record option" where
  "sample_de \<equiv> three_de sample_records"

lemmas sample_codec = three_codec [of sample_records]

lemma sample_statement: "starts_statement ''DO 1''" "trim ''DO 1'' = ''DO 1''" "trim_end ''DO 1'' = ''DO 1''"
proof -
  have s: "solid (CHR ''D'')" "solid (CHR ''1'')" by (simp_all add: solid_def is_ascii_def byte_def)
  then show t: "trim ''DO 1'' = ''DO 1''" and "trim_end ''DO 1'' = ''DO 1''"
    by (simp_all add: trim_id trim_end_id)
  show "starts_statement ''DO 1''"
    unfolding starts_statement_def t using s not_banner [of "''DO 1''"] not_columns [of "CHR ''D''"]
    by (simp add: parse_set_timestamp_def SET_TIMESTAMP_def)
qed

lemma sample_push: "push_lines empty_lib [''DO 1''] new_parser =
    (new_parser\<lparr>pa_in_query := True, pa_buf := ''DO 1''\<rparr>, [])"
proof -
  have "parse_use_line ''DO 1'' = None" by (simp add: parse_use_line_def)
  then show ?thesis
    using consume_statement [OF sample_statement(1), of new_parser empty_lib] sample_statement(2)
    by (simp add: push_line_eq strip_cr_def strip_suffix_char_def new_parser_def)
qed

lemma sample_finish: "finish_parser (new_parser\<lparr>pa_in_query := True, pa_buf := ''DO 1''\<rparr>) =
    (new_parser, Some sample_query)"
  using sample_statement(3)
  by (simp add: finish_parser_def take_query_def statement_text_def ends_with_def
      suffix_to_prefix new_parser_def reset_entry_def sample_query_def Let_def)

lemma sample_parse: "parse_log empty_lib [''DO 1''] = (new_parser, [sample_query])"
  unfolding parse_log_def sample_push by (simp add: sample_finish)

lemma sample_text_line: "text_line ''DO 1'' = ''DO 1''"
  by (simp add: text_line_def valid_utf8_ascii_all is_ascii_def byte_def)

lemma sample_run:
  "run_capture empty_lib sample_enc ''0'' '''' None (Some (map Some [''DO 1''])) (Some []) =
    Inr ([''a'', ''aa'', ''aaa''], (case sample_records ! 2 of Summary_Rec s \<Rightarrow> s))"
proof -
  let ?em = "\<lparr>em_registry = new_registry, em_lines = [''a''], em_sessions = {}, em_event_count = 0\<rparr>"
  obtain r where i: "intern new_registry ''DO 1'' = (r, 0)" "texts r = [fingerprint ''DO 1'']"
    by (simp_all add: intern_def new_registry_def Let_def)
  have enc: "sample_enc (sample_records ! 0) = Some ''a''" "sample_enc (sample_records ! 1) = Some ''aa''"
      "sample_enc (sample_records ! 2) = Some ''aaa''"
    by (simp_all add: three_enc_def sample_records_def)
  have "emit sample_enc (query_event sample_query) ?em =
      Inr \<lparr>em_registry = r, em_lines = [''a'', ''aa''], em_sessions = {0}, em_event_count = 1\<rparr>"
    using i enc(2) by (simp add: emit_def query_event_def sample_query_def write_record_def sample_records_def)
  moreover have "create_emitter sample_enc ''0'' '''' (Some []) = Inr ?em"
    using enc(1) by (simp add: create_emitter_def write_record_def sample_records_def)
  moreover have "finish_emitter sample_enc (slowlog_summary None new_parser)
      \<lparr>em_registry = r, em_lines = [''a'', ''aa''], em_sessions = {0}, em_event_count = 1\<rparr> =
      Inr ([''a'', ''aa'', ''aaa''], (case sample_records ! 2 of Summary_Rec s \<Rightarrow> s))"
    using enc(3) i(2) by (simp add: finish_emitter_def slowlog_summary_def source_dialect_def new_parser_def
        fingerprint_table_def write_record_def sample_records_def)
  ultimately show ?thesis
    unfolding run_capture_def option.case capture_lines_eq
    by (simp add: sample_text_line sample_push [simplified] sample_finish emit_query_def)
qed

theorem capture_readback_witness:
  "\<exists>h su es. read_capture sample_de (Some (map Some [''a'', ''aa'', ''aaa''])) = Inr (h, su, es) \<and>
    map (\<lambda>e. e\<lparr>ev_fingerprint_id := 0\<rparr>) es = [query_event sample_query] \<and>
    (\<forall>e \<in> set es. fingerprint_text su (ev_fingerprint_id e) = Some (fingerprint (ev_query e)))"
proof -
  let ?su = "case sample_records ! 2 of Summary_Rec s \<Rightarrow> s"
  have q: "snd (parse_log empty_lib (map text_line [''DO 1''])) = [sample_query]"
    by (simp add: sample_text_line sample_parse)
  then have few: "length (snd (parse_log empty_lib (map text_line [''DO 1'']))) \<le> 2 ^ 32" by simp
  from capture_readback [OF sample_codec sample_run few] show ?thesis unfolding q
    by (elim exE) (intro exI [of _ ?su] exI conjI; auto)
qed

end
