(* ===== verification/Spool.thy ===== *)
theory Spool
  imports Capture_Format Classify Slowlog
begin

text \<open>
  The session spool of \<open>spool.rs\<close>: the replay filters, the two passes over a capture that lay the
  events of every session out in one region of a temporary file, and the cursor that reads a
  region back. The serialisation of an event (\<open>ser\<close>, \<open>de\<close>) is a parameter; \<open>disk n\<close> says that
  the temporary file can hold \<open>n\<close> bytes; the capture is read twice and may differ.
\<close>

section \<open>Filters\<close>

record time_window =
  tw_raw :: string
  tw_start_micros :: "int option"
  tw_end_micros :: "int option"

record filters =
  fi_db :: "string option"
  fi_user :: "string option"
  fi_window :: "time_window option"

datatype window_error = No_Separator | Bad_Bound string | Empty_Window | Unbounded_Window

definition saturate_i64 :: "int \<Rightarrow> int" where
  "saturate_i64 x = max (- (2 ^ 63)) (min (2 ^ 63 - 1) x)"

definition parse_bound :: "time_lib \<Rightarrow> string \<Rightarrow> window_error + int option" where
  "parse_bound lib b =
    (if b = [] then Inr None
     else case parse_signed (2 ^ 63 - 1) b of
       Some secs \<Rightarrow> Inr (Some (saturate_i64 (secs * 1000000)))
     | None \<Rightarrow>
        (case rfc3339 lib b of
           None \<Rightarrow> Inl (Bad_Bound b)
         | Some n \<Rightarrow>
            Inr (Some (wrap_i64 (saturate_i64 (n div 10 ^ 9 * 1000000) + n mod 10 ^ 9 div 1000)))))"

definition parse_window :: "time_lib \<Rightarrow> string \<Rightarrow> window_error + time_window" where
  "parse_window lib s =
    (case find_str ''..'' s of
       None \<Rightarrow> Inl No_Separator
     | Some i \<Rightarrow>
        bind_result (parse_bound lib (take i s)) (\<lambda>a.
        bind_result (parse_bound lib (drop (i + 2) s)) (\<lambda>b.
          case (a, b) of
            (Some x, Some y) \<Rightarrow>
              if y \<le> x then Inl Empty_Window
              else Inr \<lparr>tw_raw = s, tw_start_micros = a, tw_end_micros = b\<rparr>
          | (None, None) \<Rightarrow> Inl Unbounded_Window
          | _ \<Rightarrow> Inr \<lparr>tw_raw = s, tw_start_micros = a, tw_end_micros = b\<rparr>)))"

definition window_contains :: "time_window \<Rightarrow> int \<Rightarrow> bool" where
  "window_contains w ts \<longleftrightarrow>
    (case tw_start_micros w of None \<Rightarrow> True | Some a \<Rightarrow> a \<le> ts) \<and>
    (case tw_end_micros w of None \<Rightarrow> True | Some b \<Rightarrow> ts < b)"

definition filters_active :: "filters \<Rightarrow> bool" where
  "filters_active f \<longleftrightarrow> fi_db f \<noteq> None \<or> fi_user f \<noteq> None \<or> fi_window f \<noteq> None"

definition filters_match :: "filters \<Rightarrow> event \<Rightarrow> bool" where
  "filters_match f e \<longleftrightarrow>
    (case fi_db f of None \<Rightarrow> True | Some d \<Rightarrow> ev_db e = Some d) \<and>
    (case fi_user f of None \<Rightarrow> True | Some u \<Rightarrow> ev_user e = Some u) \<and>
    (case fi_window f of None \<Rightarrow> True | Some w \<Rightarrow> window_contains w (ev_ts_micros e))"

section \<open>Records of the spool file\<close>

definition record_size :: "(event \<Rightarrow> bytes option) \<Rightarrow> event \<Rightarrow> error + nat" where
  "record_size ser e =
    (case ser e of None \<Rightarrow> Inl Write_Failed | Some body \<Rightarrow> Inr (4 + length body))"

definition encode_record :: "(event \<Rightarrow> bytes option) \<Rightarrow> event \<Rightarrow> error + bytes" where
  "encode_record ser e =
    (case ser e of None \<Rightarrow> Inl Write_Failed | Some body \<Rightarrow> Inr (le_bytes 4 (length body) @ body))"

definition write_all_at :: "(nat \<Rightarrow> bool) \<Rightarrow> bytes \<Rightarrow> nat \<Rightarrow> bytes \<Rightarrow> error + bytes" where
  "write_all_at disk data pos file =
    (if \<not> disk (pos + length data) then Inl Spool_Io
     else
       let padded = file @ replicate (pos - length file) 0 in
       Inr (take pos padded @ data @ drop (pos + length data) padded))"

definition read_exact_at :: "nat \<Rightarrow> nat \<Rightarrow> bytes \<Rightarrow> error + bytes" where
  "read_exact_at n pos file =
    (if length file < pos + n then Inl Spool_Io else Inr (take n (drop pos file)))"

section \<open>Pass A\<close>

record session_build =
  sb_session_id :: nat
  sb_bytes :: nat
  sb_event_count :: nat
  sb_has_executable :: bool
  sb_write_pos :: nat

record pass_a =
  ga_order :: "nat list"
  ga_sessions :: "nat \<rightharpoonup> session_build"
  ga_base_ts :: int
  ga_included :: nat
  ga_filtered :: nat

definition new_pass_a :: pass_a where
  "new_pass_a = \<lparr>ga_order = [], ga_sessions = Map.empty, ga_base_ts = 2 ^ 63 - 1, ga_included = 0,
     ga_filtered = 0\<rparr>"

definition new_session_build :: "nat \<Rightarrow> session_build" where
  "new_session_build sid = \<lparr>sb_session_id = sid, sb_bytes = 0, sb_event_count = 0,
     sb_has_executable = False, sb_write_pos = 0\<rparr>"

text \<open>The entry of the session, new sessions at the end of the order.\<close>

definition session_entry :: "nat \<Rightarrow> pass_a \<Rightarrow> pass_a \<times> session_build" where
  "session_entry sid st =
    (case ga_sessions st sid of
       Some s \<Rightarrow> (st, s)
     | None \<Rightarrow> (st\<lparr>ga_order := ga_order st @ [sid]\<rparr>, new_session_build sid))"

definition pass_a_event ::
    "(event \<Rightarrow> bytes option) \<Rightarrow> filters \<Rightarrow> bool \<Rightarrow> event \<Rightarrow> pass_a \<Rightarrow> error + pass_a" where
  "pass_a_event ser f allow_writes e st =
    (if \<not> filters_match f e then Inr (st\<lparr>ga_filtered := ga_filtered st + 1\<rparr>)
     else
       let st1 = st\<lparr>ga_included := ga_included st + 1, ga_base_ts := min (ga_base_ts st) (ev_ts_micros e)\<rparr>
       in bind_result (record_size ser e) (\<lambda>n.
         case session_entry (ev_session_id e) st1 of
           (st2, s) \<Rightarrow>
             Inr (st2\<lparr>ga_sessions := (ga_sessions st2)(ev_session_id e \<mapsto>
               s\<lparr>sb_bytes := sb_bytes s + n, sb_event_count := sb_event_count s + 1,
                 sb_has_executable := sb_has_executable s \<or>
                   should_execute (ev_query e) allow_writes\<rparr>)\<rparr>)))"

section \<open>Layout\<close>

record spool_session =
  ss_session_id :: nat
  ss_region_start :: nat
  ss_region_end :: nat
  ss_event_count :: nat
  ss_has_executable :: bool

definition planned :: "nat \<Rightarrow> session_build \<Rightarrow> spool_session" where
  "planned off s =
    \<lparr>ss_session_id = sb_session_id s, ss_region_start = off, ss_region_end = off + sb_bytes s,
     ss_event_count = sb_event_count s, ss_has_executable = sb_has_executable s\<rparr>"

text \<open>Regions in the order of first appearance; every session's write cursor starts its region.
  The lookup cannot fail for an id of the order.\<close>

fun layout ::
    "nat list \<Rightarrow> nat \<Rightarrow> (nat \<rightharpoonup> session_build) \<Rightarrow> (nat \<rightharpoonup> session_build) \<times> spool_session list \<times> nat" where
  "layout [] off m = (m, [], off)"
| "layout (sid # sids) off m =
    (case m sid of
       None \<Rightarrow> layout sids off m
     | Some s \<Rightarrow>
        (case layout sids (off + sb_bytes s) (m(sid \<mapsto> s\<lparr>sb_write_pos := off\<rparr>)) of
           (m', ix, size_all) \<Rightarrow> (m', planned off s # ix, size_all)))"

section \<open>Pass B\<close>

record pass_b =
  pb_sessions :: "nat \<rightharpoonup> session_build"
  pb_file :: bytes

definition pass_b_event ::
    "(event \<Rightarrow> bytes option) \<Rightarrow> (nat \<Rightarrow> bool) \<Rightarrow> filters \<Rightarrow> event \<Rightarrow> pass_b \<Rightarrow> error + pass_b" where
  "pass_b_event ser disk f e st =
    (if \<not> filters_match f e then Inr st
     else case pb_sessions st (ev_session_id e) of
       None \<Rightarrow> Inl (Session_Appeared (ev_session_id e))
     | Some s \<Rightarrow>
        bind_result (encode_record ser e) (\<lambda>rec.
        bind_result (write_all_at disk rec (sb_write_pos s) (pb_file st)) (\<lambda>file.
          Inr \<lparr>pb_sessions = (pb_sessions st)(ev_session_id e \<mapsto>
                 s\<lparr>sb_write_pos := sb_write_pos s + length rec\<rparr>), pb_file = file\<rparr>)))"

fun check_regions :: "spool_session list \<Rightarrow> (nat \<rightharpoonup> session_build) \<Rightarrow> error + unit" where
  "check_regions [] m = Inr ()"
| "check_regions (p # ps) m =
    (case m (ss_session_id p) of
       None \<Rightarrow> check_regions ps m
     | Some s \<Rightarrow>
        if sb_write_pos s \<noteq> ss_region_end p
        then Inl (Region_Mismatch (ss_session_id p) (sb_write_pos s - ss_region_start p)
          (ss_region_end p - ss_region_start p))
        else check_regions ps m)"

section \<open>Building\<close>

record spool =
  sp_file :: bytes
  sp_sessions :: "spool_session list"
  sp_header :: header
  sp_summary :: summary
  sp_base_ts_micros :: int
  sp_event_count :: nat
  sp_filtered :: nat
  sp_bytes :: nat

definition build_spool ::
    "(string \<Rightarrow> capture_record option) \<Rightarrow> (event \<Rightarrow> bytes option) \<Rightarrow> (nat \<Rightarrow> bool) \<Rightarrow>
      string option list option \<Rightarrow> string option list option \<Rightarrow> filters \<Rightarrow> bool \<Rightarrow> error + spool" where
  "build_spool de ser disk file_a file_b f allow_writes =
    bind_result (stream_capture de (pass_a_event ser f allow_writes) new_pass_a file_a)
      (\<lambda>(h, su, a).
        if ga_included a = 0 \<and> 0 < ga_filtered a then Inl (All_Filtered (ga_filtered a))
        else case layout (ga_order a) 0 (ga_sessions a) of
          (m, ix, size_all) \<Rightarrow>
            if \<not> disk size_all then Inl Spool_Io
            else
              bind_result
                (stream_capture de (pass_b_event ser disk f)
                  \<lparr>pb_sessions = m, pb_file = replicate size_all 0\<rparr> file_b)
                (\<lambda>(h', su', b).
                  bind_result (check_regions ix (pb_sessions b)) (\<lambda>_.
                    Inr \<lparr>sp_file = pb_file b, sp_sessions = ix, sp_header = h, sp_summary = su,
                      sp_base_ts_micros = (if 0 < ga_included a then ga_base_ts a else 0),
                      sp_event_count = ga_included a, sp_filtered = ga_filtered a,
                      sp_bytes = size_all\<rparr>)))"

section \<open>Cursors\<close>

record cursor =
  cu_pos :: nat
  cu_end :: nat

definition spool_cursor :: "spool_session \<Rightarrow> cursor" where
  "spool_cursor s = \<lparr>cu_pos = ss_region_start s, cu_end = ss_region_end s\<rparr>"

definition next_event ::
    "(bytes \<Rightarrow> event option) \<Rightarrow> bytes \<Rightarrow> cursor \<Rightarrow> error + (event option \<times> cursor)" where
  "next_event de file c =
    (if cu_end c \<le> cu_pos c then Inr (None, c)
     else
       bind_result (read_exact_at 4 (cu_pos c) file) (\<lambda>lb.
         let len = le_val lb in
         if cu_end c < cu_pos c + 4 + len then Inl Record_Overruns_Region
         else
           bind_result (read_exact_at len (cu_pos c + 4) file) (\<lambda>body.
             case de body of
               None \<Rightarrow> Inl Corrupt_Record
             | Some e \<Rightarrow> Inr (Some e, c\<lparr>cu_pos := cu_pos c + 4 + len\<rparr>))))"

text \<open>\<open>n\<close> calls of \<open>next_event\<close>, stopping at the end of the region.\<close>

fun read_events ::
    "(bytes \<Rightarrow> event option) \<Rightarrow> bytes \<Rightarrow> nat \<Rightarrow> cursor \<Rightarrow> error + (event list \<times> cursor \<times> bool)" where
  "read_events de file 0 c = Inr ([], c, False)"
| "read_events de file (Suc n) c =
    bind_result (next_event de file c) (\<lambda>(e, c').
      case e of
        None \<Rightarrow> Inr ([], c', True)
      | Some ev \<Rightarrow>
          bind_result (read_events de file n c') (\<lambda>(evs, c'', fin). Inr (ev # evs, c'', fin)))"

end
