(* ===== verification/Spool_Props.thy ===== *)
theory Spool_Props
  imports Spool
begin

text \<open>
  The spool: every session's region, read through its cursor, gives back the session's events that
  pass the filters, in capture order; regions are laid out in the order sessions first appear.
\<close>

section \<open>Streaming is folding over the events\<close>

fun sink_events :: "(event \<Rightarrow> 's \<Rightarrow> error + 's) \<Rightarrow> event list \<Rightarrow> 's \<Rightarrow> error + 's" where
  "sink_events f [] s = Inr s"
| "sink_events f (e # es) s = bind_result (f e s) (sink_events f es)"

lemma bind_assoc: "bind_result (bind_result r f) g = bind_result r (\<lambda>x. bind_result (f x) g)"
  by (cases r) auto

lemma sink_events_append:
  "sink_events f (xs @ ys) s = bind_result (sink_events f xs s) (sink_events f ys)"
proof (induction xs arbitrary: s)
  case (Cons x xs)
  then show ?case by (cases "f x s") auto
qed simp

definition restream :: "'a stream \<Rightarrow> 's \<Rightarrow> 's stream" where
  "restream s x = \<lparr>sr_header = sr_header s, sr_summary = sr_summary s, sr_events = sr_events s, sr_sink = x\<rparr>"

lemma restream_simps [simp]:
  "sr_header (restream s x) = sr_header s" "sr_summary (restream s x) = sr_summary s"
  "sr_events (restream s x) = sr_events s" "sr_sink (restream s x) = x"
  by (simp_all add: restream_def)

lemma restream_update:
  "(restream s x)\<lparr>sr_header := h\<rparr> = restream (s\<lparr>sr_header := h\<rparr>) x"
  "(restream s x)\<lparr>sr_summary := u\<rparr> = restream (s\<lparr>sr_summary := u\<rparr>) x"
  "(restream s x)\<lparr>sr_events := n, sr_sink := y\<rparr> = restream (s\<lparr>sr_events := n, sr_sink := z\<rparr>) y"
  by (simp_all add: restream_def)

lemma collect_apply: "collect e es = Inr (es @ [e])"
  by (simp add: collect_def)

lemma stream_lines_events:
  assumes "stream_lines de collect i ls s = Inr s'"
  shows "\<exists>new. sr_sink s' = sr_sink s @ new \<and>
    (\<forall>(f :: event \<Rightarrow> 's \<Rightarrow> error + 's) x. stream_lines de f i ls (restream s x) =
      bind_result (sink_events f new x) (\<lambda>y. Inr (restream s' y)))"
  using assms
proof (induction ls arbitrary: i s)
  case (Cons l ls)
  obtain line where l: "l = Some line" using Cons.prems by (cases l) auto
  show ?case
  proof (cases "trim line = []")
    case True
    then show ?thesis using Cons l by simp
  next
    case False
    then obtain r where r: "de line = Some r" using Cons.prems l by (cases "de line") auto
    show ?thesis
    proof (cases r)
      case (Header_Rec h)
      then have v: "hd_version h = FORMAT_VERSION" using Cons.prems l False r
        by (auto simp: stream_record_def split: if_splits)
      then have "stream_lines de collect (i + 1) ls (s\<lparr>sr_header := Some h\<rparr>) = Inr s'"
        using Cons.prems l False r Header_Rec by (simp add: stream_record_def)
      from Cons.IH [OF this] show ?thesis using l False r Header_Rec v
        by (simp add: stream_record_def restream_update)
    next
      case (Event_Rec e)
      let ?s = "s\<lparr>sr_events := sr_events s + 1, sr_sink := sr_sink s @ [e]\<rparr>"
      have "stream_record collect r s = Inr ?s"
        using Event_Rec by (simp add: stream_record_def collect_apply)
      then have "stream_lines de collect (i + 1) ls ?s = Inr s'"
        using Cons.prems l False r by simp
      from Cons.IH [OF this] obtain new where n: "sr_sink s' = sr_sink s @ e # new"
        "\<And>(f :: event \<Rightarrow> 's \<Rightarrow> error + 's) x. stream_lines de f (i + 1) ls (restream ?s x) =
          bind_result (sink_events f new x) (\<lambda>y. Inr (restream s' y))"
        by auto
      have "stream_lines de f i (l # ls) (restream s x) =
          bind_result (sink_events f (e # new) x) (\<lambda>y. Inr (restream s' y))" for f :: "event \<Rightarrow> 's \<Rightarrow> error + 's" and x
        using l False r Event_Rec n(2) [of f]
        by (cases "f e x") (simp_all add: stream_record_def restream_update(3) [where z = "sr_sink s @ [e]"])
      then show ?thesis using n(1) by (intro exI [of _ "e # new"]) simp
    next
      case (Summary_Rec su)
      then have "stream_lines de collect (i + 1) ls (s\<lparr>sr_summary := Some su\<rparr>) = Inr s'"
        using Cons.prems l False r by (simp add: stream_record_def)
      from Cons.IH [OF this] show ?thesis using l False r Summary_Rec
        by (simp add: stream_record_def restream_update)
    qed
  qed
qed simp

lemma stream_capture_events:
  assumes "read_capture de file = Inr (h, su, es)"
  shows "stream_capture de f x file = bind_result (sink_events f es x) (\<lambda>y. Inr (h, su, y))"
proof -
  let ?s = "\<lparr>sr_header = None, sr_summary = None, sr_events = 0, sr_sink = []\<rparr> :: event list stream"
  obtain ls where ls: "file = Some ls"
    using assms by (cases "file") (auto simp: read_capture_def stream_capture_def)
  obtain s' where s': "stream_lines de collect 1 ls ?s = Inr s'"
    using assms ls by (cases "stream_lines de collect 1 ls ?s") (auto simp: read_capture_def stream_capture_def)
  then have c: "sr_header s' = Some h" "sr_summary s' = Some su" "su_event_count su = sr_events s'"
      "sr_sink s' = es"
    using assms ls by (auto simp: read_capture_def stream_capture_def split: option.splits if_splits)
  from stream_lines_events [OF s'] c(4)
  have "stream_lines de f 1 ls (restream ?s x) = bind_result (sink_events f es x) (\<lambda>y. Inr (restream s' y))"
    by auto
  then show ?thesis using ls c(1-3)
    by (cases "sink_events f es x") (simp_all add: stream_capture_def restream_def)
qed

section \<open>What a region holds\<close>

definition rec_bytes :: "(event \<Rightarrow> bytes option) \<Rightarrow> event \<Rightarrow> bytes" where
  "rec_bytes ser e = (case ser e of None \<Rightarrow> [] | Some b \<Rightarrow> le_bytes 4 (length b) @ b)"

definition session_events :: "event list \<Rightarrow> nat \<Rightarrow> event list" where
  "session_events es sid = filter (\<lambda>e. ev_session_id e = sid) es"

definition region :: "(event \<Rightarrow> bytes option) \<Rightarrow> event list \<Rightarrow> nat \<Rightarrow> bytes" where
  "region ser es sid = concat (map (rec_bytes ser) (session_events es sid))"

text \<open>Sessions in the order of their first event.\<close>

definition first_seen :: "event list \<Rightarrow> nat list" where
  "first_seen es = rev (remdups (rev (map ev_session_id es)))"

lemma first_seen_snoc:
  "first_seen (es @ [e]) =
    (if ev_session_id e \<in> ev_session_id ` set es then first_seen es
     else first_seen es @ [ev_session_id e])"
  by (simp add: first_seen_def)

lemma first_seen_set [simp]: "set (first_seen es) = ev_session_id ` set es"
  by (simp add: first_seen_def)

lemma first_seen_distinct [simp]: "distinct (first_seen es)"
  by (simp add: first_seen_def)

lemma session_events_simps [simp]:
  "session_events [] sid = []"
  "session_events (xs @ ys) sid = session_events xs sid @ session_events ys sid"
  "session_events [e] sid = (if ev_session_id e = sid then [e] else [])"
  by (simp_all add: session_events_def)

lemma region_append [simp]: "region ser (xs @ ys) sid = region ser xs sid @ region ser ys sid"
  by (simp add: region_def)

lemma region_single [simp]:
  "region ser [e] sid = (if ev_session_id e = sid then rec_bytes ser e else [])"
  by (simp add: region_def)

lemma session_events_none: "sid \<notin> ev_session_id ` set es \<Longrightarrow> session_events es sid = []"
  by (auto simp: session_events_def filter_empty_conv)

section \<open>Pass A\<close>

definition build_of :: "(event \<Rightarrow> bytes option) \<Rightarrow> bool \<Rightarrow> event list \<Rightarrow> nat \<Rightarrow> session_build" where
  "build_of ser aw es sid =
    \<lparr>sb_session_id = sid, sb_bytes = length (region ser es sid),
     sb_event_count = length (session_events es sid),
     sb_has_executable = list_ex (\<lambda>e. should_execute (ev_query e) aw) (session_events es sid),
     sb_write_pos = 0\<rparr>"

definition pass_a_of :: "(event \<Rightarrow> bytes option) \<Rightarrow> filters \<Rightarrow> bool \<Rightarrow> event list \<Rightarrow> pass_a" where
  "pass_a_of ser f aw es =
    (let ms = filter (filters_match f) es in
     \<lparr>ga_order = first_seen ms,
      ga_sessions = (\<lambda>sid. if sid \<in> ev_session_id ` set ms then Some (build_of ser aw ms sid) else None),
      ga_base_ts = fold min (map ev_ts_micros ms) (2 ^ 63 - 1),
      ga_included = length ms, ga_filtered = length es - length ms\<rparr>)"

lemma build_of_snoc:
  "ser e \<noteq> None \<Longrightarrow> build_of ser aw (es @ [e]) (ev_session_id e) =
    (build_of ser aw es (ev_session_id e))
      \<lparr>sb_bytes := length (region ser es (ev_session_id e)) + length (rec_bytes ser e),
       sb_event_count := length (session_events es (ev_session_id e)) + 1,
       sb_has_executable := list_ex (\<lambda>e. should_execute (ev_query e) aw) (session_events es (ev_session_id e))
         \<or> should_execute (ev_query e) aw\<rparr>"
  by (simp add: build_of_def)

lemma build_of_new: "sid \<notin> ev_session_id ` set es \<Longrightarrow> build_of ser aw es sid = new_session_build sid"
  by (simp add: build_of_def new_session_build_def region_def session_events_none)

lemma build_of_other: "ev_session_id e \<noteq> sid \<Longrightarrow> build_of ser aw (es @ [e]) sid = build_of ser aw es sid"
  by (simp add: build_of_def)

lemma record_size_rec: "ser e \<noteq> None \<Longrightarrow> record_size ser e = Inr (length (rec_bytes ser e))"
  by (auto simp: record_size_def rec_bytes_def)

lemma pass_a_step:
  assumes "filters_match f e \<longrightarrow> ser e \<noteq> None"
  shows "pass_a_event ser f aw e (pass_a_of ser f aw es) = Inr (pass_a_of ser f aw (es @ [e]))"
proof (cases "filters_match f e")
  case False
  then show ?thesis
    by (simp add: pass_a_event_def pass_a_of_def Let_def Suc_diff_le)
next
  case True
  let ?ms = "filter (filters_match f) es" and ?sid = "ev_session_id e"
  have n: "record_size ser e = Inr (length (rec_bytes ser e))" using True assms record_size_rec by blast
  have b: "sb_bytes (build_of ser aw ms s) = length (region ser ms s)"
      "sb_event_count (build_of ser aw ms s) = length (session_events ms s)"
      "sb_has_executable (build_of ser aw ms s) =
        list_ex (\<lambda>e. should_execute (ev_query e) aw) (session_events ms s)" for ms s
    by (simp_all add: build_of_def)
  have len: "length ?ms \<le> length es" by simp
  show ?thesis
  proof (cases "?sid \<in> ev_session_id ` set ?ms")
    case mem: True
    then show ?thesis using True n assms len build_of_snoc [of ser e aw ?ms] b
      by (auto simp: pass_a_event_def pass_a_of_def session_entry_def first_seen_snoc Let_def
          build_of_other fun_eq_iff Suc_diff_le)
  next
    case new: False
    then have z: "region ser ?ms ?sid = []" "session_events ?ms ?sid = []"
      by (simp_all add: region_def session_events_none)
    have nb: "new_session_build ?sid = build_of ser aw ?ms ?sid" using build_of_new [OF new] by simp
    show ?thesis using True n assms len build_of_snoc [of ser e aw ?ms] b new
      by (auto simp: pass_a_event_def pass_a_of_def session_entry_def first_seen_snoc Let_def
          build_of_other fun_eq_iff Suc_diff_le nb)
  qed
qed

lemma pass_a_events:
  assumes "\<forall>e \<in> set es. filters_match f e \<longrightarrow> ser e \<noteq> None"
  shows "sink_events (pass_a_event ser f aw) es new_pass_a = Inr (pass_a_of ser f aw es)"
  using assms
proof (induction es rule: rev_induct)
  case Nil
  then show ?case by (simp add: pass_a_of_def new_pass_a_def first_seen_def fun_eq_iff)
next
  case (snoc e es)
  then show ?case using pass_a_step [of f e ser aw es] by (simp add: sink_events_append)
qed

section \<open>The layout\<close>

text \<open>Where the region of a session starts, for regions of the given sizes in the given order.\<close>

fun start_of :: "(nat \<Rightarrow> nat) \<Rightarrow> nat list \<Rightarrow> nat \<Rightarrow> nat" where
  "start_of sz [] sid = 0"
| "start_of sz (s # ss) sid = (if s = sid then 0 else sz s + start_of sz ss sid)"

lemma start_of_end: "sid \<in> set ss \<Longrightarrow> start_of sz ss sid + sz sid \<le> sum_list (map sz ss)"
  by (induction ss) auto

lemma start_of_disjoint:
  "a \<in> set ss \<Longrightarrow> b \<in> set ss \<Longrightarrow> a \<noteq> b \<Longrightarrow>
    start_of sz ss a + sz a \<le> start_of sz ss b \<or> start_of sz ss b + sz b \<le> start_of sz ss a"
  by (induction ss) (simp split: if_split; force)+

lemma layout_spec:
  assumes "distinct sids" and "\<forall>sid \<in> set sids. \<exists>s. m sid = Some s \<and> sb_bytes s = sz sid"
  shows "layout sids off m =
    (\<lambda>sid. if sid \<in> set sids
       then Some ((the (m sid))\<lparr>sb_write_pos := off + start_of sz sids sid\<rparr>) else m sid,
     map (\<lambda>sid. planned (off + start_of sz sids sid) (the (m sid))) sids,
     off + sum_list (map sz sids))"
  using assms
proof (induction sids arbitrary: off m)
  case (Cons sid sids)
  obtain s where s: "m sid = Some s" "sb_bytes s = sz sid" using Cons.prems by auto
  let ?m = "m(sid \<mapsto> s\<lparr>sb_write_pos := off\<rparr>)"
  have "layout sids (off + sz sid) ?m =
    (\<lambda>x. if x \<in> set sids
       then Some ((the (?m x))\<lparr>sb_write_pos := off + sz sid + start_of sz sids x\<rparr>) else ?m x,
     map (\<lambda>x. planned (off + sz sid + start_of sz sids x) (the (?m x))) sids,
     off + sz sid + sum_list (map sz sids))"
    using Cons.prems by (intro Cons.IH) auto
  then show ?case using s Cons.prems(1)
    by (auto simp: fun_eq_iff add.assoc intro!: map_cong)
qed simp

section \<open>Pass B\<close>

lemma write_all_at_inside:
  assumes "disk (pos + length data)" and "pos + length data \<le> length fl"
  obtains fl' where "write_all_at disk data pos fl = Inr fl'" and "length fl' = length fl"
    and "\<And>st n. st + n \<le> pos \<Longrightarrow> take n (drop st fl') = take n (drop st fl)"
    and "\<And>st n. pos + length data \<le> st \<Longrightarrow> take n (drop st fl') = take n (drop st fl)"
    and "\<And>st n. st + n = pos \<Longrightarrow> take (n + length data) (drop st fl') = take n (drop st fl) @ data"
proof -
  let ?f = "take pos fl @ data @ drop (pos + length data) fl"
  have "write_all_at disk data pos fl = Inr ?f" using assms by (simp add: write_all_at_def)
  moreover have "length ?f = length fl" using assms by simp
  moreover have "take n (drop st ?f) = take n (drop st fl)" if "st + n \<le> pos" for st n
    using that assms(2) by (auto simp: drop_take min_def)
  moreover have "take n (drop st ?f) = take n (drop st fl)" if "pos + length data \<le> st" for st n
    using that assms(2) by simp
  moreover have "take (n + length data) (drop st ?f) = take n (drop st fl) @ data" if "st + n = pos" for st n
    using that assms(2) by (auto simp: drop_take min_def)
  ultimately show ?thesis using that by blast
qed

definition pass_b_inv ::
    "(event \<Rightarrow> bytes option) \<Rightarrow> bool \<Rightarrow> event list \<Rightarrow> event list \<Rightarrow> pass_b \<Rightarrow> bool" where
  "pass_b_inv ser aw ms ps b \<longleftrightarrow>
    (let sz = (\<lambda>sid. length (region ser ms sid)); st = start_of sz (first_seen ms) in
     pb_sessions b = (\<lambda>sid. if sid \<in> ev_session_id ` set ms
       then Some ((build_of ser aw ms sid)\<lparr>sb_write_pos := st sid + length (region ser ps sid)\<rparr>) else None) \<and>
     length (pb_file b) = sum_list (map sz (first_seen ms)) \<and>
     (\<forall>sid \<in> ev_session_id ` set ms.
       take (length (region ser ps sid)) (drop (st sid) (pb_file b)) = region ser ps sid))"

lemma pass_b_step:
  assumes "pass_b_inv ser aw ms ps b" and "ms = ps @ e # rest" and "filters_match f e"
    and "ser e \<noteq> None" and "\<forall>n. disk n"
  shows "\<exists>b'. pass_b_event ser disk f e b = Inr b' \<and> pass_b_inv ser aw ms (ps @ [e]) b'"
proof -
  let ?sid = "ev_session_id e"
  let ?sz = "\<lambda>sid. length (region ser ms sid)" and ?r = "rec_bytes ser e"
  let ?st = "start_of ?sz (first_seen ms)"
  let ?s = "(build_of ser aw ms ?sid)\<lparr>sb_write_pos := ?st ?sid + length (region ser ps ?sid)\<rparr>"
  have mem: "?sid \<in> ev_session_id ` set ms" using assms(2) by simp
  have I: "pb_sessions b = (\<lambda>sid. if sid \<in> ev_session_id ` set ms
       then Some ((build_of ser aw ms sid)\<lparr>sb_write_pos := ?st sid + length (region ser ps sid)\<rparr>) else None)"
      "length (pb_file b) = sum_list (map ?sz (first_seen ms))"
      "\<And>sid. sid \<in> ev_session_id ` set ms \<Longrightarrow>
        take (length (region ser ps sid)) (drop (?st sid) (pb_file b)) = region ser ps sid"
    using assms(1) unfolding pass_b_inv_def Let_def by blast+
  have rms: "region ser ms sid = region ser ps sid @ region ser [e] sid @ region ser rest sid" for sid
    using region_append [of ser ps "[e] @ rest"] region_append [of ser "[e]" rest] assms(2) by simp
  have le: "?st ?sid + length (region ser ps ?sid) + length ?r \<le> ?st ?sid + ?sz ?sid"
    using rms [of ?sid] by simp
  have "?st ?sid + ?sz ?sid \<le> length (pb_file b)"
    using start_of_end [of ?sid "first_seen ms" ?sz] mem I(2) by simp
  then have l2: "?st ?sid + length (region ser ps ?sid) + length ?r \<le> length (pb_file b)"
    using le by linarith
  have d: "disk (?st ?sid + length (region ser ps ?sid) + length ?r)" using assms(5) by blast
  obtain fl' where fl':
    "write_all_at disk ?r (?st ?sid + length (region ser ps ?sid)) (pb_file b) = Inr fl'"
    "length fl' = length (pb_file b)"
    "\<And>st n. st + n \<le> ?st ?sid + length (region ser ps ?sid) \<Longrightarrow>
       take n (drop st fl') = take n (drop st (pb_file b))"
    "\<And>st n. ?st ?sid + length (region ser ps ?sid) + length ?r \<le> st \<Longrightarrow>
       take n (drop st fl') = take n (drop st (pb_file b))"
    "\<And>st n. st + n = ?st ?sid + length (region ser ps ?sid) \<Longrightarrow>
       take (n + length ?r) (drop st fl') = take n (drop st (pb_file b)) @ ?r"
    by (rule write_all_at_inside [of disk, OF d l2]) (rule that; assumption)
  have enc: "encode_record ser e = Inr ?r" using assms(4) by (auto simp: encode_record_def rec_bytes_def)
  let ?b = "\<lparr>pb_sessions = (pb_sessions b)(?sid \<mapsto> ?s\<lparr>sb_write_pos := sb_write_pos ?s + length ?r\<rparr>),
    pb_file = fl'\<rparr>"
  have "pass_b_event ser disk f e b = Inr ?b"
    using assms(3) mem enc fl'(1) I(1) by (simp add: pass_b_event_def)
  moreover have "take (length (region ser (ps @ [e]) sid)) (drop (?st sid) fl') = region ser (ps @ [e]) sid"
    if m: "sid \<in> ev_session_id ` set ms" for sid
  proof (cases "sid = ?sid")
    case True
    then show ?thesis using fl'(5) [of "?st ?sid" "length (region ser ps ?sid)"] I(3) [OF mem] by simp
  next
    case False
    have "length (region ser ps sid) \<le> ?sz sid" using rms [of sid] by simp
    moreover have "?st sid + ?sz sid \<le> ?st ?sid \<or> ?st ?sid + ?sz ?sid \<le> ?st sid"
      using start_of_disjoint [of sid "first_seen ms" ?sid ?sz] m mem False by auto
    ultimately have "take (length (region ser ps sid)) (drop (?st sid) fl') =
        take (length (region ser ps sid)) (drop (?st sid) (pb_file b))"
      using fl'(3) [of "?st sid" "length (region ser ps sid)"]
        fl'(4) [of "?st sid" "length (region ser ps sid)"] le by linarith
    then show ?thesis using I(3) [OF m] False by simp
  qed
  then have "pass_b_inv ser aw ms (ps @ [e]) ?b"
    using I(1,2) fl'(2) mem by (simp add: pass_b_inv_def Let_def fun_eq_iff add.assoc)
  ultimately show ?thesis by blast
qed

lemma pass_b_skip: "\<not> filters_match f e \<Longrightarrow> pass_b_event ser disk f e b = Inr b"
  by (simp add: pass_b_event_def)

lemma pass_b_events:
  assumes "ms = ps @ filter (filters_match f) es" and "pass_b_inv ser aw ms ps b"
    and "\<forall>e \<in> set es. filters_match f e \<longrightarrow> ser e \<noteq> None" and "\<forall>n. disk n"
  shows "\<exists>b'. sink_events (pass_b_event ser disk f) es b = Inr b' \<and> pass_b_inv ser aw ms ms b'"
  using assms
proof (induction es arbitrary: ps b)
  case (Cons e es)
  show ?case
  proof (cases "filters_match f e")
    case True
    then obtain b1 where b1: "pass_b_event ser disk f e b = Inr b1" "pass_b_inv ser aw ms (ps @ [e]) b1"
      using pass_b_step [OF Cons.prems(2), of e "filter (filters_match f) es" f disk] Cons.prems by auto
    have "\<exists>b'. sink_events (pass_b_event ser disk f) es b1 = Inr b' \<and> pass_b_inv ser aw ms ms b'"
      using Cons.prems True by (intro Cons.IH [OF _ b1(2)]) simp_all
    then show ?thesis using b1(1) by simp
  next
    case False
    then show ?thesis using Cons by (simp add: pass_b_skip)
  qed
qed simp

section \<open>Reading a region\<close>

lemma next_event_rec:
  assumes "de b = Some e" and "ser e = Some b" and "length b < 2 ^ 32"
    and "take (k - p) (drop p fl) = rec_bytes ser e @ rest" and "p \<le> k" and "k \<le> length fl"
  shows "next_event de fl \<lparr>cu_pos = p, cu_end = k\<rparr> =
    Inr (Some e, \<lparr>cu_pos = p + length (rec_bytes ser e), cu_end = k\<rparr>)"
proof -
  let ?d = "drop p fl"
  have r: "rec_bytes ser e = le_bytes 4 (length b) @ b" using assms(2) by (simp add: rec_bytes_def)
  have n: "k - p = length (rec_bytes ser e) + length rest"
    using arg_cong [OF assms(4), of length] assms(6) by simp
  then have c: "p + 4 + length b \<le> k" using r assms(5) by simp
  have "take 4 ?d = take 4 (take (k - p) ?d)" using c by (simp add: min_def)
  then have h: "take 4 ?d = le_bytes 4 (length b)" unfolding assms(4) r by simp
  have "take (length b) (drop 4 ?d) = take (length b) (drop 4 (take (k - p) ?d))"
    using c by (simp add: drop_take min_def)
  then have t: "take (length b) (drop (p + 4) fl) = b" unfolding assms(4) r by (simp add: add.commute)
  have "le_val (le_bytes 4 (length b)) = length b" using assms(3) by (intro le_val_le_bytes_id) simp
  then show ?thesis using c h t assms(1,6) r
    by (simp add: next_event_def read_exact_at_def Let_def)
qed

lemma read_events_region:
  assumes "\<forall>e \<in> set es. \<exists>b. ser e = Some b \<and> de b = Some e \<and> length b < 2 ^ 32"
    and "take (k - p) (drop p fl) = concat (map (rec_bytes ser) es)" and "p \<le> k" and "k \<le> length fl"
  shows "read_events de fl (Suc (length es)) \<lparr>cu_pos = p, cu_end = k\<rparr> =
    Inr (es, \<lparr>cu_pos = k, cu_end = k\<rparr>, True)"
  using assms
proof (induction es arbitrary: p)
  case Nil
  then have "k = p" by auto
  then show ?case by (simp add: next_event_def)
next
  case (Cons e es)
  obtain b where b: "ser e = Some b" "de b = Some e" "length b < 2 ^ 32" using Cons.prems(1) by auto
  let ?n = "length (rec_bytes ser e)"
  have t: "take (k - p) (drop p fl) = rec_bytes ser e @ concat (map (rec_bytes ser) es)"
    using Cons.prems(2) by simp
  note ne = next_event_rec [of de b e ser k p fl, OF b(2,1,3) t Cons.prems(3,4)]
  have l: "?n \<le> k - p" using arg_cong [OF t, of length] by simp
  have "drop ?n (take (k - p) (drop p fl)) = concat (map (rec_bytes ser) es)" unfolding t by simp
  then have "take (k - (p + ?n)) (drop (p + ?n) fl) = concat (map (rec_bytes ser) es)"
    by (simp add: drop_take add.commute)
  then have "read_events de fl (Suc (length es)) \<lparr>cu_pos = p + ?n, cu_end = k\<rparr> =
      Inr (es, \<lparr>cu_pos = k, cu_end = k\<rparr>, True)"
    using Cons.prems l by (intro Cons.IH) auto
  then show ?case using ne by simp
qed

section \<open>Building and reading\<close>

lemma planned_simps [simp]:
  "ss_session_id (planned off s) = sb_session_id s" "ss_region_start (planned off s) = off"
  "ss_region_end (planned off s) = off + sb_bytes s" "ss_event_count (planned off s) = sb_event_count s"
  "ss_has_executable (planned off s) = sb_has_executable s"
  by (simp_all add: planned_def)

lemma build_of_simps [simp]:
  "sb_session_id (build_of ser aw ms sid) = sid"
  "sb_bytes (build_of ser aw ms sid) = length (region ser ms sid)"
  "sb_event_count (build_of ser aw ms sid) = length (session_events ms sid)"
  "sb_has_executable (build_of ser aw ms sid) =
    list_ex (\<lambda>e. should_execute (ev_query e) aw) (session_events ms sid)"
  by (simp_all add: build_of_def)

lemma region_Nil [simp]: "region ser [] sid = []"
  by (simp add: region_def)

lemma pass_b_inv_start:
  assumes "layout (first_seen ms) 0
      (\<lambda>sid. if sid \<in> ev_session_id ` set ms then Some (build_of ser aw ms sid) else None) = (m, ix, n)"
  shows "pass_b_inv ser aw ms [] \<lparr>pb_sessions = m, pb_file = replicate n 0\<rparr> \<and>
    n = sum_list (map (\<lambda>sid. length (region ser ms sid)) (first_seen ms)) \<and>
    ix = map (\<lambda>sid. planned (start_of (\<lambda>sid. length (region ser ms sid)) (first_seen ms) sid)
      (build_of ser aw ms sid)) (first_seen ms)"
proof -
  let ?m = "\<lambda>sid. if sid \<in> ev_session_id ` set ms then Some (build_of ser aw ms sid) else None"
  have "layout (first_seen ms) 0 ?m =
    (\<lambda>sid. if sid \<in> set (first_seen ms) then Some ((the (?m sid))\<lparr>sb_write_pos :=
         0 + start_of (\<lambda>sid. length (region ser ms sid)) (first_seen ms) sid\<rparr>) else ?m sid,
     map (\<lambda>sid. planned (0 + start_of (\<lambda>sid. length (region ser ms sid)) (first_seen ms) sid)
       (the (?m sid))) (first_seen ms),
     0 + sum_list (map (\<lambda>sid. length (region ser ms sid)) (first_seen ms)))"
    by (rule layout_spec) simp_all
  then have "m = (\<lambda>sid. if sid \<in> ev_session_id ` set ms then Some ((build_of ser aw ms sid)\<lparr>sb_write_pos :=
         start_of (\<lambda>sid. length (region ser ms sid)) (first_seen ms) sid\<rparr>) else None)"
      "ix = map (\<lambda>sid. planned (start_of (\<lambda>sid. length (region ser ms sid)) (first_seen ms) sid)
        (the (?m sid))) (first_seen ms)"
      "n = sum_list (map (\<lambda>sid. length (region ser ms sid)) (first_seen ms))"
    using assms by (auto simp: fun_eq_iff)
  then show ?thesis by (auto simp: pass_b_inv_def Let_def intro!: map_cong)
qed

lemma check_regions_ok:
  "\<forall>p \<in> set ix. \<exists>s. m (ss_session_id p) = Some s \<and> sb_write_pos s = ss_region_end p \<Longrightarrow>
    check_regions ix m = Inr ()"
  by (induction ix) auto

text \<open>Reading the region of a session through its cursor.\<close>

lemma session_region:
  assumes "\<forall>e \<in> set ms. \<exists>b. ser e = Some b \<and> de b = Some e \<and> length b < 2 ^ 32" and "length raw = n"
    and "off + length (region ser ms sid) \<le> n \<and>
      take (length (region ser ms sid)) (drop off raw) = region ser ms sid"
  shows "read_events de raw (Suc (length (session_events ms sid)))
      (spool_cursor (planned off (build_of ser aw ms sid))) =
    Inr (session_events ms sid, \<lparr>cu_pos = off + length (region ser ms sid), cu_end = off + length (region ser ms sid)\<rparr>, True)"
proof -
  have "\<forall>e \<in> set (session_events ms sid). \<exists>b. ser e = Some b \<and> de b = Some e \<and> length b < 2 ^ 32"
    using assms(1) by (simp add: session_events_def)
  then show ?thesis
    using read_events_region [of "session_events ms sid" ser de "off + length (region ser ms sid)" off raw]
      assms(2,3)
    by (simp add: spool_cursor_def region_def [symmetric] del: read_events.simps)
qed

text \<open>What building a spool from a readable capture yields.\<close>

lemma build_spool_spec:
  assumes "read_capture dc fl = Inr (h, su, es)"
    and "ms = filter (filters_match f) es" and "ms \<noteq> [] \<or> es = []"
    and ser: "\<forall>e \<in> set es. filters_match f e \<longrightarrow> ser e \<noteq> None"
    and "\<forall>n. disk n"
  obtains raw n where "build_spool dc ser disk fl fl f aw = Inr
      \<lparr>sp_file = raw,
       sp_sessions = map (\<lambda>sid. planned (start_of (\<lambda>sid. length (region ser ms sid)) (first_seen ms) sid)
         (build_of ser aw ms sid)) (first_seen ms),
       sp_header = h, sp_summary = su,
       sp_base_ts_micros = (if 0 < length ms then fold min (map ev_ts_micros ms) (2 ^ 63 - 1) else 0),
       sp_event_count = length ms, sp_filtered = length es - length ms, sp_bytes = n\<rparr>"
    and "length raw = n"
    and "\<And>sid. sid \<in> set (first_seen ms) \<Longrightarrow>
      start_of (\<lambda>sid. length (region ser ms sid)) (first_seen ms) sid + length (region ser ms sid) \<le> n \<and>
      take (length (region ser ms sid)) (drop (start_of (\<lambda>sid. length (region ser ms sid)) (first_seen ms) sid) raw) =
        region ser ms sid"
proof -
  let ?sz = "\<lambda>sid. length (region ser ms sid)"
  let ?st = "start_of ?sz (first_seen ms)"
  have a: "stream_capture dc (pass_a_event ser f aw) new_pass_a fl = Inr (h, su, pass_a_of ser f aw es)"
    using stream_capture_events [OF assms(1), of "pass_a_event ser f aw" new_pass_a]
      pass_a_events [OF ser, of aw] by simp
  obtain m ix n where l: "layout (first_seen ms) 0
      (\<lambda>sid. if sid \<in> ev_session_id ` set ms then Some (build_of ser aw ms sid) else None) = (m, ix, n)"
    by (metis prod_cases3)
  note B = pass_b_inv_start [OF l]
  obtain b where b: "sink_events (pass_b_event ser disk f) es \<lparr>pb_sessions = m, pb_file = replicate n 0\<rparr> = Inr b"
      "pass_b_inv ser aw ms ms b"
    using pass_b_events [OF _ conjunct1 [OF B] ser assms(5)] assms(2) by auto
  have I: "pb_sessions b = (\<lambda>sid. if sid \<in> ev_session_id ` set ms
       then Some ((build_of ser aw ms sid)\<lparr>sb_write_pos := ?st sid + ?sz sid\<rparr>) else None)"
      "length (pb_file b) = n"
      "\<And>sid. sid \<in> ev_session_id ` set ms \<Longrightarrow>
        take (?sz sid) (drop (?st sid) (pb_file b)) = region ser ms sid"
    using b(2) B unfolding pass_b_inv_def Let_def by blast+
  have "check_regions ix (pb_sessions b) = Inr ()"
    using B I(1) by (intro check_regions_ok) auto
  then have build: "build_spool dc ser disk fl fl f aw = Inr
      \<lparr>sp_file = pb_file b, sp_sessions = ix, sp_header = h, sp_summary = su,
       sp_base_ts_micros = (if 0 < length ms then fold min (map ev_ts_micros ms) (2 ^ 63 - 1) else 0),
       sp_event_count = length ms, sp_filtered = length es - length ms, sp_bytes = n\<rparr>"
    using a l stream_capture_events [OF assms(1), of "pass_b_event ser disk f"] b(1) assms(2,3,5)
    by (auto simp: build_spool_def pass_a_of_def Let_def)
  have ix: "ix = map (\<lambda>sid. planned (?st sid) (build_of ser aw ms sid)) (first_seen ms)"
    using B by simp
  have ends: "?st sid + ?sz sid \<le> n" if "sid \<in> set (first_seen ms)" for sid
    using start_of_end [OF that, of ?sz] B by simp
  show thesis
    by (rule that [OF build [unfolded ix] I(2)]) (simp add: ends I(3))
qed

text \<open>C11: Spooling a readable capture whose events serialise succeeds unless the filters exclude every
  event. The sessions come in the order of their first event that passes the filters; each one's
  cursor reads exactly its events, in capture order, and then ends; a session is marked executable
  exactly when one of its events passes the write gate.\<close>
theorem spool_roundtrip:
  assumes "read_capture dc fl = Inr (h, su, es)"
    and "ms = filter (filters_match f) es" and "ms \<noteq> [] \<or> es = []"
    and "\<forall>e \<in> set ms. \<exists>b. ser e = Some b \<and> de b = Some e \<and> length b < 2 ^ 32"
    and "\<forall>n. disk n"
  shows "\<exists>sp. build_spool dc ser disk fl fl f aw = Inr sp \<and>
    map ss_session_id (sp_sessions sp) = first_seen ms \<and>
    sp_event_count sp = length ms \<and> sp_event_count sp + sp_filtered sp = length es \<and>
    (\<forall>s \<in> set (sp_sessions sp).
      read_events de (sp_file sp) (Suc (ss_event_count s)) (spool_cursor s) =
        Inr (session_events ms (ss_session_id s), \<lparr>cu_pos = ss_region_end s, cu_end = ss_region_end s\<rparr>, True) \<and>
      ss_has_executable s =
        list_ex (\<lambda>e. should_execute (ev_query e) aw) (session_events ms (ss_session_id s)))"
proof -
  let ?sz = "\<lambda>sid. length (region ser ms sid)"
  let ?st = "start_of ?sz (first_seen ms)"
  have ser: "\<forall>e \<in> set es. filters_match f e \<longrightarrow> ser e \<noteq> None" using assms(2,4) by auto
  obtain raw n where build: "build_spool dc ser disk fl fl f aw = Inr
      \<lparr>sp_file = raw, sp_sessions = map (\<lambda>sid. planned (?st sid) (build_of ser aw ms sid)) (first_seen ms),
       sp_header = h, sp_summary = su,
       sp_base_ts_micros = (if 0 < length ms then fold min (map ev_ts_micros ms) (2 ^ 63 - 1) else 0),
       sp_event_count = length ms, sp_filtered = length es - length ms, sp_bytes = n\<rparr>"
    and raw: "length raw = n" "\<And>sid. sid \<in> set (first_seen ms) \<Longrightarrow> ?st sid + ?sz sid \<le> n \<and>
        take (?sz sid) (drop (?st sid) raw) = region ser ms sid"
    using build_spool_spec [OF assms(1-3) ser assms(5)] by blast
  have "read_events de raw (Suc (length (session_events ms sid))) (spool_cursor (planned (?st sid) (build_of ser aw ms sid))) =
      Inr (session_events ms sid, \<lparr>cu_pos = ?st sid + ?sz sid, cu_end = ?st sid + ?sz sid\<rparr>, True)"
    if "sid \<in> set (first_seen ms)" for sid
    by (rule session_region [OF _ raw(1)]) (use assms(4) raw(2) [OF that] in auto)
  moreover have "length ms \<le> length es" using assms(2) by simp
  ultimately show ?thesis using build by (auto simp: comp_def simp del: read_events.simps)
qed

definition spool_event :: "int \<Rightarrow> nat \<Rightarrow> event" where
  "spool_event ts sid = \<lparr>ev_ts_micros = ts, ev_session_id = sid, ev_user = None, ev_db = None,
     ev_query = ''DO 1'', ev_orig_query_time_s = Fin 0, ev_fingerprint_id = 0\<rparr>"

definition sample_line :: "string \<Rightarrow> capture_record option" where
  "sample_line l =
    (if l = ''h'' then Some (Header_Rec \<lparr>hd_version = 1, hd_tool_version = [], hd_created_at = []\<rparr>)
     else if l = ''a'' then Some (Event_Rec (spool_event 5 1))
     else if l = ''b'' then Some (Event_Rec (spool_event 6 2))
     else Some (Summary_Rec \<lparr>su_source_dialect = [], su_event_count = 3, su_session_count = 2,
       su_admin_commands_ignored = 0, su_server_restarts_seen = 0, su_pcap = None, su_fingerprints = []\<rparr>))"

definition sample_ser :: "event \<Rightarrow> bytes option" where
  "sample_ser e = Some (if ev_session_id e = 1 then [7] else [8, 9])"

definition sample_deser :: "bytes \<Rightarrow> event option" where
  "sample_deser b = Some (if b = [7] then spool_event 5 1 else spool_event 6 2)"

theorem spool_roundtrip_witness:
  "\<exists>sp. build_spool sample_line sample_ser (\<lambda>_. True)
      (Some (map Some [''h'', ''b'', ''a'', ''b'', ''s''])) (Some (map Some [''h'', ''b'', ''a'', ''b'', ''s'']))
      \<lparr>fi_db = None, fi_user = None, fi_window = None\<rparr> False = Inr sp \<and>
    map ss_session_id (sp_sessions sp) = [2, 1]"
proof -
  let ?fl = "Some (map Some [''h'', ''b'', ''a'', ''b'', ''s''])"
  let ?es = "[spool_event 6 2, spool_event 5 1, spool_event 6 2]"
  let ?f = "\<lparr>fi_db = None, fi_user = None, fi_window = None\<rparr>"
  have t: "trim [c] = [c]" if "solid c" for c using that by (simp add: trim_def)
  obtain h su where r: "read_capture sample_line ?fl = Inr (h, su, ?es)"
    by (simp add: read_capture_def stream_capture_def stream_record_def sample_line_def t solid_def
        is_ascii_def byte_def FORMAT_VERSION_def collect_def)
  have m: "?es = filter (filters_match ?f) ?es" by (simp add: filters_match_def)
  have s: "\<forall>e \<in> set ?es. \<exists>b. sample_ser e = Some b \<and> sample_deser b = Some e \<and> length b < 2 ^ 32"
    by (simp add: sample_ser_def sample_deser_def spool_event_def)
  have "first_seen ?es = [2, 1]" by (simp add: first_seen_def spool_event_def)
  then show ?thesis using spool_roundtrip [OF r m _ s, of "\<lambda>_. True" False] by auto
qed

end
