(* ===== verification/Rust_Format.thy ===== *)
theory Rust_Format
  imports Rust_Text Float64 "HOL-Library.Product_Lexorder" "HOL-Library.Multiset"
begin

text \<open>
  What the report, aggregation and comparison components use of Rust's formatting and sorting:
  \<open>{:.k}\<close>, \<open>{:+}\<close> and \<open>{:>w}\<close>, characters of a UTF-8 string, the stable \<open>sort_by\<close> in descending
  order, and the order \<open>f64::total_cmp\<close> as an instance of \<open>linorder\<close>.
\<close>

section \<open>The total order of floats\<close>

lemma total_key_inject: "total_key x = total_key y \<Longrightarrow> x = y"
  by (cases x rule: total_key.cases; cases y rule: total_key.cases) (auto split: if_splits)

text \<open>The instance is \<open>total_cmp\<close>; the IEEE comparisons of the code are \<open>f64_lt\<close> and \<open>f64_le\<close>.\<close>

instantiation f64 :: linorder
begin

definition less_eq_f64 :: "f64 \<Rightarrow> f64 \<Rightarrow> bool" where
  "less_eq_f64 x y \<longleftrightarrow> total_key x \<le> total_key y"

definition less_f64 :: "f64 \<Rightarrow> f64 \<Rightarrow> bool" where
  "less_f64 x y \<longleftrightarrow> total_key x < total_key y"

instance
proof
  fix x y z :: f64
  show "x < y \<longleftrightarrow> x \<le> y \<and> \<not> y \<le> x"
    unfolding less_eq_f64_def less_f64_def by (rule less_le_not_le)
  show "x \<le> x" by (simp add: less_eq_f64_def)
  show "x \<le> y \<Longrightarrow> y \<le> z \<Longrightarrow> x \<le> z" unfolding less_eq_f64_def by (rule order_trans)
  show "x \<le> y \<Longrightarrow> y \<le> x \<Longrightarrow> x = y"
    unfolding less_eq_f64_def by (rule total_key_inject) (rule antisym)
  show "x \<le> y \<or> y \<le> x" unfolding less_eq_f64_def by (rule linear)
qed

end

lemma less_f64_total_less: "x < y \<longleftrightarrow> total_less x y"
  by (simp add: less_f64_def total_less_def less_prod_def split: prod.splits) auto

text \<open>On finite values the two orders agree, but for the zeros.\<close>

lemma less_f64_fin [simp]: "Fin p < Fin q \<longleftrightarrow> p < q"
  by (auto simp: less_f64_def)

lemma less_eq_f64_fin [simp]: "Fin p \<le> Fin q \<longleftrightarrow> p \<le> q"
  by (auto simp: less_eq_f64_def)

section \<open>Stable sorting, greatest first\<close>

definition sort_desc :: "('a \<Rightarrow> 'k::linorder) \<Rightarrow> 'a list \<Rightarrow> 'a list" where
  "sort_desc k xs = rev (sort_key k (rev xs))"

lemma sort_desc_set [simp]: "set (sort_desc k xs) = set xs"
  by (simp add: sort_desc_def)

lemma sort_desc_mset [simp]: "mset (sort_desc k xs) = mset xs"
  by (simp add: sort_desc_def)

lemma sort_desc_length [simp]: "length (sort_desc k xs) = length xs"
  by (simp add: sort_desc_def)

lemma sort_desc_Nil_iff [simp]: "sort_desc k xs = [] \<longleftrightarrow> xs = []"
  by (simp add: sort_desc_def) (metis length_0_conv length_rev length_sort)

lemma sort_desc_sorted: "sorted_wrt (\<lambda>x y. k y \<le> k x) (sort_desc k xs)"
proof -
  have "sorted (map k (sort_key k (rev xs)))" by simp
  then show ?thesis by (simp add: sort_desc_def sorted_wrt_rev sorted_map)
qed

lemma sort_desc_sorted_id: "sorted_wrt (\<lambda>x y. k y \<le> k x) xs \<Longrightarrow> sort_desc k xs = xs"
  by (simp add: sort_desc_def sort_key_id_if_sorted sorted_map sorted_wrt_rev)

section \<open>Characters\<close>

text \<open>\<open>chars\<close>: a valid UTF-8 string has a character per byte that is no continuation byte.\<close>

definition char_count :: "string \<Rightarrow> nat" where
  "char_count s = length (filter (\<lambda>c. \<not> is_cont c) s)"

fun take_chars :: "nat \<Rightarrow> string \<Rightarrow> string" where
  "take_chars n [] = []"
| "take_chars n (c # cs) =
    (if is_cont c then c # take_chars n cs
     else case n of 0 \<Rightarrow> [] | Suc m \<Rightarrow> c # take_chars m cs)"

lemma char_count_simps [simp]:
  "char_count [] = 0"
  "char_count (c # cs) = (if is_cont c then char_count cs else Suc (char_count cs))"
  by (simp_all add: char_count_def)

lemma take_chars_count: "char_count (take_chars n s) = min n (char_count s)"
  by (induction n s rule: take_chars.induct) (auto split: nat.splits)

lemma take_chars_all: "char_count s \<le> n \<Longrightarrow> take_chars n s = s"
  by (induction n s rule: take_chars.induct) (auto split: nat.splits if_splits)

lemma take_chars_prefix: "prefix (take_chars n s) s"
  by (induction n s rule: take_chars.induct) (auto split: nat.splits)

section \<open>Numbers\<close>

text \<open>\<open>{:.k}\<close> prints the exact value rounded half to even to \<open>k\<close> decimals.\<close>

definition fixed_digits :: "nat \<Rightarrow> rat \<Rightarrow> string" where
  "fixed_digits k q =
    (let n = nat (round_half_even (q * 10 ^ k)) in
     if k = 0 then dec n else dec (n div 10 ^ k) @ ''.'' @ dec_pad k (n mod 10 ^ k))"

definition fmt_fixed :: "nat \<Rightarrow> f64 \<Rightarrow> string" where
  "fmt_fixed k x =
    (case x of
       Fin q \<Rightarrow> (if q < 0 then ''-'' else []) @ fixed_digits k \<bar>q\<bar>
     | Minus_Zero \<Rightarrow> ''-'' @ fixed_digits k 0
     | Infinity s \<Rightarrow> (if s then ''-inf'' else ''inf'')
     | NaN \<Rightarrow> ''NaN'')"

definition fmt_fixed_signed :: "nat \<Rightarrow> f64 \<Rightarrow> string" where
  "fmt_fixed_signed k x = (if f64_neg x \<or> x = NaN then fmt_fixed k x else ''+'' @ fmt_fixed k x)"

definition dec_signed :: "int \<Rightarrow> string" where
  "dec_signed i = (if i < 0 then dec_int i else ''+'' @ dec_int i)"

definition pad_left :: "nat \<Rightarrow> string \<Rightarrow> string" where
  "pad_left w s = replicate (w - char_count s) (CHR '' '') @ s"

definition show_bool :: "bool \<Rightarrow> string" where
  "show_bool b = (if b then ''true'' else ''false'')"

section \<open>Punctuation outside ASCII\<close>

definition EM_DASH :: string where "EM_DASH = [CHR 0xE2, CHR 0x80, CHR 0x94]"
definition ELLIPSIS :: string where "ELLIPSIS = [CHR 0xE2, CHR 0x80, CHR 0xA6]"
definition ARROW :: string where "ARROW = [CHR 0xE2, CHR 0x86, CHR 0x92]"
definition DELTA :: string where "DELTA = [CHR 0xCE, CHR 0x94]"

definition truncate_chars :: "string \<Rightarrow> nat \<Rightarrow> string" where
  "truncate_chars s n = (if char_count s \<le> n then s else take_chars n s @ ELLIPSIS)"

definition f64_lit :: "int \<Rightarrow> nat \<Rightarrow> f64" where
  "f64_lit m k = f64_round False (of_int m / 10 ^ k)"

definition f64_of_nat :: "nat \<Rightarrow> f64" where
  "f64_of_nat n = f64_of_int (int n)"

end
