(* ===== verification/Report.thy ===== *)
theory Report
  imports Rust_Format Rust_Parse
begin

text \<open>
  \<open>report.rs\<close>: the run report with its parts, the result-size decades, the saturation warning, the
  table printed to stdout and the redaction of the target's URL. A \<open>u64\<close> is a \<open>nat\<close>; a
  \<open>BTreeMap\<close> is the list of its entries in key order.
\<close>

section \<open>The report\<close>

definition LATENCY_SOURCE_REPLAYED :: string where
  "LATENCY_SOURCE_REPLAYED = ''replayed''"

definition LATENCY_SOURCE_RECORDED :: string where
  "LATENCY_SOURCE_RECORDED = ''recorded-slow-log''"

record pacing_report =
  pr_speed :: f64
  pr_paced_events :: nat
  pr_max_lag_us :: nat
  pr_mean_lag_us :: f64

record aggregation_info =
  ai_passes :: nat
  ai_method :: string

record report_flags =
  rf_max_connections :: nat
  rf_allow_writes :: bool
  rf_read_only :: bool
  rf_db_override :: "string option"
  rf_speed :: string
  rf_checksum :: bool
  rf_pool :: "nat option"
  rf_warmup :: bool
  rf_filter_db :: "string option"
  rf_filter_user :: "string option"
  rf_time_window :: "string option"

record totals =
  to_events :: nat
  to_sessions :: nat
  to_executed :: nat
  to_skipped :: nat
  to_errors :: nat
  to_not_run :: nat
  to_connect_failures :: nat
  to_qps :: f64
  to_filtered :: nat

record saturation_report =
  sa_samples :: nat
  sa_saturated_samples :: nat
  sa_saturated_pct :: f64

record result_bytes_report =
  rb_total :: nat
  rb_min :: nat
  rb_max :: nat
  rb_mean :: f64
  rb_p50 :: nat
  rb_p95 :: nat

record size_bucket_report =
  sz_bucket :: string
  sz_count :: nat
  sz_p50_us :: nat
  sz_p95_us :: nat
  sz_mean_us :: f64
  sz_max_us :: nat
  sz_bytes_total :: nat

record checksum_report =
  ck_events :: nat
  ck_no_result :: nat
  ck_rows_total :: nat
  ck_digest :: string
  ck_columns :: "string list"
  ck_shape_varied :: bool
  ck_nondeterministic :: bool

record fingerprint_report =
  fr_id :: u32
  fr_fingerprint :: string
  fr_count :: nat
  fr_errors :: nat
  fr_first_error :: "string option"
  fr_skipped :: nat
  fr_not_run :: nat
  fr_p50_us :: nat
  fr_p95_us :: nat
  fr_p99_us :: nat
  fr_max_us :: nat
  fr_mean_us :: f64
  fr_checksum :: "checksum_report option"
  fr_result_bytes :: "result_bytes_report option"
  fr_size_buckets :: "size_bucket_report list"

record run_report =
  rr_tool :: string
  rr_tool_version :: string
  rr_capture_file :: string
  rr_capture_dialect :: string
  rr_latency_source :: string
  rr_target_url :: string
  rr_target_server_version :: string
  rr_started_at :: string
  rr_ended_at :: string
  rr_wall_secs :: f64
  rr_aborted :: bool
  rr_aggregation :: "aggregation_info option"
  rr_flags :: report_flags
  rr_totals :: totals
  rr_saturation :: saturation_report
  rr_pacing :: "pacing_report option"
  rr_target_settings :: "(string \<times> string) list"
  rr_fingerprints :: "fingerprint_report list"

text \<open>\<open>sort_by(|a, b| b.p95_us.cmp(&a.p95_us).then(b.count.cmp(&a.count)))\<close>.\<close>

definition rank_rows :: "fingerprint_report list \<Rightarrow> fingerprint_report list" where
  "rank_rows rows = sort_desc (\<lambda>r. (fr_p95_us r, fr_count r)) rows"

section \<open>Result-size decades\<close>

definition SIZE_BUCKET_BOUNDS :: "nat list" where
  "SIZE_BUCKET_BOUNDS = [2 ^ 10, 10 * 2 ^ 10, 100 * 2 ^ 10, 2 ^ 20, 10 * 2 ^ 20, 100 * 2 ^ 20]"

definition SIZE_BUCKET_LABELS :: "string list" where
  "SIZE_BUCKET_LABELS = [''<1KB'', ''1KB-10KB'', ''10KB-100KB'', ''100KB-1MB'', ''1MB-10MB'',
    ''10MB-100MB'', ''>=100MB'']"

text \<open>\<open>position\<close> of an iterator.\<close>

fun position :: "('a \<Rightarrow> bool) \<Rightarrow> 'a list \<Rightarrow> nat option" where
  "position P [] = None"
| "position P (x # xs) = (if P x then Some 0 else map_option Suc (position P xs))"

definition size_bucket_index :: "nat \<Rightarrow> nat" where
  "size_bucket_index b =
    (case position (\<lambda>bound. b < bound) SIZE_BUCKET_BOUNDS of
       Some i \<Rightarrow> i
     | None \<Rightarrow> length SIZE_BUCKET_LABELS - 1)"

definition fmt_bytes :: "f64 \<Rightarrow> string" where
  "fmt_bytes b =
    (let kb = f64_of_nat 1024;
         mb = f64_mul kb kb;
         gb = f64_mul (f64_mul kb kb) kb in
     if f64_lt b kb then fmt_fixed 0 b @ ''B''
     else if f64_lt b mb then fmt_fixed 1 (f64_div b kb) @ ''KB''
     else if f64_lt b gb then fmt_fixed 1 (f64_div b mb) @ ''MB''
     else fmt_fixed 1 (f64_div b gb) @ ''GB'')"

section \<open>The printed summary\<close>

definition is_recorded :: "run_report \<Rightarrow> bool" where
  "is_recorded r \<longleftrightarrow> rr_latency_source r = LATENCY_SOURCE_RECORDED"

definition SATURATION_WARN_PCT :: f64 where
  "SATURATION_WARN_PCT = f64_of_nat 20"

definition saturation_warning :: "run_report \<Rightarrow> string option" where
  "saturation_warning r =
    (let s = rr_saturation r in
     if f64_le SATURATION_WARN_PCT (sa_saturated_pct s) then
       (case (case rf_pool (rr_flags r) of
                Some n \<Rightarrow> (''--pool'', n)
              | None \<Rightarrow> (''--max-connections'', rf_max_connections (rr_flags r))) of
          (flag, cap) \<Rightarrow>
            Some (''WARNING: the connection cap was saturated for '' @ fmt_fixed 0 (sa_saturated_pct s) @
              ''% of the run ('' @ dec (sa_saturated_samples s) @ '' of '' @ dec (sa_samples s) @
              '' samples had all '' @ dec cap @ '' permits taken with sessions waiting). '' @
              ''Latency and QPS results may be limited by '' @ flag @
              '' rather than by the target server.''))
     else None)"

definition us_as_ms :: "nat \<Rightarrow> f64" where
  "us_as_ms us = f64_div (f64_of_nat us) (f64_of_nat 1000)"

definition table_row :: "fingerprint_report \<Rightarrow> string" where
  "table_row fp =
    pad_left 8 (dec (fr_count fp)) @ '' '' @ pad_left 6 (dec (fr_errors fp)) @ '' '' @
    pad_left 10 (fmt_fixed 3 (us_as_ms (fr_p50_us fp))) @ '' '' @
    pad_left 10 (fmt_fixed 3 (us_as_ms (fr_p95_us fp))) @ '' '' @
    pad_left 10 (fmt_fixed 3 (us_as_ms (fr_p99_us fp))) @ '' '' @
    pad_left 10 (fmt_fixed 3 (us_as_ms (fr_max_us fp))) @ '' '' @
    pad_left 9 (case fr_result_bytes fp of Some b \<Rightarrow> fmt_bytes (rb_mean b) | None \<Rightarrow> ''-'') @ ''  '' @
    truncate_chars (fr_fingerprint fp) 80 @ [NEWLINE]"

definition error_row :: "fingerprint_report \<Rightarrow> string" where
  "error_row fp =
    ''  '' @ pad_left 6 (dec (fr_errors fp)) @ ''x  '' @ truncate_chars (fr_fingerprint fp) 80 @
    [NEWLINE] @ ''          first error: '' @
    (case fr_first_error fp of Some m \<Rightarrow> m | None \<Rightarrow> ''<none>'') @ [NEWLINE]"

definition report_head :: "run_report \<Rightarrow> string" where
  "report_head r =
    (let t = rr_totals r in
     (if rr_aborted r
      then ''*** ABORTED: partial results '' @ EM_DASH @ '' the run was interrupted ***'' @ [NEWLINE]
      else []) @
     (case rr_aggregation r of
        Some a \<Rightarrow> ''Aggregated ('' @ ai_method a @ '') over '' @ dec (ai_passes a) @
          '' measured passes'' @ [NEWLINE]
      | None \<Rightarrow> []) @
     (if is_recorded r then ''Recorded'' else ''Replayed'') @ '' '' @ dec (to_events t) @
     '' events across '' @ dec (to_sessions t) @ '' sessions in '' @ fmt_fixed 2 (rr_wall_secs r) @
     ''s '' @ EM_DASH @ '' '' @ fmt_fixed 1 (to_qps t) @ '' QPS'' @ [NEWLINE] @
     ''  executed: '' @ dec (to_executed t) @ ''  skipped: '' @ dec (to_skipped t) @
     ''  errors: '' @ dec (to_errors t) @ ''  not run: '' @ dec (to_not_run t) @
     ''  connect failures: '' @ dec (to_connect_failures t) @ [NEWLINE] @
     (if 0 < to_filtered t
      then ''  filtered out before replay: '' @ dec (to_filtered t) @ '' events'' @ [NEWLINE]
      else []) @
     (if is_recorded r
      then ''Latencies: recorded in the source capture (slow-log Query_time, or request'' @ ARROW @
        ''response wire time for pcap captures; no replay target '' @ EM_DASH @
        '' the capture carries no error information, so errors are 0 by definition)'' @ [NEWLINE]
      else ''Target: '' @ rr_target_server_version r @ '' ('' @ rr_target_url r @ '')'' @ [NEWLINE]) @
     (case rr_pacing r of
        Some p \<Rightarrow> ''Pacing: speed '' @ show_f64 (pr_speed p) @ ''x over '' @ dec (pr_paced_events p) @
          '' events '' @ EM_DASH @ '' max lag '' @ fmt_fixed 1 (us_as_ms (pr_max_lag_us p)) @
          '' ms, mean lag '' @ fmt_fixed 1 (f64_div (pr_mean_lag_us p) (f64_of_nat 1000)) @ '' ms'' @
          [NEWLINE]
      | None \<Rightarrow> []) @ [NEWLINE])"

definition report_columns :: string where
  "report_columns =
    pad_left 8 ''count'' @ '' '' @ pad_left 6 ''errs'' @ '' '' @ pad_left 10 ''p50(ms)'' @ '' '' @
    pad_left 10 ''p95(ms)'' @ '' '' @ pad_left 10 ''p99(ms)'' @ '' '' @ pad_left 10 ''max(ms)'' @ '' '' @
    pad_left 9 ''res/query'' @ ''  '' @ ''fingerprint'' @ [NEWLINE]"

definition render_table :: "run_report \<Rightarrow> nat \<Rightarrow> string" where
  "render_table r n =
    (let error_fps = filter (\<lambda>f. 0 < fr_errors f) (rr_fingerprints r) in
     report_head r @
     ''Top '' @ dec n @ '' fingerprints by p95 latency:'' @ [NEWLINE] @ report_columns @
     concat (map table_row (take n (filter (\<lambda>f. 0 < fr_count f) (rr_fingerprints r)))) @
     (if error_fps \<noteq> []
      then [NEWLINE] @ ''Fingerprints with errors:'' @ [NEWLINE] @
        concat (map error_row (take n error_fps))
      else []))"

section \<open>Redaction\<close>

definition redact_url :: "string \<Rightarrow> string" where
  "redact_url url =
    (case find_str ''://'' url of
       None \<Rightarrow> url
     | Some scheme_end \<Rightarrow>
        let rest = drop (scheme_end + 3) url;
            authority = takeWhile (\<lambda>c. c \<notin> {CHR ''/'', CHR ''?'', CHR ''#''}) rest in
        case rfind_str ''@'' authority of
          None \<Rightarrow> url
        | Some amp \<Rightarrow>
            let userinfo = take amp authority in
            case find_str '':'' userinfo of
              Some colon \<Rightarrow>
                take scheme_end url @ ''://'' @ take colon userinfo @ '':***@'' @ drop (amp + 1) rest
            | None \<Rightarrow> url)"

end
