(* ===== verification/Target.thy ===== *)
theory Target
  imports Rust_Format
begin

text \<open>
  \<open>target.rs\<close>: result-set checksums and sizes, and the two query paths over what the driver
  yields. The hash of a byte string (\<open>xxh3\<close>, fed piecewise by the code) is a parameter. A value,
  an error and the sequence of the driver's answers are the data the code reads from the
  \<open>mysql_async\<close> crate.
\<close>

section \<open>Data\<close>

record target_error =
  te_message :: string
  te_fatal :: bool

record result_checksum =
  rc_digest :: u64
  rc_row_count :: nat
  rc_bytes_total :: nat
  rc_columns :: "string list"

record checksum_builder =
  cb_columns :: "string list"
  cb_sum :: u64
  cb_xor :: u64
  cb_rows :: nat
  cb_bytes :: nat

datatype mysql_value =
    V_Null
  | V_Bytes bytes
  | V_Int int
  | V_UInt nat
  | V_Float f64
  | V_Double f64
  | V_Date nat nat nat nat nat nat nat
  | V_Time bool u32 nat nat nat nat

datatype mysql_error =
  E_Io string | E_Driver string | E_Server string | E_Url string | E_Other string

section \<open>Checksum of a result set\<close>

definition new_checksum :: checksum_builder where
  "new_checksum = \<lparr>cb_columns = [], cb_sum = 0, cb_xor = 0, cb_rows = 0, cb_bytes = 0\<rparr>"

definition set_columns :: "string list \<Rightarrow> checksum_builder \<Rightarrow> checksum_builder" where
  "set_columns names b = (if cb_columns b = [] then b\<lparr>cb_columns := names\<rparr> else b)"

definition add_row :: "u64 \<times> nat \<Rightarrow> checksum_builder \<Rightarrow> checksum_builder" where
  "add_row r b =
    (case r of (h, n) \<Rightarrow>
      b\<lparr>cb_sum := cb_sum b + h, cb_xor := xor (cb_xor b) h, cb_rows := cb_rows b + 1,
        cb_bytes := cb_bytes b + n\<rparr>)"

definition finish_checksum :: "(bytes \<Rightarrow> u64) \<Rightarrow> checksum_builder \<Rightarrow> result_checksum" where
  "finish_checksum xxh3 b =
    \<lparr>rc_digest = xxh3 (concat (map (\<lambda>name. bytes_of name @ [0]) (cb_columns b)) @
       le_bytes 8 (unat (cb_sum b)) @ le_bytes 8 (unat (cb_xor b)) @ le_bytes 8 (cb_rows b)),
     rc_row_count = cb_rows b, rc_bytes_total = cb_bytes b, rc_columns = cb_columns b\<rparr>"

section \<open>Cells and rows\<close>

text \<open>\<open>to_bits\<close>; the NaN is the canonical quiet one.\<close>

definition f64_to_bits :: "f64 \<Rightarrow> nat" where
  "f64_to_bits x =
    (case x of
       Fin q \<Rightarrow>
         if q = 0 then 0
         else
           let e = max (ilog2 \<bar>q\<bar> - 52) (- 1074);
               m = nat \<lfloor>\<bar>q\<bar> / pow2 e\<rfloor>;
               sgn = (if q < 0 then 2 ^ 63 else 0)
           in if m < 2 ^ 52 then sgn + m else sgn + nat (e + 1075) * 2 ^ 52 + (m - 2 ^ 52)
     | Minus_Zero \<Rightarrow> 2 ^ 63
     | Infinity s \<Rightarrow> (if s then 2 ^ 63 else 0) + 2047 * 2 ^ 52
     | NaN \<Rightarrow> 2047 * 2 ^ 52 + 2 ^ 51)"

definition cell_null :: bytes where
  "cell_null = [0]"

definition cell_bytes :: "bytes \<Rightarrow> bytes" where
  "cell_bytes b = [1] @ le_bytes 8 (length b) @ b"

definition cell_int :: "int \<Rightarrow> bytes" where
  "cell_int v = [2] @ le_bytes 8 (nat (v mod 2 ^ 64))"

definition cell_uint :: "nat \<Rightarrow> bytes" where
  "cell_uint v = [3] @ le_bytes 8 v"

definition cell_float :: "f64 \<Rightarrow> bytes" where
  "cell_float v = [4] @ le_bytes 8 (f64_to_bits v)"

text \<open>The hours of a time value, a wrapping \<open>u32\<close>.\<close>

definition total_hours :: "u32 \<Rightarrow> nat \<Rightarrow> nat" where
  "total_hours days hh = unat (days * 24 + word_of_nat hh)"

fun value_bytes :: "mysql_value \<Rightarrow> nat" where
  "value_bytes V_Null = 0"
| "value_bytes (V_Bytes b) = length b"
| "value_bytes (V_Int i) = 8"
| "value_bytes (V_UInt u) = 8"
| "value_bytes (V_Float f) = 4"
| "value_bytes (V_Double d) = 8"
| "value_bytes (V_Date y mo d hh mm ss us) = 26"
| "value_bytes (V_Time neg days hh mm ss us) =
    (if neg then 1 else 0) + length (dec_pad 2 (total_hours days hh)) + 13"

definition clock_text :: "nat \<Rightarrow> nat \<Rightarrow> nat \<Rightarrow> string" where
  "clock_text mm ss us = '':'' @ dec_pad 2 mm @ '':'' @ dec_pad 2 ss @ ''.'' @ dec_pad 6 us"

fun hash_cell :: "mysql_value \<Rightarrow> bytes" where
  "hash_cell V_Null = cell_null"
| "hash_cell (V_Bytes b) = cell_bytes b"
| "hash_cell (V_Int i) = cell_int i"
| "hash_cell (V_UInt u) = cell_uint u"
| "hash_cell (V_Float f) = cell_float f"
| "hash_cell (V_Double d) = cell_float d"
| "hash_cell (V_Date y mo d hh mm ss us) =
    cell_bytes (bytes_of (dec_pad 4 y @ ''-'' @ dec_pad 2 mo @ ''-'' @ dec_pad 2 d @ '' '' @
      dec_pad 2 hh @ clock_text mm ss us))"
| "hash_cell (V_Time neg days hh mm ss us) =
    cell_bytes (bytes_of ((if neg then ''-'' else []) @ dec_pad 2 (total_hours days hh) @
      clock_text mm ss us))"

definition hash_and_size_row :: "(bytes \<Rightarrow> u64) \<Rightarrow> mysql_value list \<Rightarrow> u64 \<times> nat" where
  "hash_and_size_row xxh3 row =
    (xxh3 (concat (map hash_cell row)), sum_list (map value_bytes row))"

definition row_bytes :: "mysql_value list \<Rightarrow> nat" where
  "row_bytes row = sum_list (map value_bytes row)"

section \<open>Errors\<close>

definition is_fatal :: "mysql_error \<Rightarrow> bool" where
  "is_fatal e \<longleftrightarrow> (case e of E_Io m \<Rightarrow> True | E_Driver m \<Rightarrow> True | _ \<Rightarrow> False)"

fun error_text :: "mysql_error \<Rightarrow> string" where
  "error_text (E_Io m) = m"
| "error_text (E_Driver m) = m"
| "error_text (E_Server m) = m"
| "error_text (E_Url m) = m"
| "error_text (E_Other m) = m"

definition target_err :: "mysql_error \<Rightarrow> target_error" where
  "target_err e = \<lparr>te_message = error_text e, te_fatal = is_fatal e\<rparr>"

definition connect_err :: "mysql_error \<Rightarrow> target_error" where
  "connect_err e = \<lparr>te_message = error_text e, te_fatal = True\<rparr>"

section \<open>Queries\<close>

text \<open>What one call of \<open>next\<close> on the driver's result yields: a row, the end of a result set with
  whether it was the last (\<open>is_empty\<close>), or an error; before it, the column names of the current
  result set. A result is the sequence of the driver's answers, \<open>None\<close> a result that never
  ends.\<close>

datatype answer = Row "mysql_value list" | End_Of_Set bool | Failed mysql_error

fun drain_rows :: "nat \<Rightarrow> answer list \<Rightarrow> (target_error + nat) option" where
  "drain_rows n [] = None"
| "drain_rows n (Row r # as) = drain_rows (n + row_bytes r) as"
| "drain_rows n (End_Of_Set fin # as) = (if fin then Some (Inr n) else drain_rows n as)"
| "drain_rows n (Failed e # as) = Some (Inl (target_err e))"

definition query :: "mysql_error + answer list \<Rightarrow> (target_error + nat) option" where
  "query result =
    (case result of Inl e \<Rightarrow> Some (Inl (target_err e)) | Inr as \<Rightarrow> drain_rows 0 as)"

definition see_columns ::
    "string list option \<Rightarrow> bool \<times> checksum_builder \<Rightarrow> bool \<times> checksum_builder" where
  "see_columns cols st =
    (case cols of
       Some names \<Rightarrow>
         if names \<noteq> [] \<and> \<not> fst st then (True, set_columns names (snd st)) else st
     | None \<Rightarrow> st)"

fun checksum_rows ::
    "(bytes \<Rightarrow> u64) \<Rightarrow> bool \<times> checksum_builder \<Rightarrow> (string list option \<times> answer) list \<Rightarrow>
      (target_error + result_checksum option) option" where
  "checksum_rows xxh3 st [] = None"
| "checksum_rows xxh3 st ((cols, ans) # as) =
    (case see_columns cols st of
       (saw, b) \<Rightarrow>
         (case ans of
            Row r \<Rightarrow> checksum_rows xxh3 (saw, add_row (hash_and_size_row xxh3 r) b) as
          | End_Of_Set fin \<Rightarrow>
              if fin then Some (Inr (if saw then Some (finish_checksum xxh3 b) else None))
              else checksum_rows xxh3 (saw, b) as
          | Failed e \<Rightarrow> Some (Inl (target_err e))))"

definition query_checksum ::
    "(bytes \<Rightarrow> u64) \<Rightarrow> mysql_error + (string list option \<times> answer) list \<Rightarrow>
      (target_error + result_checksum option) option" where
  "query_checksum xxh3 result =
    (case result of
       Inl e \<Rightarrow> Some (Inl (target_err e))
     | Inr as \<Rightarrow> checksum_rows xxh3 (False, new_checksum) as)"

section \<open>A multiset of rows\<close>

text \<open>\<open>add_row\<close> commutes, so the order of rows is invisible.\<close>

lemma add_row_commute: "add_row r (add_row s b) = add_row s (add_row r b)"
  by (cases r; cases s) (simp add: add_row_def ac_simps)

lemma fold_add_row_mset:
  "mset rows = mset rows' \<Longrightarrow> fold add_row rows b = fold add_row rows' b"
  using fold_multiset_equiv [of rows add_row rows'] by (simp add: add_row_commute fun_eq_iff)

definition single_set ::
    "string list \<Rightarrow> mysql_value list list \<Rightarrow> (string list option \<times> answer) list" where
  "single_set names rows = map (\<lambda>r. (Some names, Row r)) rows @ [(Some names, End_Of_Set True)]"

lemma checksum_rows_seen:
  "checksum_rows xxh3 (True, b) (map (\<lambda>r. (Some names, Row r)) rows @ [(Some names, End_Of_Set True)]) =
    Some (Inr (Some (finish_checksum xxh3 (fold add_row (map (hash_and_size_row xxh3) rows) b))))"
  by (induction rows arbitrary: b) (simp_all add: see_columns_def)

lemma query_checksum_single_set:
  assumes "names \<noteq> []"
  shows "query_checksum xxh3 (Inr (single_set names rows)) =
    Some (Inr (Some (finish_checksum xxh3
      (fold add_row (map (hash_and_size_row xxh3) rows) (set_columns names new_checksum)))))"
proof (cases rows)
  case Nil
  with assms show ?thesis
    by (simp add: query_checksum_def single_set_def see_columns_def)
next
  case (Cons r rs)
  with assms show ?thesis
    using checksum_rows_seen [of xxh3 _ names rs]
    by (simp add: query_checksum_def single_set_def see_columns_def)
qed

end
