(* ===== verification/Metrics.thy ===== *)
theory Metrics
  imports Report Target Classify
begin

text \<open>
  The metrics of a replay pass (\<open>replay.rs\<close>: \<open>FpBytesAgg\<close>, \<open>BucketAgg\<close>, \<open>FpChecksumAgg\<close>, \<open>FpAgg\<close>,
  \<open>Metrics\<close>) and the \<open>FingerprintReport\<close> rows built from them. The histogram of the
  \<open>hdrhistogram\<close> crate is the parameter \<open>hist_lib\<close>. The table of fingerprints is a map; the order
  in which a hash map is iterated is an argument of the report.
\<close>

section \<open>Histograms\<close>

record 'h hist_lib =
  hl_new :: "nat \<Rightarrow> nat \<Rightarrow> nat \<Rightarrow> 'h"
  hl_record :: "nat \<Rightarrow> 'h \<Rightarrow> 'h"
  hl_quantile :: "f64 \<Rightarrow> 'h \<Rightarrow> nat"
  hl_max :: "'h \<Rightarrow> nat"
  hl_mean :: "'h \<Rightarrow> f64"
  hl_len :: "'h \<Rightarrow> nat"

section \<open>Aggregates of a fingerprint\<close>

record 'h fp_bytes_agg =
  by_hist :: 'h
  by_total :: nat
  by_min :: nat
  by_max :: nat

record 'h bucket_agg =
  ba_hist :: 'h
  ba_bytes_total :: nat

record fp_checksum_agg =
  ca_events :: nat
  ca_no_result :: nat
  ca_rows_total :: nat
  ca_sum :: u64
  ca_xor :: u64
  ca_columns :: "string list"
  ca_shape_varied :: bool

datatype checksum_outcome = Checksum_Off | No_Result | Checksum_Set result_checksum

record exec_outcome =
  eo_bytes :: nat
  eo_checksum :: checksum_outcome

record 'h fp_agg =
  fa_hist :: 'h
  fa_executed :: nat
  fa_errors :: nat
  fa_first_error :: "string option"
  fa_skipped :: nat
  fa_not_run :: nat
  fa_checksum :: "fp_checksum_agg option"
  fa_bytes :: "'h fp_bytes_agg"
  fa_buckets :: "'h bucket_agg option list"

record 'h metrics =
  me_per_fp :: "u32 \<rightharpoonup> 'h fp_agg"
  me_executed :: nat
  me_skipped :: nat
  me_errors :: nat
  me_not_run :: nat
  me_connect_failures :: nat

definition new_bytes_agg :: "'h hist_lib \<Rightarrow> 'h fp_bytes_agg" where
  "new_bytes_agg lib = \<lparr>by_hist = hl_new lib 1 (2 ^ 42) 2, by_total = 0, by_min = 2 ^ 64 - 1, by_max = 0\<rparr>"

definition bytes_record :: "'h hist_lib \<Rightarrow> nat \<Rightarrow> 'h fp_bytes_agg \<Rightarrow> 'h fp_bytes_agg" where
  "bytes_record lib n b =
    b\<lparr>by_hist := hl_record lib n (by_hist b), by_total := by_total b + n, by_min := min (by_min b) n,
      by_max := max (by_max b) n\<rparr>"

definition bytes_report :: "'h hist_lib \<Rightarrow> nat \<Rightarrow> 'h fp_bytes_agg \<Rightarrow> result_bytes_report option" where
  "bytes_report lib executed b =
    (if 0 < executed then
       Some \<lparr>rb_total = by_total b, rb_min = by_min b, rb_max = by_max b,
         rb_mean = f64_div (f64_of_nat (by_total b)) (f64_of_nat executed),
         rb_p50 = hl_quantile lib (f64_lit 50 2) (by_hist b),
         rb_p95 = hl_quantile lib (f64_lit 95 2) (by_hist b)\<rparr>
     else None)"

definition new_bucket_agg :: "'h hist_lib \<Rightarrow> 'h bucket_agg" where
  "new_bucket_agg lib = \<lparr>ba_hist = hl_new lib 1 3600000000 3, ba_bytes_total = 0\<rparr>"

definition new_checksum_agg :: fp_checksum_agg where
  "new_checksum_agg = \<lparr>ca_events = 0, ca_no_result = 0, ca_rows_total = 0, ca_sum = 0, ca_xor = 0,
     ca_columns = [], ca_shape_varied = False\<rparr>"

definition checksum_add :: "checksum_outcome \<Rightarrow> fp_checksum_agg \<Rightarrow> fp_checksum_agg" where
  "checksum_add out a =
    (case out of
       Checksum_Off \<Rightarrow> a
     | No_Result \<Rightarrow> a\<lparr>ca_no_result := ca_no_result a + 1\<rparr>
     | Checksum_Set cs \<Rightarrow>
         let a1 = a\<lparr>ca_events := ca_events a + 1, ca_rows_total := ca_rows_total a + rc_row_count cs,
                    ca_sum := ca_sum a + rc_digest cs, ca_xor := xor (ca_xor a) (rc_digest cs)\<rparr> in
         if ca_columns a1 = [] \<and> ca_events a1 = 1 then a1\<lparr>ca_columns := rc_columns cs\<rparr>
         else if ca_columns a1 \<noteq> rc_columns cs then a1\<lparr>ca_shape_varied := True\<rparr>
         else a1)"

text \<open>\<open>{:016x}\<close>.\<close>

definition hex_digit :: "nat \<Rightarrow> char" where
  "hex_digit d = ''0123456789abcdef'' ! d"

definition hex16 :: "u64 \<Rightarrow> string" where
  "hex16 w = map (\<lambda>i. hex_digit (unat w div 16 ^ (15 - i) mod 16)) [0..<16]"

definition checksum_agg_report :: "(bytes \<Rightarrow> u64) \<Rightarrow> bool \<Rightarrow> fp_checksum_agg \<Rightarrow> checksum_report" where
  "checksum_agg_report xxh3 nondet a =
    \<lparr>ck_events = ca_events a, ck_no_result = ca_no_result a, ck_rows_total = ca_rows_total a,
     ck_digest = hex16 (xxh3 (le_bytes 8 (unat (ca_sum a)) @ le_bytes 8 (unat (ca_xor a)) @
       le_bytes 8 (ca_events a))),
     ck_columns = ca_columns a, ck_shape_varied = ca_shape_varied a, ck_nondeterministic = nondet\<rparr>"

definition new_fp_agg :: "'h hist_lib \<Rightarrow> 'h fp_agg" where
  "new_fp_agg lib =
    \<lparr>fa_hist = hl_new lib 1 3600000000 3, fa_executed = 0, fa_errors = 0, fa_first_error = None,
     fa_skipped = 0, fa_not_run = 0, fa_checksum = None, fa_bytes = new_bytes_agg lib,
     fa_buckets = replicate (length SIZE_BUCKET_LABELS) None\<rparr>"

definition size_buckets :: "'h hist_lib \<Rightarrow> 'h fp_agg \<Rightarrow> size_bucket_report list" where
  "size_buckets lib a =
    concat (map (\<lambda>(label, slot).
      case slot of
        None \<Rightarrow> []
      | Some b \<Rightarrow>
          [\<lparr>sz_bucket = label, sz_count = hl_len lib (ba_hist b),
            sz_p50_us = hl_quantile lib (f64_lit 50 2) (ba_hist b),
            sz_p95_us = hl_quantile lib (f64_lit 95 2) (ba_hist b),
            sz_mean_us = hl_mean lib (ba_hist b), sz_max_us = hl_max lib (ba_hist b),
            sz_bytes_total = ba_bytes_total b\<rparr>])
      (zip SIZE_BUCKET_LABELS (fa_buckets a)))"

section \<open>Recording\<close>

definition new_metrics :: "'h metrics" where
  "new_metrics = \<lparr>me_per_fp = Map.empty, me_executed = 0, me_skipped = 0, me_errors = 0,
     me_not_run = 0, me_connect_failures = 0\<rparr>"

definition with_fp :: "'h hist_lib \<Rightarrow> u32 \<Rightarrow> ('h fp_agg \<Rightarrow> 'h fp_agg) \<Rightarrow> 'h metrics \<Rightarrow> 'h metrics" where
  "with_fp lib fp f m =
    m\<lparr>me_per_fp := (me_per_fp m)(fp \<mapsto>
      f (case me_per_fp m fp of Some a \<Rightarrow> a | None \<Rightarrow> new_fp_agg lib))\<rparr>"

definition agg_ok :: "'h hist_lib \<Rightarrow> nat \<Rightarrow> exec_outcome \<Rightarrow> 'h fp_agg \<Rightarrow> 'h fp_agg" where
  "agg_ok lib micros out a =
    (let us = max micros 1;
         i = size_bucket_index (eo_bytes out);
         slot = (case fa_buckets a ! i of Some b \<Rightarrow> b | None \<Rightarrow> new_bucket_agg lib);
         slot' = slot\<lparr>ba_hist := hl_record lib us (ba_hist slot),
                      ba_bytes_total := ba_bytes_total slot + eo_bytes out\<rparr>
     in a\<lparr>fa_executed := fa_executed a + 1, fa_hist := hl_record lib us (fa_hist a),
          fa_bytes := bytes_record lib (eo_bytes out) (fa_bytes a),
          fa_buckets := (fa_buckets a)[i := Some slot'],
          fa_checksum :=
            (if eo_checksum out = Checksum_Off then fa_checksum a
             else Some (checksum_add (eo_checksum out)
               (case fa_checksum a of Some c \<Rightarrow> c | None \<Rightarrow> new_checksum_agg)))\<rparr>)"

definition record_ok :: "'h hist_lib \<Rightarrow> nat \<Rightarrow> exec_outcome \<Rightarrow> u32 \<Rightarrow> 'h metrics \<Rightarrow> 'h metrics" where
  "record_ok lib micros out fp m =
    with_fp lib fp (agg_ok lib micros out) (m\<lparr>me_executed := me_executed m + 1\<rparr>)"

text \<open>At most \<open>n\<close> bytes, cut at a character boundary.\<close>

fun char_boundary :: "nat \<Rightarrow> string \<Rightarrow> nat" where
  "char_boundary 0 s = 0"
| "char_boundary (Suc n) s = (if is_cont (s ! Suc n) then char_boundary n s else Suc n)"

definition truncate :: "string \<Rightarrow> nat \<Rightarrow> string" where
  "truncate s n = (if length s \<le> n then s else take (char_boundary n s) s @ ELLIPSIS)"

definition agg_err :: "string \<Rightarrow> 'h fp_agg \<Rightarrow> 'h fp_agg" where
  "agg_err msg a =
    a\<lparr>fa_errors := fa_errors a + 1,
      fa_first_error := (case fa_first_error a of None \<Rightarrow> Some msg | Some e \<Rightarrow> Some e)\<rparr>"

definition record_err :: "'h hist_lib \<Rightarrow> string \<Rightarrow> u32 \<Rightarrow> 'h metrics \<Rightarrow> 'h metrics" where
  "record_err lib msg fp m =
    with_fp lib fp (agg_err (truncate msg 300)) (m\<lparr>me_errors := me_errors m + 1\<rparr>)"

definition record_skip :: "'h hist_lib \<Rightarrow> u32 \<Rightarrow> 'h metrics \<Rightarrow> 'h metrics" where
  "record_skip lib fp m =
    with_fp lib fp (\<lambda>a. a\<lparr>fa_skipped := fa_skipped a + 1\<rparr>) (m\<lparr>me_skipped := me_skipped m + 1\<rparr>)"

definition record_not_run :: "'h hist_lib \<Rightarrow> u32 \<Rightarrow> 'h metrics \<Rightarrow> 'h metrics" where
  "record_not_run lib fp m =
    with_fp lib fp (\<lambda>a. a\<lparr>fa_not_run := fa_not_run a + 1\<rparr>) (m\<lparr>me_not_run := me_not_run m + 1\<rparr>)"

section \<open>The rows of the report\<close>

definition fingerprint_row ::
    "'h hist_lib \<Rightarrow> (bytes \<Rightarrow> u64) \<Rightarrow> (u32 \<rightharpoonup> string) \<Rightarrow> u32 \<Rightarrow> 'h fp_agg \<Rightarrow> fingerprint_report" where
  "fingerprint_row lib xxh3 fp_texts i a =
    (let text = (case fp_texts i of
                   Some t \<Rightarrow> t
                 | None \<Rightarrow> ''<unknown fingerprint '' @ dec (unat i) @ ''>'') in
     \<lparr>fr_id = i, fr_fingerprint = text, fr_count = fa_executed a, fr_errors = fa_errors a,
      fr_first_error = fa_first_error a, fr_skipped = fa_skipped a, fr_not_run = fa_not_run a,
      fr_p50_us = hl_quantile lib (f64_lit 50 2) (fa_hist a),
      fr_p95_us = hl_quantile lib (f64_lit 95 2) (fa_hist a),
      fr_p99_us = hl_quantile lib (f64_lit 99 2) (fa_hist a), fr_max_us = hl_max lib (fa_hist a),
      fr_mean_us = hl_mean lib (fa_hist a),
      fr_checksum = map_option (checksum_agg_report xxh3 (is_nondeterministic text)) (fa_checksum a),
      fr_result_bytes = bytes_report lib (fa_executed a) (fa_bytes a),
      fr_size_buckets = size_buckets lib a\<rparr>)"

text \<open>\<open>order\<close> lists the ids of the table in the order the hash map is iterated.\<close>

definition fingerprint_rows ::
    "'h hist_lib \<Rightarrow> (bytes \<Rightarrow> u64) \<Rightarrow> (u32 \<rightharpoonup> string) \<Rightarrow> u32 list \<Rightarrow> 'h metrics \<Rightarrow> fingerprint_report list" where
  "fingerprint_rows lib xxh3 fp_texts order m =
    rank_rows (concat (map (\<lambda>i. case me_per_fp m i of
       Some a \<Rightarrow> [fingerprint_row lib xxh3 fp_texts i a] | None \<Rightarrow> []) order))"

end
