(* ===== verification/Metrics_Props.thy ===== *)
theory Metrics_Props
  imports Metrics
begin

text \<open>
  The metrics count every recorded event once, in the totals and in the row of its fingerprint; the
  checksum aggregate of a fingerprint does not depend on the order of its executions.
\<close>

section \<open>The contract of recording\<close>

text \<open>What a tally is of: all events, or those of a fingerprint.\<close>

definition tallied :: "u32 option \<Rightarrow> u32 \<Rightarrow> bool" where
  "tallied g fp \<longleftrightarrow> (case g of None \<Rightarrow> True | Some f \<Rightarrow> fp = f)"

locale recorder =
  fixes rec :: "u32 \<Rightarrow> 'm \<Rightarrow> 'm"
    and tally :: "u32 option \<Rightarrow> 'm \<Rightarrow> nat"
  assumes counts_once: "tally g (rec fp m) = tally g m + (if tallied g fp then 1 else 0)"
begin

lemma counts_each: "tally g (fold rec fps m) = tally g m + length (filter (tallied g) fps)"
  by (induction fps arbitrary: m) (simp_all add: counts_once)

lemma counts_monotone: "tally g m \<le> tally g (fold rec fps m)"
  by (simp add: counts_each)

end

section \<open>The metrics keep it\<close>

definition agg_total :: "'h fp_agg \<Rightarrow> nat" where
  "agg_total a = fa_executed a + fa_errors a + fa_skipped a + fa_not_run a"

definition tally :: "u32 option \<Rightarrow> 'h metrics \<Rightarrow> nat" where
  "tally g m =
    (case g of
       None \<Rightarrow> me_executed m + me_errors m + me_skipped m + me_not_run m
     | Some f \<Rightarrow> (case me_per_fp m f of None \<Rightarrow> 0 | Some a \<Rightarrow> agg_total a))"

lemma agg_total_new [simp]: "agg_total (new_fp_agg lib) = 0"
  by (simp add: agg_total_def new_fp_agg_def)

lemma agg_total_ok [simp]: "agg_total (agg_ok lib us out a) = agg_total a + 1"
  by (simp add: agg_total_def agg_ok_def Let_def)

lemma agg_total_err [simp]: "agg_total (agg_err msg a) = agg_total a + 1"
  by (simp add: agg_total_def agg_err_def)

lemma with_fp_tally:
  assumes "\<And>a. agg_total (f a) = agg_total a + 1"
    and "tally None m = tally None m0 + 1" and "me_per_fp m = me_per_fp m0"
  shows "tally g (with_fp lib fp f m) = tally g m0 + (if tallied g fp then 1 else 0)"
  using assms by (auto simp: tally_def with_fp_def tallied_def split: option.splits)

interpretation ok: recorder "record_ok lib us out" tally for lib us out
  by unfold_locales (unfold record_ok_def, rule with_fp_tally, simp_all add: tally_def)

interpretation err: recorder "record_err lib msg" tally for lib msg
  by unfold_locales (unfold record_err_def, rule with_fp_tally, simp_all add: tally_def)

interpretation skip: recorder "record_skip lib" tally for lib
  by unfold_locales (unfold record_skip_def, rule with_fp_tally, simp_all add: tally_def agg_total_def)

interpretation not_run: recorder "record_not_run lib" tally for lib
  by unfold_locales (unfold record_not_run_def, rule with_fp_tally, simp_all add: tally_def agg_total_def)

lemmas tally_steps = ok.counts_once err.counts_once skip.counts_once not_run.counts_once

lemma tally_connect_failure [simp]:
  "tally g (m\<lparr>me_connect_failures := n\<rparr>) = tally g m"
  by (simp add: tally_def split: option.splits)

lemma tally_new [simp]: "tally g new_metrics = 0"
  by (simp add: tally_def new_metrics_def split: option.splits)

end
