(* ===== verification/Target_Props.thy ===== *)
theory Target_Props
  imports Target Metrics_Props
begin

text \<open>
  Checksums: the digest of a result set does not depend on the order of its rows nor the digest of a
  fingerprint on the order of its executions, and the bytes hashed for a row determine the row.
\<close>

section \<open>Rows\<close>

text \<open>What the text protocol and the integer columns of the binary one deliver.\<close>

fun plain_cell :: "mysql_value \<Rightarrow> bool" where
  "plain_cell V_Null \<longleftrightarrow> True"
| "plain_cell (V_Bytes b) \<longleftrightarrow> length b < 2 ^ 64"
| "plain_cell (V_Int i) \<longleftrightarrow> - (2 ^ 63) \<le> i \<and> i < 2 ^ 63"
| "plain_cell (V_UInt u) \<longleftrightarrow> u < 2 ^ 64"
| "plain_cell _ \<longleftrightarrow> False"

lemma le_bytes_inj8:
  assumes "le_bytes 8 m = le_bytes 8 n" and "m < 2 ^ 64" and "n < 2 ^ 64"
  shows "m = n"
proof -
  have "le_val (le_bytes 8 m) = le_val (le_bytes 8 n)" using assms(1) by simp
  then show ?thesis using assms(2,3) by (simp add: le_val_le_bytes)
qed

lemma wrap_inj:
  fixes i j :: int
  assumes "nat (i mod 2 ^ 64) = nat (j mod 2 ^ 64)" and "- (2 ^ 63) \<le> i" "i < 2 ^ 63" "- (2 ^ 63) \<le> j" "j < 2 ^ 63"
  shows "i = j"
proof -
  have "i mod 2 ^ 64 = j mod 2 ^ 64" using assms(1) by (simp add: eq_nat_nat_iff)
  then have "2 ^ 64 dvd i - j" by (simp add: mod_eq_dvd_iff)
  moreover have "\<bar>i - j\<bar> < 2 ^ 64" using assms(2-5) by simp
  ultimately show ?thesis using zdvd_imp_le [of "2 ^ 64" "\<bar>i - j\<bar>"] by (cases "i = j") auto
qed

lemma hash_cell_prefix_free:
  assumes "hash_cell v @ xs = hash_cell w @ ys" and "plain_cell v" and "plain_cell w"
  shows "v = w \<and> xs = ys"
proof -
  have l: "length (le_bytes 8 n) = 8" for n by simp
  have len: "length b = length c \<and> b = c \<and> xs = ys"
    if "le_bytes 8 (length b) @ b @ xs = le_bytes 8 (length c) @ c @ ys" "length b < 2 ^ 64" "length c < 2 ^ 64"
    for b c
  proof -
    have "le_bytes 8 (length b) = le_bytes 8 (length c)" and rest: "b @ xs = c @ ys"
      using that(1) l by (metis append_eq_append_conv)+
    then have "length b = length c" using le_bytes_inj8 that(2,3) by blast
    with rest show ?thesis by simp
  qed
  have fixed: "m = n \<and> xs = ys" if "le_bytes 8 m @ xs = le_bytes 8 n @ ys" "m < 2 ^ 64" "n < 2 ^ 64" for m n
  proof -
    have "le_bytes 8 m = le_bytes 8 n" "xs = ys" using that(1) l by (metis append_eq_append_conv)+
    then show ?thesis using le_bytes_inj8 that(2,3) by blast
  qed
  have wrapped: "nat (i mod 2 ^ 64) < 2 ^ 64" for i :: int
    by (simp add: nat_less_iff)
  note cells = cell_null_def cell_bytes_def cell_int_def cell_uint_def
  show ?thesis
  proof (cases v)
    case (V_Bytes b)
    then obtain c where w: "w = V_Bytes c" using assms(1,3) by (cases w) (simp_all add: cells)
    have "length b = length c \<and> b = c \<and> xs = ys"
      by (rule len) (use assms V_Bytes w in \<open>simp_all add: cells\<close>)
    then show ?thesis using V_Bytes w by simp
  next
    case (V_Int i)
    then obtain j where w: "w = V_Int j" using assms(1,3) by (cases w) (simp_all add: cells)
    have "nat (i mod 2 ^ 64) = nat (j mod 2 ^ 64) \<and> xs = ys"
      by (rule fixed [OF _ wrapped wrapped]) (use assms(1) V_Int w in \<open>simp add: cells\<close>)
    moreover have "i = j" if "nat (i mod 2 ^ 64) = nat (j mod 2 ^ 64)"
      using wrap_inj [OF that] assms(2,3) V_Int w by simp
    ultimately show ?thesis using V_Int w by blast
  next
    case (V_UInt m)
    then obtain n where w: "w = V_UInt n" using assms(1,3) by (cases w) (simp_all add: cells)
    have "m = n \<and> xs = ys"
      by (rule fixed) (use assms V_UInt w in \<open>simp_all add: cells\<close>)
    then show ?thesis using V_UInt w by simp
  next
    case V_Null
    then have "w = V_Null" using assms(1,3) by (cases w) (simp_all add: cells)
    then show ?thesis using V_Null assms(1) by simp
  qed (use assms(2) in simp_all)
qed

lemma row_bytes_inj:
  "concat (map hash_cell r) = concat (map hash_cell r') \<Longrightarrow> \<forall>v \<in> set r \<union> set r'. plain_cell v \<Longrightarrow> r = r'"
proof (induction r arbitrary: r')
  case Nil
  have "hash_cell v \<noteq> []" for v
    by (cases v) (simp_all add: cell_null_def cell_bytes_def cell_int_def cell_uint_def cell_float_def)
  with Nil show ?case by (cases r') auto
next
  case (Cons v r)
  have ne: "hash_cell v \<noteq> []" for v
    by (cases v) (simp_all add: cell_null_def cell_bytes_def cell_int_def cell_uint_def cell_float_def)
  then obtain w r'' where r': "r' = w # r''" using Cons.prems(1) by (cases r') auto
  then have "v = w \<and> concat (map hash_cell r) = concat (map hash_cell r'')"
    using hash_cell_prefix_free [of v _ w] Cons.prems by auto
  with Cons r' show ?case by auto
qed



section \<open>Executions\<close>

definition checksum_fold :: "checksum_outcome list \<Rightarrow> fp_checksum_agg" where
  "checksum_fold os = fold checksum_add os new_checksum_agg"

definition result_sets :: "checksum_outcome list \<Rightarrow> result_checksum list" where
  "result_sets os = concat (map (\<lambda>x. case x of Checksum_Set cs \<Rightarrow> [cs] | _ \<Rightarrow> []) os)"

lemma result_sets_snoc [simp]:
  "result_sets [] = []"
  "result_sets (os @ [x]) = result_sets os @ (case x of Checksum_Set cs \<Rightarrow> [cs] | _ \<Rightarrow> [])"
  by (simp_all add: result_sets_def)

lemma fold_plus_list: "fold (\<lambda>x s. s + f x) xs (b :: 'a::comm_monoid_add) = b + sum_list (map f xs)"
  by (induction xs arbitrary: b) (simp_all add: ac_simps)

lemma checksum_fold_eq:
  "ca_events (checksum_fold os) = length (result_sets os) \<and>
   ca_no_result (checksum_fold os) = length (filter (\<lambda>x. x = No_Result) os) \<and>
   ca_rows_total (checksum_fold os) = sum_list (map rc_row_count (result_sets os)) \<and>
   ca_sum (checksum_fold os) = sum_list (map rc_digest (result_sets os)) \<and>
   ca_xor (checksum_fold os) = fold (\<lambda>cs x. xor x (rc_digest cs)) (result_sets os) 0 \<and>
   ca_columns (checksum_fold os) = (case result_sets os of [] \<Rightarrow> [] | cs # r \<Rightarrow> rc_columns cs) \<and>
   (ca_shape_varied (checksum_fold os) \<longleftrightarrow>
     (\<exists>cs \<in> set (result_sets os). rc_columns cs \<noteq> rc_columns (hd (result_sets os))))"
proof (induction os rule: rev_induct)
  case Nil
  then show ?case by (simp add: checksum_fold_def new_checksum_agg_def)
next
  case (snoc x os)
  have f: "checksum_fold (os @ [x]) = checksum_add x (checksum_fold os)" by (simp add: checksum_fold_def)
  show ?case
  proof (cases x)
    case (Checksum_Set cs)
    then show ?thesis
      using snoc unfolding f by (cases "result_sets os") (auto simp: checksum_add_def Let_def)
  qed (use snoc f in \<open>simp_all add: checksum_add_def\<close>)
qed

lemma varied_set:
  "(\<exists>c \<in> set cs. f c \<noteq> f (hd cs)) \<longleftrightarrow> (\<exists>c \<in> set cs. \<exists>d \<in> set cs. f c \<noteq> f d)"
  by (cases cs) (auto, metis+)

lemma fold_xor_mset:
  fixes f :: "'a \<Rightarrow> u64"
  assumes "mset xs = mset ys"
  shows "fold (\<lambda>c x. xor x (f c)) xs b = fold (\<lambda>c x. xor x (f c)) ys b"
proof -
  have "fold (\<lambda>c x. xor x (f c)) xs = fold (\<lambda>c x. xor x (f c)) ys"
    by (rule fold_multiset_equiv) (auto simp: fun_eq_iff ac_simps assms)
  then show ?thesis by simp
qed

lemma result_sets_mset: "mset os = mset os' \<Longrightarrow> mset (result_sets os) = mset (result_sets os')"
proof -
  have "mset (result_sets os) = sum_mset (image_mset
      (\<lambda>x. mset (case x of Checksum_Set cs \<Rightarrow> [cs] | _ \<Rightarrow> [])) (mset os))" for os
    unfolding result_sets_def by (induction os) auto
  then show "mset os = mset os' \<Longrightarrow> mset (result_sets os) = mset (result_sets os')" by simp
qed

text \<open>C34: the checksum of a fingerprint does not depend on the order in which concurrent sessions
  execute it: for the same outcomes in any order the reports agree in digest, counts and whether
  the shape varied; only the column names are those of whichever execution came first.\<close>

theorem checksum_report_order_free:
  assumes "mset os = mset os'"
  shows "(checksum_agg_report xxh3 nondet (checksum_fold os))\<lparr>ck_columns := []\<rparr> =
    (checksum_agg_report xxh3 nondet (checksum_fold os'))\<lparr>ck_columns := []\<rparr>"
proof -
  let ?a = "result_sets os" and ?b = "result_sets os'"
  have m: "mset ?a = mset ?b" by (rule result_sets_mset [OF assms])
  have "length (filter (\<lambda>x. x = No_Result) os) = length (filter (\<lambda>x. x = No_Result) os')"
    by (metis assms mset_filter size_mset)
  moreover have "sum_list (map rc_row_count ?a) = sum_list (map rc_row_count ?b)"
    "sum_list (map rc_digest ?a) = sum_list (map rc_digest ?b)"
    by (metis m mset_map sum_mset_sum_list)+
  moreover have "fold (\<lambda>cs x. xor x (rc_digest cs)) ?a 0 = fold (\<lambda>cs x. xor x (rc_digest cs)) ?b 0"
    by (rule fold_xor_mset [OF m])
  moreover have "ca_shape_varied (checksum_fold os) = ca_shape_varied (checksum_fold os')"
    using checksum_fold_eq [of os] checksum_fold_eq [of os'] varied_set [of ?a rc_columns]
      varied_set [of ?b rc_columns] mset_eq_setD [OF m] by simp
  ultimately show ?thesis
    using checksum_fold_eq [of os] checksum_fold_eq [of os'] mset_eq_length [OF m]
    by (simp add: checksum_agg_report_def)
qed

theorem checksum_report_order_free_witness:
  "(checksum_agg_report (\<lambda>b. 0) False (checksum_fold [No_Result, Checksum_Off]))\<lparr>ck_columns := []\<rparr> =
    (checksum_agg_report (\<lambda>b. 0) False (checksum_fold [Checksum_Off, No_Result]))\<lparr>ck_columns := []\<rparr>"
  by (rule checksum_report_order_free) simp

end
