(* ===== verification/Aggregate.thy ===== *)
theory Aggregate
  imports Report "HOL-Library.Monad_Syntax" "HOL-Library.List_Lexorder" "HOL-Library.Char_ord"
begin

text \<open>
  \<open>aggregate.rs\<close>: the median report of a \<open>--repeat N\<close> run, field by field. \<open>None\<close> is a panic: the
  assertion that there is a value, or the comparison of a NaN. A \<open>BTreeMap\<close> that groups is the list
  of its groups in key order, each in the order of insertion.
\<close>

section \<open>Medians\<close>

definition median_u64 :: "nat list \<Rightarrow> nat option" where
  "median_u64 v =
    (if v = [] then None
     else
       let s = sort v; n = length s in
       if n mod 2 = 1 then Some (s ! (n div 2))
       else Some ((s ! (n div 2 - 1) + s ! (n div 2)) div 2))"

text \<open>A sort of two or more values compares every one of them.\<close>

definition median_f64 :: "f64 list \<Rightarrow> f64 option" where
  "median_f64 v =
    (if v = [] \<or> (1 < length v \<and> NaN \<in> set v) then None
     else
       let s = sort v; n = length s in
       if n mod 2 = 1 then Some (s ! (n div 2))
       else Some (f64_div (f64_add (s ! (n div 2 - 1)) (s ! (n div 2))) (Fin 2)))"

section \<open>Grouping\<close>

text \<open>\<open>entry(key).or_default().push(x)\<close> over the list, then the entries in key order.\<close>

definition group_by_key :: "('a \<Rightarrow> 'k::linorder) \<Rightarrow> 'a list \<Rightarrow> ('k \<times> 'a list) list" where
  "group_by_key key xs =
    map (\<lambda>k. (k, filter (\<lambda>x. key x = k) xs)) (remdups (sort (map key xs)))"

fun all_some :: "'a option list \<Rightarrow> 'a list option" where
  "all_some [] = Some []"
| "all_some (x # xs) = do { y \<leftarrow> x; ys \<leftarrow> all_some xs; Some (y # ys) }"

fun find_map :: "('a \<Rightarrow> 'b option) \<Rightarrow> 'a list \<Rightarrow> 'b option" where
  "find_map f [] = None"
| "find_map f (x # xs) = (case f x of Some y \<Rightarrow> Some y | None \<Rightarrow> find_map f xs)"

section \<open>Fingerprints\<close>

definition aggregate_result_bytes :: "fingerprint_report list \<Rightarrow> result_bytes_report option option" where
  "aggregate_result_bytes fps =
    (let present = List.map_filter fr_result_bytes fps;
         m = (\<lambda>f. median_u64 (map f present)) in
     if present = [] then Some None
     else do {
       tot \<leftarrow> m rb_total; mn \<leftarrow> m rb_min; mx \<leftarrow> m rb_max;
       mean \<leftarrow> median_f64 (map rb_mean present);
       p50 \<leftarrow> m rb_p50; p95 \<leftarrow> m rb_p95;
       Some (Some \<lparr>rb_total = tot, rb_min = mn, rb_max = mx, rb_mean = mean, rb_p50 = p50, rb_p95 = p95\<rparr>)
     })"

definition bucket_key :: "size_bucket_report \<Rightarrow> nat \<times> string" where
  "bucket_key b =
    ((case position (\<lambda>l. l = sz_bucket b) SIZE_BUCKET_LABELS of
        Some i \<Rightarrow> i | None \<Rightarrow> length SIZE_BUCKET_LABELS), sz_bucket b)"

definition aggregate_bucket :: "string \<Rightarrow> size_bucket_report list \<Rightarrow> size_bucket_report option" where
  "aggregate_bucket label bs =
    (let m = (\<lambda>f. median_u64 (map f bs)) in
     do {
       count \<leftarrow> m sz_count; p50 \<leftarrow> m sz_p50_us; p95 \<leftarrow> m sz_p95_us;
       mean \<leftarrow> median_f64 (map sz_mean_us bs);
       mx \<leftarrow> m sz_max_us; tot \<leftarrow> m sz_bytes_total;
       Some \<lparr>sz_bucket = label, sz_count = count, sz_p50_us = p50, sz_p95_us = p95,
         sz_mean_us = mean, sz_max_us = mx, sz_bytes_total = tot\<rparr>
     })"

definition aggregate_size_buckets :: "fingerprint_report list \<Rightarrow> size_bucket_report list option" where
  "aggregate_size_buckets fps =
    all_some (map (\<lambda>(k, bs). aggregate_bucket (snd k) bs)
      (group_by_key bucket_key (concat (map fr_size_buckets fps))))"

text \<open>The first pass's checksum; disagreeing digests make it nondeterministic.\<close>

definition aggregate_checksum :: "fingerprint_report list \<Rightarrow> checksum_report option" where
  "aggregate_checksum fps =
    map_option (\<lambda>c. c\<lparr>ck_nondeterministic := ck_nondeterministic c \<or>
        list_ex (\<lambda>x. ck_digest x \<noteq> ck_digest c) (List.map_filter fr_checksum fps)\<rparr>)
      (fr_checksum (hd fps))"

definition aggregate_fingerprint :: "u32 \<Rightarrow> fingerprint_report list \<Rightarrow> fingerprint_report option" where
  "aggregate_fingerprint i fps =
    (let m = (\<lambda>f. median_u64 (map f fps)) in
     do {
       count \<leftarrow> m fr_count; errs \<leftarrow> m fr_errors; skipped \<leftarrow> m fr_skipped; not_run \<leftarrow> m fr_not_run;
       p50 \<leftarrow> m fr_p50_us; p95 \<leftarrow> m fr_p95_us; p99 \<leftarrow> m fr_p99_us; mx \<leftarrow> m fr_max_us;
       mean \<leftarrow> median_f64 (map fr_mean_us fps);
       bts \<leftarrow> aggregate_result_bytes fps;
       buckets \<leftarrow> aggregate_size_buckets fps;
       Some \<lparr>fr_id = i, fr_fingerprint = fr_fingerprint (hd fps), fr_count = count,
         fr_errors = errs, fr_first_error = find_map fr_first_error fps, fr_skipped = skipped,
         fr_not_run = not_run, fr_p50_us = p50, fr_p95_us = p95, fr_p99_us = p99, fr_max_us = mx,
         fr_mean_us = mean, fr_checksum = aggregate_checksum fps, fr_result_bytes = bts,
         fr_size_buckets = buckets\<rparr>
     })"

definition aggregate_fingerprints :: "run_report list \<Rightarrow> fingerprint_report list option" where
  "aggregate_fingerprints passes =
    map_option rank_rows (all_some (map (\<lambda>(i, fps). aggregate_fingerprint i fps)
      (group_by_key fr_id (concat (map rr_fingerprints passes)))))"

section \<open>The report\<close>

definition aggregate_pacing :: "run_report list \<Rightarrow> pacing_report option option" where
  "aggregate_pacing passes =
    (case all_some (map rr_pacing passes) of
       None \<Rightarrow> Some None
     | Some ps \<Rightarrow>
        do {
          n \<leftarrow> median_u64 (map pr_paced_events ps);
          mx \<leftarrow> median_u64 (map pr_max_lag_us ps);
          mean \<leftarrow> median_f64 (map pr_mean_lag_us ps);
          Some (Some \<lparr>pr_speed = pr_speed (hd ps), pr_paced_events = n, pr_max_lag_us = mx,
            pr_mean_lag_us = mean\<rparr>)
        })"

definition aggregate_totals :: "run_report list \<Rightarrow> totals option" where
  "aggregate_totals passes =
    (let u = (\<lambda>f. median_u64 (map (\<lambda>p. f (rr_totals p)) passes)) in
     do {
       events \<leftarrow> u to_events; sessions \<leftarrow> u to_sessions; executed \<leftarrow> u to_executed;
       skipped \<leftarrow> u to_skipped; errs \<leftarrow> u to_errors; not_run \<leftarrow> u to_not_run;
       failures \<leftarrow> u to_connect_failures;
       qps \<leftarrow> median_f64 (map (\<lambda>p. to_qps (rr_totals p)) passes);
       filtered \<leftarrow> u to_filtered;
       Some \<lparr>to_events = events, to_sessions = sessions, to_executed = executed,
         to_skipped = skipped, to_errors = errs, to_not_run = not_run,
         to_connect_failures = failures, to_qps = qps, to_filtered = filtered\<rparr>
     })"

definition aggregate_saturation :: "run_report list \<Rightarrow> saturation_report option" where
  "aggregate_saturation passes =
    do {
      samples \<leftarrow> median_u64 (map (\<lambda>p. sa_samples (rr_saturation p)) passes);
      hits \<leftarrow> median_u64 (map (\<lambda>p. sa_saturated_samples (rr_saturation p)) passes);
      pct \<leftarrow> median_f64 (map (\<lambda>p. sa_saturated_pct (rr_saturation p)) passes);
      Some \<lparr>sa_samples = samples, sa_saturated_samples = hits, sa_saturated_pct = pct\<rparr>
    }"

definition aggregate_median :: "run_report list \<Rightarrow> run_report option" where
  "aggregate_median passes =
    (if passes = [] then None
     else do {
       fingerprints \<leftarrow> aggregate_fingerprints passes;
       pacing \<leftarrow> aggregate_pacing passes;
       wall \<leftarrow> median_f64 (map rr_wall_secs passes);
       tot \<leftarrow> aggregate_totals passes;
       saturation \<leftarrow> aggregate_saturation passes;
       Some ((hd passes)\<lparr>
         rr_ended_at := rr_ended_at (last passes), rr_wall_secs := wall,
         rr_aborted := list_ex rr_aborted passes,
         rr_aggregation := Some \<lparr>ai_passes = length passes, ai_method = ''median''\<rparr>,
         rr_totals := tot, rr_saturation := saturation, rr_pacing := pacing,
         rr_fingerprints := fingerprints\<rparr>)
     })"

end
