(* ===== verification/Aggregate_Props.thy ===== *)
theory Aggregate_Props
  imports Aggregate
begin

text \<open>
  The median does not depend on the order of the passes and lies among the values of any majority of
  them, so one outlier pass does not move an aggregated metric out of the range of the others.
\<close>

section \<open>Order statistics\<close>

lemma below_index:
  fixes s :: "'a::linorder list"
  assumes "sorted s" and "i < length s" and "s ! i < lo"
  shows "length (filter (\<lambda>x. lo \<le> x) s) \<le> length s - Suc i"
proof -
  have "filter (\<lambda>x. lo \<le> x) (take (Suc i) s) = []"
  proof (rule filter_False, rule ballI)
    fix x assume "x \<in> set (take (Suc i) s)"
    then obtain j where "j \<le> i" "x = s ! j"
      using assms(2) by (auto simp: in_set_conv_nth less_Suc_eq_le)
    then have "x \<le> s ! i" using assms(1,2) sorted_nth_mono by blast
    with assms(3) show "\<not> lo \<le> x" by simp
  qed
  then have "filter (\<lambda>x. lo \<le> x) s = filter (\<lambda>x. lo \<le> x) (drop (Suc i) s)"
    by (metis append_Nil append_take_drop_id filter_append)
  then show ?thesis by (metis length_drop length_filter_le)
qed

lemma above_index:
  fixes s :: "'a::linorder list"
  assumes "sorted s" and "i < length s" and "hi < s ! i"
  shows "length (filter (\<lambda>x. x \<le> hi) s) \<le> i"
proof -
  have "filter (\<lambda>x. x \<le> hi) (drop i s) = []"
  proof (rule filter_False, rule ballI)
    fix x assume "x \<in> set (drop i s)"
    then obtain j where "i \<le> j" "j < length s" "x = s ! j"
      by (auto simp: in_set_conv_nth) (metis add.commute le_add1 less_diff_conv)
    then have "s ! i \<le> x" using assms(1) sorted_nth_mono by blast
    with assms(3) show "\<not> x \<le> hi" by simp
  qed
  then have "filter (\<lambda>x. x \<le> hi) s = filter (\<lambda>x. x \<le> hi) (take i s)"
    by (metis append_Nil2 append_take_drop_id filter_append)
  then show ?thesis by (metis length_filter_le length_take min.cobounded2 order_trans)
qed

lemma filter_length_mono:
  "(\<And>x. P x \<Longrightarrow> Q x) \<Longrightarrow> length (filter P xs) \<le> length (filter Q xs)"
  by (induction xs) auto

lemma length_filter_mset: "mset xs = mset ys \<Longrightarrow> length (filter P xs) = length (filter P ys)"
  by (metis mset_filter size_mset)

definition majority_in :: "nat \<Rightarrow> nat \<Rightarrow> nat list \<Rightarrow> bool" where
  "majority_in lo hi v \<longleftrightarrow> length v < 2 * length (filter (\<lambda>x. lo \<le> x \<and> x \<le> hi) v)"

lemma median_u64_in_majority:
  assumes "median_u64 v = Some m" and "majority_in lo hi v"
  shows "lo \<le> m \<and> m \<le> hi"
proof -
  let ?s = "sort v" and ?n = "length v"
  have ne: "v \<noteq> []" using assms(1) by (auto simp: median_u64_def)
  have "length (filter (\<lambda>x. lo \<le> x \<and> x \<le> hi) v) = length (filter (\<lambda>x. lo \<le> x \<and> x \<le> hi) ?s)"
    by (rule length_filter_mset) simp
  then have "?n < 2 * length (filter (\<lambda>x. lo \<le> x) ?s)" and "?n < 2 * length (filter (\<lambda>x. x \<le> hi) ?s)"
    using assms(2) filter_length_mono [of "\<lambda>x. lo \<le> x \<and> x \<le> hi" "\<lambda>x. lo \<le> x" ?s]
      filter_length_mono [of "\<lambda>x. lo \<le> x \<and> x \<le> hi" "\<lambda>x. x \<le> hi" ?s] by (auto simp: majority_in_def)
  then have lo: "lo \<le> ?s ! i" if "i < ?n" "?n \<le> 2 * Suc i" for i
    using below_index [of ?s i lo] that by (cases "lo \<le> ?s ! i") auto
  have hi: "?s ! i \<le> hi" if "i < ?n" "2 * i \<le> ?n" for i
    using above_index [of ?s i hi] that \<open>?n < 2 * length (filter (\<lambda>x. x \<le> hi) ?s)\<close>
    by (cases "?s ! i \<le> hi") auto
  show ?thesis
  proof (cases "?n mod 2 = 1")
    case True
    then have "m = ?s ! (?n div 2)" using assms(1) ne by (simp add: median_u64_def Let_def)
    moreover have "?n div 2 < ?n" "?n \<le> 2 * Suc (?n div 2)" "2 * (?n div 2) \<le> ?n" using ne by auto
    ultimately show ?thesis using lo hi by blast
  next
    case False
    define k where "k = ?n div 2 - 1"
    have "0 < ?n" using ne by simp
    with False have k: "?n = 2 * Suc k" unfolding k_def by presburger
    then have k': "k < ?n" "Suc k < ?n" by simp_all
    have "?n div 2 - 1 = k" "?n div 2 = Suc k" using k by simp_all
    then have "m = (?s ! k + ?s ! Suc k) div 2"
      using assms(1) ne False by (simp add: median_u64_def Let_def)
    moreover have "lo \<le> ?s ! k" "lo \<le> ?s ! Suc k" using lo k k' by auto
    moreover have "?s ! Suc k \<le> hi" using hi k k' by auto
    moreover have "?s ! k \<le> ?s ! Suc k" using k' by (intro sorted_nth_mono) auto
    ultimately show ?thesis by linarith
  qed
qed

lemma sort_mset_eq: "mset v = mset w \<Longrightarrow> sort v = (sort w :: 'a::linorder list)"
  by (metis sorted_list_of_multiset_mset)

lemma median_u64_mset:
  assumes "mset v = mset w"
  shows "median_u64 v = median_u64 w"
  using mset_eq_length [OF assms] sort_mset_eq [OF assms] by (auto simp: median_u64_def)

lemma median_f64_mset:
  assumes "mset v = mset w"
  shows "median_f64 v = median_f64 w"
  using mset_eq_length [OF assms] mset_eq_setD [OF assms] sort_mset_eq [OF assms]
  by (auto simp: median_f64_def)

section \<open>The aggregated report\<close>

definition total_counters :: "(totals \<Rightarrow> nat) list" where
  "total_counters = [to_events, to_sessions, to_executed, to_skipped, to_errors, to_not_run,
     to_connect_failures, to_filtered]"

lemma aggregate_totals_median:
  assumes "aggregate_totals passes = Some t" and "f \<in> set total_counters"
  shows "median_u64 (map (\<lambda>p. f (rr_totals p)) passes) = Some (f t)"
  using assms unfolding aggregate_totals_def total_counters_def Let_def
  by (auto split: Option.bind_splits)

lemma aggregate_median_totals:
  assumes "aggregate_median passes = Some r"
  shows "aggregate_totals passes = Some (rr_totals r)"
  using assms unfolding aggregate_median_def by (auto split: if_splits Option.bind_splits)

text \<open>C30: one outlier pass cannot distort an aggregated count: when in more than half of the passes a
  counter of the totals lies between two bounds, the aggregated counter does.\<close>

theorem aggregate_robust:
  assumes "aggregate_median passes = Some r" and "f \<in> set total_counters"
    and "length passes < 2 * length (filter (\<lambda>p. lo \<le> f (rr_totals p) \<and> f (rr_totals p) \<le> hi) passes)"
  shows "lo \<le> f (rr_totals r) \<and> f (rr_totals r) \<le> hi"
proof (rule median_u64_in_majority)
  show "median_u64 (map (\<lambda>p. f (rr_totals p)) passes) = Some (f (rr_totals r))"
    by (rule aggregate_totals_median [OF aggregate_median_totals [OF assms(1)] assms(2)])
  show "majority_in lo hi (map (\<lambda>p. f (rr_totals p)) passes)"
    using assms(3) by (simp add: majority_in_def filter_map o_def)
qed

text \<open>The order of the passes does not matter to the aggregated totals and saturation.\<close>

theorem aggregate_order_free:
  assumes "mset passes = mset passes'"
  shows "aggregate_totals passes = aggregate_totals passes' \<and>
    aggregate_saturation passes = aggregate_saturation passes'"
proof -
  have u: "median_u64 (map f passes) = median_u64 (map f passes')" for f
    by (rule median_u64_mset) (simp add: assms)
  have v: "median_f64 (map f passes) = median_f64 (map f passes')" for f
    by (rule median_f64_mset) (simp add: assms)
  show ?thesis unfolding aggregate_totals_def aggregate_saturation_def Let_def u v by simp
qed

definition counting_pass :: "nat \<Rightarrow> run_report" where
  "counting_pass n =
    \<lparr>rr_tool = [], rr_tool_version = [], rr_capture_file = [], rr_capture_dialect = [],
     rr_latency_source = LATENCY_SOURCE_REPLAYED, rr_target_url = [], rr_target_server_version = [],
     rr_started_at = [], rr_ended_at = [], rr_wall_secs = Fin 1, rr_aborted = False,
     rr_aggregation = None,
     rr_flags = \<lparr>rf_max_connections = 1, rf_allow_writes = False, rf_read_only = False,
       rf_db_override = None, rf_speed = ''max'', rf_checksum = False, rf_pool = None,
       rf_warmup = False, rf_filter_db = None, rf_filter_user = None, rf_time_window = None\<rparr>,
     rr_totals = \<lparr>to_events = n, to_sessions = 1, to_executed = n, to_skipped = 0, to_errors = 0,
       to_not_run = 0, to_connect_failures = 0, to_qps = Fin 0, to_filtered = 0\<rparr>,
     rr_saturation = \<lparr>sa_samples = 0, sa_saturated_samples = 0, sa_saturated_pct = Fin 0\<rparr>,
     rr_pacing = None, rr_target_settings = [], rr_fingerprints = []\<rparr>"

definition outlier_passes :: "run_report list" where
  "outlier_passes = [counting_pass 1000000, counting_pass 5, counting_pass 6]"

lemma outlier_aggregate: "\<exists>r. aggregate_median outlier_passes = Some r"
  by (simp add: outlier_passes_def counting_pass_def aggregate_median_def aggregate_fingerprints_def
      aggregate_pacing_def aggregate_totals_def aggregate_saturation_def group_by_key_def
      median_u64_def median_f64_def)

theorem aggregate_robust_witness:
  "\<exists>r. aggregate_median outlier_passes = Some r \<and>
    5 \<le> to_executed (rr_totals r) \<and> to_executed (rr_totals r) \<le> 6"
proof -
  obtain r where r: "aggregate_median outlier_passes = Some r" using outlier_aggregate by blast
  have "5 \<le> to_executed (rr_totals r) \<and> to_executed (rr_totals r) \<le> 6"
    by (rule aggregate_robust [OF r])
      (simp_all add: total_counters_def outlier_passes_def counting_pass_def)
  with r show ?thesis by blast
qed

end
