(* ===== verification/Replay.thy ===== *)
theory Replay
  imports Metrics Spool
begin

text \<open>
  The execution layer of \<open>replay.rs\<close>: one task per session, dedicated or pooled connections, pacing,
  permits and abort. A task is a state machine whose states are the points where the code awaits;
  \<open>session_step\<close> is what it does from one such point to the next, atomically. What the code waits for
  is the argument \<open>choice\<close> of the step: the timer with the clock's reading, a connection attempt's
  result, the target's answer. \<open>pass_step\<close> interleaves the tasks of a pass, the abort and the
  saturation sampler.

  The events of a session are the list of what its stream's \<open>next_event\<close> yields, \<open>Inl\<close> a failed
  read. The target is seen through the log of the statements sent (\<open>sh_wire\<close>) and through the
  database each of its connections is in (\<open>sh_server_db\<close>), which the parameter \<open>cx_effect\<close> changes
  when a statement succeeds.
\<close>

section \<open>Pacing\<close>

datatype speed = Max_Speed | Factor f64

definition speed_label :: "speed \<Rightarrow> string" where
  "speed_label sp =
    (case sp of
       Max_Speed \<Rightarrow> ''max''
     | Factor f \<Rightarrow>
        let s = show_f64 f in if ends_with s ''.0'' then take (length s - 2) s else s)"

datatype speed_error = Not_A_Speed string | Not_Positive string

definition parse_speed :: "string \<Rightarrow> speed_error + speed" where
  "parse_speed s =
    (if eq_ignore_ascii_case s ''max'' then Inr Max_Speed
     else
       case parse_f64 s of
         None \<Rightarrow> Inl (Not_A_Speed s)
       | Some f \<Rightarrow> if \<not> is_finite f \<or> f64_le f (Fin 0) then Inl (Not_Positive s) else Inr (Factor f))"

text \<open>Microseconds after the start of the pass at which an event is due.\<close>

definition due_offset_micros :: "int \<Rightarrow> int \<Rightarrow> f64 \<Rightarrow> nat" where
  "due_offset_micros ev_ts base_ts sp =
    f64_to_u64 (f64_round_int (f64_div (f64_of_int (max 0 (saturate_i64 (ev_ts - base_ts)))) sp))"

record lag_agg =
  lg_paced_events :: nat
  lg_max_lag_us :: nat
  lg_sum_lag_us :: nat

definition new_lag :: lag_agg where
  "new_lag = \<lparr>lg_paced_events = 0, lg_max_lag_us = 0, lg_sum_lag_us = 0\<rparr>"

definition lag_record :: "nat \<Rightarrow> lag_agg \<Rightarrow> lag_agg" where
  "lag_record us l =
    l\<lparr>lg_paced_events := lg_paced_events l + 1, lg_max_lag_us := max (lg_max_lag_us l) us,
      lg_sum_lag_us := (lg_sum_lag_us l + us) mod 2 ^ 64\<rparr>"

definition lag_report :: "f64 \<Rightarrow> lag_agg \<Rightarrow> pacing_report" where
  "lag_report sp l =
    \<lparr>pr_speed = sp, pr_paced_events = lg_paced_events l, pr_max_lag_us = lg_max_lag_us l,
     pr_mean_lag_us =
       (if 0 < lg_paced_events l
        then f64_div (f64_of_nat (lg_sum_lag_us l)) (f64_of_nat (lg_paced_events l)) else Fin 0)\<rparr>"

section \<open>The state of a pass\<close>

record 'h pass_ctx =
  cx_lib :: "'h hist_lib"
  cx_speed :: speed
  cx_base_ts :: int
  cx_allow_writes :: bool
  cx_use_event_db :: bool
  cx_checksum :: bool
  cx_pooled :: bool
  cx_default_db :: "string option"
  cx_effect :: "string \<Rightarrow> string option \<Rightarrow> string option"

text \<open>The points where a session task awaits, with the variables that are live there: connection,
  tracked database, event. \<open>Start\<close>, \<open>Ready\<close> and \<open>Pool_Ready\<close> are the entry and the loop heads.\<close>

datatype pc =
    Start
  | Wait_Due event
  | Acquire event
  | Connecting event
  | Ready nat "string option" "event option"
  | Pacing nat "string option" event
  | Use_Sent nat "string option" event string
  | Exec_Sent nat "string option" event
  | Closing nat
  | Pool_Ready
  | Pool_Pacing event
  | Pool_Acquire event
  | Pool_Connecting event
  | Pool_Use_Sent nat "string option" event string
  | Pool_Exec_Sent nat "string option" event
  | Finished

record session =
  se_id :: nat
  se_has_executable :: bool
  se_events :: "(error + event) list"
  se_pc :: pc

record 'h shared =
  sh_permits :: nat
  sh_waiters :: nat
  sh_shutdown :: bool
  sh_metrics :: "'h metrics"
  sh_lag :: lag_agg
  sh_idle :: "(nat \<times> string option) list"
  sh_opened :: nat
  sh_server_db :: "nat \<Rightarrow> string option"
  sh_wire :: "(nat \<times> string) list"

datatype choice =
    Go
  | Wake nat
  | Connected
  | Connect_Failed target_error
  | Answer nat "target_error + nat"
  | Checksum_Answer nat "target_error + result_checksum option"

definition due :: "'h pass_ctx \<Rightarrow> event \<Rightarrow> nat option" where
  "due cx e =
    (case cx_speed cx of
       Max_Speed \<Rightarrow> None
     | Factor f \<Rightarrow> Some (due_offset_micros (ev_ts_micros e) (cx_base_ts cx) f))"

definition is_due :: "'h pass_ctx \<Rightarrow> event \<Rightarrow> nat \<Rightarrow> bool" where
  "is_due cx e now \<longleftrightarrow> (case due cx e of None \<Rightarrow> True | Some d \<Rightarrow> d \<le> now)"

definition pace :: "'h pass_ctx \<Rightarrow> event \<Rightarrow> nat \<Rightarrow> 'h shared \<Rightarrow> 'h shared" where
  "pace cx e now sh =
    (case due cx e of None \<Rightarrow> sh | Some d \<Rightarrow> sh\<lparr>sh_lag := lag_record (now - d) (sh_lag sh)\<rparr>)"

definition at_pc :: "session \<Rightarrow> pc \<Rightarrow> session" where
  "at_pc s p = s\<lparr>se_pc := p\<rparr>"

definition on_metrics :: "('h metrics \<Rightarrow> 'h metrics) \<Rightarrow> 'h shared \<Rightarrow> 'h shared" where
  "on_metrics f sh = sh\<lparr>sh_metrics := f (sh_metrics sh)\<rparr>"

definition release_permit :: "'h shared \<Rightarrow> 'h shared" where
  "release_permit sh = sh\<lparr>sh_permits := sh_permits sh + 1\<rparr>"

definition drop_permit :: "session \<times> 'h shared \<Rightarrow> session \<times> 'h shared" where
  "drop_permit st = (fst st, release_permit (snd st))"

definition take_permit :: "'h shared \<Rightarrow> 'h shared" where
  "take_permit sh = sh\<lparr>sh_permits := sh_permits sh - 1, sh_waiters := sh_waiters sh - 1\<rparr>"

definition start_waiting :: "'h shared \<Rightarrow> 'h shared" where
  "start_waiting sh = sh\<lparr>sh_waiters := sh_waiters sh + 1\<rparr>"

definition stop_waiting :: "'h shared \<Rightarrow> 'h shared" where
  "stop_waiting sh = sh\<lparr>sh_waiters := sh_waiters sh - 1\<rparr>"

definition skip_event :: "'h pass_ctx \<Rightarrow> event \<Rightarrow> 'h shared \<Rightarrow> 'h shared" where
  "skip_event cx e = on_metrics (record_skip (cx_lib cx) (ev_fingerprint_id e))"

definition not_run_event :: "'h pass_ctx \<Rightarrow> event \<Rightarrow> 'h shared \<Rightarrow> 'h shared" where
  "not_run_event cx e = on_metrics (record_not_run (cx_lib cx) (ev_fingerprint_id e))"

definition fail_event :: "'h pass_ctx \<Rightarrow> event \<Rightarrow> string \<Rightarrow> 'h shared \<Rightarrow> 'h shared" where
  "fail_event cx e msg = on_metrics (record_err (cx_lib cx) msg (ev_fingerprint_id e))"

definition ok_event :: "'h pass_ctx \<Rightarrow> event \<Rightarrow> nat \<Rightarrow> exec_outcome \<Rightarrow> 'h shared \<Rightarrow> 'h shared" where
  "ok_event cx e micros out = on_metrics (record_ok (cx_lib cx) micros out (ev_fingerprint_id e))"

definition connect_failure :: "'h shared \<Rightarrow> 'h shared" where
  "connect_failure = on_metrics (\<lambda>m. m\<lparr>me_connect_failures := me_connect_failures m + 1\<rparr>)"

section \<open>Draining a stream\<close>

datatype drain_as = As_Skipped | As_Not_Run

text \<open>Record every remaining event; a failed read ends the drain with the rest uncounted.\<close>

fun drain_recording ::
    "'h pass_ctx \<Rightarrow> drain_as \<Rightarrow> (error + event) list \<Rightarrow> 'h shared \<Rightarrow> 'h shared \<times> (error + event) list" where
  "drain_recording cx how [] sh = (sh, [])"
| "drain_recording cx how (Inl err # es) sh = (sh, Inl err # es)"
| "drain_recording cx how (Inr e # es) sh =
    drain_recording cx how es
      (case how of As_Skipped \<Rightarrow> skip_event cx e sh | As_Not_Run \<Rightarrow> not_run_event cx e sh)"

definition drain_session ::
    "'h pass_ctx \<Rightarrow> drain_as \<Rightarrow> pc \<Rightarrow> session \<times> 'h shared \<Rightarrow> session \<times> 'h shared" where
  "drain_session cx how p st =
    (case st of (s, sh) \<Rightarrow>
      case drain_recording cx how (se_events s) sh of
        (sh', es) \<Rightarrow> (s\<lparr>se_events := es, se_pc := p\<rparr>, sh'))"

text \<open>Abort: the event at hand and all that follow were not run.\<close>

definition abandon :: "'h pass_ctx \<Rightarrow> event \<Rightarrow> pc \<Rightarrow> session \<times> 'h shared \<Rightarrow> session \<times> 'h shared" where
  "abandon cx e p st = (case st of (s, sh) \<Rightarrow> drain_session cx As_Not_Run p (s, not_run_event cx e sh))"

section \<open>Statements\<close>

definition use_stmt :: "string \<Rightarrow> string" where
  "use_stmt db = ''USE `'' @ concat (map (\<lambda>c. if c = BTICK then [BTICK, BTICK] else [c]) db) @ ''`''"

definition use_error :: "string \<Rightarrow> target_error \<Rightarrow> string" where
  "use_error db e = ''USE `'' @ db @ ''`: '' @ te_message e"

definition send :: "nat \<Rightarrow> string \<Rightarrow> 'h shared \<Rightarrow> 'h shared" where
  "send c stmt sh = sh\<lparr>sh_wire := sh_wire sh @ [(c, stmt)]\<rparr>"

definition served :: "'h pass_ctx \<Rightarrow> nat \<Rightarrow> string \<Rightarrow> 'h shared \<Rightarrow> 'h shared" where
  "served cx c stmt sh =
    sh\<lparr>sh_server_db := (sh_server_db sh)(c := cx_effect cx stmt (sh_server_db sh c))\<rparr>"

text \<open>A connection is named by the number of connections opened before it.\<close>

definition open_conn :: "'h pass_ctx \<Rightarrow> 'h shared \<Rightarrow> 'h shared" where
  "open_conn cx sh =
    sh\<lparr>sh_opened := sh_opened sh + 1,
       sh_server_db := (sh_server_db sh)(sh_opened sh := cx_default_db cx)\<rparr>"

definition wants_checksum :: "'h pass_ctx \<Rightarrow> string \<Rightarrow> bool" where
  "wants_checksum cx q \<longleftrightarrow> cx_checksum cx \<and> should_execute q False"

fun execute_event :: "'h pass_ctx \<Rightarrow> string \<Rightarrow> choice \<Rightarrow> (nat \<times> (target_error + exec_outcome)) option" where
  "execute_event cx q (Checksum_Answer us r) =
    (if wants_checksum cx q then
       Some (us, case r of
         Inl e \<Rightarrow> Inl e
       | Inr (Some cs) \<Rightarrow> Inr \<lparr>eo_bytes = rc_bytes_total cs, eo_checksum = Checksum_Set cs\<rparr>
       | Inr None \<Rightarrow> Inr \<lparr>eo_bytes = 0, eo_checksum = No_Result\<rparr>)
     else None)"
| "execute_event cx q (Answer us r) =
    (if wants_checksum cx q then None
     else
       Some (us, case r of
         Inl e \<Rightarrow> Inl e
       | Inr n \<Rightarrow> Inr \<lparr>eo_bytes = n, eo_checksum = Checksum_Off\<rparr>))"
| "execute_event cx q _ = None"

text \<open>The database the connection has to be in first, when it is not the tracked one.\<close>

definition needs_use :: "'h pass_ctx \<Rightarrow> event \<Rightarrow> string option \<Rightarrow> string option" where
  "needs_use cx e cur =
    (if cx_use_event_db cx then
       (case ev_db e of Some db \<Rightarrow> if cur \<noteq> Some db then Some db else None | None \<Rightarrow> None)
     else None)"

section \<open>A session on its own connection\<close>

definition dispatch ::
    "'h pass_ctx \<Rightarrow> nat \<Rightarrow> string option \<Rightarrow> event \<Rightarrow> session \<times> 'h shared \<Rightarrow> session \<times> 'h shared" where
  "dispatch cx c cur e st =
    (case st of (s, sh) \<Rightarrow>
      if \<not> should_execute (ev_query e) (cx_allow_writes cx) then
        (at_pc s (Ready c cur None), skip_event cx e sh)
      else if \<not> cx_use_event_db cx \<and> is_use_statement (ev_query e) then
        (at_pc s (Ready c cur None), skip_event cx e sh)
      else
        case needs_use cx e cur of
          Some db \<Rightarrow> (at_pc s (Use_Sent c cur e db), send c (use_stmt db) sh)
        | None \<Rightarrow> (at_pc s (Exec_Sent c cur e), send c (ev_query e) sh))"

definition loop_head ::
    "'h pass_ctx \<Rightarrow> nat \<Rightarrow> string option \<Rightarrow> event option \<Rightarrow> session \<times> 'h shared \<Rightarrow> session \<times> 'h shared" where
  "loop_head cx c cur pending st =
    (case st of (s, sh) \<Rightarrow>
      case (case pending of
              Some e \<Rightarrow> Some (e, s)
            | None \<Rightarrow>
               (case se_events s of
                  Inr e # es \<Rightarrow> Some (e, s\<lparr>se_events := es\<rparr>)
                | _ \<Rightarrow> None)) of
        None \<Rightarrow> (at_pc s (Closing c), sh)
      | Some (e, s') \<Rightarrow>
          if sh_shutdown sh then abandon cx e (Closing c) (s', sh)
          else (at_pc s' (Pacing c cur e), sh))"

text \<open>A failed statement; a fatal error leaves the rest of the session unrun and drops the permit.\<close>

definition dedicated_failed ::
    "'h pass_ctx \<Rightarrow> nat \<Rightarrow> string option \<Rightarrow> event \<Rightarrow> string \<Rightarrow> bool \<Rightarrow> session \<times> 'h shared \<Rightarrow> session \<times> 'h shared" where
  "dedicated_failed cx c cur e msg fatal st =
    (case st of (s, sh) \<Rightarrow>
      (let sh' = fail_event cx e msg sh in
       if fatal then drop_permit (drain_session cx As_Not_Run Finished (s, sh'))
       else (at_pc s (Ready c cur None), sh')))"

section \<open>A session on pooled connections\<close>

definition checkin :: "nat \<Rightarrow> string option \<Rightarrow> 'h shared \<Rightarrow> 'h shared" where
  "checkin c db sh = sh\<lparr>sh_idle := sh_idle sh @ [(c, db)]\<rparr>"

definition pool_dispatch ::
    "'h pass_ctx \<Rightarrow> nat \<Rightarrow> string option \<Rightarrow> event \<Rightarrow> session \<times> 'h shared \<Rightarrow> session \<times> 'h shared" where
  "pool_dispatch cx c db e st =
    (case st of (s, sh) \<Rightarrow>
      case needs_use cx e db of
        Some db' \<Rightarrow> (at_pc s (Pool_Use_Sent c db e db'), send c (use_stmt db') sh)
      | None \<Rightarrow> (at_pc s (Pool_Exec_Sent c db e), send c (ev_query e) sh))"

definition pool_loop_head ::
    "'h pass_ctx \<Rightarrow> session \<times> 'h shared \<Rightarrow> session \<times> 'h shared" where
  "pool_loop_head cx st =
    (case st of (s, sh) \<Rightarrow>
      case se_events s of
        Inr e # es \<Rightarrow>
          if sh_shutdown sh then abandon cx e Finished (s\<lparr>se_events := es\<rparr>, sh)
          else (s\<lparr>se_events := es, se_pc := Pool_Pacing e\<rparr>, sh)
      | _ \<Rightarrow> (at_pc s Finished, sh))"

definition pool_paced ::
    "'h pass_ctx \<Rightarrow> event \<Rightarrow> session \<times> 'h shared \<Rightarrow> session \<times> 'h shared" where
  "pool_paced cx e st =
    (case st of (s, sh) \<Rightarrow>
      if \<not> should_execute (ev_query e) (cx_allow_writes cx) \<or> is_use_statement (ev_query e) then
        (at_pc s Pool_Ready, skip_event cx e sh)
      else (at_pc s (Pool_Acquire e), start_waiting sh))"

definition checkout ::
    "'h pass_ctx \<Rightarrow> event \<Rightarrow> session \<times> 'h shared \<Rightarrow> session \<times> 'h shared" where
  "checkout cx e st =
    (case st of (s, sh) \<Rightarrow>
      if sh_idle sh = [] then (at_pc s (Pool_Connecting e), sh)
      else
        pool_dispatch cx (fst (last (sh_idle sh))) (snd (last (sh_idle sh))) e
          (s, sh\<lparr>sh_idle := butlast (sh_idle sh)\<rparr>))"

definition pool_failed ::
    "'h pass_ctx \<Rightarrow> nat \<Rightarrow> string option \<Rightarrow> event \<Rightarrow> string \<Rightarrow> bool \<Rightarrow> session \<times> 'h shared \<Rightarrow> session \<times> 'h shared" where
  "pool_failed cx c db e msg fatal st =
    (case st of (s, sh) \<Rightarrow>
      let sh1 = fail_event cx e msg sh;
          sh2 = (if fatal then sh1 else checkin c db sh1)
      in (at_pc s Pool_Ready, release_permit sh2))"


section \<open>The tasks\<close>

definition session_start :: "'h pass_ctx \<Rightarrow> session \<times> 'h shared \<Rightarrow> session \<times> 'h shared" where
  "session_start cx st =
    (case st of (s, sh) \<Rightarrow>
      if \<not> se_has_executable s then drain_session cx As_Skipped Finished (s, sh)
      else if cx_pooled cx then (at_pc s Pool_Ready, sh)
      else
        case se_events s of
          Inr e # es \<Rightarrow> (s\<lparr>se_events := es, se_pc := Wait_Due e\<rparr>, sh)
        | _ \<Rightarrow> (at_pc s Finished, sh))"

text \<open>An answer to a statement of a dedicated session: to the \<open>USE\<close>, to the event's own statement.\<close>

definition use_answered ::
    "'h pass_ctx \<Rightarrow> nat \<Rightarrow> string option \<Rightarrow> event \<Rightarrow> string \<Rightarrow> target_error + nat \<Rightarrow>
      session \<times> 'h shared \<Rightarrow> session \<times> 'h shared" where
  "use_answered cx c cur e db r st =
    (case st of (s, sh) \<Rightarrow>
      (case r of
         Inr n \<Rightarrow>
           (at_pc s (Exec_Sent c (Some db) e), send c (ev_query e) (served cx c (use_stmt db) sh))
       | Inl err \<Rightarrow> dedicated_failed cx c cur e (use_error db err) (te_fatal err) (s, sh)))"

definition exec_answered ::
    "'h pass_ctx \<Rightarrow> nat \<Rightarrow> string option \<Rightarrow> event \<Rightarrow> nat \<times> (target_error + exec_outcome) \<Rightarrow>
      session \<times> 'h shared \<Rightarrow> session \<times> 'h shared" where
  "exec_answered cx c cur e r st =
    (case st of (s, sh) \<Rightarrow>
      (case snd r of
         Inr out \<Rightarrow>
           (at_pc s (Ready c cur None), ok_event cx e (fst r) out (served cx c (ev_query e) sh))
       | Inl err \<Rightarrow> dedicated_failed cx c cur e (te_message err) (te_fatal err) (s, sh)))"

definition pool_use_answered ::
    "'h pass_ctx \<Rightarrow> nat \<Rightarrow> string option \<Rightarrow> event \<Rightarrow> string \<Rightarrow> target_error + nat \<Rightarrow>
      session \<times> 'h shared \<Rightarrow> session \<times> 'h shared" where
  "pool_use_answered cx c cur e db r st =
    (case st of (s, sh) \<Rightarrow>
      (case r of
         Inr n \<Rightarrow>
           (at_pc s (Pool_Exec_Sent c (Some db) e), send c (ev_query e) (served cx c (use_stmt db) sh))
       | Inl err \<Rightarrow> pool_failed cx c cur e (use_error db err) (te_fatal err) (s, sh)))"

definition pool_exec_answered ::
    "'h pass_ctx \<Rightarrow> nat \<Rightarrow> string option \<Rightarrow> event \<Rightarrow> nat \<times> (target_error + exec_outcome) \<Rightarrow>
      session \<times> 'h shared \<Rightarrow> session \<times> 'h shared" where
  "pool_exec_answered cx c db e r st =
    (case st of (s, sh) \<Rightarrow>
      (case snd r of
         Inr out \<Rightarrow>
           (at_pc s Pool_Ready,
            release_permit (checkin c db (ok_event cx e (fst r) out (served cx c (ev_query e) sh))))
       | Inl err \<Rightarrow> pool_failed cx c db e (te_message err) (te_fatal err) (s, sh)))"

definition wakes :: "'h pass_ctx \<Rightarrow> event \<Rightarrow> choice \<Rightarrow> bool" where
  "wakes cx e ch \<longleftrightarrow> (case ch of Wake now \<Rightarrow> is_due cx e now | _ \<Rightarrow> False)"

definition wake_time :: "choice \<Rightarrow> nat" where
  "wake_time ch = (case ch of Wake now \<Rightarrow> now | _ \<Rightarrow> 0)"

definition query_answer :: "choice \<Rightarrow> (target_error + nat) option" where
  "query_answer ch = (case ch of Answer us r \<Rightarrow> Some r | _ \<Rightarrow> None)"

definition connect_answered ::
    "'h pass_ctx \<Rightarrow> event \<Rightarrow> choice \<Rightarrow> session \<times> 'h shared \<Rightarrow> (session \<times> 'h shared) option" where
  "connect_answered cx e ch st =
    (case st of (s, sh) \<Rightarrow>
      (case ch of
         Connected \<Rightarrow>
           Some (at_pc s (Ready (sh_opened sh) None (Some e)), open_conn cx sh)
       | Connect_Failed err \<Rightarrow>
           Some (drop_permit (abandon cx e Finished (s, connect_failure sh)))
       | _ \<Rightarrow> None))"

definition pool_connect_answered ::
    "'h pass_ctx \<Rightarrow> event \<Rightarrow> choice \<Rightarrow> session \<times> 'h shared \<Rightarrow> (session \<times> 'h shared) option" where
  "pool_connect_answered cx e ch st =
    (case st of (s, sh) \<Rightarrow>
      (case ch of
         Connected \<Rightarrow>
           Some (pool_dispatch cx (sh_opened sh) (cx_default_db cx) e (s, open_conn cx sh))
       | Connect_Failed err \<Rightarrow>
           Some (at_pc s Pool_Ready, release_permit (not_run_event cx e (connect_failure sh)))
       | _ \<Rightarrow> None))"

text \<open>From one await to the next. \<open>None\<close>: the task stays where it is, because what it waits for
  is not what \<open>choice\<close> offers. Every \<open>select\<close> is biased towards the abort.\<close>

definition step_at ::
    "'h pass_ctx \<Rightarrow> choice \<Rightarrow> pc \<Rightarrow> session \<Rightarrow> 'h shared \<Rightarrow> (session \<times> 'h shared) option" where
  "step_at cx ch p s sh =
    (case p of
       Start \<Rightarrow> if ch = Go then Some (session_start cx (s, sh)) else None
     | Wait_Due e \<Rightarrow>
         if sh_shutdown sh then (if ch = Go then Some (abandon cx e Finished (s, sh)) else None)
         else if wakes cx e ch then Some (at_pc s (Acquire e), start_waiting sh)
         else None
     | Acquire e \<Rightarrow>
         if ch \<noteq> Go then None
         else if sh_shutdown sh then Some (abandon cx e Finished (s, stop_waiting sh))
         else if 0 < sh_permits sh then Some (at_pc s (Connecting e), take_permit sh)
         else None
     | Connecting e \<Rightarrow> connect_answered cx e ch (s, sh)
     | Ready c cur pending \<Rightarrow>
         if ch = Go then Some (loop_head cx c cur pending (s, sh)) else None
     | Pacing c cur e \<Rightarrow>
         if sh_shutdown sh then (if ch = Go then Some (abandon cx e (Closing c) (s, sh)) else None)
         else if wakes cx e ch then Some (dispatch cx c cur e (s, pace cx e (wake_time ch) sh))
         else None
     | Use_Sent c cur e db \<Rightarrow>
         map_option (\<lambda>r. use_answered cx c cur e db r (s, sh)) (query_answer ch)
     | Exec_Sent c cur e \<Rightarrow>
         map_option (\<lambda>r. exec_answered cx c cur e r (s, sh)) (execute_event cx (ev_query e) ch)
     | Closing c \<Rightarrow> if ch = Go then Some (at_pc s Finished, release_permit sh) else None
     | Pool_Ready \<Rightarrow> if ch = Go then Some (pool_loop_head cx (s, sh)) else None
     | Pool_Pacing e \<Rightarrow>
         if sh_shutdown sh then (if ch = Go then Some (abandon cx e Finished (s, sh)) else None)
         else if wakes cx e ch then Some (pool_paced cx e (s, pace cx e (wake_time ch) sh))
         else None
     | Pool_Acquire e \<Rightarrow>
         if ch \<noteq> Go then None
         else if sh_shutdown sh then Some (abandon cx e Finished (s, stop_waiting sh))
         else if 0 < sh_permits sh then Some (checkout cx e (s, take_permit sh))
         else None
     | Pool_Connecting e \<Rightarrow> pool_connect_answered cx e ch (s, sh)
     | Pool_Use_Sent c cur e db \<Rightarrow>
         map_option (\<lambda>r. pool_use_answered cx c cur e db r (s, sh)) (query_answer ch)
     | Pool_Exec_Sent c db e \<Rightarrow>
         map_option (\<lambda>r. pool_exec_answered cx c db e r (s, sh)) (execute_event cx (ev_query e) ch)
     | Finished \<Rightarrow> None)"

definition session_step ::
    "'h pass_ctx \<Rightarrow> choice \<Rightarrow> session \<Rightarrow> 'h shared \<Rightarrow> (session \<times> 'h shared) option" where
  "session_step cx ch s sh = step_at cx ch (se_pc s) s sh"

section \<open>A pass\<close>

record 'h pass =
  pa_sessions :: "session list"
  pa_shared :: "'h shared"
  pa_samples :: nat
  pa_hits :: nat

text \<open>One task moves; the abort signal arrives; the sampler ticks.\<close>

datatype move = Task nat choice | Abort | Sample

inductive pass_step :: "'h pass_ctx \<Rightarrow> move \<Rightarrow> 'h pass \<Rightarrow> 'h pass \<Rightarrow> bool" for cx where
  task: "i < length (pa_sessions p) \<Longrightarrow>
    session_step cx ch (pa_sessions p ! i) (pa_shared p) = Some (s', sh') \<Longrightarrow>
    pass_step cx (Task i ch) p (p\<lparr>pa_sessions := (pa_sessions p)[i := s'], pa_shared := sh'\<rparr>)"
| abort: "\<not> sh_shutdown (pa_shared p) \<Longrightarrow>
    pass_step cx Abort p (p\<lparr>pa_shared := (pa_shared p)\<lparr>sh_shutdown := True\<rparr>\<rparr>)"
| sample: "pass_step cx Sample p (p\<lparr>pa_samples := pa_samples p + 1,
    pa_hits := pa_hits p +
      (if sh_permits (pa_shared p) = 0 \<and> 0 < sh_waiters (pa_shared p) then 1 else 0)\<rparr>)"

inductive_cases pass_step_cases: "pass_step cx m p q"
inductive_simps pass_step_task: "pass_step cx (Task i ch) p q"

text \<open>A run is the sequence of its moves.\<close>

inductive pass_run :: "'h pass_ctx \<Rightarrow> move list \<Rightarrow> 'h pass \<Rightarrow> 'h pass \<Rightarrow> bool" for cx where
  stop: "pass_run cx [] p p"
| move: "pass_step cx m p q \<Longrightarrow> pass_run cx ms q r \<Longrightarrow> pass_run cx (m # ms) p r"

inductive_simps pass_run_simps: "pass_run cx [] p q" "pass_run cx (m # ms) p q"

definition new_session :: "nat \<Rightarrow> bool \<Rightarrow> (error + event) list \<Rightarrow> session" where
  "new_session sid executable es =
    \<lparr>se_id = sid, se_has_executable = executable, se_events = es, se_pc = Start\<rparr>"

definition new_shared :: "nat \<Rightarrow> bool \<Rightarrow> 'h shared" where
  "new_shared cap shutdown =
    \<lparr>sh_permits = cap, sh_waiters = 0, sh_shutdown = shutdown, sh_metrics = new_metrics,
     sh_lag = new_lag, sh_idle = [], sh_opened = 0, sh_server_db = Map.empty, sh_wire = []\<rparr>"

definition new_pass :: "nat \<Rightarrow> bool \<Rightarrow> session list \<Rightarrow> 'h pass" where
  "new_pass cap shutdown ss =
    \<lparr>pa_sessions = ss, pa_shared = new_shared cap shutdown, pa_samples = 0, pa_hits = 0\<rparr>"

definition pass_done :: "'h pass \<Rightarrow> bool" where
  "pass_done p \<longleftrightarrow> (\<forall>s \<in> set (pa_sessions p). se_pc s = Finished)"

section \<open>Running by computation\<close>

fun do_move :: "'h pass_ctx \<Rightarrow> move \<Rightarrow> 'h pass \<Rightarrow> 'h pass option" where
  "do_move cx (Task i ch) p =
    (if i < length (pa_sessions p) then
       map_option (\<lambda>(s', sh'). p\<lparr>pa_sessions := (pa_sessions p)[i := s'], pa_shared := sh'\<rparr>)
         (session_step cx ch (pa_sessions p ! i) (pa_shared p))
     else None)"
| "do_move cx Abort p =
    (if sh_shutdown (pa_shared p) then None
     else Some (p\<lparr>pa_shared := (pa_shared p)\<lparr>sh_shutdown := True\<rparr>\<rparr>))"
| "do_move cx Sample p = Some (p\<lparr>pa_samples := pa_samples p + 1,
    pa_hits := pa_hits p +
      (if sh_permits (pa_shared p) = 0 \<and> 0 < sh_waiters (pa_shared p) then 1 else 0)\<rparr>)"

lemma do_move_step: "do_move cx m p = Some q \<Longrightarrow> pass_step cx m p q"
  using pass_step.sample [of cx p]
  by (cases m) (auto intro: pass_step.task pass_step.abort simp del: One_nat_def split: if_splits)

fun do_moves :: "'h pass_ctx \<Rightarrow> move list \<Rightarrow> 'h pass \<Rightarrow> 'h pass option" where
  "do_moves cx [] p = Some p"
| "do_moves cx (m # ms) p = (case do_move cx m p of None \<Rightarrow> None | Some q \<Rightarrow> do_moves cx ms q)"

lemma do_moves_run: "do_moves cx ms p = Some q \<Longrightarrow> pass_run cx ms p q"
proof (induction ms arbitrary: p)
  case (Cons m ms)
  then obtain r where r: "do_move cx m p = Some r" "do_moves cx ms r = Some q"
    by (auto split: option.splits)
  show ?case by (rule pass_run.move [OF do_move_step [OF r(1)] Cons.IH [OF r(2)]])
qed (auto intro: pass_run.stop)

end
