(* ===== verification/Replay_Pass.thy ===== *)
theory Replay_Pass
  imports Replay Aggregate
begin

text \<open>
  The entry points of \<open>replay.rs\<close>: the options, the two ways a capture becomes sessions (the spool and
  the in-memory reference), one pass with its report, and the loop over warm-up and repeated
  passes. A pass is run by the sequence of its moves. The database named by a URL, the clock, the
  server's identity and the order in which the table of fingerprints is iterated are arguments.
\<close>

section \<open>Options and outcome\<close>

record replay_options =
  ro_url :: string
  ro_max_connections :: nat
  ro_allow_writes :: bool
  ro_read_only :: bool
  ro_db_override :: "string option"
  ro_speed :: speed
  ro_pool :: "nat option"
  ro_warmup :: bool
  ro_repeat :: nat
  ro_filters :: filters
  ro_spool_dir :: "string option"
  ro_checksum :: bool

definition new_options :: "string \<Rightarrow> replay_options" where
  "new_options url =
    \<lparr>ro_url = url, ro_max_connections = 50, ro_allow_writes = False, ro_read_only = False,
     ro_db_override = None, ro_speed = Max_Speed, ro_pool = None, ro_warmup = False, ro_repeat = 1,
     ro_filters = \<lparr>fi_db = None, fi_user = None, fi_window = None\<rparr>, ro_spool_dir = None,
     ro_checksum = False\<rparr>"

definition connection_cap :: "replay_options \<Rightarrow> nat" where
  "connection_cap o1 = max 1 (case ro_pool o1 of Some n \<Rightarrow> n | None \<Rightarrow> ro_max_connections o1)"

record target_info =
  ti_server_version :: string
  ti_settings :: "(string \<times> string) list"

record replay_outcome =
  oc_passes :: "run_report list"
  oc_aggregated :: "run_report option"

text \<open>\<open>None\<close>: the outcome has no report, a panic.\<close>

definition primary :: "replay_outcome \<Rightarrow> run_report option" where
  "primary oc =
    (case oc_aggregated oc of
       Some r \<Rightarrow> Some r
     | None \<Rightarrow> if oc_passes oc = [] then None else Some (last (oc_passes oc)))"

definition outcome_aborted :: "replay_outcome \<Rightarrow> bool" where
  "outcome_aborted oc \<longleftrightarrow> list_ex rr_aborted (oc_passes oc)"

text \<open>The connections needed must fit under the limit of open files; the error carries what is needed
  and the limit suggested.\<close>

definition check_fd_headroom :: "nat \<Rightarrow> nat \<Rightarrow> (nat \<times> nat) + unit" where
  "check_fd_headroom conns soft_limit =
    (let needed = conns + 32 in
     if soft_limit < needed then Inl (needed, (needed + 1023) div 1024 * 1024) else Inr ())"

section \<open>From a capture to sessions\<close>

definition group_event ::
    "event \<Rightarrow> nat list \<times> (nat \<rightharpoonup> event list) \<Rightarrow> nat list \<times> (nat \<rightharpoonup> event list)" where
  "group_event e st =
    (case st of (order, m) \<Rightarrow>
      case m (ev_session_id e) of
        Some es \<Rightarrow> (order, m(ev_session_id e \<mapsto> es @ [e]))
      | None \<Rightarrow> (order @ [ev_session_id e], m(ev_session_id e \<mapsto> [e])))"

text \<open>The lookup finds every id of the order.\<close>

definition group_sessions :: "event list \<Rightarrow> event list list" where
  "group_sessions es =
    (case fold group_event es ([], Map.empty) of
       (order, m) \<Rightarrow> map (\<lambda>sid. case m sid of Some xs \<Rightarrow> xs | None \<Rightarrow> []) order)"

text \<open>The stream of a cursor: what its \<open>next_event\<close> yields until the end or an error.\<close>

lemma next_event_advances:
  assumes "next_event de raw c = Inr (Some e, c')"
  shows "cu_end c' - cu_pos c' < cu_end c - cu_pos c"
  using assms by (auto simp: next_event_def bind_result_Inr_iff Let_def split: if_splits option.splits)

function cursor_stream :: "(bytes \<Rightarrow> event option) \<Rightarrow> bytes \<Rightarrow> cursor \<Rightarrow> (error + event) list" where
  "cursor_stream de raw c =
    (case next_event de raw c of
       Inl err \<Rightarrow> [Inl err]
     | Inr (r, c') \<Rightarrow> (case r of None \<Rightarrow> [] | Some e \<Rightarrow> Inr e # cursor_stream de raw c'))"
  by pat_completeness auto
termination
  by (relation "measure (\<lambda>(de, raw, c). cu_end c - cu_pos c)") (auto dest: next_event_advances)

declare cursor_stream.simps [simp del]

record capture_info =
  ci_file :: string
  ci_dialect :: string
  ci_fp_texts :: "u32 \<rightharpoonup> string"
  ci_events :: nat
  ci_filtered :: nat
  ci_sessions :: nat
  ci_base_ts_micros :: int

text \<open>Collecting into a hash map keeps the last text of an id.\<close>

definition fp_texts_of :: "summary \<Rightarrow> u32 \<rightharpoonup> string" where
  "fp_texts_of su = map_of (rev (map (\<lambda>e. (fe_id e, fe_text e)) (su_fingerprints su)))"

definition spooled_sessions :: "(bytes \<Rightarrow> event option) \<Rightarrow> spool \<Rightarrow> session list" where
  "spooled_sessions de sp =
    map (\<lambda>s. new_session (ss_session_id s) (ss_has_executable s)
      (cursor_stream de (sp_file sp) (spool_cursor s))) (sp_sessions sp)"

text \<open>\<open>run_replay_with_target\<close> up to its passes: the capture's facts and the sessions of a pass.\<close>

definition spool_replay ::
    "(string \<Rightarrow> capture_record option) \<Rightarrow> (event \<Rightarrow> bytes option) \<Rightarrow> (bytes \<Rightarrow> event option) \<Rightarrow>
      (nat \<Rightarrow> bool) \<Rightarrow> string \<Rightarrow> string option list option \<Rightarrow> replay_options \<Rightarrow>
      error + (capture_info \<times> session list)" where
  "spool_replay dc ser de disk path fl opts =
    bind_result (build_spool dc ser disk fl fl (ro_filters opts) (ro_allow_writes opts)) (\<lambda>sp.
      Inr (\<lparr>ci_file = path, ci_dialect = su_source_dialect (sp_summary sp),
            ci_fp_texts = fp_texts_of (sp_summary sp), ci_events = sp_event_count sp,
            ci_filtered = sp_filtered sp, ci_sessions = length (sp_sessions sp),
            ci_base_ts_micros = sp_base_ts_micros sp\<rparr>,
           spooled_sessions de sp))"

definition memory_session :: "bool \<Rightarrow> event list \<Rightarrow> session" where
  "memory_session allow_writes es =
    new_session (case es of [] \<Rightarrow> 0 | e # _ \<Rightarrow> ev_session_id e)
      (list_ex (\<lambda>e. should_execute (ev_query e) allow_writes) es) (map Inr es)"

text \<open>\<open>run_replay_in_memory_with_target\<close> up to its passes.\<close>

definition memory_replay ::
    "(string \<Rightarrow> capture_record option) \<Rightarrow> string \<Rightarrow> string option list option \<Rightarrow> replay_options \<Rightarrow>
      error + (capture_info \<times> session list)" where
  "memory_replay dc path fl opts =
    bind_result (read_capture dc fl) (\<lambda>(h, su, all).
      let es = filter (filters_match (ro_filters opts)) all;
          filtered = length all - length es;
          grouped = group_sessions es
      in if es = [] \<and> 0 < filtered then Inl (All_Filtered filtered)
         else Inr (\<lparr>ci_file = path, ci_dialect = su_source_dialect su, ci_fp_texts = fp_texts_of su,
                    ci_events = length all - filtered, ci_filtered = filtered,
                    ci_sessions = length grouped,
                    ci_base_ts_micros = (case es of [] \<Rightarrow> 0 | e # r \<Rightarrow> fold min (map ev_ts_micros r) (ev_ts_micros e))\<rparr>,
                   map (memory_session (ro_allow_writes opts)) grouped))"

section \<open>One pass\<close>

record 'h environment =
  en_lib :: "'h hist_lib"
  en_xxh3 :: "bytes \<Rightarrow> u64"
  en_url_db :: "string \<Rightarrow> string option"
  en_effect :: "string \<Rightarrow> string option \<Rightarrow> string option"
  en_tool_version :: string

definition pass_context :: "'h environment \<Rightarrow> capture_info \<Rightarrow> replay_options \<Rightarrow> 'h pass_ctx" where
  "pass_context env cap opts =
    \<lparr>cx_lib = en_lib env, cx_speed = ro_speed opts, cx_base_ts = ci_base_ts_micros cap,
     cx_allow_writes = ro_allow_writes opts, cx_use_event_db = (ro_db_override opts = None),
     cx_checksum = ro_checksum opts, cx_pooled = (ro_pool opts \<noteq> None),
     cx_default_db = (case ro_db_override opts of Some d \<Rightarrow> Some d | None \<Rightarrow> en_url_db env (ro_url opts)),
     cx_effect = en_effect env\<rparr>"

text \<open>When the pass started and ended, as printed, and how long it took.\<close>

record clock =
  kl_started_at :: string
  kl_ended_at :: string
  kl_wall_secs :: f64

definition pacer_report :: "speed \<Rightarrow> lag_agg \<Rightarrow> pacing_report option" where
  "pacer_report sp l = (case sp of Max_Speed \<Rightarrow> None | Factor f \<Rightarrow> Some (lag_report f l))"

definition pass_flags :: "replay_options \<Rightarrow> report_flags" where
  "pass_flags opts =
    \<lparr>rf_max_connections = ro_max_connections opts, rf_allow_writes = ro_allow_writes opts,
     rf_read_only = ro_read_only opts, rf_db_override = ro_db_override opts,
     rf_speed = speed_label (ro_speed opts), rf_checksum = ro_checksum opts, rf_pool = ro_pool opts,
     rf_warmup = ro_warmup opts, rf_filter_db = fi_db (ro_filters opts),
     rf_filter_user = fi_user (ro_filters opts),
     rf_time_window = map_option tw_raw (fi_window (ro_filters opts))\<rparr>"

definition pass_totals :: "capture_info \<Rightarrow> f64 \<Rightarrow> 'h metrics \<Rightarrow> totals" where
  "pass_totals cap wall m =
    \<lparr>to_events = ci_events cap, to_sessions = ci_sessions cap, to_executed = me_executed m,
     to_skipped = me_skipped m, to_errors = me_errors m, to_not_run = me_not_run m,
     to_connect_failures = me_connect_failures m,
     to_qps = (if f64_lt (Fin 0) wall then f64_div (f64_of_nat (me_executed m)) wall else Fin 0),
     to_filtered = ci_filtered cap\<rparr>"

definition pass_saturation :: "nat \<Rightarrow> nat \<Rightarrow> saturation_report" where
  "pass_saturation samples hits =
    \<lparr>sa_samples = samples, sa_saturated_samples = hits,
     sa_saturated_pct =
       (if 0 < samples
        then f64_div (f64_mul (f64_of_nat hits) (f64_of_nat 100)) (f64_of_nat samples) else Fin 0)\<rparr>"

definition pass_report ::
    "'h environment \<Rightarrow> capture_info \<Rightarrow> replay_options \<Rightarrow> target_info \<Rightarrow> clock \<Rightarrow> u32 list \<Rightarrow> 'h pass \<Rightarrow> run_report" where
  "pass_report env cap opts info clk order p =
    (let sh = pa_shared p; m = sh_metrics sh in
     \<lparr>rr_tool = ''sql-replay'', rr_tool_version = en_tool_version env, rr_capture_file = ci_file cap,
      rr_capture_dialect = ci_dialect cap, rr_latency_source = LATENCY_SOURCE_REPLAYED,
      rr_target_url = redact_url (ro_url opts), rr_target_server_version = ti_server_version info,
      rr_started_at = kl_started_at clk, rr_ended_at = kl_ended_at clk,
      rr_wall_secs = kl_wall_secs clk, rr_aborted = sh_shutdown sh, rr_aggregation = None,
      rr_flags = pass_flags opts, rr_totals = pass_totals cap (kl_wall_secs clk) m,
      rr_saturation = pass_saturation (pa_samples p) (pa_hits p),
      rr_pacing = pacer_report (ro_speed opts) (sh_lag sh), rr_target_settings = ti_settings info,
      rr_fingerprints = fingerprint_rows (en_lib env) (en_xxh3 env) (ci_fp_texts cap) order m\<rparr>)"

text \<open>The pass that makes the given moves, \<open>None\<close> when they are not a complete run.\<close>

definition run_pass ::
    "'h environment \<Rightarrow> capture_info \<Rightarrow> replay_options \<Rightarrow> target_info \<Rightarrow> clock \<Rightarrow> u32 list \<Rightarrow> bool \<Rightarrow>
      session list \<Rightarrow> move list \<Rightarrow> run_report option" where
  "run_pass env cap opts info clk order shutdown ss ms =
    (case do_moves (pass_context env cap opts) ms (new_pass (connection_cap opts) shutdown ss) of
       Some p \<Rightarrow> if pass_done p then Some (pass_report env cap opts info clk order p) else None
     | None \<Rightarrow> None)"

section \<open>Warm-up and repetition\<close>

text \<open>\<open>pass k\<close> is the report of the pass run as number \<open>k\<close>, the warm-up included, and \<open>flag k\<close> the
  shutdown flag before it; \<open>None\<close> is a panicked task.\<close>

fun measured :: "(nat \<Rightarrow> run_report option) \<Rightarrow> (nat \<Rightarrow> bool) \<Rightarrow> nat \<Rightarrow> nat \<Rightarrow> run_report list \<Rightarrow> run_report list option" where
  "measured pass flag 0 k passes = Some passes"
| "measured pass flag (Suc n) k passes =
    (if flag k \<and> passes \<noteq> [] then Some passes
     else case pass k of
       None \<Rightarrow> None
     | Some r \<Rightarrow>
         if rr_aborted r then Some (passes @ [r]) else measured pass flag n (k + 1) (passes @ [r]))"

definition measured_outcome :: "nat \<Rightarrow> run_report list \<Rightarrow> replay_outcome option" where
  "measured_outcome reps passes =
    (if 1 < reps then
       map_option (\<lambda>r. \<lparr>oc_passes = passes, oc_aggregated = Some r\<rparr>) (aggregate_median passes)
     else Some \<lparr>oc_passes = passes, oc_aggregated = None\<rparr>)"

definition run_passes ::
    "replay_options \<Rightarrow> (nat \<Rightarrow> run_report option) \<Rightarrow> (nat \<Rightarrow> bool) \<Rightarrow> replay_outcome option" where
  "run_passes opts pass flag =
    (let reps = max 1 (ro_repeat opts) in
     if ro_warmup opts \<and> \<not> flag 0 then
       (case pass 0 of
          None \<Rightarrow> None
        | Some r \<Rightarrow>
            if rr_aborted r then Some \<lparr>oc_passes = [r], oc_aggregated = None\<rparr>
            else Option.bind (measured pass flag reps 1 []) (measured_outcome reps))
     else Option.bind (measured pass flag reps 0 []) (measured_outcome reps))"

end
