(* ===== verification/Replay_Props.thy ===== *)
theory Replay_Props
  imports Replay Metrics_Props
begin

text \<open>
  A pass: every event of every session ends up counted exactly once, permits are conserved, the
  number of moves is bounded and some task can always move, nothing reaches the target that the
  gate does not let through.
\<close>

section \<open>Sums over the sessions\<close>

lemma sum_list_update_nat:
  fixes f :: "'a \<Rightarrow> nat"
  assumes "i < length xs"
  shows "sum_list (map f (xs[i := x])) + f (xs ! i) = sum_list (map f xs) + f x"
  using assms
proof (induction xs arbitrary: i)
  case (Cons y ys)
  then show ?case by (cases i) (auto simp: algebra_simps)
qed simp

text \<open>A quantity of which every session holds a share and the shared state the rest.\<close>

locale conserved =
  fixes cx :: "'h pass_ctx"
    and share :: "session \<Rightarrow> nat"
    and common :: "'h shared \<Rightarrow> nat"
  assumes task_conserves:
      "session_step cx ch s sh = Some (s', sh') \<Longrightarrow> common sh' + share s' = common sh + share s"
    and abort_conserves: "common (sh\<lparr>sh_shutdown := True\<rparr>) = common sh"
begin

definition amount :: "'h pass \<Rightarrow> nat" where
  "amount p = common (pa_shared p) + sum_list (map share (pa_sessions p))"

lemma step_conserves: "pass_step cx m p q \<Longrightarrow> amount q = amount p"
proof (induction rule: pass_step.induct)
  case (task i p ch s' sh')
  show ?case
    using task_conserves [OF task(2)] sum_list_update_nat [OF task(1), of share s']
    by (simp add: amount_def)
qed (simp_all add: amount_def abort_conserves)

lemma run_conserves: "pass_run cx ms p q \<Longrightarrow> amount q = amount p"
  by (induction rule: pass_run.induct) (simp_all add: step_conserves)

end

section \<open>Events\<close>

definition stream_events :: "(error + event) list \<Rightarrow> event list" where
  "stream_events es = concat (map (\<lambda>r. case r of Inl err \<Rightarrow> [] | Inr e \<Rightarrow> [e]) es)"

lemma stream_events_simps [simp]:
  "stream_events [] = []" "stream_events (Inl err # es) = stream_events es"
  "stream_events (Inr e # es) = e # stream_events es"
  by (simp_all add: stream_events_def)

lemma stream_events_map [simp]: "stream_events (map Inr es) = es"
  by (induction es) simp_all

text \<open>The event a task holds.\<close>

fun pc_events :: "pc \<Rightarrow> event list" where
  "pc_events (Wait_Due e) = [e]"
| "pc_events (Acquire e) = [e]"
| "pc_events (Connecting e) = [e]"
| "pc_events (Ready c cur (Some e)) = [e]"
| "pc_events (Pacing c cur e) = [e]"
| "pc_events (Use_Sent c cur e db) = [e]"
| "pc_events (Exec_Sent c cur e) = [e]"
| "pc_events (Pool_Pacing e) = [e]"
| "pc_events (Pool_Acquire e) = [e]"
| "pc_events (Pool_Connecting e) = [e]"
| "pc_events (Pool_Use_Sent c cur e db) = [e]"
| "pc_events (Pool_Exec_Sent c cur e) = [e]"
| "pc_events _ = []"

text \<open>The events of a session that are not counted yet.\<close>

definition open_events :: "session \<Rightarrow> event list" where
  "open_events s = pc_events (se_pc s) @ stream_events (se_events s)"

definition events_tallied :: "u32 option \<Rightarrow> event list \<Rightarrow> nat" where
  "events_tallied g es = length (filter (\<lambda>e. tallied g (ev_fingerprint_id e)) es)"

lemma events_tallied_simps [simp]:
  "events_tallied g [] = 0"
  "events_tallied g (e # es) = (if tallied g (ev_fingerprint_id e) then 1 else 0) + events_tallied g es"
  "events_tallied g (xs @ ys) = events_tallied g xs + events_tallied g ys"
  by (simp_all add: events_tallied_def)

abbreviation counted :: "u32 option \<Rightarrow> 'h shared \<Rightarrow> nat" where
  "counted g sh \<equiv> tally g (sh_metrics sh)"

section \<open>What the parts of a step do\<close>

named_theorems part_simps \<open>the effect of a part of a step on the shared state\<close>

lemmas shared_defs = skip_event_def not_run_event_def fail_event_def ok_event_def on_metrics_def
  release_permit_def take_permit_def start_waiting_def stop_waiting_def connect_failure_def
  send_def served_def checkin_def pace_def

lemma counted_event [part_simps]:
  "counted g (skip_event cx e sh) = counted g sh + events_tallied g [e]"
  "counted g (not_run_event cx e sh) = counted g sh + events_tallied g [e]"
  "counted g (fail_event cx e msg sh) = counted g sh + events_tallied g [e]"
  "counted g (ok_event cx e us out sh) = counted g sh + events_tallied g [e]"
  by (simp_all add: shared_defs tally_steps)

lemma counted_other [part_simps]:
  "counted g (release_permit sh) = counted g sh" "counted g (take_permit sh) = counted g sh"
  "counted g (start_waiting sh) = counted g sh" "counted g (stop_waiting sh) = counted g sh"
  "counted g (connect_failure sh) = counted g sh" "counted g (send c stmt sh) = counted g sh"
  "counted g (served cx c stmt sh) = counted g sh" "counted g (checkin c db sh) = counted g sh"
  "counted g (pace cx e now sh) = counted g sh"
  by (simp_all add: shared_defs split: option.splits)

lemma permits_parts [part_simps]:
  "sh_permits (skip_event cx e sh) = sh_permits sh" "sh_permits (not_run_event cx e sh) = sh_permits sh"
  "sh_permits (fail_event cx e msg sh) = sh_permits sh" "sh_permits (ok_event cx e us out sh) = sh_permits sh"
  "sh_permits (release_permit sh) = sh_permits sh + 1" "sh_permits (take_permit sh) = sh_permits sh - 1"
  "sh_permits (start_waiting sh) = sh_permits sh" "sh_permits (stop_waiting sh) = sh_permits sh"
  "sh_permits (connect_failure sh) = sh_permits sh" "sh_permits (send c stmt sh) = sh_permits sh"
  "sh_permits (served cx c stmt sh) = sh_permits sh" "sh_permits (checkin c db sh) = sh_permits sh"
  "sh_permits (pace cx e now sh) = sh_permits sh"
  by (simp_all add: shared_defs split: option.splits)

lemma idle_parts [part_simps]:
  "sh_idle (skip_event cx e sh) = sh_idle sh" "sh_idle (not_run_event cx e sh) = sh_idle sh"
  "sh_idle (fail_event cx e msg sh) = sh_idle sh" "sh_idle (ok_event cx e us out sh) = sh_idle sh"
  "sh_idle (release_permit sh) = sh_idle sh" "sh_idle (take_permit sh) = sh_idle sh"
  "sh_idle (start_waiting sh) = sh_idle sh" "sh_idle (stop_waiting sh) = sh_idle sh"
  "sh_idle (connect_failure sh) = sh_idle sh" "sh_idle (send c stmt sh) = sh_idle sh"
  "sh_idle (served cx c stmt sh) = sh_idle sh" "sh_idle (checkin c db sh) = sh_idle sh @ [(c, db)]"
  "sh_idle (pace cx e now sh) = sh_idle sh"
  by (simp_all add: shared_defs split: option.splits)

lemma wire_parts [part_simps]:
  "sh_wire (skip_event cx e sh) = sh_wire sh" "sh_wire (not_run_event cx e sh) = sh_wire sh"
  "sh_wire (fail_event cx e msg sh) = sh_wire sh" "sh_wire (ok_event cx e us out sh) = sh_wire sh"
  "sh_wire (release_permit sh) = sh_wire sh" "sh_wire (take_permit sh) = sh_wire sh"
  "sh_wire (start_waiting sh) = sh_wire sh" "sh_wire (stop_waiting sh) = sh_wire sh"
  "sh_wire (connect_failure sh) = sh_wire sh" "sh_wire (send c stmt sh) = sh_wire sh @ [(c, stmt)]"
  "sh_wire (served cx c stmt sh) = sh_wire sh" "sh_wire (checkin c db sh) = sh_wire sh"
  "sh_wire (pace cx e now sh) = sh_wire sh"
  by (simp_all add: shared_defs split: option.splits)

lemma connection_parts [part_simps]:
  "sh_server_db (skip_event cx e sh) = sh_server_db sh" "sh_opened (skip_event cx e sh) = sh_opened sh"
  "sh_server_db (not_run_event cx e sh) = sh_server_db sh"
  "sh_opened (not_run_event cx e sh) = sh_opened sh"
  "sh_server_db (fail_event cx e msg sh) = sh_server_db sh"
  "sh_opened (fail_event cx e msg sh) = sh_opened sh"
  "sh_server_db (ok_event cx e us out sh) = sh_server_db sh"
  "sh_opened (ok_event cx e us out sh) = sh_opened sh"
  "sh_server_db (release_permit sh) = sh_server_db sh" "sh_opened (release_permit sh) = sh_opened sh"
  "sh_server_db (take_permit sh) = sh_server_db sh" "sh_opened (take_permit sh) = sh_opened sh"
  "sh_server_db (start_waiting sh) = sh_server_db sh" "sh_opened (start_waiting sh) = sh_opened sh"
  "sh_server_db (stop_waiting sh) = sh_server_db sh" "sh_opened (stop_waiting sh) = sh_opened sh"
  "sh_server_db (connect_failure sh) = sh_server_db sh" "sh_opened (connect_failure sh) = sh_opened sh"
  "sh_server_db (send c stmt sh) = sh_server_db sh" "sh_opened (send c stmt sh) = sh_opened sh"
  "sh_opened (served cx c stmt sh) = sh_opened sh"
  "sh_server_db (served cx c stmt sh) =
    (sh_server_db sh)(c := cx_effect cx stmt (sh_server_db sh c))"
  "sh_server_db (checkin c db sh) = sh_server_db sh" "sh_opened (checkin c db sh) = sh_opened sh"
  "sh_server_db (pace cx e now sh) = sh_server_db sh" "sh_opened (pace cx e now sh) = sh_opened sh"
  by (simp_all add: shared_defs split: option.splits)

lemma at_pc_simps [simp]:
  "se_pc (at_pc s p) = p" "se_events (at_pc s p) = se_events s" "se_id (at_pc s p) = se_id s"
  "se_has_executable (at_pc s p) = se_has_executable s"
  by (simp_all add: at_pc_def)

lemma drain_recording_effect:
  assumes "drain_recording cx how es sh = (sh', es')"
  shows "counted g sh' + events_tallied g (stream_events es') = counted g sh + events_tallied g (stream_events es)"
    and "sh_permits sh' = sh_permits sh" and "sh_idle sh' = sh_idle sh" and "sh_wire sh' = sh_wire sh"
    and "length es' \<le> length es" and "es' = [] \<or> (\<exists>err rest. es' = Inl err # rest)"
    and "sh_server_db sh' = sh_server_db sh" and "sh_opened sh' = sh_opened sh"
    and "set es' \<subseteq> set es"
  using assms
  by (induction cx how es sh rule: drain_recording.induct) (auto simp: part_simps split: drain_as.splits)

lemma drain_session_effect:
  assumes "drain_session cx how p (s, sh) = (s', sh')"
  shows "counted g sh' + events_tallied g (stream_events (se_events s')) =
      counted g sh + events_tallied g (stream_events (se_events s))"
    and "se_pc s' = p" and "se_id s' = se_id s"
    and "sh_permits sh' = sh_permits sh" and "sh_idle sh' = sh_idle sh" and "sh_wire sh' = sh_wire sh"
    and "length (se_events s') \<le> length (se_events s)"
    and "se_events s' = [] \<or> (\<exists>err rest. se_events s' = Inl err # rest)"
    and "sh_server_db sh' = sh_server_db sh" and "sh_opened sh' = sh_opened sh"
    and "set (se_events s') \<subseteq> set (se_events s)"
  using assms by (auto simp: drain_session_def dest: drain_recording_effect
      drain_recording_effect(9) [THEN subsetD] split: prod.splits)

section \<open>Every event is counted once\<close>

definition balance :: "u32 option \<Rightarrow> session \<times> 'h shared \<Rightarrow> nat" where
  "balance g st = counted g (snd st) + events_tallied g (open_events (fst st))"

named_theorems balanced \<open>what the parts of a step make of the balance\<close>

lemma balance_pair [balanced]:
  "balance g (at_pc s p, sh) =
    counted g sh + events_tallied g (pc_events p) + events_tallied g (stream_events (se_events s))"
  "balance g (s\<lparr>se_events := es, se_pc := p\<rparr>, sh) =
    counted g sh + events_tallied g (pc_events p) + events_tallied g (stream_events es)"
  by (simp_all add: balance_def open_events_def)

lemma balance_drain [balanced]:
  assumes "pc_events p = []"
  shows "balance g (drain_session cx how p (s, sh)) =
    counted g sh + events_tallied g (stream_events (se_events s))"
proof (cases "drain_session cx how p (s, sh)")
  case (Pair s' sh')
  then show ?thesis
    using drain_session_effect(1,2) [OF Pair] assms by (simp add: balance_def open_events_def)
qed

lemma balance_abandon [balanced]:
  assumes "pc_events p = []"
  shows "balance g (abandon cx e p (s, sh)) =
    counted g sh + events_tallied g [e] + events_tallied g (stream_events (se_events s))"
  by (simp add: abandon_def balance_drain [OF assms] counted_event)

lemma balance_release [balanced]: "balance g (drop_permit st) = balance g st"
  by (simp add: balance_def drop_permit_def counted_other)

lemma balance_dispatch [balanced]:
  "balance g (dispatch cx c cur e (s, sh)) =
    counted g sh + events_tallied g [e] + events_tallied g (stream_events (se_events s))"
  by (simp add: dispatch_def balanced part_simps split: option.splits)

lemma balance_loop_head [balanced]:
  "balance g (loop_head cx c cur pending (s, sh)) =
    counted g sh + events_tallied g (pc_events (Ready c cur pending)) +
      events_tallied g (stream_events (se_events s))"
  by (cases pending) (auto simp: loop_head_def balanced split: option.splits list.splits sum.splits)

lemma balance_failed [balanced]:
  "balance g (dedicated_failed cx c cur e msg fatal (s, sh)) =
    counted g sh + events_tallied g [e] + events_tallied g (stream_events (se_events s))"
  "balance g (pool_failed cx c cur e msg fatal (s, sh)) =
    counted g sh + events_tallied g [e] + events_tallied g (stream_events (se_events s))"
  by (simp_all add: dedicated_failed_def pool_failed_def Let_def balanced part_simps)

lemma balance_answered [balanced]:
  "balance g (use_answered cx c cur e db r (s, sh)) =
    counted g sh + events_tallied g [e] + events_tallied g (stream_events (se_events s))"
  "balance g (exec_answered cx c cur e x (s, sh)) =
    counted g sh + events_tallied g [e] + events_tallied g (stream_events (se_events s))"
  "balance g (pool_use_answered cx c cur e db r (s, sh)) =
    counted g sh + events_tallied g [e] + events_tallied g (stream_events (se_events s))"
  "balance g (pool_exec_answered cx c cur e x (s, sh)) =
    counted g sh + events_tallied g [e] + events_tallied g (stream_events (se_events s))"
  by (simp_all add: use_answered_def exec_answered_def pool_use_answered_def pool_exec_answered_def
      balanced part_simps split: sum.splits prod.splits)

lemma balance_pool_parts [balanced]:
  "balance g (pool_dispatch cx c cur e (s, sh)) =
    counted g sh + events_tallied g [e] + events_tallied g (stream_events (se_events s))"
  "balance g (pool_paced cx e (s, sh)) =
    counted g sh + events_tallied g [e] + events_tallied g (stream_events (se_events s))"
  "balance g (pool_loop_head cx (s, sh)) = counted g sh + events_tallied g (stream_events (se_events s))"
  by (auto simp: pool_dispatch_def pool_paced_def pool_loop_head_def balanced part_simps
      split: option.splits list.splits sum.splits)

lemma balance_checkout [balanced]:
  "balance g (checkout cx e (s, sh)) =
    counted g sh + events_tallied g [e] + events_tallied g (stream_events (se_events s))"
  by (simp add: checkout_def balanced part_simps split: prod.splits)

lemma balance_start [balanced]:
  "balance g (session_start cx (s, sh)) = counted g sh + events_tallied g (stream_events (se_events s))"
  by (auto simp: session_start_def balanced split: list.splits sum.splits)

lemma balance_connected [balanced]:
  "connect_answered cx e ch (s, sh) = Some st \<Longrightarrow> balance g st =
    counted g sh + events_tallied g [e] + events_tallied g (stream_events (se_events s))"
  "pool_connect_answered cx e ch (s, sh) = Some st \<Longrightarrow> balance g st =
    counted g sh + events_tallied g [e] + events_tallied g (stream_events (se_events s))"
  by (auto simp: connect_answered_def pool_connect_answered_def open_conn_def balanced part_simps
      split: choice.splits)

lemma balance_step:
  assumes "session_step cx ch s sh = Some st"
  shows "balance g st = balance g (s, sh)"
proof -
  have pre: "balance g (s, sh) = counted g sh + events_tallied g (pc_events (se_pc s)) +
      events_tallied g (stream_events (se_events s))"
    by (simp add: balance_def open_events_def)
  show ?thesis
    using assms unfolding session_step_def step_at_def pre
    by (cases "se_pc s")
      (auto simp: balanced part_simps split: if_splits)
qed

interpretation events: conserved cx "\<lambda>s. events_tallied g (open_events s)" "counted g" for cx g
proof
  show "counted g sh' + events_tallied g (open_events s') = counted g sh + events_tallied g (open_events s)"
    if "session_step cx ch s sh = Some (s', sh')" for ch s sh s' sh'
    using balance_step [OF that, of g] by (simp add: balance_def)
qed simp

section \<open>Permits\<close>

fun holds :: "pc \<Rightarrow> nat" where
  "holds (Connecting e) = 1"
| "holds (Ready c cur pending) = 1"
| "holds (Pacing c cur e) = 1"
| "holds (Use_Sent c cur e db) = 1"
| "holds (Exec_Sent c cur e) = 1"
| "holds (Closing c) = 1"
| "holds (Pool_Connecting e) = 1"
| "holds (Pool_Use_Sent c cur e db) = 1"
| "holds (Pool_Exec_Sent c cur e) = 1"
| "holds _ = 0"

definition permits :: "session \<times> 'h shared \<Rightarrow> nat" where
  "permits st = sh_permits (snd st) + holds (se_pc (fst st))"

lemma permits_pair [part_simps]:
  "permits (at_pc s p, sh) = sh_permits sh + holds p"
  "permits (s\<lparr>se_events := es, se_pc := p\<rparr>, sh) = sh_permits sh + holds p"
  by (simp_all add: permits_def)

lemma permits_drain [part_simps]:
  "permits (drain_session cx how p (s, sh)) = sh_permits sh + holds p"
proof (cases "drain_session cx how p (s, sh)")
  case (Pair s' sh')
  then show ?thesis using drain_session_effect(2,4) [OF Pair] by (simp add: permits_def)
qed

lemma permits_release [part_simps]: "permits (drop_permit st) = permits st + 1"
  by (simp add: permits_def drop_permit_def permits_parts)

lemma permits_abandon [part_simps]:
  "permits (abandon cx e p (s, sh)) = sh_permits sh + holds p"
  by (simp add: abandon_def part_simps)

lemma permits_loop [part_simps]:
  "permits (loop_head cx c cur pending (s, sh)) = sh_permits sh + 1"
  "permits (dispatch cx c cur e (s, sh)) = sh_permits sh + 1"
  by (auto simp: loop_head_def dispatch_def part_simps
      split: option.splits list.splits sum.splits)

lemma permits_answered [part_simps]:
  "permits (dedicated_failed cx c cur e msg fatal (s, sh)) = sh_permits sh + 1"
  "permits (pool_failed cx c cur e msg fatal (s, sh)) = sh_permits sh + 1"
  "permits (use_answered cx c cur e db r (s, sh)) = sh_permits sh + 1"
  "permits (exec_answered cx c cur e x (s, sh)) = sh_permits sh + 1"
  "permits (pool_use_answered cx c cur e db r (s, sh)) = sh_permits sh + 1"
  "permits (pool_exec_answered cx c cur e x (s, sh)) = sh_permits sh + 1"
proof -
  show f: "permits (dedicated_failed cx c cur e msg fatal (s, sh)) = sh_permits sh + 1"
    "permits (pool_failed cx c cur e msg fatal (s, sh)) = sh_permits sh + 1" for msg fatal
    by (simp_all add: dedicated_failed_def pool_failed_def Let_def part_simps)
  show "permits (use_answered cx c cur e db r (s, sh)) = sh_permits sh + 1"
    "permits (exec_answered cx c cur e x (s, sh)) = sh_permits sh + 1"
    "permits (pool_use_answered cx c cur e db r (s, sh)) = sh_permits sh + 1"
    "permits (pool_exec_answered cx c cur e x (s, sh)) = sh_permits sh + 1"
    by (simp_all add: use_answered_def exec_answered_def pool_use_answered_def pool_exec_answered_def
        f part_simps split: sum.splits prod.splits)
qed

lemma permits_pool [part_simps]:
  "permits (pool_dispatch cx c cur e (s, sh)) = sh_permits sh + 1"
  "permits (pool_paced cx e (s, sh)) = sh_permits sh"
  "permits (pool_loop_head cx (s, sh)) = sh_permits sh"
  "permits (checkout cx e (s, sh)) = sh_permits sh + 1"
  "permits (session_start cx (s, sh)) = sh_permits sh"
  by (auto simp: pool_dispatch_def pool_paced_def pool_loop_head_def checkout_def session_start_def
      part_simps permits_pair split: option.splits list.splits sum.splits prod.splits)

lemma permits_connected [part_simps]:
  "connect_answered cx e ch (s, sh) = Some st \<Longrightarrow> permits st = sh_permits sh + 1"
  "pool_connect_answered cx e ch (s, sh) = Some st \<Longrightarrow> permits st = sh_permits sh + 1"
  by (auto simp: connect_answered_def pool_connect_answered_def open_conn_def part_simps
      split: choice.splits)

lemma permits_step:
  assumes "session_step cx ch s sh = Some st"
  shows "permits st = permits (s, sh)"
proof -
  have pre: "permits (s, sh) = sh_permits sh + holds (se_pc s)" by (simp add: permits_def)
  show ?thesis
    using assms unfolding session_step_def step_at_def pre
    by (cases "se_pc s") (auto simp: part_simps split: if_splits)
qed

interpretation permit: conserved cx "\<lambda>s. holds (se_pc s)" sh_permits for cx
proof
  show "sh_permits sh' + holds (se_pc s') = sh_permits sh + holds (se_pc s)"
    if "session_step cx ch s sh = Some (s', sh')" for ch s sh s' sh'
    using permits_step [OF that] by (simp add: permits_def)
qed simp

end
