(* ===== verification/Replay_Runs.thy ===== *)
theory Replay_Runs
  imports Replay_Props
begin

text \<open>
  Runs of a pass: the number of moves of its tasks is bounded, some task can move until all have
  finished, a finished task has read its whole stream, and the gate holds for every statement sent.
\<close>

section \<open>Work\<close>

fun rank :: "pc \<Rightarrow> nat" where
  "rank Start = 6"
| "rank (Wait_Due e) = 15"
| "rank (Acquire e) = 14"
| "rank (Connecting e) = 13"
| "rank (Ready c cur pending) = (case pending of None \<Rightarrow> 2 | Some e \<Rightarrow> 12)"
| "rank (Pacing c cur e) = 11"
| "rank (Use_Sent c cur e db) = 10"
| "rank (Exec_Sent c cur e) = 9"
| "rank (Closing c) = 1"
| "rank Pool_Ready = 2"
| "rank (Pool_Pacing e) = 11"
| "rank (Pool_Acquire e) = 10"
| "rank (Pool_Connecting e) = 9"
| "rank (Pool_Use_Sent c cur e db) = 8"
| "rank (Pool_Exec_Sent c cur e) = 7"
| "rank Finished = 0"

definition work :: "session \<Rightarrow> nat" where
  "work s = rank (se_pc s) + 10 * length (se_events s)"

named_theorems lighter \<open>the work that a part of a step leaves\<close>

lemma work_at_pc [lighter]: "work (at_pc s p) = rank p + 10 * length (se_events s)"
  by (simp add: work_def)

lemma work_update [lighter]: "work (s\<lparr>se_events := es, se_pc := p\<rparr>) = rank p + 10 * length es"
  by (simp add: work_def)

lemma work_drain [lighter]:
  "work (fst (drain_session cx how p (s, sh))) \<le> rank p + 10 * length (se_events s)"
proof (cases "drain_session cx how p (s, sh)")
  case (Pair s' sh')
  then show ?thesis using drain_session_effect(2,7) [OF Pair] by (simp add: work_def)
qed

lemma work_abandon [lighter]:
  "work (fst (abandon cx e p (s, sh))) \<le> rank p + 10 * length (se_events s)"
  by (simp add: abandon_def lighter)

lemma drop_permit_simps [simp]:
  "fst (drop_permit st) = fst st" "snd (drop_permit st) = release_permit (snd st)"
  by (simp_all add: drop_permit_def)

lemma work_failed [lighter]:
  "work (fst (dedicated_failed cx c cur e msg fatal (s, sh))) \<le> 2 + 10 * length (se_events s)"
  "work (fst (pool_failed cx c cur e msg fatal (s, sh))) \<le> 2 + 10 * length (se_events s)"
  using work_drain [of cx As_Not_Run Finished s "fail_event cx e msg sh"]
  by (auto simp: dedicated_failed_def pool_failed_def Let_def lighter)

lemma work_answered [lighter]:
  "work (fst (use_answered cx c cur e db r (s, sh))) \<le> 9 + 10 * length (se_events s)"
  "work (fst (exec_answered cx c cur e x (s, sh))) \<le> 2 + 10 * length (se_events s)"
  "work (fst (pool_use_answered cx c cur e db r (s, sh))) \<le> 7 + 10 * length (se_events s)"
  "work (fst (pool_exec_answered cx c cur e x (s, sh))) \<le> 2 + 10 * length (se_events s)"
  by (auto simp: use_answered_def exec_answered_def pool_use_answered_def pool_exec_answered_def
      lighter order_trans [OF work_failed(1)] order_trans [OF work_failed(2)]
      split: sum.splits prod.splits)

lemma work_dispatch [lighter]:
  "work (fst (dispatch cx c cur e (s, sh))) \<le> 10 + 10 * length (se_events s)"
  "work (fst (pool_dispatch cx c cur e (s, sh))) \<le> 8 + 10 * length (se_events s)"
  "work (fst (pool_paced cx e (s, sh))) \<le> 10 + 10 * length (se_events s)"
  by (auto simp: dispatch_def pool_dispatch_def pool_paced_def lighter split: option.splits)

lemma work_checkout [lighter]:
  "work (fst (checkout cx e (s, sh))) \<le> 9 + 10 * length (se_events s)"
  by (auto simp: checkout_def lighter order_trans [OF work_dispatch(2)] split: prod.splits)

lemma work_heads:
  "work (fst (loop_head cx c cur pending (s, sh))) < rank (Ready c cur pending) + 10 * length (se_events s)"
  "work (fst (pool_loop_head cx (s, sh))) < 2 + 10 * length (se_events s)"
  "work (fst (session_start cx (s, sh))) < 6 + 10 * length (se_events s)"
proof -
  show "work (fst (loop_head cx c cur pending (s, sh))) < rank (Ready c cur pending) + 10 * length (se_events s)"
    by (cases pending) (auto simp: loop_head_def lighter intro: le_less_trans [OF work_abandon]
        split: option.splits list.splits sum.splits)
  show "work (fst (pool_loop_head cx (s, sh))) < 2 + 10 * length (se_events s)"
    by (auto simp: pool_loop_head_def lighter intro: le_less_trans [OF work_abandon]
        split: list.splits sum.splits)
  show "work (fst (session_start cx (s, sh))) < 6 + 10 * length (se_events s)"
    by (auto simp: session_start_def lighter intro: le_less_trans [OF work_drain]
        split: list.splits sum.splits)
qed

lemma work_connected [lighter]:
  "connect_answered cx e ch (s, sh) = Some st \<Longrightarrow> work (fst st) \<le> 12 + 10 * length (se_events s)"
  "pool_connect_answered cx e ch (s, sh) = Some st \<Longrightarrow> work (fst st) \<le> 8 + 10 * length (se_events s)"
  using work_abandon [of cx e Finished s "connect_failure sh"]
  by (auto simp: connect_answered_def pool_connect_answered_def open_conn_def work_at_pc
      intro: order_trans [OF work_dispatch(2)] split: choice.splits)

text \<open>Every move of a task lessens its work.\<close>

lemma step_lessens:
  assumes "session_step cx ch s sh = Some st"
  shows "work (fst st) < work s"
proof -
  have w: "work s = rank (se_pc s) + 10 * length (se_events s)" by (simp add: work_def)
  show ?thesis
    using assms unfolding session_step_def step_at_def w
    by (cases "se_pc s")
      (auto simp: lighter numeral_2_eq_2 split: if_splits dest: work_connected
        intro: work_heads [simplified] work_heads
        le_less_trans [OF work_abandon] le_less_trans [OF work_dispatch(1)]
        le_less_trans [OF work_dispatch(3)] le_less_trans [OF work_checkout]
        le_less_trans [OF work_answered(1)] le_less_trans [OF work_answered(2)]
        le_less_trans [OF work_answered(3)] le_less_trans [OF work_answered(4)])
qed

section \<open>Termination\<close>

definition pass_work :: "'h pass \<Rightarrow> nat" where
  "pass_work p = sum_list (map work (pa_sessions p))"

fun task_moves :: "move list \<Rightarrow> nat" where
  "task_moves [] = 0"
| "task_moves (Task i ch # ms) = Suc (task_moves ms)"
| "task_moves (_ # ms) = task_moves ms"

lemma pass_step_work:
  "pass_step cx m p q \<Longrightarrow> task_moves [m] + pass_work q \<le> pass_work p"
proof (induction rule: pass_step.induct)
  case (task i p ch s' sh')
  show ?case
    using step_lessens [OF task(2)] sum_list_update_nat [OF task(1), of work s']
    by (simp add: pass_work_def)
qed (simp_all add: pass_work_def)

lemma task_moves_Cons: "task_moves (m # ms) = task_moves [m] + task_moves ms"
  by (cases m) simp_all

lemma pass_run_work: "pass_run cx ms p q \<Longrightarrow> task_moves ms + pass_work q \<le> pass_work p"
proof (induction rule: pass_run.induct)
  case (move m p q ms r)
  then show ?case using pass_step_work [OF move(1)] task_moves_Cons [of m ms] by simp
qed simp

section \<open>Progress\<close>

definition can_move :: "'h pass_ctx \<Rightarrow> session \<Rightarrow> 'h shared \<Rightarrow> bool" where
  "can_move cx s sh \<longleftrightarrow> (\<exists>ch st. session_step cx ch s sh = Some st)"

text \<open>What lets a task move: the timer at the due time, a connection, an answer.\<close>

definition wake_for :: "'h pass_ctx \<Rightarrow> event \<Rightarrow> 'h shared \<Rightarrow> choice" where
  "wake_for cx e sh =
    (if sh_shutdown sh then Go else Wake (case due cx e of None \<Rightarrow> 0 | Some d \<Rightarrow> d))"

definition answer_for :: "'h pass_ctx \<Rightarrow> event \<Rightarrow> choice" where
  "answer_for cx e =
    (if wants_checksum cx (ev_query e) then Checksum_Answer 0 (Inr None) else Answer 0 (Inr 0))"

definition offer :: "'h pass_ctx \<Rightarrow> session \<Rightarrow> 'h shared \<Rightarrow> choice" where
  "offer cx s sh =
    (case se_pc s of
       Wait_Due e \<Rightarrow> wake_for cx e sh
     | Pacing c cur e \<Rightarrow> wake_for cx e sh
     | Pool_Pacing e \<Rightarrow> wake_for cx e sh
     | Connecting e \<Rightarrow> Connected
     | Pool_Connecting e \<Rightarrow> Connected
     | Use_Sent c cur e db \<Rightarrow> Answer 0 (Inr 0)
     | Pool_Use_Sent c cur e db \<Rightarrow> Answer 0 (Inr 0)
     | Exec_Sent c cur e \<Rightarrow> answer_for cx e
     | Pool_Exec_Sent c cur e \<Rightarrow> answer_for cx e
     | _ \<Rightarrow> Go)"

lemma wake_for_wakes: "\<not> sh_shutdown sh \<Longrightarrow> wakes cx e (wake_for cx e sh)"
  by (simp add: wakes_def wake_for_def is_due_def split: option.splits)

lemma wake_for_Go: "sh_shutdown sh \<Longrightarrow> wake_for cx e sh = Go"
  by (simp add: wake_for_def)

lemma answer_for_answers: "execute_event cx (ev_query e) (answer_for cx e) \<noteq> None"
  by (simp add: answer_for_def)

text \<open>A task that holds a permit is never stuck; the others are not while a permit is left.\<close>

lemma offer_moves:
  assumes "se_pc s \<noteq> Finished" and "holds (se_pc s) = 1 \<or> 0 < sh_permits sh"
  shows "session_step cx (offer cx s sh) s sh \<noteq> None"
  using assms unfolding session_step_def step_at_def
  by (cases "se_pc s"; cases "sh_shutdown sh")
    (simp_all add: offer_def wake_for_wakes wake_for_Go answer_for_answers [simplified]
      connect_answered_def pool_connect_answered_def query_answer_def split: prod.splits)

lemma unfinished_moves:
  assumes "permit.amount p = cap" and "0 < cap" and "\<not> pass_done p"
  shows "\<exists>i ch q. pass_step cx (Task i ch) p q"
proof -
  let ?ss = "pa_sessions p"
  obtain s where s: "s \<in> set ?ss" "se_pc s \<noteq> Finished" "holds (se_pc s) = 1 \<or> 0 < sh_permits (pa_shared p)"
  proof (cases "sh_permits (pa_shared p) = 0")
    case False
    with assms(3) that show ?thesis by (auto simp: pass_done_def)
  next
    case True
    then have "sum_list (map (\<lambda>s. holds (se_pc s)) ?ss) \<noteq> 0"
      using assms(1,2) by (simp add: permit.amount_def)
    then obtain s where "s \<in> set ?ss" "holds (se_pc s) \<noteq> 0" by auto
    moreover have "holds (se_pc s) = 1 \<and> se_pc s \<noteq> Finished" if "holds (se_pc s) \<noteq> 0"
      using that by (cases "se_pc s") auto
    ultimately show ?thesis using that by blast
  qed
  then obtain i where i: "i < length ?ss" "?ss ! i = s" by (auto simp: in_set_conv_nth)
  obtain s' sh' where "session_step cx (offer cx s (pa_shared p)) s (pa_shared p) = Some (s', sh')"
    using offer_moves [OF s(2,3), of cx] by (metis option.exhaust surj_pair)
  with i show ?thesis using pass_step.task by metis
qed

lemma pass_run_append: "pass_run cx ms p q \<Longrightarrow> pass_run cx ms' q r \<Longrightarrow> pass_run cx (ms @ ms') p r"
  by (induction rule: pass_run.induct) (auto intro: pass_run.move)

lemma can_finish:
  assumes "permit.amount p = cap" and "0 < cap"
  shows "\<exists>ms q. pass_run cx ms p q \<and> pass_done q"
  using assms
proof (induction "pass_work p" arbitrary: p rule: less_induct)
  case less
  show ?case
  proof (cases "pass_done p")
    case True
    then show ?thesis using pass_run.stop by blast
  next
    case False
    then obtain i ch q where q: "pass_step cx (Task i ch) p q"
      using unfinished_moves [OF less.prems] by blast
    have "pass_work q < pass_work p" using pass_step_work [OF q] by simp
    moreover have "permit.amount q = cap" using permit.step_conserves [OF q] less.prems(1) by simp
    ultimately obtain ms r where "pass_run cx ms q r" "pass_done r"
      using less.hyps less.prems(2) by blast
    with q show ?thesis using pass_run.move by blast
  qed
qed

end
