(* ===== verification/Replay_Guards.thy ===== *)
theory Replay_Guards
  imports Replay_Runs
begin

text \<open>
  What every reachable state of a pass satisfies: a finished task has read its stream to the end,
  every statement that was sent passed the gate.
\<close>

section \<open>Invariants of sessions and of the shared state\<close>

locale guarded =
  fixes cx :: "'h pass_ctx"
    and own :: "session \<Rightarrow> bool"
    and common :: "'h shared \<Rightarrow> bool"
  assumes task_keeps:
      "own s \<Longrightarrow> common sh \<Longrightarrow> session_step cx ch s sh = Some (s', sh') \<Longrightarrow> own s' \<and> common sh'"
    and abort_keeps: "common sh \<Longrightarrow> common (sh\<lparr>sh_shutdown := True\<rparr>)"
begin

definition kept :: "'h pass \<Rightarrow> bool" where
  "kept p \<longleftrightarrow> (\<forall>s \<in> set (pa_sessions p). own s) \<and> common (pa_shared p)"

lemma step_keeps: "pass_step cx m p q \<Longrightarrow> kept p \<Longrightarrow> kept q"
proof (induction rule: pass_step.induct)
  case (task i p ch s' sh')
  then have "own (pa_sessions p ! i)" "common (pa_shared p)" by (simp_all add: kept_def)
  then have "own s' \<and> common sh'" using task_keeps [OF _ _ task(2)] by blast
  with task.prems show ?case by (auto simp: kept_def dest: set_update_subset_insert [THEN subsetD])
qed (simp_all add: kept_def abort_keeps)

lemma run_keeps: "pass_run cx ms p q \<Longrightarrow> kept p \<Longrightarrow> kept q"
  by (induction rule: pass_run.induct) (simp_all add: step_keeps)

end

text \<open>The parts of a step; those that look at an answer are treated apart.\<close>

lemmas answer_parts = use_answered_def exec_answered_def pool_use_answered_def pool_exec_answered_def
  dedicated_failed_def pool_failed_def Let_def

lemmas step_parts = session_start_def abandon_def loop_head_def dispatch_def pool_dispatch_def
  pool_loop_head_def pool_paced_def checkout_def connect_answered_def pool_connect_answered_def

section \<open>Streams are read to their end\<close>

definition clean_stream :: "(error + event) list \<Rightarrow> bool" where
  "clean_stream es \<longleftrightarrow> (\<forall>r \<in> set es. \<exists>e. r = Inr e)"

lemma clean_stream_simps [simp]:
  "clean_stream []" "clean_stream (Inr e # es) \<longleftrightarrow> clean_stream es" "\<not> clean_stream (Inl err # es)"
  "clean_stream (map Inr evs)"
  by (auto simp: clean_stream_def)

fun leaving :: "pc \<Rightarrow> bool" where
  "leaving (Closing c) \<longleftrightarrow> True"
| "leaving Finished \<longleftrightarrow> True"
| "leaving _ \<longleftrightarrow> False"

definition reads_on :: "session \<Rightarrow> bool" where
  "reads_on s \<longleftrightarrow> clean_stream (se_events s) \<and> (leaving (se_pc s) \<longrightarrow> se_events s = [])"

lemma drain_clean:
  "clean_stream es \<Longrightarrow> snd (drain_recording cx how es sh) = []"
proof (induction es arbitrary: sh)
  case (Cons r es)
  then show ?case by (cases r) auto
qed simp

lemma reads_on_drain [simp]:
  "clean_stream (se_events s) \<Longrightarrow> reads_on (fst (drain_session cx how p (s, sh)))"
  using drain_clean [of "se_events s" cx how sh]
  by (auto simp: drain_session_def reads_on_def split: prod.splits)

lemma reads_on_at [simp]:
  "reads_on (at_pc s p) \<longleftrightarrow> clean_stream (se_events s) \<and> (leaving p \<longrightarrow> se_events s = [])"
  "reads_on (s\<lparr>se_events := es, se_pc := p\<rparr>) \<longleftrightarrow> clean_stream es \<and> (leaving p \<longrightarrow> es = [])"
  by (simp_all add: reads_on_def)

lemma reads_on_answered:
  assumes "clean_stream (se_events s)"
  shows "reads_on (fst (use_answered cx c cur e db r (s, sh)))"
    and "reads_on (fst (exec_answered cx c cur e x (s, sh)))"
    and "reads_on (fst (pool_use_answered cx c cur e db r (s, sh)))"
    and "reads_on (fst (pool_exec_answered cx c cur e x (s, sh)))"
  using assms by (simp_all add: answer_parts split: sum.splits)

lemma reads_on_step:
  assumes "reads_on s" and "session_step cx ch s sh = Some st"
  shows "reads_on (fst st)"
proof -
  have c: "clean_stream (se_events s)" using assms(1) by (simp add: reads_on_def)
  have l: "leaving (se_pc s) \<Longrightarrow> se_events s = []" using assms(1) by (simp add: reads_on_def)
  show ?thesis
    using assms(2) c l unfolding session_step_def step_at_def
    by (cases "se_pc s")
      (auto simp: step_parts reads_on_answered [OF c]
        split: if_splits option.splits sum.splits list.splits choice.splits)
qed

interpretation reading: guarded cx reads_on "\<lambda>sh. True" for cx
  by unfold_locales (auto dest: reads_on_step)

section \<open>The gate\<close>

text \<open>What the pass may send for an event, and what it may send at all.\<close>

definition permitted :: "'h pass_ctx \<Rightarrow> string \<Rightarrow> bool" where
  "permitted cx q \<longleftrightarrow> should_execute q (cx_allow_writes cx) \<and>
    ((\<not> cx_use_event_db cx \<or> cx_pooled cx) \<longrightarrow> \<not> is_use_statement q)"

fun sending :: "pc \<Rightarrow> event list" where
  "sending (Use_Sent c cur e db) = [e]"
| "sending (Exec_Sent c cur e) = [e]"
| "sending (Pool_Acquire e) = [e]"
| "sending (Pool_Connecting e) = [e]"
| "sending (Pool_Use_Sent c cur e db) = [e]"
| "sending (Pool_Exec_Sent c cur e) = [e]"
| "sending _ = []"

text \<open>A task follows one of the two protocols, by the mode of the pass.\<close>

fun pool_pc :: "pc \<Rightarrow> bool option" where
  "pool_pc Start = None"
| "pool_pc Finished = None"
| "pool_pc Pool_Ready = Some True"
| "pool_pc (Pool_Pacing e) = Some True"
| "pool_pc (Pool_Acquire e) = Some True"
| "pool_pc (Pool_Connecting e) = Some True"
| "pool_pc (Pool_Use_Sent c cur e db) = Some True"
| "pool_pc (Pool_Exec_Sent c cur e) = Some True"
| "pool_pc _ = Some False"

definition in_mode :: "'h pass_ctx \<Rightarrow> pc \<Rightarrow> bool" where
  "in_mode cx p \<longleftrightarrow> (\<forall>b. pool_pc p = Some b \<longrightarrow> b = cx_pooled cx)"

lemma in_mode_iff: "in_mode cx p \<longleftrightarrow> (case pool_pc p of None \<Rightarrow> True | Some b \<Rightarrow> b = cx_pooled cx)"
  by (auto simp: in_mode_def split: option.splits)

definition gated :: "'h pass_ctx \<Rightarrow> session \<Rightarrow> bool" where
  "gated cx s \<longleftrightarrow> in_mode cx (se_pc s) \<and> (\<forall>e \<in> set (sending (se_pc s)). permitted cx (ev_query e))"

definition wire_ok :: "'h pass_ctx \<Rightarrow> 'h shared \<Rightarrow> bool" where
  "wire_ok cx sh \<longleftrightarrow> (\<forall>(c, q) \<in> set (sh_wire sh).
    permitted cx q \<or> (cx_use_event_db cx \<and> (\<exists>db. q = use_stmt db)))"

lemma gated_simps [simp]:
  "gated cx (at_pc s p) \<longleftrightarrow> in_mode cx p \<and> (\<forall>e \<in> set (sending p). permitted cx (ev_query e))"
  "gated cx (s\<lparr>se_events := es, se_pc := p\<rparr>) \<longleftrightarrow>
    in_mode cx p \<and> (\<forall>e \<in> set (sending p). permitted cx (ev_query e))"
  by (simp_all add: gated_def)

lemma gated_drain [simp]:
  "gated cx (fst (drain_session cx' how p (s, sh))) \<longleftrightarrow>
    in_mode cx p \<and> (\<forall>e \<in> set (sending p). permitted cx (ev_query e))"
  by (auto simp: drain_session_def split: prod.splits)

lemma wire_drain [simp]: "sh_wire (snd (drain_session cx how p (s, sh))) = sh_wire sh"
  by (cases "drain_session cx how p (s, sh)") (simp add: drain_session_effect(6))

lemma wire_ok_cong: "sh_wire sh' = sh_wire sh \<Longrightarrow> wire_ok cx sh' = wire_ok cx sh"
  by (simp add: wire_ok_def)

lemma wire_ok_send [simp]:
  "wire_ok cx (send c q sh) \<longleftrightarrow>
    wire_ok cx sh \<and> (permitted cx q \<or> (cx_use_event_db cx \<and> (\<exists>db. q = use_stmt db)))"
  by (auto simp: wire_ok_def part_simps)

lemma wire_ok_parts [simp]:
  "wire_ok cx (skip_event cx' e sh) = wire_ok cx sh" "wire_ok cx (not_run_event cx' e sh) = wire_ok cx sh"
  "wire_ok cx (fail_event cx' e msg sh) = wire_ok cx sh" "wire_ok cx (ok_event cx' e us out sh) = wire_ok cx sh"
  "wire_ok cx (release_permit sh) = wire_ok cx sh" "wire_ok cx (take_permit sh) = wire_ok cx sh"
  "wire_ok cx (start_waiting sh) = wire_ok cx sh" "wire_ok cx (stop_waiting sh) = wire_ok cx sh"
  "wire_ok cx (connect_failure sh) = wire_ok cx sh" "wire_ok cx (served cx' c q sh) = wire_ok cx sh"
  "wire_ok cx (checkin c db sh) = wire_ok cx sh" "wire_ok cx (pace cx' e now sh) = wire_ok cx sh"
  "wire_ok cx (open_conn cx' sh) = wire_ok cx sh" "wire_ok cx (sh\<lparr>sh_idle := xs\<rparr>) = wire_ok cx sh"
  "wire_ok cx (snd (drain_session cx' how p (s, sh))) = wire_ok cx sh"
  by (rule wire_ok_cong, simp add: part_simps open_conn_def)+

lemma needs_use_db: "needs_use cx e cur = Some db \<Longrightarrow> cx_use_event_db cx"
  by (simp add: needs_use_def split: if_splits)

definition gate_ok :: "'h pass_ctx \<Rightarrow> session \<times> 'h shared \<Rightarrow> bool" where
  "gate_ok cx st \<longleftrightarrow> gated cx (fst st) \<and> wire_ok cx (snd st)"

lemma gate_answered:
  assumes "wire_ok cx sh" and "permitted cx (ev_query e)"
  shows "\<not> cx_pooled cx \<Longrightarrow> gate_ok cx (use_answered cx c cur e db r (s, sh))"
    and "\<not> cx_pooled cx \<Longrightarrow> gate_ok cx (exec_answered cx c cur e x (s, sh))"
    and "cx_pooled cx \<Longrightarrow> gate_ok cx (pool_use_answered cx c cur e db r (s, sh))"
    and "cx_pooled cx \<Longrightarrow> gate_ok cx (pool_exec_answered cx c cur e x (s, sh))"
  using assms by (auto simp: gate_ok_def answer_parts in_mode_iff split: sum.splits)

lemma gate_pair [simp]:
  "gate_ok cx (at_pc s p, sh) \<longleftrightarrow>
    in_mode cx p \<and> (\<forall>e \<in> set (sending p). permitted cx (ev_query e)) \<and> wire_ok cx sh"
  "gate_ok cx (s\<lparr>se_events := es, se_pc := p\<rparr>, sh) \<longleftrightarrow>
    in_mode cx p \<and> (\<forall>e \<in> set (sending p). permitted cx (ev_query e)) \<and> wire_ok cx sh"
  "gate_ok cx (drain_session cx' how p (s, sh)) \<longleftrightarrow>
    in_mode cx p \<and> (\<forall>e \<in> set (sending p). permitted cx (ev_query e)) \<and> wire_ok cx sh"
  "gate_ok cx (drop_permit st) \<longleftrightarrow> gate_ok cx st"
  by (auto simp: gate_ok_def)

lemma gate_parts [simp]:
  assumes w: "wire_ok cx sh"
  shows "\<not> cx_pooled cx \<Longrightarrow> gate_ok cx (dispatch cx c cur e (s, sh))"
    and "\<not> cx_pooled cx \<Longrightarrow> gate_ok cx (loop_head cx c cur pending (s, sh))"
    and "cx_pooled cx \<Longrightarrow> permitted cx (ev_query e) \<Longrightarrow> gate_ok cx (pool_dispatch cx c cur e (s, sh))"
    and "cx_pooled cx \<Longrightarrow> gate_ok cx (pool_paced cx e (s, sh))"
    and "cx_pooled cx \<Longrightarrow> gate_ok cx (pool_loop_head cx (s, sh))"
    and "gate_ok cx (session_start cx (s, sh))"
  using w
  by (auto simp: step_parts in_mode_iff permitted_def dest: needs_use_db
      split: if_splits option.splits sum.splits list.splits)

lemma gate_connected:
  assumes w: "wire_ok cx sh"
  shows "\<not> cx_pooled cx \<Longrightarrow> connect_answered cx e ch (s, sh) = Some st \<Longrightarrow> gate_ok cx st"
    and "cx_pooled cx \<Longrightarrow> permitted cx (ev_query e) \<Longrightarrow>
      pool_connect_answered cx e ch (s, sh) = Some st \<Longrightarrow> gate_ok cx st"
    and "cx_pooled cx \<Longrightarrow> permitted cx (ev_query e) \<Longrightarrow> gate_ok cx (checkout cx e (s, sh))"
  using w
  by (auto simp: connect_answered_def pool_connect_answered_def checkout_def abandon_def in_mode_iff
      split: choice.splits)

lemma gate_step:
  assumes "gated cx s" and w: "wire_ok cx sh" and "session_step cx ch s sh = Some st"
  shows "gate_ok cx st"
proof -
  have m: "in_mode cx (se_pc s)" and g: "\<forall>e \<in> set (sending (se_pc s)). permitted cx (ev_query e)"
    using assms(1) by (simp_all add: gated_def)
  show ?thesis
    using assms(3) m g unfolding session_step_def step_at_def
    by (cases "se_pc s")
      (auto simp: in_mode_iff w abandon_def
        intro: gate_answered [OF w] gate_connected [OF w] gate_connected(3) split: if_splits)
qed

interpretation gate: guarded cx "gated cx" "wire_ok cx" for cx
proof
  show "gated cx s' \<and> wire_ok cx sh'"
    if "gated cx s" "wire_ok cx sh" "session_step cx ch s sh = Some (s', sh')" for s sh ch s' sh'
    using gate_step [OF that] by (simp add: gate_ok_def)
qed (simp add: wire_ok_def)

end
