(* ===== verification/Replay_Pool.thy ===== *)
theory Replay_Pool
  imports Replay_Guards
begin

text \<open>
  Connections: never more than the cap are open at once, in either mode, although a pooled session
  opens one whenever the shelf of idle connections is empty; and in pooled mode the database a
  connection is tracked to be in is the one the server has it in.
\<close>

section \<open>Open connections\<close>

fun in_use :: "pc \<Rightarrow> (nat \<times> string option) list" where
  "in_use (Ready c cur pending) = [(c, cur)]"
| "in_use (Pacing c cur e) = [(c, cur)]"
| "in_use (Use_Sent c cur e db) = [(c, cur)]"
| "in_use (Exec_Sent c cur e) = [(c, cur)]"
| "in_use (Closing c) = [(c, None)]"
| "in_use (Pool_Use_Sent c cur e db) = [(c, cur)]"
| "in_use (Pool_Exec_Sent c cur e) = [(c, cur)]"
| "in_use _ = []"

lemma in_use_holds: "length (in_use p) \<le> holds p"
  by (cases p) simp_all

text \<open>Idle connections and held permits, whether the permit's holder has connected yet or not.\<close>

definition claims :: "session \<times> 'h shared \<Rightarrow> nat" where
  "claims st = length (sh_idle (snd st)) + holds (se_pc (fst st))"

lemma claims_simps [simp]:
  "claims (at_pc s p, sh) = length (sh_idle sh) + holds p"
  "claims (s\<lparr>se_events := es, se_pc := p\<rparr>, sh) = length (sh_idle sh) + holds p"
  "claims (drain_session cx how p (s, sh)) = length (sh_idle sh) + holds p"
  "claims (drop_permit st) = claims st"
proof -
  show "claims (drain_session cx how p (s, sh)) = length (sh_idle sh) + holds p"
  proof (cases "drain_session cx how p (s, sh)")
    case (Pair s' sh')
    then show ?thesis using drain_session_effect(2,5) [OF Pair] by (simp add: claims_def)
  qed
qed (simp_all add: claims_def drop_permit_def part_simps)

lemma idle_drain [simp]: "sh_idle (snd (drain_session cx how p (s, sh))) = sh_idle sh"
  by (cases "drain_session cx how p (s, sh)") (simp add: drain_session_effect(5))

lemma claims_answered:
  "claims (use_answered cx c cur e db r (s, sh)) \<le> length (sh_idle sh) + 1"
  "claims (exec_answered cx c cur e x (s, sh)) \<le> length (sh_idle sh) + 1"
  "claims (pool_use_answered cx c cur e db r (s, sh)) \<le> length (sh_idle sh) + 1"
  "claims (pool_exec_answered cx c cur e x (s, sh)) \<le> length (sh_idle sh) + 1"
  by (simp_all add: answer_parts part_simps split: sum.splits)

lemma claims_parts:
  "claims (dispatch cx c cur e (s, sh)) \<le> length (sh_idle sh) + 1"
  "claims (loop_head cx c cur pending (s, sh)) \<le> length (sh_idle sh) + 1"
  "claims (pool_dispatch cx c cur e (s, sh)) = length (sh_idle sh) + 1"
  "claims (pool_paced cx e (s, sh)) = length (sh_idle sh)"
  "claims (pool_loop_head cx (s, sh)) = length (sh_idle sh)"
  "claims (session_start cx (s, sh)) = length (sh_idle sh)"
  by (auto simp: step_parts part_simps split: if_splits option.splits sum.splits list.splits)

lemma claims_connected:
  "connect_answered cx e ch (s, sh) = Some st \<Longrightarrow> claims st \<le> length (sh_idle sh) + 1"
  "pool_connect_answered cx e ch (s, sh) = Some st \<Longrightarrow> claims st \<le> length (sh_idle sh) + 1"
  by (auto simp: connect_answered_def pool_connect_answered_def abandon_def claims_parts open_conn_def
      part_simps split: choice.splits)

lemma claims_checkout:
  "sh_idle sh \<noteq> [] \<Longrightarrow> claims (checkout cx e (s, sh)) = length (sh_idle sh)"
  "sh_idle sh = [] \<Longrightarrow> sh_idle (snd (checkout cx e (s, sh))) = []"
  by (simp_all add: checkout_def claims_parts)

lemma claims_step:
  assumes "session_step cx ch s sh = Some st" and "\<forall>e. se_pc s = Acquire e \<longrightarrow> sh_idle sh = []"
  shows "claims st \<le> claims (s, sh) \<or> (sh_idle sh = [] \<and> sh_idle (snd st) = [])"
proof (cases "\<exists>e. se_pc s \<in> {Pool_Acquire e, Acquire e} \<and> sh_idle sh = [] \<and> \<not> sh_shutdown sh")
  case True
  then show ?thesis
    using assms by (auto simp: session_step_def step_at_def claims_checkout part_simps split: if_splits)
next
  case False
  have c: "claims (s, sh) = length (sh_idle sh) + holds (se_pc s)" by (simp add: claims_def)
  have "claims st \<le> length (sh_idle sh) + holds (se_pc s)"
    using assms False unfolding session_step_def step_at_def
    by (cases "se_pc s")
      (auto simp: abandon_def part_simps claims_parts claims_checkout
        intro: order_trans [OF claims_parts(1)] order_trans [OF claims_parts(2)]
          order_trans [OF claims_answered(1)] order_trans [OF claims_answered(2)]
          order_trans [OF claims_answered(3)] order_trans [OF claims_answered(4)]
        dest!: claims_connected split: if_splits)
  then show ?thesis unfolding c by simp
qed

text \<open>In dedicated mode nothing is ever shelved.\<close>

lemma idle_dedicated [simp]:
  "sh_idle (snd (dispatch cx c cur e (s, sh))) = sh_idle sh"
  "sh_idle (snd (loop_head cx c cur pending (s, sh))) = sh_idle sh"
  "sh_idle (snd (session_start cx (s, sh))) = sh_idle sh"
  "sh_idle (snd (use_answered cx c cur e db r (s, sh))) = sh_idle sh"
  "sh_idle (snd (exec_answered cx c cur e x (s, sh))) = sh_idle sh"
  by (auto simp: step_parts answer_parts part_simps drop_permit_def
      split: option.splits sum.splits list.splits)

lemma idle_step:
  assumes "session_step cx ch s sh = Some st" and "pool_pc (se_pc s) \<noteq> Some True"
  shows "sh_idle (snd st) = sh_idle sh"
  using assms unfolding session_step_def step_at_def
  by (cases "se_pc s")
    (auto simp: abandon_def connect_answered_def open_conn_def part_simps drop_permit_def
      split: if_splits choice.splits)

definition shelf_unused :: "'h pass_ctx \<Rightarrow> 'h shared \<Rightarrow> bool" where
  "shelf_unused cx sh \<longleftrightarrow> cx_pooled cx \<or> sh_idle sh = []"

interpretation shelf: guarded cx "gated cx" "\<lambda>sh. wire_ok cx sh \<and> shelf_unused cx sh" for cx
proof
  show "gated cx s' \<and> wire_ok cx sh' \<and> shelf_unused cx sh'"
    if s: "gated cx s" "wire_ok cx sh \<and> shelf_unused cx sh" "session_step cx ch s sh = Some (s', sh')"
    for s sh ch s' sh'
  proof -
    have "gate_ok cx (s', sh')" using gate_step [OF s(1) conjunct1 [OF s(2)] s(3)] .
    moreover have "shelf_unused cx sh'"
    proof (cases "cx_pooled cx")
      case False
      then have "pool_pc (se_pc s) \<noteq> Some True" using s(1) by (auto simp: gated_def in_mode_iff)
      from idle_step [OF s(3) this] s(2) False show ?thesis by (simp add: shelf_unused_def)
    qed (simp add: shelf_unused_def)
    ultimately show ?thesis by (simp add: gate_ok_def)
  qed
qed (simp add: wire_ok_def shelf_unused_def)

lemma shelf_acquire:
  assumes "shelf.kept cx p" and "i < length (pa_sessions p)"
  shows "\<forall>e. se_pc (pa_sessions p ! i) = Acquire e \<longrightarrow> sh_idle (pa_shared p) = []"
proof -
  have "gated cx (pa_sessions p ! i)" and "shelf_unused cx (pa_shared p)"
    using assms by (simp_all add: shelf.kept_def)
  then show ?thesis by (auto simp: gated_def in_mode_iff shelf_unused_def)
qed

definition held :: "'h pass \<Rightarrow> nat" where
  "held p = sum_list (map (\<lambda>s. holds (se_pc s)) (pa_sessions p))"

lemma pass_step_claims:
  assumes "pass_step cx m p q" and "shelf.kept cx p" and "permit.amount p = cap"
    and "length (sh_idle (pa_shared p)) + held p \<le> cap"
  shows "length (sh_idle (pa_shared q)) + held q \<le> cap"
  using assms
proof (induction rule: pass_step.induct)
  case (task i p ch s' sh')
  let ?q = "p\<lparr>pa_sessions := (pa_sessions p)[i := s'], pa_shared := sh'\<rparr>"
  have amount: "permit.amount ?q = cap"
    using permit.step_conserves [OF pass_step.task [OF task(1,2)]] task.prems(2) by simp
  have sum: "held ?q + holds (se_pc (pa_sessions p ! i)) = held p + holds (se_pc s')"
    using sum_list_update_nat [OF task(1), of "\<lambda>s. holds (se_pc s)" s'] by (simp add: held_def)
  show ?case
    using claims_step [OF task(2) shelf_acquire [OF task.prems(1) task(1)]]
  proof
    assume "claims (s', sh') \<le> claims (pa_sessions p ! i, pa_shared p)"
    then show ?thesis using sum task.prems(3) by (simp add: claims_def)
  next
    assume "sh_idle (pa_shared p) = [] \<and> sh_idle (snd (s', sh')) = []"
    then show ?thesis using amount by (simp add: permit.amount_def held_def)
  qed
qed (simp_all add: held_def)

lemma pass_run_claims:
  "pass_run cx ms p q \<Longrightarrow> shelf.kept cx p \<Longrightarrow> permit.amount p = cap \<Longrightarrow>
    length (sh_idle (pa_shared p)) + held p \<le> cap \<Longrightarrow> length (sh_idle (pa_shared q)) + held q \<le> cap"
proof (induction rule: pass_run.induct)
  case (move m p q ms r)
  have "permit.amount q = cap" using permit.step_conserves [OF move(1)] move.prems(2) by simp
  moreover have "shelf.kept cx q" by (rule shelf.step_keeps [OF move(1) move.prems(1)])
  moreover have "length (sh_idle (pa_shared q)) + held q \<le> cap"
    by (rule pass_step_claims [OF move(1) move.prems])
  ultimately show ?case using move.IH by blast
qed

definition connections :: "'h pass \<Rightarrow> (nat \<times> string option) list" where
  "connections p = sh_idle (pa_shared p) @ concat (map (\<lambda>s. in_use (se_pc s)) (pa_sessions p))"

lemma connections_held: "length (connections p) \<le> length (sh_idle (pa_shared p)) + held p"
proof -
  have "length (concat (map (\<lambda>s. in_use (se_pc s)) ss)) \<le> sum_list (map (\<lambda>s. holds (se_pc s)) ss)" for ss
    by (induction ss) (simp_all add: add_mono in_use_holds)
  then show ?thesis by (simp add: connections_def held_def)
qed

section \<open>The database of a pooled connection\<close>

definition agree :: "'h shared \<Rightarrow> (nat \<times> string option) list \<Rightarrow> bool" where
  "agree sh cs \<longleftrightarrow> distinct (map fst cs) \<and>
    (\<forall>x \<in> set cs. fst x < sh_opened sh \<and> sh_server_db sh (fst x) = snd x)"

lemma agree_mset: "mset cs = mset cs' \<Longrightarrow> agree sh cs \<longleftrightarrow> agree sh cs'"
proof -
  assume m: "mset cs = mset cs'"
  then have "set cs = set cs'" by (rule mset_eq_setD)
  moreover have "distinct (map fst cs) \<longleftrightarrow> distinct (map fst cs')"
    by (rule mset_eq_imp_distinct_iff) (simp add: m)
  ultimately show ?thesis by (simp add: agree_def)
qed

lemma agree_cong:
  "sh_server_db sh' = sh_server_db sh \<Longrightarrow> sh_opened sh' = sh_opened sh \<Longrightarrow> agree sh' cs = agree sh cs"
  by (simp add: agree_def)

lemma agree_parts [simp]:
  "agree (skip_event cx e sh) cs = agree sh cs" "agree (not_run_event cx e sh) cs = agree sh cs"
  "agree (fail_event cx e msg sh) cs = agree sh cs" "agree (ok_event cx e us out sh) cs = agree sh cs"
  "agree (release_permit sh) cs = agree sh cs" "agree (take_permit sh) cs = agree sh cs"
  "agree (start_waiting sh) cs = agree sh cs" "agree (stop_waiting sh) cs = agree sh cs"
  "agree (connect_failure sh) cs = agree sh cs" "agree (send c stmt sh) cs = agree sh cs"
  "agree (checkin c db sh) cs = agree sh cs" "agree (pace cx e now sh) cs = agree sh cs"
  "agree (sh\<lparr>sh_idle := xs\<rparr>) cs = agree sh cs"
  by (simp_all add: agree_def connection_parts)

lemma agree_drain [simp]: "agree (snd (drain_session cx how p (s, sh))) cs = agree sh cs"
proof (cases "drain_session cx how p (s, sh)")
  case (Pair s' sh')
  then show ?thesis using agree_cong drain_session_effect(9,10) [OF Pair] by simp
qed

lemma agree_open: "agree sh cs \<Longrightarrow> agree (open_conn cx sh) ((sh_opened sh, cx_default_db cx) # cs)"
  by (auto simp: agree_def open_conn_def)

lemma agree_served:
  "agree sh ((c, db) # cs) \<Longrightarrow> agree (served cx c q sh) ((c, cx_effect cx q db) # cs)"
  by (auto simp: agree_def connection_parts)

lemma agree_drop: "agree sh (x # cs) \<Longrightarrow> agree sh cs"
  by (simp add: agree_def)

text \<open>What is documented of the server: a successful \<open>USE\<close> puts the connection in its database, and
  no statement but a \<open>USE\<close> changes the database.\<close>

definition use_semantics :: "(string \<Rightarrow> string option \<Rightarrow> string option) \<Rightarrow> bool" where
  "use_semantics effect \<longleftrightarrow>
    (\<forall>db cur. effect (use_stmt db) cur = Some db) \<and>
    (\<forall>q cur. \<not> is_use_statement q \<longrightarrow> effect q cur = cur)"

text \<open>The connections of one session, the shelf and those of the others.\<close>

definition all_conns :: "session \<times> 'h shared \<Rightarrow> (nat \<times> string option) list \<Rightarrow> (nat \<times> string option) list" where
  "all_conns st rest = in_use (se_pc (fst st)) @ sh_idle (snd st) @ rest"

definition tracked :: "session \<times> 'h shared \<Rightarrow> (nat \<times> string option) list \<Rightarrow> bool" where
  "tracked st rest \<longleftrightarrow> agree (snd st) (all_conns st rest)"

lemma tracked_pair [simp]:
  "tracked (at_pc s p, sh) rest \<longleftrightarrow> agree sh (in_use p @ sh_idle sh @ rest)"
  "tracked (s\<lparr>se_events := es, se_pc := p\<rparr>, sh) rest \<longleftrightarrow> agree sh (in_use p @ sh_idle sh @ rest)"
  "tracked (drain_session cx how p (s, sh)) rest \<longleftrightarrow> agree sh (in_use p @ sh_idle sh @ rest)"
proof -
  show "tracked (drain_session cx how p (s, sh)) rest \<longleftrightarrow> agree sh (in_use p @ sh_idle sh @ rest)"
  proof (cases "drain_session cx how p (s, sh)")
    case (Pair s' sh')
    then show ?thesis
      using drain_session_effect(2,5) [OF Pair] agree_cong [OF drain_session_effect(9) [OF Pair] drain_session_effect(10) [OF Pair]]
      by (simp add: tracked_def all_conns_def)
  qed
qed (simp_all add: tracked_def all_conns_def)

lemma tracked_dispatch:
  "tracked (pool_dispatch cx c db e (s, sh)) rest \<longleftrightarrow> agree sh ((c, db) # sh_idle sh @ rest)"
  by (simp add: pool_dispatch_def part_simps split: option.splits)

lemma tracked_failed:
  assumes "agree sh ((c, db) # sh_idle sh @ rest)"
  shows "tracked (pool_failed cx c db e msg fatal (s, sh)) rest"
proof -
  have "agree sh (sh_idle sh @ (c, db) # rest)"
    using assms by (subst agree_mset [of _ "(c, db) # sh_idle sh @ rest"]) simp_all
  then show ?thesis
    using agree_drop [OF assms] by (simp add: pool_failed_def Let_def part_simps)
qed

lemma tracked_answered:
  assumes effect: "use_semantics (cx_effect cx)" and a: "agree sh ((c, db) # sh_idle sh @ rest)"
  shows "tracked (pool_use_answered cx c db e db' r (s, sh)) rest"
    and "\<not> is_use_statement (ev_query e) \<Longrightarrow> tracked (pool_exec_answered cx c db e x (s, sh)) rest"
proof -
  have "agree (served cx c (use_stmt db') sh) ((c, Some db') # sh_idle sh @ rest)"
    using agree_served [OF a, of cx "use_stmt db'"] effect by (simp add: use_semantics_def)
  then show "tracked (pool_use_answered cx c db e db' r (s, sh)) rest"
    using tracked_failed [OF a] by (simp add: pool_use_answered_def part_simps split: sum.splits)
  assume q: "\<not> is_use_statement (ev_query e)"
  have "agree (served cx c (ev_query e) sh) ((c, db) # sh_idle sh @ rest)"
    using agree_served [OF a, of cx "ev_query e"] effect q by (simp add: use_semantics_def)
  then have "agree (served cx c (ev_query e) sh) (sh_idle sh @ (c, db) # rest)"
    by (subst agree_mset [of _ "(c, db) # sh_idle sh @ rest"]) simp_all
  then show "tracked (pool_exec_answered cx c db e x (s, sh)) rest"
    using tracked_failed [OF a] by (simp add: pool_exec_answered_def part_simps split: sum.splits)
qed

lemma tracked_checkout:
  assumes "agree sh (sh_idle sh @ rest)"
  shows "tracked (checkout cx e (s, sh)) rest"
proof (cases "sh_idle sh = []")
  case False
  then have "mset (last (sh_idle sh) # butlast (sh_idle sh) @ rest) = mset (sh_idle sh @ rest)"
    using arg_cong [OF append_butlast_last_id [OF False], of mset] by (simp del: append_butlast_last_id)
  then have "agree sh (last (sh_idle sh) # butlast (sh_idle sh) @ rest)"
    using assms agree_mset by metis
  then show ?thesis using False by (simp add: checkout_def tracked_dispatch)
qed (use assms in \<open>simp add: checkout_def\<close>)

lemma tracked_step:
  assumes "cx_pooled cx" and effect: "use_semantics (cx_effect cx)" and "gated cx s"
    and a: "tracked (s, sh) rest" and "session_step cx ch s sh = Some st"
  shows "tracked st rest"
proof -
  have m: "pool_pc (se_pc s) \<noteq> Some False" and g: "\<forall>e \<in> set (sending (se_pc s)). permitted cx (ev_query e)"
    using assms(1,3) by (auto simp: gated_def in_mode_iff)
  have a': "agree sh (in_use (se_pc s) @ sh_idle sh @ rest)"
    using a by (simp add: tracked_def all_conns_def)
  have o: "agree sh cs \<Longrightarrow> agree (open_conn cx sh) ((sh_opened sh, cx_default_db cx) # cs)" for cs
    by (rule agree_open)
  have i: "sh_idle (open_conn cx sh) = sh_idle sh" by (simp add: open_conn_def)
  show ?thesis
    using assms(1,5) m g a' unfolding session_step_def step_at_def
    by (cases "se_pc s")
      (auto simp: abandon_def session_start_def pool_loop_head_def pool_paced_def
        pool_connect_answered_def tracked_dispatch permitted_def part_simps i
        intro: tracked_answered [OF effect] tracked_checkout o
        split: if_splits list.splits sum.splits choice.splits)
qed

text \<open>The invariant of a pooled pass.\<close>

definition others :: "nat \<Rightarrow> session list \<Rightarrow> (nat \<times> string option) list" where
  "others i ss = concat (map (\<lambda>s. in_use (se_pc s)) (take i ss @ drop (Suc i) ss))"

lemma connections_split:
  assumes "i < length ss"
  shows "mset (idle @ concat (map (\<lambda>s. in_use (se_pc s)) (ss[i := s]))) =
    mset (in_use (se_pc s) @ idle @ others i ss)"
  using assms by (simp add: upd_conv_take_nth_drop others_def)

lemma pass_step_tracked:
  assumes "pass_step cx m p q" and pooled: "cx_pooled cx" and effect: "use_semantics (cx_effect cx)"
    and "gate.kept cx p" and "agree (pa_shared p) (connections p)"
  shows "agree (pa_shared q) (connections q)"
  using assms(1,4,5)
proof (induction rule: pass_step.induct)
  case (task i p ch s' sh')
  let ?s = "pa_sessions p ! i" and ?rest = "others i (pa_sessions p)"
  let ?q = "p\<lparr>pa_sessions := (pa_sessions p)[i := s'], pa_shared := sh'\<rparr>"
  have old: "mset (connections p) = mset (all_conns (?s, pa_shared p) ?rest)"
    using connections_split [OF task(1), of "sh_idle (pa_shared p)" ?s]
    by (simp add: connections_def all_conns_def)
  have new: "mset (connections ?q) = mset (all_conns (s', sh') ?rest)"
    using connections_split [OF task(1), of "sh_idle sh'" s'] by (simp add: connections_def all_conns_def)
  have "tracked (?s, pa_shared p) ?rest"
    using task.prems(2) unfolding agree_mset [OF old] by (simp add: tracked_def)
  moreover have "gated cx ?s" using task.prems(1) task(1) by (simp add: gate.kept_def)
  ultimately have "tracked (s', sh') ?rest" using tracked_step [OF pooled effect _ _ task(2)] by blast
  then show ?case unfolding agree_mset [OF new] by (simp add: tracked_def)
next
  case (abort p)
  then show ?case by (simp add: connections_def agree_def)
next
  case (sample p)
  then show ?case by (simp add: connections_def)
qed

lemma pass_run_tracked:
  "pass_run cx ms p q \<Longrightarrow> cx_pooled cx \<Longrightarrow> use_semantics (cx_effect cx) \<Longrightarrow> gate.kept cx p \<Longrightarrow>
    agree (pa_shared p) (connections p) \<Longrightarrow> agree (pa_shared q) (connections q)"
proof (induction rule: pass_run.induct)
  case (move m p q ms r)
  have "gate.kept cx q" by (rule gate.step_keeps [OF move(1) move.prems(3)])
  moreover have "agree (pa_shared q) (connections q)"
    by (rule pass_step_tracked [OF move(1) move.prems])
  ultimately show ?case using move.IH move.prems by blast
qed

text \<open>Before its statement is sent, the tracked database is the event's.\<close>

fun sent_in :: "'h pass_ctx \<Rightarrow> pc \<Rightarrow> bool" where
  "sent_in cx (Pool_Exec_Sent c db e) \<longleftrightarrow>
    (cx_use_event_db cx \<longrightarrow> (case ev_db e of None \<Rightarrow> True | Some d \<Rightarrow> db = Some d))"
| "sent_in cx (Pool_Use_Sent c db e db') \<longleftrightarrow> ev_db e = Some db'"
| "sent_in cx _ \<longleftrightarrow> True"

definition sends_in :: "'h pass_ctx \<Rightarrow> session \<Rightarrow> bool" where
  "sends_in cx s \<longleftrightarrow> sent_in cx (se_pc s)"

lemma sends_in_simps [simp]:
  "sends_in cx (at_pc s p) = sent_in cx p" "sends_in cx (s\<lparr>se_events := es, se_pc := p\<rparr>) = sent_in cx p"
  "sends_in cx (fst (drain_session cx' how p (s, sh))) = sent_in cx p"
  by (auto simp: sends_in_def drain_session_def split: prod.splits)

lemma sends_in_dispatch [simp]: "sends_in cx (fst (pool_dispatch cx c db e (s, sh)))"
  by (auto simp: pool_dispatch_def needs_use_def split: option.splits if_splits)

lemma sends_in_answered:
  "sends_in cx (fst (use_answered cx c cur e db r (s, sh)))"
  "sends_in cx (fst (exec_answered cx c cur e x (s, sh)))"
  "ev_db e = Some db \<Longrightarrow> sends_in cx (fst (pool_use_answered cx c cur e db r (s, sh)))"
  "sends_in cx (fst (pool_exec_answered cx c cur e x (s, sh)))"
  by (simp_all add: answer_parts drop_permit_def split: sum.splits)

lemma sends_in_step:
  assumes "sends_in cx s" and "session_step cx ch s sh = Some st"
  shows "sends_in cx (fst st)"
proof -
  have a: "sent_in cx (se_pc s)" using assms(1) by (simp add: sends_in_def)
  show ?thesis
    using assms(2) a unfolding session_step_def step_at_def
    by (cases "se_pc s")
      (auto simp: session_start_def abandon_def loop_head_def dispatch_def pool_loop_head_def
        pool_paced_def checkout_def connect_answered_def pool_connect_answered_def drop_permit_def
        sends_in_answered split: if_splits option.splits sum.splits list.splits choice.splits)
qed

interpretation sends: guarded cx "sends_in cx" "\<lambda>sh. True" for cx
  by unfold_locales (auto dest: sends_in_step)

end
