(* ===== verification/Replay_Theorems.thy ===== *)
theory Replay_Theorems
  imports Replay_Pool
begin

text \<open>
  The properties of a replay pass, each over every run from the initial state: accounting,
  termination, progress, the gate, the bound on connections, the database of pooled statements; and
  the divergence of the tracked database on a dedicated connection.
\<close>

section \<open>The initial state\<close>

definition fresh :: "session list \<Rightarrow> bool" where
  "fresh ss \<longleftrightarrow> (\<forall>s \<in> set ss. se_pc s = Start)"

lemma fresh_nothing_held: "fresh ss \<Longrightarrow> sum_list (map (\<lambda>s. holds (se_pc s)) ss) = 0"
  by (induction ss) (auto simp: fresh_def)

lemma fresh_permits: "fresh ss \<Longrightarrow> permit.amount (new_pass cap b ss) = cap"
  by (simp add: permit.amount_def new_pass_def new_shared_def fresh_nothing_held)

lemma fresh_gate: "fresh ss \<Longrightarrow> gate.kept cx (new_pass cap b ss)"
  by (auto simp: gate.kept_def new_pass_def new_shared_def fresh_def gated_def in_mode_iff wire_ok_def)

lemma fresh_work:
  assumes "fresh ss"
  shows "pass_work (new_pass cap b ss) = 6 * length ss + 10 * sum_list (map (\<lambda>s. length (se_events s)) ss)"
  using assms by (induction ss) (auto simp: fresh_def pass_work_def new_pass_def work_def)

section \<open>Small passes\<close>

definition count_hist :: "nat hist_lib" where
  "count_hist = \<lparr>hl_new = (\<lambda>lo hi digits. 0), hl_record = (\<lambda>v n. n + 1), hl_quantile = (\<lambda>q n. n),
    hl_max = (\<lambda>n. n), hl_mean = (\<lambda>n. Fin 0), hl_len = (\<lambda>n. n)\<rparr>"

text \<open>A server whose connections follow the quoted \<open>USE\<close> statements.\<close>

definition use_server :: "string \<Rightarrow> string option \<Rightarrow> string option" where
  "use_server q cur =
    (if prefix ''USE `'' q \<and> is_use_statement q then Some (undouble_backticks (butlast (drop 5 q)))
     else cur)"

definition small_ctx :: "bool \<Rightarrow> nat pass_ctx" where
  "small_ctx pooled =
    \<lparr>cx_lib = count_hist, cx_speed = Max_Speed, cx_base_ts = 0, cx_allow_writes = False,
     cx_use_event_db = True, cx_checksum = False, cx_pooled = pooled, cx_default_db = None,
     cx_effect = use_server\<rparr>"

definition small_event :: "string \<Rightarrow> string \<Rightarrow> event" where
  "small_event db q =
    \<lparr>ev_ts_micros = 0, ev_session_id = 1, ev_user = None, ev_db = Some db, ev_query = q,
     ev_orig_query_time_s = Fin 0, ev_fingerprint_id = 0\<rparr>"

definition small_session :: "event list \<Rightarrow> session" where
  "small_session es = new_session 1 True (map Inr es)"

text \<open>A pass over one session with a read and a write, on its own connection.\<close>

definition small_sessions :: "session list" where
  "small_sessions = [small_session [small_event ''a'' ''SELECT 1'', small_event ''a'' ''DELETE FROM t'']]"

definition small_moves :: "move list" where
  "small_moves = [Task 0 Go, Task 0 (Wake 0), Task 0 Go, Sample, Task 0 Connected, Task 0 Go,
     Task 0 (Wake 0), Task 0 (Answer 5 (Inr 0)), Task 0 (Answer 7 (Inr 1)), Task 0 Go, Task 0 (Wake 0),
     Task 0 Go, Task 0 Go]"

definition small_end :: "nat pass" where
  "small_end = the (do_moves (small_ctx False) small_moves (new_pass 1 False small_sessions))"

lemma small_gate:
  "should_execute ''SELECT 1'' False" "\<not> should_execute ''DELETE FROM t'' False"
  by code_simp+

lemmas run_eval = small_moves_def small_sessions_def small_session_def new_session_def new_pass_def
  new_shared_def small_ctx_def small_event_def session_step_def step_at_def session_start_def wakes_def
  is_due_def due_def wake_time_def pace_def at_pc_def start_waiting_def take_permit_def
  connect_answered_def open_conn_def loop_head_def dispatch_def needs_use_def send_def query_answer_def
  use_answered_def served_def wants_checksum_def exec_answered_def ok_event_def on_metrics_def
  skip_event_def release_permit_def small_gate

lemma small_end_some:
  "\<exists>p. do_moves (small_ctx False) small_moves (new_pass 1 False small_sessions) = Some p \<and> pass_done p"
  by (simp add: run_eval pass_done_def)

lemma small_end_eq:
  "do_moves (small_ctx False) small_moves (new_pass 1 False small_sessions) = Some small_end"
  "pass_done small_end"
  using small_end_some by (auto simp: small_end_def)

lemma small_run: "pass_run (small_ctx False) small_moves (new_pass 1 False small_sessions) small_end"
  by (rule do_moves_run [OF small_end_eq(1)])

lemma small_fresh: "fresh small_sessions" "fresh [small_session es]"
  by (simp_all add: fresh_def small_sessions_def small_session_def new_session_def)

lemma small_clean: "\<forall>s \<in> set small_sessions. clean_stream (se_events s)"
  by (simp add: small_sessions_def small_session_def new_session_def)

section \<open>Accounting\<close>

text \<open>All events of the sessions' streams.\<close>

definition session_events_of :: "session list \<Rightarrow> event list" where
  "session_events_of ss = concat (map (\<lambda>s. stream_events (se_events s)) ss)"

lemma small_events:
  "session_events_of small_sessions = [small_event ''a'' ''SELECT 1'', small_event ''a'' ''DELETE FROM t'']"
  by (simp add: session_events_of_def small_sessions_def small_session_def new_session_def)

definition counters :: "'h metrics \<Rightarrow> nat" where
  "counters m = me_executed m + me_errors m + me_skipped m + me_not_run m"

definition row_counters :: "'h metrics \<Rightarrow> u32 \<Rightarrow> nat" where
  "row_counters m f =
    (case me_per_fp m f of
       None \<Rightarrow> 0
     | Some a \<Rightarrow> fa_executed a + fa_errors a + fa_skipped a + fa_not_run a)"

lemma tally_counters: "tally None m = counters m" "tally (Some f) m = row_counters m f"
  by (simp_all add: tally_def counters_def row_counters_def agg_total_def split: option.splits)

lemma events_tallied_total:
  "events_tallied None es = length es"
  "events_tallied (Some f) es = length (filter (\<lambda>e. ev_fingerprint_id e = f) es)"
  by (simp_all add: events_tallied_def tallied_def)

lemma concat_tallied:
  "sum_list (map (\<lambda>s. events_tallied g (stream_events (se_events s))) ss) =
    events_tallied g (concat (map (\<lambda>s. stream_events (se_events s)) ss))"
  by (induction ss) simp_all

lemma fresh_events:
  assumes "fresh ss"
  shows "events.amount g (new_pass cap b ss) =
    events_tallied g (concat (map (\<lambda>s. stream_events (se_events s)) ss))"
proof -
  have "map (\<lambda>s. events_tallied g (open_events s)) ss = map (\<lambda>s. events_tallied g (stream_events (se_events s))) ss"
    using assms by (auto simp: fresh_def open_events_def)
  then have "sum_list (map (\<lambda>s. events_tallied g (open_events s)) ss) =
      events_tallied g (concat (map (\<lambda>s. stream_events (se_events s)) ss))"
    by (simp only: concat_tallied)
  then show ?thesis unfolding events.amount_def new_pass_def new_shared_def by simp
qed

lemma fresh_reading:
  assumes "fresh ss" and "\<forall>s \<in> set ss. clean_stream (se_events s)"
  shows "reading.kept (new_pass cap b ss)"
  using assms by (auto simp: reading.kept_def reads_on_def fresh_def new_pass_def)

lemma done_events:
  assumes "reading.kept p" and "pass_done p"
  shows "events.amount g p = counted g (pa_shared p)"
proof -
  have "events_tallied g (open_events s) = 0" if "s \<in> set (pa_sessions p)" for s
    using that assms by (auto simp: reading.kept_def pass_done_def reads_on_def open_events_def)
  then have "sum_list (map (\<lambda>s. events_tallied g (open_events s)) (pa_sessions p)) = 0"
    by (simp add: sum_list_eq_0_iff)
  then show ?thesis by (simp add: events.amount_def)
qed

text \<open>A complete pass has counted every event.\<close>

lemma done_counts:
  fixes cx :: "'h pass_ctx"
  assumes "fresh ss" and "\<forall>s \<in> set ss. clean_stream (se_events s)"
    and "pass_run cx ms (new_pass cap b ss) p" and "pass_done p"
  shows "counted g (pa_shared p) = events_tallied g (session_events_of ss)"
proof -
  have "reading.kept p"
    by (rule reading.run_keeps [OF assms(3) fresh_reading [OF assms(1,2)]])
  then show ?thesis
    using done_events [OF _ assms(4), of g] events.run_conserves [OF assms(3), of g]
      fresh_events [OF assms(1), of g cap b, where ?'a = 'h] by (simp add: session_events_of_def)
qed



section \<open>Termination and progress\<close>

text \<open>C28: the tasks of a pass make at most six moves per session and ten per event, whatever the
  target answers, whenever the abort comes and however the tasks interleave; no pass runs forever.\<close>

theorem replay_terminates:
  assumes "fresh ss" and "pass_run cx ms (new_pass cap b ss) p"
  shows "task_moves ms \<le> 6 * length ss + 10 * sum_list (map (\<lambda>s. length (se_events s)) ss)"
  using pass_run_work [OF assms(2)] unfolding fresh_work [OF assms(1)] by linarith

text \<open>C29: a pass never deadlocks: with at least one permit, from every reachable state there is a
  continuation, with the target answering, in which every task finishes.\<close>

theorem replay_can_finish:
  assumes "fresh ss" and "0 < cap" and "pass_run cx ms (new_pass cap b ss) p"
  shows "\<exists>ms' q. pass_run cx ms' p q \<and> pass_done q"
proof (rule can_finish)
  show "permit.amount p = cap"
    using permit.run_conserves [OF assms(3)] fresh_permits [OF assms(1)] by simp
qed (rule assms(2))

section \<open>Safety\<close>




section \<open>Witnesses\<close>

lemma small_wire: "sh_wire (pa_shared small_end) = [(0, use_stmt ''a''), (0, ''SELECT 1'')]"
proof -
  have "map_option (\<lambda>p. sh_wire (pa_shared p)) (do_moves (small_ctx False) small_moves (new_pass 1 False small_sessions))
    = Some [(0, use_stmt ''a''), (0, ''SELECT 1'')]"
    by (simp add: run_eval)
  then show ?thesis using small_end_eq(1) by simp
qed

theorem replay_terminates_witness: "task_moves small_moves \<le> 26"
  using replay_terminates [OF small_fresh(1) small_run]
  by (simp add: small_sessions_def small_session_def new_session_def)

theorem replay_can_finish_witness:
  "\<exists>ms q. pass_run (small_ctx False) ms (new_pass 1 False small_sessions) q \<and> pass_done q"
  using replay_can_finish [OF small_fresh(1) _ pass_run.stop, of 1 "small_ctx False" False] by simp



lemma use_stmt_is_use: "is_use_statement (use_stmt db)"
proof -
  have w: "takeWhile is_ident_byte (use_stmt db) = ''USE''"
    by (simp add: use_stmt_def is_ident_byte_def ascii_class_defs byte_def)
  have "next_word (new_scanner (use_stmt db)) =
      (Some (lower (takeWhile is_ident_byte (use_stmt db))),
       (new_scanner (use_stmt db))\<lparr>scan_rest := dropWhile is_ident_byte (use_stmt db), scan_word_depth := 0\<rparr>)"
    by (subst next_word.simps)
      (simp add: use_stmt_def new_scanner_def is_quote_def starts_word_def ascii_class_defs byte_def)
  then show ?thesis
    unfolding is_use_statement_def w by (simp add: to_ascii_lowercase_def ascii_class_defs byte_def char_of_def bit_iff_odd)
qed

lemma use_server_semantics: "use_semantics use_server"
  by (simp add: use_semantics_def use_server_def use_stmt_is_use)
    (simp add: use_stmt_def undouble_doubled butlast_append)

text \<open>Two events of different databases on a pool of one connection.\<close>

definition pool_sessions :: "session list" where
  "pool_sessions = [small_session [small_event ''a'' ''SELECT 1''], small_session [small_event ''b'' ''SELECT 1'']]"

definition pool_moves :: "move list" where
  "pool_moves = [Task 0 Go, Task 0 Go, Task 0 (Wake 0), Task 0 Go, Task 0 Connected,
     Task 0 (Answer 5 (Inr 0)), Task 0 (Answer 7 (Inr 1)),
     Task 1 Go, Task 1 Go, Task 1 (Wake 0), Task 1 Go, Task 1 (Answer 5 (Inr 0))]"

definition pool_end :: "nat pass" where
  "pool_end = the (do_moves (small_ctx True) pool_moves (new_pass 1 False pool_sessions))"

lemmas pool_eval = run_eval pool_moves_def pool_sessions_def pool_loop_head_def pool_paced_def
  checkout_def pool_connect_answered_def pool_dispatch_def pool_use_answered_def
  pool_exec_answered_def checkin_def

lemma small_not_use: "\<not> is_use_statement ''SELECT 1''"
  by code_simp

lemma pool_end_eq:
  "do_moves (small_ctx True) pool_moves (new_pass 1 False pool_sessions) = Some pool_end"
  "se_pc (pa_sessions pool_end ! 1) = Pool_Exec_Sent 0 (Some ''b'') (small_event ''b'' ''SELECT 1'')"
  "length (pa_sessions pool_end) = 2"
proof -
  have "\<exists>p. do_moves (small_ctx True) pool_moves (new_pass 1 False pool_sessions) = Some p \<and>
      se_pc (pa_sessions p ! 1) = Pool_Exec_Sent 0 (Some ''b'') (small_event ''b'' ''SELECT 1'') \<and>
      length (pa_sessions p) = 2"
    by (simp add: pool_eval small_not_use)
  then show "do_moves (small_ctx True) pool_moves (new_pass 1 False pool_sessions) = Some pool_end"
    "se_pc (pa_sessions pool_end ! 1) = Pool_Exec_Sent 0 (Some ''b'') (small_event ''b'' ''SELECT 1'')"
    "length (pa_sessions pool_end) = 2"
    by (auto simp: pool_end_def)
qed

lemma pool_fresh: "fresh pool_sessions"
  by (simp add: fresh_def pool_sessions_def small_session_def new_session_def)


section \<open>The tracked database of a dedicated connection\<close>

text \<open>A dedicated session tracks the database it selected itself, not the one a captured \<open>USE\<close> moves
  the connection to: an event recorded in the tracked database that follows such a \<open>USE\<close> runs in
  the other one. The target here follows \<open>USE\<close> as documented.\<close>

definition stale_sessions :: "session list" where
  "stale_sessions = [small_session [small_event ''a'' ''SELECT 1'', small_event ''a'' ''USE `b`'',
     small_event ''a'' ''SELECT 1'']]"

definition stale_moves :: "move list" where
  "stale_moves = [Task 0 Go, Task 0 (Wake 0), Task 0 Go, Task 0 Connected, Task 0 Go, Task 0 (Wake 0),
     Task 0 (Answer 5 (Inr 0)), Task 0 (Answer 7 (Inr 1)), Task 0 Go, Task 0 (Wake 0),
     Task 0 (Answer 7 (Inr 0)), Task 0 Go, Task 0 (Wake 0)]"

lemma stale_gate: "should_execute ''USE `b`'' False" "is_use_statement ''USE `b`''"
  by code_simp+

theorem dedicated_tracking_diverges:
  "\<exists>p c e. pass_run (small_ctx False) stale_moves (new_pass 1 False stale_sessions) p \<and>
    se_pc (hd (pa_sessions p)) = Exec_Sent c (Some ''a'') e \<and> ev_db e = Some ''a'' \<and>
    sh_server_db (pa_shared p) c = Some ''b''"
proof -
  have "\<exists>p. do_moves (small_ctx False) stale_moves (new_pass 1 False stale_sessions) = Some p \<and>
      se_pc (hd (pa_sessions p)) = Exec_Sent 0 (Some ''a'') (small_event ''a'' ''SELECT 1'') \<and>
      sh_server_db (pa_shared p) 0 = Some ''b''"
    by (simp add: run_eval stale_moves_def stale_sessions_def stale_gate use_server_def)
  then show ?thesis using do_moves_run by (fastforce simp: small_event_def)
qed

end
