(* ===== verification/Replay_Pass_Props.thy ===== *)
theory Replay_Pass_Props
  imports Replay_Pass Replay_Theorems Spool_Props
begin

text \<open>
  The two ways of ingesting a capture give the same sessions and the same facts, so every pass over
  the spool is a pass over the events in memory; the report of a complete pass accounts for every
  event of the capture; a run always has a report.
\<close>

section \<open>Grouping\<close>

lemma group_event_fold:
  "fold group_event es ([], Map.empty) =
    (first_seen es, \<lambda>sid. if sid \<in> ev_session_id ` set es then Some (session_events es sid) else None)"
proof (induction es rule: rev_induct)
  case Nil
  then show ?case by (simp add: first_seen_def)
next
  case (snoc e es)
  then show ?case
    by (auto simp: group_event_def first_seen_snoc fun_eq_iff session_events_none)
qed

lemma group_sessions_eq: "group_sessions es = map (session_events es) (first_seen es)"
  by (simp add: group_sessions_def group_event_fold)

lemma session_events_ids:
  assumes "sid \<in> set (first_seen es)"
  obtains e r where "session_events es sid = e # r" and "ev_session_id e = sid"
proof (cases "session_events es sid")
  case Nil
  with assms show ?thesis by (auto simp: session_events_def filter_empty_conv)
next
  case (Cons e r)
  then have "e \<in> set (session_events es sid)" by simp
  then have "ev_session_id e = sid" by (simp add: session_events_def)
  with Cons that show ?thesis by blast
qed

section \<open>Streams of cursors\<close>

lemma cursor_stream_reads:
  "read_events de raw n c = Inr (evs, c', True) \<Longrightarrow> cursor_stream de raw c = map Inr evs"
proof (induction de raw n c arbitrary: evs c' rule: read_events.induct)
  case (2 de raw n c)
  obtain r c1 where n: "next_event de raw c = Inr (r, c1)"
    using "2.prems" by (auto simp: bind_result_Inr_iff)
  show ?case
  proof (cases r)
    case None
    with n "2.prems" show ?thesis by (simp add: cursor_stream.simps)
  next
    case (Some e)
    with n "2.prems" obtain es where "read_events de raw n c1 = Inr (es, c', True)" "evs = e # es"
      by (auto simp: bind_result_Inr_iff)
    with n Some "2.IH" show ?thesis by (simp add: cursor_stream.simps)
  qed
qed simp

section \<open>Spool and memory\<close>

lemma build_spool_all_filtered:
  assumes "read_capture dc fl = Inr (h, su, es)" and "filter (filters_match f) es = []" and "es \<noteq> []"
  shows "build_spool dc ser disk fl fl f aw = Inl (All_Filtered (length es))"
proof -
  have ser: "\<forall>e \<in> set es. filters_match f e \<longrightarrow> ser e \<noteq> None"
    using assms(2) by (auto simp: filter_empty_conv)
  have "stream_capture dc (pass_a_event ser f aw) new_pass_a fl = Inr (h, su, pass_a_of ser f aw es)"
    using stream_capture_events [OF assms(1), of "pass_a_event ser f aw" new_pass_a]
      pass_a_events [OF ser, of aw] by simp
  then show ?thesis using assms(2,3) by (simp add: build_spool_def pass_a_of_def)
qed

lemma fold_min_i64:
  "ev_ts_micros e < 2 ^ 63 \<Longrightarrow>
    fold min (map ev_ts_micros (e # r)) (2 ^ 63 - 1) = fold min (map ev_ts_micros r) (ev_ts_micros e)"
  by simp

lemma spool_replay_eq_memory:
  assumes "read_capture dc fl = Inr (h, su, es)"
    and "\<forall>e \<in> set es. \<exists>b. ser e = Some b \<and> de b = Some e \<and> length b < 2 ^ 32"
    and "\<forall>e \<in> set es. ev_ts_micros e < 2 ^ 63" and "\<forall>n. disk n"
  shows "spool_replay dc ser de disk path fl opts = memory_replay dc path fl opts"
proof (cases "filter (filters_match (ro_filters opts)) es = [] \<and> es \<noteq> []")
  case True
  then show ?thesis
    using build_spool_all_filtered [OF assms(1), of "ro_filters opts" ser disk "ro_allow_writes opts"]
    by (simp add: spool_replay_def memory_replay_def assms(1) Let_def)
next
  case False
  define ms where "ms = filter (filters_match (ro_filters opts)) es"
  let ?aw = "ro_allow_writes opts"
  let ?st = "start_of (\<lambda>sid. length (region ser ms sid)) (first_seen ms)"
  have all: "\<forall>e \<in> set ms. \<exists>b. ser e = Some b \<and> de b = Some e \<and> length b < 2 ^ 32"
    using assms(2) by (simp add: ms_def)
  have ser: "\<forall>e \<in> set es. filters_match (ro_filters opts) e \<longrightarrow> ser e \<noteq> None" using assms(2) by auto
  have ne: "ms \<noteq> [] \<or> es = []" using False by (auto simp: ms_def)
  obtain raw n where build: "build_spool dc ser disk fl fl (ro_filters opts) ?aw = Inr
      \<lparr>sp_file = raw, sp_sessions = map (\<lambda>sid. planned (?st sid) (build_of ser ?aw ms sid)) (first_seen ms),
       sp_header = h, sp_summary = su,
       sp_base_ts_micros = (if 0 < length ms then fold min (map ev_ts_micros ms) (2 ^ 63 - 1) else 0),
       sp_event_count = length ms, sp_filtered = length es - length ms, sp_bytes = n\<rparr>"
    and raw: "length raw = n" "\<And>sid. sid \<in> set (first_seen ms) \<Longrightarrow>
        ?st sid + length (region ser ms sid) \<le> n \<and>
        take (length (region ser ms sid)) (drop (?st sid) raw) = region ser ms sid"
    by (rule build_spool_spec [OF assms(1) ms_def ne ser assms(4)]) blast
  have stream: "cursor_stream de raw (spool_cursor (planned (?st sid) (build_of ser ?aw ms sid))) =
      map Inr (session_events ms sid)" if "sid \<in> set (first_seen ms)" for sid
    by (rule cursor_stream_reads [OF session_region [OF all raw(1) raw(2) [OF that]]])
  have session: "new_session sid (list_ex (\<lambda>e. should_execute (ev_query e) ?aw) (session_events ms sid))
      (map Inr (session_events ms sid)) = memory_session ?aw (session_events ms sid)"
    if "sid \<in> set (first_seen ms)" for sid
    using session_events_ids [OF that] by (fastforce simp: memory_session_def)
  have base: "(if 0 < length ms then fold min (map ev_ts_micros ms) (2 ^ 63 - 1) else 0) =
      (case ms of [] \<Rightarrow> 0 | e # r \<Rightarrow> fold min (map ev_ts_micros r) (ev_ts_micros e))"
  proof (cases ms)
    case (Cons e r)
    then have "e \<in> set es" using filter_is_subset [of "filters_match (ro_filters opts)" es] by (auto simp: ms_def)
    with Cons assms(3) show ?thesis using fold_min_i64 [of e r] by simp
  qed simp
  have len: "length es - (length es - length ms) = length ms" by (simp add: ms_def)
  have sessions: "spooled_sessions de \<lparr>sp_file = raw,
       sp_sessions = map (\<lambda>sid. planned (?st sid) (build_of ser ?aw ms sid)) (first_seen ms),
       sp_header = h, sp_summary = su, sp_base_ts_micros = b, sp_event_count = k, sp_filtered = fd, sp_bytes = n\<rparr> =
      map (memory_session ?aw) (group_sessions ms)" for b k fd
    by (simp add: spooled_sessions_def group_sessions_eq stream session)
  have "spool_replay dc ser de disk path fl opts = Inr
      (\<lparr>ci_file = path, ci_dialect = su_source_dialect su, ci_fp_texts = fp_texts_of su,
        ci_events = length ms, ci_filtered = length es - length ms, ci_sessions = length (first_seen ms),
        ci_base_ts_micros = (case ms of [] \<Rightarrow> 0 | e # r \<Rightarrow> fold min (map ev_ts_micros r) (ev_ts_micros e))\<rparr>,
       map (memory_session ?aw) (group_sessions ms))"
    unfolding spool_replay_def build bind_result.simps sessions base by simp
  moreover have "memory_replay dc path fl opts = Inr
      (\<lparr>ci_file = path, ci_dialect = su_source_dialect su, ci_fp_texts = fp_texts_of su,
        ci_events = length ms, ci_filtered = length es - length ms, ci_sessions = length (first_seen ms),
        ci_base_ts_micros = (case ms of [] \<Rightarrow> 0 | e # r \<Rightarrow> fold min (map ev_ts_micros r) (ev_ts_micros e))\<rparr>,
       map (memory_session ?aw) (group_sessions ms))"
    using False len by (auto simp: memory_replay_def assms(1) Let_def ms_def [symmetric] group_sessions_eq)
  ultimately show ?thesis by simp
qed

text \<open>C7: Replaying from the spool is replaying from memory: for a readable capture whose events
  serialise, both ingestion paths give the same facts for the report and the same sessions, each
  with the same events, the same gate decision and the same order, or fail alike when the filters
  exclude everything.\<close>

theorem spool_matches_memory:
  assumes "read_capture dc fl = Inr (h, su, es)"
    and "\<forall>e \<in> set es. \<exists>b. ser e = Some b \<and> de b = Some e \<and> length b < 2 ^ 32"
    and "\<forall>e \<in> set es. ev_ts_micros e < 2 ^ 63" and "\<forall>n. disk n"
  shows "spool_replay dc ser de disk path fl opts = memory_replay dc path fl opts"
  by (rule spool_replay_eq_memory [OF assms])

text \<open>The sample capture holds two sessions and three events.\<close>

definition sample_file :: "string option list option" where
  "sample_file = Some (map Some [''h'', ''b'', ''a'', ''b'', ''s''])"

definition sample_events :: "event list" where
  "sample_events = [spool_event 6 2, spool_event 5 1, spool_event 6 2]"

lemma sample_read: "\<exists>h su. read_capture sample_line sample_file = Inr (h, su, sample_events)"
proof -
  have t: "trim [c] = [c]" if "solid c" for c using that by (simp add: trim_def)
  show ?thesis
    by (simp add: sample_file_def sample_events_def read_capture_def stream_capture_def stream_record_def
        sample_line_def t solid_def is_ascii_def byte_def FORMAT_VERSION_def collect_def)
qed

lemma sample_serialises:
  "\<forall>e \<in> set sample_events. \<exists>b. sample_ser e = Some b \<and> sample_deser b = Some e \<and> length b < 2 ^ 32"
  "\<forall>e \<in> set sample_events. ev_ts_micros e < 2 ^ 63"
  by (simp_all add: sample_events_def sample_ser_def sample_deser_def spool_event_def)

theorem spool_matches_memory_witness:
  "spool_replay sample_line sample_ser sample_deser (\<lambda>_. True) [] sample_file (new_options []) =
    memory_replay sample_line [] sample_file (new_options [])"
proof -
  obtain h su where "read_capture sample_line sample_file = Inr (h, su, sample_events)"
    using sample_read by blast
  then show ?thesis by (rule spool_matches_memory [OF _ sample_serialises]) simp
qed

section \<open>The report of a complete pass\<close>

lemma mset_by_key:
  "distinct ks \<Longrightarrow> mset (concat (map (\<lambda>k. filter (\<lambda>x. f x = k) xs) ks)) = mset (filter (\<lambda>x. f x \<in> set ks) xs)"
proof (induction ks)
  case (Cons k ks)
  have "mset (filter (\<lambda>x. f x = k) xs) + mset (filter (\<lambda>x. f x \<in> set ks) xs) =
      mset (filter (\<lambda>x. f x \<in> set (k # ks)) xs)"
    using Cons.prems by (induction xs) auto
  with Cons show ?case by simp
qed simp

lemma mset_group_sessions: "mset (concat (group_sessions es)) = mset es"
proof -
  have "mset (concat (group_sessions es)) = mset (filter (\<lambda>e. ev_session_id e \<in> set (first_seen es)) es)"
    unfolding group_sessions_eq session_events_def by (rule mset_by_key) simp
  also have "filter (\<lambda>e. ev_session_id e \<in> set (first_seen es)) es = es" by (rule filter_True) simp
  finally show ?thesis .
qed

lemma memory_sessions:
  "fresh (map (memory_session aw) grouped)"
  "\<forall>s \<in> set (map (memory_session aw) grouped). clean_stream (se_events s)"
  "session_events_of (map (memory_session aw) grouped) = concat grouped"
  by (auto simp: fresh_def memory_session_def new_session_def session_events_of_def comp_def)

lemma events_tallied_mset: "mset xs = mset ys \<Longrightarrow> events_tallied g xs = events_tallied g ys"
  unfolding events_tallied_def by (metis mset_filter size_mset)

lemma fingerprint_row_counts:
  assumes "row \<in> set (fingerprint_rows lib xxh3 ft order m)"
  shows "fr_count row + fr_errors row + fr_skipped row + fr_not_run row = row_counters m (fr_id row)"
  using assms
  by (auto simp: fingerprint_rows_def rank_rows_def fingerprint_row_def row_counters_def Let_def
      split: option.splits)

lemma memory_pass_accounts:
  assumes read: "read_capture dc fl = Inr (h, su, es)"
    and mem: "memory_replay dc path fl opts = Inr (cap, ss)"
    and pass: "run_pass env cap opts info clk order shutdown ss ms = Some r"
  shows "to_executed (rr_totals r) + to_errors (rr_totals r) + to_skipped (rr_totals r) +
      to_not_run (rr_totals r) = to_events (rr_totals r) \<and>
    to_events (rr_totals r) + to_filtered (rr_totals r) = length es \<and>
    (\<forall>row \<in> set (rr_fingerprints r). fr_count row + fr_errors row + fr_skipped row + fr_not_run row =
      length (filter (\<lambda>e. ev_fingerprint_id e = fr_id row) (filter (filters_match (ro_filters opts)) es)))"
proof -
  define inc where "inc = filter (filters_match (ro_filters opts)) es"
  have ss: "ss = map (memory_session (ro_allow_writes opts)) (group_sessions inc)"
    and cap: "ci_events cap = length inc" "ci_events cap + ci_filtered cap = length es"
    using mem by (auto simp: memory_replay_def read Let_def inc_def split: if_splits)
  obtain p where p: "do_moves (pass_context env cap opts) ms (new_pass (connection_cap opts) shutdown ss) = Some p"
      "pass_done p" "r = pass_report env cap opts info clk order p"
    using pass by (auto simp: run_pass_def split: option.splits if_splits)
  have c: "counted g (pa_shared p) = events_tallied g inc" for g
  proof -
    have "counted g (pa_shared p) = events_tallied g (session_events_of ss)"
      by (rule done_counts [OF _ _ do_moves_run [OF p(1)] p(2)]) (use memory_sessions(1,2) ss in auto)
    also have "\<dots> = events_tallied g inc"
      unfolding ss memory_sessions(3) by (rule events_tallied_mset [OF mset_group_sessions])
    finally show ?thesis .
  qed
  have "counters (sh_metrics (pa_shared p)) = length inc"
    using c [of None] by (simp add: tally_counters events_tallied_total)
  moreover have "row_counters (sh_metrics (pa_shared p)) f = length (filter (\<lambda>e. ev_fingerprint_id e = f) inc)" for f
    using c [of "Some f"] by (simp add: tally_counters events_tallied_total)
  ultimately show ?thesis
    using cap fingerprint_row_counts [of _ "en_lib env" "en_xxh3 env" "ci_fp_texts cap" order "sh_metrics (pa_shared p)"]
    by (simp add: p(3) pass_report_def pass_totals_def Let_def counters_def inc_def)
qed

lemma fingerprint_row_text:
  assumes "row \<in> set (fingerprint_rows lib xxh3 ft order m)" and "ft (fr_id row) = Some t"
  shows "fr_fingerprint row = t"
  using assms by (auto simp: fingerprint_rows_def rank_rows_def fingerprint_row_def Let_def split: option.splits)

text \<open>The row of an id is headed by the fingerprint the capture's table holds for it.\<close>

lemma pass_row_text:
  assumes "memory_replay dc path fl opts = Inr (cap, ss)" and "read_capture dc fl = Inr (h, su, es)"
    and "run_pass env cap opts info clk order shutdown ss ms = Some r"
    and "row \<in> set (rr_fingerprints r)" and "fp_texts_of su (fr_id row) = Some t"
  shows "fr_fingerprint row = t"
proof -
  have "ci_fp_texts cap = fp_texts_of su"
    using assms(1,2) by (auto simp: memory_replay_def Let_def split: if_splits)
  with assms(3-5) show ?thesis
    by (auto simp: run_pass_def pass_report_def Let_def split: option.splits if_splits
        intro: fingerprint_row_text)
qed


definition sample_env :: "nat environment" where
  "sample_env = \<lparr>en_lib = count_hist, en_xxh3 = (\<lambda>b. 0), en_url_db = (\<lambda>u. None), en_effect = use_server,
     en_tool_version = ''0.5.0''\<rparr>"

definition sample_clock :: clock where
  "sample_clock = \<lparr>kl_started_at = [], kl_ended_at = [], kl_wall_secs = Fin 1\<rparr>"

definition sample_info :: target_info where
  "sample_info = \<lparr>ti_server_version = [], ti_settings = []\<rparr>"

lemma sample_gate: "\<not> should_execute ''DO 1'' False"
  by code_simp

lemma sample_sessions:
  obtains cap where "memory_replay sample_line [] sample_file (new_options []) =
    Inr (cap, [new_session 2 False [Inr (spool_event 6 2), Inr (spool_event 6 2)],
      new_session 1 False [Inr (spool_event 5 1)]])"
proof -
  obtain h su where r: "read_capture sample_line sample_file = Inr (h, su, sample_events)"
    using sample_read by blast
  have "filter (filters_match (ro_filters (new_options []))) sample_events = sample_events"
    by (simp add: new_options_def filters_match_def)
  moreover have "group_sessions sample_events = [[spool_event 6 2, spool_event 6 2], [spool_event 5 1]]"
    by (simp add: group_sessions_def group_event_def sample_events_def spool_event_def)
  ultimately show thesis
    using that by (simp add: memory_replay_def r memory_session_def sample_gate sample_events_def
        spool_event_def new_options_def Let_def)
qed


section \<open>Runs always have a report\<close>

lemma measured_bounds:
  "measured pass flag n k passes = Some ps \<Longrightarrow>
    prefix passes ps \<and> length ps \<le> length passes + n \<and> (0 < n \<longrightarrow> ps \<noteq> []) \<and>
    (\<forall>r \<in> set (butlast (drop (length passes) ps)). \<not> rr_aborted r)"
proof (induction pass flag n k passes rule: measured.induct)
  case (2 pass flag n k passes)
  show ?case
  proof (cases "flag k \<and> passes \<noteq> []")
    case True
    then show ?thesis using "2.prems" by auto
  next
    case False
    then obtain r where r: "pass k = Some r" using "2.prems" by (auto split: option.splits)
    show ?thesis
    proof (cases "rr_aborted r")
      case True
      then show ?thesis using False r "2.prems" by auto
    next
      case nab: False
      then have m: "measured pass flag n (k + 1) (passes @ [r]) = Some ps" using False r "2.prems" by auto
      then have ih: "prefix (passes @ [r]) ps" "length ps \<le> length (passes @ [r]) + n"
        "\<forall>r \<in> set (butlast (drop (length (passes @ [r])) ps)). \<not> rr_aborted r"
        using "2.IH" [OF False r nab m] by auto
      then obtain zs where "ps = passes @ r # zs" by (auto simp: prefix_def)
      with ih nab show ?thesis by auto
    qed
  qed
qed auto

lemma run_passes_primary:
  assumes "run_passes opts pass flag = Some oc"
  shows "primary oc \<noteq> None" and "length (oc_passes oc) \<le> max 1 (ro_repeat opts)"
  using assms
  by (auto simp: run_passes_def measured_outcome_def primary_def Let_def bind_eq_Some_conv
      dest!: measured_bounds split: if_splits option.splits)

text \<open>Every report of the outcome is the report of a pass that ran.\<close>

lemma measured_from:
  "measured pass flag n k passes = Some ps \<Longrightarrow> r \<in> set ps \<Longrightarrow> r \<in> set passes \<or> (\<exists>j. pass j = Some r)"
  by (induction pass flag n k passes rule: measured.induct) (auto split: if_splits option.splits)

lemma run_passes_from:
  assumes "run_passes opts pass flag = Some oc" and "r \<in> set (oc_passes oc)"
  shows "\<exists>j. pass j = Some r"
  using assms
  by (auto simp: run_passes_def measured_outcome_def Let_def bind_eq_Some_conv
      dest!: measured_from split: if_splits option.splits)

end
