(* ===== verification/Compare.thy ===== *)
theory Compare
  imports Report "HOL-Library.List_Lexorder" "HOL-Library.Char_ord"
begin

text \<open>
  \<open>compare.rs\<close>: two run reports compared. Fingerprints are matched by text and put into one of four
  lists by the p95 gate; the result-size decades go through the same gate; checksums are compared
  when both runs have them; the warnings say why the runs may not be comparable. A \<open>HashMap\<close>
  collected from a list keeps the last entry of a key; differences of \<open>i64\<close> casts are integers.
\<close>

section \<open>The comparison report\<close>

definition EXIT_REGRESSED :: int where
  "EXIT_REGRESSED = 2"

record compare_options =
  co_threshold_pct :: f64
  co_min_count :: nat

record checksum_delta =
  cd_fingerprint :: string
  cd_baseline_digest :: string
  cd_candidate_digest :: string
  cd_baseline_rows :: nat
  cd_candidate_rows :: nat
  cd_baseline_events :: nat
  cd_candidate_events :: nat
  cd_columns_differ :: bool
  cd_nondeterministic :: bool
  cd_events_differ :: bool

record correctness_report =
  cr_checked :: nat
  cr_matched :: nat
  cr_mismatches :: "checksum_delta list"
  cr_advisory :: "checksum_delta list"
  cr_note :: string

record run_meta =
  rm_file :: string
  rm_latency_source :: string
  rm_target_server_version :: string
  rm_target_url :: string
  rm_capture_file :: string
  rm_capture_dialect :: string
  rm_started_at :: string
  rm_wall_secs :: f64
  rm_flags :: report_flags
  rm_totals :: totals
  rm_pacing :: "pacing_report option"
  rm_target_settings :: "(string \<times> string) list"

record setting_diff =
  sd_name :: string
  sd_baseline :: "string option"
  sd_candidate :: "string option"

record totals_delta =
  td_baseline_qps :: f64
  td_candidate_qps :: f64
  td_qps_delta_pct :: "f64 option"
  td_baseline_wall_secs :: f64
  td_candidate_wall_secs :: f64
  td_wall_delta_pct :: "f64 option"
  td_baseline_executed :: nat
  td_candidate_executed :: nat
  td_baseline_errors :: nat
  td_candidate_errors :: nat
  td_error_delta :: int

record metric_delta =
  md_baseline_us :: f64
  md_candidate_us :: f64
  md_delta_us :: f64
  md_delta_pct :: "f64 option"

record bytes_delta =
  bd_baseline_mean :: f64
  bd_candidate_mean :: f64
  bd_mean_delta_pct :: "f64 option"
  bd_baseline_total :: nat
  bd_candidate_total :: nat

record fp_delta =
  fd_fingerprint :: string
  fd_baseline_count :: nat
  fd_candidate_count :: nat
  fd_count_mismatch :: bool
  fd_baseline_errors :: nat
  fd_candidate_errors :: nat
  fd_error_delta :: int
  fd_p50 :: metric_delta
  fd_p95 :: metric_delta
  fd_p99 :: metric_delta
  fd_mean :: metric_delta
  fd_result_bytes :: "bytes_delta option"

record bucket_delta =
  ud_fingerprint :: string
  ud_bucket :: string
  ud_baseline_count :: nat
  ud_candidate_count :: nat
  ud_count_mismatch :: bool
  ud_p50 :: metric_delta
  ud_p95 :: metric_delta
  ud_mean :: metric_delta
  ud_baseline_bytes_total :: nat
  ud_candidate_bytes_total :: nat

record only_in =
  oi_fingerprint :: string
  oi_count :: nat
  oi_errors :: nat

record compare_report =
  cp_tool :: string
  cp_tool_version :: string
  cp_threshold_pct :: f64
  cp_min_count :: nat
  cp_baseline :: run_meta
  cp_candidate :: run_meta
  cp_comparability_warnings :: "string list"
  cp_settings_diff :: "setting_diff list"
  cp_settings_note :: "string option"
  cp_totals :: totals_delta
  cp_regressions :: "fp_delta list"
  cp_improvements :: "fp_delta list"
  cp_stable :: "fp_delta list"
  cp_low_sample :: "fp_delta list"
  cp_only_in_baseline :: "only_in list"
  cp_only_in_candidate :: "only_in list"
  cp_count_mismatches :: nat
  cp_regressed :: bool
  cp_correctness :: "correctness_report option"
  cp_correctness_failed :: bool
  cp_size_regressions :: "bucket_delta list"
  cp_size_buckets_checked :: nat
  cp_size_note :: "string option"
  cp_size_regressed :: bool

section \<open>Deltas\<close>

definition pct_change :: "f64 \<Rightarrow> f64 \<Rightarrow> f64 option" where
  "pct_change base cand =
    (if f64_lt (Fin 0) base then Some (f64_mul (f64_div (f64_sub cand base) base) (f64_of_nat 100))
     else None)"

definition metric_delta_of :: "f64 \<Rightarrow> f64 \<Rightarrow> metric_delta" where
  "metric_delta_of b c =
    \<lparr>md_baseline_us = b, md_candidate_us = c, md_delta_us = f64_sub c b, md_delta_pct = pct_change b c\<rparr>"

definition fp_delta_of :: "fingerprint_report \<Rightarrow> fingerprint_report \<Rightarrow> fp_delta" where
  "fp_delta_of b c =
    \<lparr>fd_fingerprint = fr_fingerprint b, fd_baseline_count = fr_count b,
     fd_candidate_count = fr_count c, fd_count_mismatch = (fr_count b \<noteq> fr_count c),
     fd_baseline_errors = fr_errors b, fd_candidate_errors = fr_errors c,
     fd_error_delta = int (fr_errors c) - int (fr_errors b),
     fd_p50 = metric_delta_of (f64_of_nat (fr_p50_us b)) (f64_of_nat (fr_p50_us c)),
     fd_p95 = metric_delta_of (f64_of_nat (fr_p95_us b)) (f64_of_nat (fr_p95_us c)),
     fd_p99 = metric_delta_of (f64_of_nat (fr_p99_us b)) (f64_of_nat (fr_p99_us c)),
     fd_mean = metric_delta_of (fr_mean_us b) (fr_mean_us c),
     fd_result_bytes =
       (case (fr_result_bytes b, fr_result_bytes c) of
          (Some x, Some y) \<Rightarrow>
            Some \<lparr>bd_baseline_mean = rb_mean x, bd_candidate_mean = rb_mean y,
              bd_mean_delta_pct = pct_change (rb_mean x) (rb_mean y),
              bd_baseline_total = rb_total x, bd_candidate_total = rb_total y\<rparr>
        | _ \<Rightarrow> None)\<rparr>"

definition run_meta_of :: "string \<Rightarrow> run_report \<Rightarrow> run_meta" where
  "run_meta_of path r =
    \<lparr>rm_file = path, rm_latency_source = rr_latency_source r,
     rm_target_server_version = rr_target_server_version r, rm_target_url = rr_target_url r,
     rm_capture_file = rr_capture_file r, rm_capture_dialect = rr_capture_dialect r,
     rm_started_at = rr_started_at r, rm_wall_secs = rr_wall_secs r, rm_flags = rr_flags r,
     rm_totals = rr_totals r, rm_pacing = rr_pacing r, rm_target_settings = rr_target_settings r\<rparr>"

section \<open>The gate\<close>

text \<open>A population of either run that is empty or smaller than the minimum is not compared.\<close>

definition low_population :: "compare_options \<Rightarrow> nat \<Rightarrow> nat \<Rightarrow> bool" where
  "low_population opts b c \<longleftrightarrow> b = 0 \<or> c = 0 \<or> b < co_min_count opts \<or> c < co_min_count opts"

datatype verdict = Low_Sample | Regression | Improvement | Stable

definition fp_verdict :: "compare_options \<Rightarrow> fp_delta \<Rightarrow> verdict" where
  "fp_verdict opts d =
    (if low_population opts (fd_baseline_count d) (fd_candidate_count d) then Low_Sample
     else case md_delta_pct (fd_p95 d) of
       Some p \<Rightarrow>
         if f64_le (co_threshold_pct opts) p then Regression
         else if f64_le p (f64_uminus (co_threshold_pct opts)) then Improvement
         else Stable
     | None \<Rightarrow> if f64_lt (Fin 0) (md_candidate_us (fd_p95 d)) then Regression else Stable)"

definition bucket_regressed :: "compare_options \<Rightarrow> metric_delta \<Rightarrow> bool" where
  "bucket_regressed opts d =
    (case md_delta_pct d of
       Some p \<Rightarrow> f64_le (co_threshold_pct opts) p
     | None \<Rightarrow> f64_lt (Fin 0) (md_candidate_us d))"

section \<open>Matching\<close>

definition by_text :: "fingerprint_report list \<Rightarrow> string \<Rightarrow> fingerprint_report option" where
  "by_text fps t = find (\<lambda>f. fr_fingerprint f = t) (rev fps)"

definition by_label :: "size_bucket_report list \<Rightarrow> string \<Rightarrow> size_bucket_report option" where
  "by_label bs t = find (\<lambda>s. sz_bucket s = t) (rev bs)"

definition checksum_delta_of ::
    "string \<Rightarrow> checksum_report \<Rightarrow> checksum_report \<Rightarrow> checksum_delta" where
  "checksum_delta_of t b c =
    \<lparr>cd_fingerprint = t, cd_baseline_digest = ck_digest b, cd_candidate_digest = ck_digest c,
     cd_baseline_rows = ck_rows_total b, cd_candidate_rows = ck_rows_total c,
     cd_baseline_events = ck_events b, cd_candidate_events = ck_events c,
     cd_columns_differ = (ck_columns b \<noteq> ck_columns c),
     cd_nondeterministic = (ck_nondeterministic b \<or> ck_nondeterministic c),
     cd_events_differ = (ck_events b \<noteq> ck_events c)\<rparr>"

definition compare_checksums ::
    "fingerprint_report \<Rightarrow> fingerprint_report \<Rightarrow> correctness_report \<Rightarrow> correctness_report" where
  "compare_checksums b c corr =
    (case (fr_checksum b, fr_checksum c) of
       (Some x, Some y) \<Rightarrow>
         if 0 < ck_events x \<and> 0 < ck_events y then
           (let corr1 = corr\<lparr>cr_checked := cr_checked corr + 1\<rparr>;
                d = checksum_delta_of (fr_fingerprint b) x y in
            if ck_digest x = ck_digest y then corr1\<lparr>cr_matched := cr_matched corr1 + 1\<rparr>
            else if cd_nondeterministic d \<or> cd_events_differ d
            then corr1\<lparr>cr_advisory := cr_advisory corr1 @ [d]\<rparr>
            else corr1\<lparr>cr_mismatches := cr_mismatches corr1 @ [d]\<rparr>)
         else corr
     | _ \<Rightarrow> corr)"

record matching =
  mt_regressions :: "fp_delta list"
  mt_improvements :: "fp_delta list"
  mt_stable :: "fp_delta list"
  mt_low_sample :: "fp_delta list"
  mt_only_in_baseline :: "only_in list"
  mt_count_mismatches :: nat
  mt_size_regressions :: "bucket_delta list"
  mt_size_buckets_checked :: nat
  mt_correctness :: "correctness_report option"

definition bucket_delta_of ::
    "string \<Rightarrow> size_bucket_report \<Rightarrow> size_bucket_report \<Rightarrow> bucket_delta" where
  "bucket_delta_of t b c =
    \<lparr>ud_fingerprint = t, ud_bucket = sz_bucket b, ud_baseline_count = sz_count b,
     ud_candidate_count = sz_count c, ud_count_mismatch = (sz_count b \<noteq> sz_count c),
     ud_p50 = metric_delta_of (f64_of_nat (sz_p50_us b)) (f64_of_nat (sz_p50_us c)),
     ud_p95 = metric_delta_of (f64_of_nat (sz_p95_us b)) (f64_of_nat (sz_p95_us c)),
     ud_mean = metric_delta_of (sz_mean_us b) (sz_mean_us c),
     ud_baseline_bytes_total = sz_bytes_total b, ud_candidate_bytes_total = sz_bytes_total c\<rparr>"

definition compare_bucket ::
    "compare_options \<Rightarrow> string \<Rightarrow> bool \<Rightarrow> size_bucket_report list \<Rightarrow> size_bucket_report \<Rightarrow> matching \<Rightarrow> matching" where
  "compare_bucket opts t fp_regressed cand b m =
    (case by_label cand (sz_bucket b) of
       None \<Rightarrow> m
     | Some c \<Rightarrow>
        if low_population opts (sz_count b) (sz_count c) then m
        else
          (let m1 = m\<lparr>mt_size_buckets_checked := mt_size_buckets_checked m + 1\<rparr>;
               d = bucket_delta_of t b c in
           if \<not> fp_regressed \<and> bucket_regressed opts (ud_p95 d)
           then m1\<lparr>mt_size_regressions := mt_size_regressions m1 @ [d]\<rparr> else m1))"

definition place_delta :: "verdict \<Rightarrow> fp_delta \<Rightarrow> matching \<Rightarrow> matching" where
  "place_delta v d m =
    (case v of
       Low_Sample \<Rightarrow> m\<lparr>mt_low_sample := mt_low_sample m @ [d]\<rparr>
     | Regression \<Rightarrow> m\<lparr>mt_regressions := mt_regressions m @ [d]\<rparr>
     | Improvement \<Rightarrow> m\<lparr>mt_improvements := mt_improvements m @ [d]\<rparr>
     | Stable \<Rightarrow> m\<lparr>mt_stable := mt_stable m @ [d]\<rparr>)"

definition only_in_of :: "fingerprint_report \<Rightarrow> only_in" where
  "only_in_of f = \<lparr>oi_fingerprint = fr_fingerprint f, oi_count = fr_count f, oi_errors = fr_errors f\<rparr>"

text \<open>The body of the loop over the baseline's fingerprints.\<close>

definition compare_fingerprint ::
    "compare_options \<Rightarrow> fingerprint_report list \<Rightarrow> fingerprint_report \<Rightarrow> matching \<Rightarrow> matching" where
  "compare_fingerprint opts cand b m =
    (case by_text cand (fr_fingerprint b) of
       None \<Rightarrow> m\<lparr>mt_only_in_baseline := mt_only_in_baseline m @ [only_in_of b]\<rparr>
     | Some c \<Rightarrow>
        (let m1 = m\<lparr>mt_count_mismatches := mt_count_mismatches m + (if fr_count b \<noteq> fr_count c then 1 else 0),
                    mt_correctness := map_option (compare_checksums b c) (mt_correctness m)\<rparr>;
             d = fp_delta_of b c; v = fp_verdict opts d
         in fold (compare_bucket opts (fr_fingerprint b) (v = Regression) (fr_size_buckets c))
              (fr_size_buckets b) (place_delta v d m1)))"

definition new_matching :: "correctness_report option \<Rightarrow> matching" where
  "new_matching corr =
    \<lparr>mt_regressions = [], mt_improvements = [], mt_stable = [], mt_low_sample = [],
     mt_only_in_baseline = [], mt_count_mismatches = 0, mt_size_regressions = [],
     mt_size_buckets_checked = 0, mt_correctness = corr\<rparr>"

section \<open>Flags, settings and servers\<close>

definition show_opt :: "string \<Rightarrow> string option \<Rightarrow> string" where
  "show_opt none v = (case v of Some s \<Rightarrow> s | None \<Rightarrow> none)"

definition diff_entry :: "string \<Rightarrow> ('a \<Rightarrow> string) \<Rightarrow> 'a \<Rightarrow> 'a \<Rightarrow> (string \<times> string \<times> string) list" where
  "diff_entry name show1 b c = (if b \<noteq> c then [(name, show1 b, show1 c)] else [])"

definition flag_diffs :: "report_flags \<Rightarrow> report_flags \<Rightarrow> bool \<Rightarrow> (string \<times> string \<times> string) list" where
  "flag_diffs b c include_replay_knobs =
    (if include_replay_knobs then
       diff_entry ''max-connections'' dec (rf_max_connections b) (rf_max_connections c) @
       diff_entry ''allow-writes'' show_bool (rf_allow_writes b) (rf_allow_writes c) @
       diff_entry ''db-override'' (show_opt ''<none>'') (rf_db_override b) (rf_db_override c) @
       diff_entry ''speed'' (\<lambda>s. s) (rf_speed b) (rf_speed c) @
       diff_entry ''pool'' (\<lambda>p. show_opt ''<none>'' (map_option dec p)) (rf_pool b) (rf_pool c) @
       diff_entry ''warmup'' show_bool (rf_warmup b) (rf_warmup c) @
       diff_entry ''checksum'' show_bool (rf_checksum b) (rf_checksum c)
     else []) @
    diff_entry ''filter-db'' (show_opt ''<none>'') (rf_filter_db b) (rf_filter_db c) @
    diff_entry ''filter-user'' (show_opt ''<none>'') (rf_filter_user b) (rf_filter_user c) @
    diff_entry ''time-window'' (show_opt ''<none>'') (rf_time_window b) (rf_time_window c)"

definition settings_diff_of ::
    "(string \<times> string) list \<Rightarrow> (string \<times> string) list \<Rightarrow> setting_diff list" where
  "settings_diff_of b c =
    map (\<lambda>n. \<lparr>sd_name = n, sd_baseline = map_of b n, sd_candidate = map_of c n\<rparr>)
      (filter (\<lambda>n. map_of b n \<noteq> map_of c n) (remdups (sort (map fst b @ map fst c))))"

definition server_family :: "string \<Rightarrow> string option" where
  "server_family version =
    (if version = [] then None
     else if contains version ''MariaDB'' then Some ''MariaDB'' else Some ''MySQL'')"

definition strip_maria_compat_prefix :: "string \<Rightarrow> string" where
  "strip_maria_compat_prefix version =
    (case strip_prefix ''5.5.5-'' version of
       Some rest \<Rightarrow> if contains rest ''MariaDB'' then rest else version
     | None \<Rightarrow> version)"

definition meta_recorded :: "run_meta \<Rightarrow> bool" where
  "meta_recorded m \<longleftrightarrow> rm_latency_source m = LATENCY_SOURCE_RECORDED"

definition display_server_version :: "run_meta \<Rightarrow> string" where
  "display_server_version m =
    (if rm_target_server_version m \<noteq> [] then strip_maria_compat_prefix (rm_target_server_version m)
     else if meta_recorded m then ''recorded (slow log)'' else ''unknown'')"

section \<open>Warnings and notes\<close>

definition sides :: "bool \<Rightarrow> string \<times> string" where
  "sides baseline_first =
    (if baseline_first then (''baseline'', ''candidate'') else (''candidate'', ''baseline''))"

definition run_warnings :: "run_report \<Rightarrow> run_report \<Rightarrow> string list" where
  "run_warnings b c =
    (if rr_capture_file b \<noteq> rr_capture_file c
     then [''the runs replayed different capture files ('' @ rr_capture_file b @ '' vs '' @
       rr_capture_file c @ '') '' @ EM_DASH @
       '' deltas may reflect different workloads, not server behavior''] else []) @
    (if rr_capture_dialect b \<noteq> rr_capture_dialect c
     then [''capture dialects differ ('' @ rr_capture_dialect b @ '' vs '' @ rr_capture_dialect c @ '')'']
     else []) @
    (case (server_family (rr_target_server_version b), server_family (rr_target_server_version c)) of
       (Some bf, Some cf) \<Rightarrow>
         if bf \<noteq> cf
         then [''target engine families differ: '' @ bf @ '' (baseline) vs '' @ cf @ '' (candidate) '' @
           EM_DASH @ '' engine defaults (sql_mode, collations, optimizer behavior) differ by design; '' @
           ''entries in the settings diff may reflect differing engine defaults rather than '' @
           ''misconfiguration, but they still change behavior and are worth reviewing for a migration'']
         else []
     | _ \<Rightarrow> []) @
    (if is_recorded b \<noteq> is_recorded c
     then (case sides (is_recorded b) of
       (rec1, rep1) \<Rightarrow>
         [''MEASUREMENT PLANES DIFFER: the '' @ rec1 @ '' latencies were recorded in the source capture '' @
          EM_DASH @ '' server-side slow-log Query_time (measured under live production load, including '' @
          ''lock waits and contention) or request'' @ ARROW @
          ''response wire time for pcap captures (server plus the capture-point'' @ ARROW @
          ''server network path) '' @ EM_DASH @ '' while the '' @ rep1 @
          '' latencies are client-side wall times measured by replay from the test host (including '' @
          ''network round-trip and driver overhead). Deltas mix real server changes with this '' @
          ''measurement gap '' @ EM_DASH @
          '' use a generous --threshold-pct and treat small deltas as noise''])
     else []) @
    map (\<lambda>(name, x, y). ''replay flag --'' @ name @ '' differs: '' @ x @ '' (baseline) vs '' @ y @ '' (candidate)'')
      (flag_diffs (rr_flags b) (rr_flags c) (\<not> is_recorded b \<and> \<not> is_recorded c)) @
    concat (map (\<lambda>(label, r).
        if rr_aborted r
        then [''the '' @ label @ '' run was aborted mid-replay '' @ EM_DASH @
          '' its latency populations are partial and may not be comparable''] else [])
      [(''baseline'', b), (''candidate'', c)])"

definition no_settings_side :: "run_report \<Rightarrow> string" where
  "no_settings_side r =
    (if is_recorded r then ''records no target settings (recorded from the slow log)''
     else ''records no target settings (older report)'')"

definition compare_settings :: "run_report \<Rightarrow> run_report \<Rightarrow> setting_diff list \<times> string option" where
  "compare_settings b c =
    (case (rr_target_settings b = [], rr_target_settings c = []) of
       (False, False) \<Rightarrow> (settings_diff_of (rr_target_settings b) (rr_target_settings c), None)
     | (True, True) \<Rightarrow> ([], Some ''settings diff skipped: neither run records target settings'')
     | (b_empty, _) \<Rightarrow>
        ([], Some (''settings diff skipped: the '' @ fst (sides b_empty) @ '' run '' @
          no_settings_side (if b_empty then b else c))))"

fun join :: "string \<Rightarrow> string list \<Rightarrow> string" where
  "join sep [] = []"
| "join sep [x] = x"
| "join sep (x # xs) = x @ sep @ join sep xs"

definition settings_warning :: "setting_diff list \<Rightarrow> string list" where
  "settings_warning ds =
    (if ds \<noteq> []
     then [''target server settings differ: '' @ join '', '' (map sd_name ds) @ '' (see settings diff)'']
     else [])"

definition checksum_warning :: "run_report \<Rightarrow> run_report \<Rightarrow> string list" where
  "checksum_warning b c =
    (if rf_checksum (rr_flags b) \<noteq> rf_checksum (rr_flags c)
     then (case sides (rf_checksum (rr_flags b)) of
       (w, wo) \<Rightarrow>
         [''only the '' @ w @ '' run recorded result checksums (--checksum) '' @ EM_DASH @
          '' the correctness diff is skipped, and the '' @ w @ '' run'' @ [SQUOTE] @
          ''s latencies include reading every result row, so they are not comparable to the '' @ wo @
          '' run'' @ [SQUOTE] @ ''s''])
     else [])"

definition correctness_note :: string where
  "correctness_note =
    ''result checksums diverge meaningfully only when both runs executed against identical data; '' @
    ''nondeterministic queries (volatile functions, LIMIT without ORDER BY, server-state reads) '' @
    ''are listed as advisory''"

definition new_correctness :: "run_report \<Rightarrow> run_report \<Rightarrow> correctness_report option" where
  "new_correctness b c =
    (if rf_checksum (rr_flags b) \<and> rf_checksum (rr_flags c)
     then Some \<lparr>cr_checked = 0, cr_matched = 0, cr_mismatches = [], cr_advisory = [], cr_note = correctness_note\<rparr>
     else None)"

definition has_bytes :: "run_report \<Rightarrow> bool" where
  "has_bytes r \<longleftrightarrow> list_ex (\<lambda>f. fr_result_bytes f \<noteq> None) (rr_fingerprints r)"

definition no_bytes_side :: "run_report \<Rightarrow> string" where
  "no_bytes_side r =
    (if is_recorded r
     then ''records no result-set byte stats (recorded latencies '' @ EM_DASH @
       '' the capture carries no result sizes)''
     else ''records no result-set byte stats (pre-0.4.0 report)'')"

definition size_note_of :: "run_report \<Rightarrow> run_report \<Rightarrow> string option" where
  "size_note_of b c =
    (case (has_bytes b, has_bytes c) of
       (True, True) \<Rightarrow> None
     | (False, False) \<Rightarrow>
        Some ''result-set byte and size-decade comparison skipped: neither run records byte stats''
     | (b_has, _) \<Rightarrow>
        Some (''result-set byte and size-decade comparison skipped: the '' @ fst (sides (\<not> b_has)) @
          '' run '' @ no_bytes_side (if b_has then c else b)))"

section \<open>Ranking\<close>

definition pct_or :: "f64 \<Rightarrow> metric_delta \<Rightarrow> f64" where
  "pct_or dflt d = (case md_delta_pct d of Some p \<Rightarrow> p | None \<Rightarrow> dflt)"

definition rank_regressions :: "fp_delta list \<Rightarrow> fp_delta list" where
  "rank_regressions = sort_desc (\<lambda>d. (pct_or (Infinity False) (fd_p95 d), md_delta_us (fd_p95 d)))"

definition rank_improvements :: "fp_delta list \<Rightarrow> fp_delta list" where
  "rank_improvements = sort_key (\<lambda>d. (pct_or (Fin 0) (fd_p95 d), md_delta_us (fd_p95 d)))"

definition rank_low_sample :: "fp_delta list \<Rightarrow> fp_delta list" where
  "rank_low_sample = sort_desc (\<lambda>d. pct_or (Fin 0) (fd_p95 d))"

definition rank_buckets :: "bucket_delta list \<Rightarrow> bucket_delta list" where
  "rank_buckets = sort_desc (\<lambda>d. (pct_or (Infinity False) (ud_p95 d), md_delta_us (ud_p95 d)))"

definition rank_only_in :: "only_in list \<Rightarrow> only_in list" where
  "rank_only_in = sort_desc oi_count"

definition row_diff :: "checksum_delta \<Rightarrow> nat" where
  "row_diff d = nat \<bar>int (cd_baseline_rows d) - int (cd_candidate_rows d)\<bar>"

definition rank_checksums :: "correctness_report \<Rightarrow> correctness_report" where
  "rank_checksums corr =
    corr\<lparr>cr_mismatches := sort_desc row_diff (cr_mismatches corr),
      cr_advisory := sort_desc row_diff (cr_advisory corr)\<rparr>"

section \<open>The comparison\<close>

definition table_warnings :: "only_in list \<Rightarrow> only_in list \<Rightarrow> nat \<Rightarrow> string list" where
  "table_warnings only_b only_c mismatched =
    (if only_b \<noteq> [] \<or> only_c \<noteq> []
     then [''fingerprint tables differ: '' @ dec (length only_b) @
       '' fingerprint(s) only in the baseline run, '' @ dec (length only_c) @
       '' only in the candidate run '' @ EM_DASH @ '' the runs may not cover the same workload''] else []) @
    (if 0 < mismatched
     then [dec mismatched @ '' matched fingerprint(s) executed a different number of times in the two runs '' @
       EM_DASH @ '' their latency populations may not be comparable''] else [])"

definition mismatch_warning :: "correctness_report option \<Rightarrow> string list" where
  "mismatch_warning corr =
    (case corr of
       Some cr \<Rightarrow>
         if cr_mismatches cr \<noteq> []
         then [''RESULT MISMATCH: '' @ dec (length (cr_mismatches cr)) @
           '' fingerprint(s) returned different data on the two targets (see the correctness section) '' @
           EM_DASH @ '' if both runs executed against identical data, the candidate server returns wrong answers'']
         else []
     | None \<Rightarrow> [])"

definition totals_delta_of :: "run_report \<Rightarrow> run_report \<Rightarrow> totals_delta" where
  "totals_delta_of b c =
    (let bt = rr_totals b; ct = rr_totals c in
     \<lparr>td_baseline_qps = to_qps bt, td_candidate_qps = to_qps ct,
      td_qps_delta_pct = pct_change (to_qps bt) (to_qps ct),
      td_baseline_wall_secs = rr_wall_secs b, td_candidate_wall_secs = rr_wall_secs c,
      td_wall_delta_pct = pct_change (rr_wall_secs b) (rr_wall_secs c),
      td_baseline_executed = to_executed bt, td_candidate_executed = to_executed ct,
      td_baseline_errors = to_errors bt, td_candidate_errors = to_errors ct,
      td_error_delta = int (to_errors ct) - int (to_errors bt)\<rparr>)"

definition match_runs :: "compare_options \<Rightarrow> run_report \<Rightarrow> run_report \<Rightarrow> matching" where
  "match_runs opts b c =
    fold (compare_fingerprint opts (rr_fingerprints c)) (rr_fingerprints b) (new_matching (new_correctness b c))"

definition only_in_candidate_of :: "run_report \<Rightarrow> run_report \<Rightarrow> only_in list" where
  "only_in_candidate_of b c =
    map only_in_of (filter (\<lambda>f. fr_fingerprint f \<notin> fr_fingerprint ` set (rr_fingerprints b)) (rr_fingerprints c))"

definition compare_runs ::
    "string \<Rightarrow> string \<Rightarrow> run_report \<Rightarrow> string \<Rightarrow> run_report \<Rightarrow> compare_options \<Rightarrow> compare_report" where
  "compare_runs tool_version bfile b cfile c opts =
    (let m = match_runs opts b c;
         only_b = rank_only_in (mt_only_in_baseline m);
         only_c = rank_only_in (only_in_candidate_of b c);
         corr = map_option rank_checksums (mt_correctness m);
         failed = (case mt_correctness m of Some cr \<Rightarrow> cr_mismatches cr \<noteq> [] | None \<Rightarrow> False);
         sdiff = fst (compare_settings b c)
     in \<lparr>cp_tool = ''sql-replay'', cp_tool_version = tool_version,
         cp_threshold_pct = co_threshold_pct opts, cp_min_count = co_min_count opts,
         cp_baseline = run_meta_of bfile b, cp_candidate = run_meta_of cfile c,
         cp_comparability_warnings = run_warnings b c @ settings_warning sdiff @ checksum_warning b c @
           table_warnings only_b only_c (mt_count_mismatches m) @ mismatch_warning corr,
         cp_settings_diff = sdiff, cp_settings_note = snd (compare_settings b c),
         cp_totals = totals_delta_of b c, cp_regressions = rank_regressions (mt_regressions m),
         cp_improvements = rank_improvements (mt_improvements m), cp_stable = mt_stable m,
         cp_low_sample = rank_low_sample (mt_low_sample m), cp_only_in_baseline = only_b,
         cp_only_in_candidate = only_c, cp_count_mismatches = mt_count_mismatches m,
         cp_regressed = (mt_regressions m \<noteq> []), cp_correctness = corr,
         cp_correctness_failed = failed, cp_size_regressions = rank_buckets (mt_size_regressions m),
         cp_size_buckets_checked = mt_size_buckets_checked m, cp_size_note = size_note_of b c,
         cp_size_regressed = (mt_size_regressions m \<noteq> [])\<rparr>)"

text \<open>The exit code of \<open>sql-replay compare\<close>.\<close>

definition gate_exit :: "compare_report \<Rightarrow> int" where
  "gate_exit r = (if cp_regressed r \<or> cp_size_regressed r \<or> cp_correctness_failed r then EXIT_REGRESSED else 0)"

end
