(* ===== verification/Compare_Props.thy ===== *)
theory Compare_Props
  imports Compare
begin

text \<open>
  What a comparison promises: every fingerprint of the baseline is listed once, the exit code is the
  failure code exactly when a matched pair fails a gate, and a run compared with itself passes.
\<close>

section \<open>What the loops collect\<close>

text \<open>The deltas of the matched fingerprints, and the regressed decades of one of them.\<close>

definition matched :: "fingerprint_report list \<Rightarrow> fingerprint_report list \<Rightarrow> fp_delta list" where
  "matched cand fps =
    concat (map (\<lambda>b. case by_text cand (fr_fingerprint b) of
      Some c \<Rightarrow> [fp_delta_of b c] | None \<Rightarrow> []) fps)"

definition unmatched :: "fingerprint_report list \<Rightarrow> fingerprint_report list \<Rightarrow> fingerprint_report list" where
  "unmatched cand fps = filter (\<lambda>b. by_text cand (fr_fingerprint b) = None) fps"

definition bucket_deltas ::
    "compare_options \<Rightarrow> string \<Rightarrow> size_bucket_report list \<Rightarrow> size_bucket_report list \<Rightarrow> bucket_delta list" where
  "bucket_deltas opts t cand bs =
    concat (map (\<lambda>b. case by_label cand (sz_bucket b) of
      None \<Rightarrow> []
    | Some c \<Rightarrow>
        (let d = bucket_delta_of t b c in
         if \<not> low_population opts (sz_count b) (sz_count c) \<and> bucket_regressed opts (ud_p95 d)
         then [d] else [])) bs)"

lemma matched_simps [simp]:
  "matched cand [] = []"
  "matched cand (b # fps) =
    (case by_text cand (fr_fingerprint b) of
       Some c \<Rightarrow> fp_delta_of b c # matched cand fps | None \<Rightarrow> matched cand fps)"
  by (simp_all add: matched_def split: option.splits)

lemma unmatched_simps [simp]:
  "unmatched cand [] = []"
  "unmatched cand (b # fps) =
    (if by_text cand (fr_fingerprint b) = None then b # unmatched cand fps else unmatched cand fps)"
  by (simp_all add: unmatched_def)

lemma bucket_deltas_simps [simp]:
  "bucket_deltas opts t cand [] = []"
  "bucket_deltas opts t cand (b # bs) =
    (case by_label cand (sz_bucket b) of
       None \<Rightarrow> []
     | Some c \<Rightarrow>
        (let d = bucket_delta_of t b c in
         if \<not> low_population opts (sz_count b) (sz_count c) \<and> bucket_regressed opts (ud_p95 d)
         then [d] else [])) @ bucket_deltas opts t cand bs"
  by (simp_all add: bucket_deltas_def)

lemma compare_bucket_keeps [simp]:
  "mt_regressions (compare_bucket opts t fr cand b m) = mt_regressions m"
  "mt_improvements (compare_bucket opts t fr cand b m) = mt_improvements m"
  "mt_stable (compare_bucket opts t fr cand b m) = mt_stable m"
  "mt_low_sample (compare_bucket opts t fr cand b m) = mt_low_sample m"
  "mt_only_in_baseline (compare_bucket opts t fr cand b m) = mt_only_in_baseline m"
  "mt_count_mismatches (compare_bucket opts t fr cand b m) = mt_count_mismatches m"
  "mt_correctness (compare_bucket opts t fr cand b m) = mt_correctness m"
  by (simp_all add: compare_bucket_def Let_def split: option.splits)

lemma compare_buckets_keep [simp]:
  "mt_regressions (fold (compare_bucket opts t fr cand) bs m) = mt_regressions m"
  "mt_improvements (fold (compare_bucket opts t fr cand) bs m) = mt_improvements m"
  "mt_stable (fold (compare_bucket opts t fr cand) bs m) = mt_stable m"
  "mt_low_sample (fold (compare_bucket opts t fr cand) bs m) = mt_low_sample m"
  "mt_only_in_baseline (fold (compare_bucket opts t fr cand) bs m) = mt_only_in_baseline m"
  "mt_count_mismatches (fold (compare_bucket opts t fr cand) bs m) = mt_count_mismatches m"
  "mt_correctness (fold (compare_bucket opts t fr cand) bs m) = mt_correctness m"
  by (induction bs arbitrary: m) simp_all

lemma compare_bucket_size:
  "mt_size_regressions (compare_bucket opts t fr cand b m) =
    mt_size_regressions m @ (if fr then [] else bucket_deltas opts t cand [b])"
  by (simp add: compare_bucket_def Let_def split: option.splits)

lemma bucket_deltas_one: "bucket_deltas opts t cand (b # bs) = bucket_deltas opts t cand [b] @ bucket_deltas opts t cand bs"
  by simp

lemma compare_buckets_size:
  "mt_size_regressions (fold (compare_bucket opts t fr cand) bs m) =
    mt_size_regressions m @ (if fr then [] else bucket_deltas opts t cand bs)"
proof (induction bs arbitrary: m)
  case (Cons b bs)
  show ?case
    by (subst bucket_deltas_one) (simp add: Cons.IH compare_bucket_size del: bucket_deltas_simps(2))
qed simp

lemma place_delta_lists [simp]:
  "mt_regressions (place_delta v d m) = mt_regressions m @ (if v = Regression then [d] else [])"
  "mt_improvements (place_delta v d m) = mt_improvements m @ (if v = Improvement then [d] else [])"
  "mt_stable (place_delta v d m) = mt_stable m @ (if v = Stable then [d] else [])"
  "mt_low_sample (place_delta v d m) = mt_low_sample m @ (if v = Low_Sample then [d] else [])"
  "mt_only_in_baseline (place_delta v d m) = mt_only_in_baseline m"
  "mt_count_mismatches (place_delta v d m) = mt_count_mismatches m"
  "mt_size_regressions (place_delta v d m) = mt_size_regressions m"
  "mt_correctness (place_delta v d m) = mt_correctness m"
  by (cases v; simp add: place_delta_def)+

text \<open>The lists after the loop over the baseline.\<close>

lemma matching_lists:
  "mt_regressions (fold (compare_fingerprint opts cand) fps m) =
    mt_regressions m @ filter (\<lambda>d. fp_verdict opts d = Regression) (matched cand fps)"
  "mt_improvements (fold (compare_fingerprint opts cand) fps m) =
    mt_improvements m @ filter (\<lambda>d. fp_verdict opts d = Improvement) (matched cand fps)"
  "mt_stable (fold (compare_fingerprint opts cand) fps m) =
    mt_stable m @ filter (\<lambda>d. fp_verdict opts d = Stable) (matched cand fps)"
  "mt_low_sample (fold (compare_fingerprint opts cand) fps m) =
    mt_low_sample m @ filter (\<lambda>d. fp_verdict opts d = Low_Sample) (matched cand fps)"
  "mt_only_in_baseline (fold (compare_fingerprint opts cand) fps m) =
    mt_only_in_baseline m @ map only_in_of (unmatched cand fps)"
  by (induction fps arbitrary: m)
    (simp_all add: compare_fingerprint_def Let_def split: option.splits)

lemma mset_verdicts:
  "mset (filter (\<lambda>d. fp_verdict opts d = Regression) ds) +
   mset (filter (\<lambda>d. fp_verdict opts d = Improvement) ds) +
   mset (filter (\<lambda>d. fp_verdict opts d = Stable) ds) +
   mset (filter (\<lambda>d. fp_verdict opts d = Low_Sample) ds) = mset ds"
proof (induction ds)
  case (Cons d ds)
  then show ?case by (cases "fp_verdict opts d") (simp_all add: ac_simps)
qed simp

lemma matched_unmatched:
  "mset (map fd_fingerprint (matched cand fps)) + mset (map fr_fingerprint (unmatched cand fps)) =
    mset (map fr_fingerprint fps)"
  by (induction fps) (auto simp: fp_delta_of_def split: option.splits)

lemma compare_runs_lists:
  fixes b c :: run_report and opts :: compare_options
  defines "ds \<equiv> matched (rr_fingerprints c) (rr_fingerprints b)"
  shows "cp_regressions (compare_runs v bf b cf c opts) =
      rank_regressions (filter (\<lambda>d. fp_verdict opts d = Regression) ds)"
    and "cp_improvements (compare_runs v bf b cf c opts) =
      rank_improvements (filter (\<lambda>d. fp_verdict opts d = Improvement) ds)"
    and "cp_stable (compare_runs v bf b cf c opts) = filter (\<lambda>d. fp_verdict opts d = Stable) ds"
    and "cp_low_sample (compare_runs v bf b cf c opts) =
      rank_low_sample (filter (\<lambda>d. fp_verdict opts d = Low_Sample) ds)"
    and "cp_only_in_baseline (compare_runs v bf b cf c opts) =
      rank_only_in (map only_in_of (unmatched (rr_fingerprints c) (rr_fingerprints b)))"
    and "cp_only_in_candidate (compare_runs v bf b cf c opts) = rank_only_in (only_in_candidate_of b c)"
    and "cp_regressed (compare_runs v bf b cf c opts) \<longleftrightarrow>
      filter (\<lambda>d. fp_verdict opts d = Regression) ds \<noteq> []"
  by (simp_all add: compare_runs_def Let_def match_runs_def matching_lists new_matching_def ds_def)

lemma rank_mset [simp]:
  "mset (rank_regressions ds) = mset ds" "mset (rank_improvements ds) = mset ds"
  "mset (rank_low_sample ds) = mset ds" "mset (rank_only_in os) = mset os"
  by (simp_all add: rank_regressions_def rank_improvements_def rank_low_sample_def rank_only_in_def)

lemma rank_Nil_iff:
  "rank_regressions ds = [] \<longleftrightarrow> ds = []" "rank_improvements ds = [] \<longleftrightarrow> ds = []"
  by (metis mset_zero_iff rank_mset)+

section \<open>Every fingerprint once\<close>

lemma by_text_None_iff: "by_text fps t = None \<longleftrightarrow> t \<notin> fr_fingerprint ` set fps"
  by (auto simp: by_text_def find_None_iff)

lemma only_in_of_text [simp]: "oi_fingerprint (only_in_of f) = fr_fingerprint f"
  by (simp add: only_in_of_def)

text \<open>C20: The tables of a comparison partition the fingerprints. Each fingerprint of the baseline
  stands in exactly one of the lists of regressions, improvements, stable, low-sample and
  baseline-only fingerprints; the last holds those whose text the candidate does not have, and the
  candidate-only list those of the candidate whose text the baseline does not have.\<close>

theorem compare_partition:
  "let r = compare_runs v bf b cf c opts;
       base = map fr_fingerprint (rr_fingerprints b); cand = map fr_fingerprint (rr_fingerprints c)
   in mset (map fd_fingerprint (cp_regressions r @ cp_improvements r @ cp_stable r @ cp_low_sample r) @
        map oi_fingerprint (cp_only_in_baseline r)) = mset base \<and>
      mset (map oi_fingerprint (cp_only_in_baseline r)) = mset (filter (\<lambda>t. t \<notin> set cand) base) \<and>
      mset (map oi_fingerprint (cp_only_in_candidate r)) = mset (filter (\<lambda>t. t \<notin> set base) cand)"
  unfolding Let_def
proof (intro conjI)
  let ?r = "compare_runs v bf b cf c opts" and ?fc = "rr_fingerprints c" and ?fb = "rr_fingerprints b"
  let ?ds = "matched ?fc ?fb"
  have only: "mset (map oi_fingerprint (cp_only_in_baseline ?r)) = mset (map fr_fingerprint (unmatched ?fc ?fb))"
    by (simp add: compare_runs_lists multiset.map_comp comp_def)
  have lists: "mset (map fd_fingerprint (cp_regressions ?r @ cp_improvements ?r @ cp_stable ?r @ cp_low_sample ?r)) =
      mset (map fd_fingerprint ?ds)"
    unfolding mset_map
    by (subst mset_verdicts [of opts ?ds, symmetric]) (simp add: compare_runs_lists ac_simps)
  show "mset (map fd_fingerprint (cp_regressions ?r @ cp_improvements ?r @ cp_stable ?r @ cp_low_sample ?r) @
      map oi_fingerprint (cp_only_in_baseline ?r)) = mset (map fr_fingerprint ?fb)"
    by (simp only: mset_append lists only matched_unmatched)
  show "mset (map oi_fingerprint (cp_only_in_baseline ?r)) =
      mset (filter (\<lambda>t. t \<notin> set (map fr_fingerprint ?fc)) (map fr_fingerprint ?fb))"
    unfolding only unmatched_def by (simp add: by_text_None_iff filter_map comp_def)
  show "mset (map oi_fingerprint (cp_only_in_candidate ?r)) =
      mset (filter (\<lambda>t. t \<notin> set (map fr_fingerprint ?fb)) (map fr_fingerprint ?fc))"
    by (simp add: compare_runs_lists only_in_candidate_of_def filter_map multiset.map_comp comp_def)
qed

section \<open>The gates\<close>

text \<open>What fails a gate: enough samples on both sides and a p95 that grew by the threshold, or from
  zero; a deterministic statement whose results differ.\<close>

definition sampled :: "compare_options \<Rightarrow> nat \<Rightarrow> nat \<Rightarrow> bool" where
  "sampled opts x y \<longleftrightarrow> 0 < x \<and> 0 < y \<and> co_min_count opts \<le> x \<and> co_min_count opts \<le> y"

definition p95_fails :: "compare_options \<Rightarrow> nat \<Rightarrow> nat \<Rightarrow> bool" where
  "p95_fails opts x y \<longleftrightarrow>
    (if x = 0 then 0 < y
     else f64_le (co_threshold_pct opts)
       (f64_mul (f64_div (f64_sub (f64_of_nat y) (f64_of_nat x)) (f64_of_nat x)) (f64_of_nat 100)))"

definition wrong_result :: "fingerprint_report \<Rightarrow> fingerprint_report \<Rightarrow> bool" where
  "wrong_result b c \<longleftrightarrow>
    (\<exists>x y. fr_checksum b = Some x \<and> fr_checksum c = Some y \<and> 0 < ck_events x \<and>
      ck_events x = ck_events y \<and> ck_digest x \<noteq> ck_digest y \<and>
      \<not> ck_nondeterministic x \<and> \<not> ck_nondeterministic y)"

definition decade_fails :: "compare_options \<Rightarrow> fingerprint_report \<Rightarrow> fingerprint_report \<Rightarrow> bool" where
  "decade_fails opts b c \<longleftrightarrow>
    (\<exists>x \<in> set (fr_size_buckets b). \<exists>y. by_label (fr_size_buckets c) (sz_bucket x) = Some y \<and>
      sampled opts (sz_count x) (sz_count y) \<and> p95_fails opts (sz_p95_us x) (sz_p95_us y))"

definition latency_fails :: "compare_options \<Rightarrow> fingerprint_report \<Rightarrow> fingerprint_report \<Rightarrow> bool" where
  "latency_fails opts b c \<longleftrightarrow>
    sampled opts (fr_count b) (fr_count c) \<and> p95_fails opts (fr_p95_us b) (fr_p95_us c)"

lemma round_half_even_floor: "\<lfloor>x\<rfloor> \<le> round_half_even x"
  by (simp add: round_half_even_def Let_def)

lemma round_bin_pos:
  assumes "1 \<le> q"
  shows "0 < round_bin 53 (- 1022) q"
proof -
  define u where "u = pow2 (max (ilog2 q) (- 1022) - 52)"
  have u: "0 < u" by (simp add: u_def pow2_pos)
  have "u \<le> q"
  proof (cases "ilog2 q \<le> - 1022")
    case True
    then have "u \<le> pow2 0" unfolding u_def by (subst pow2_le_iff) simp
    then show ?thesis using assms by (simp add: pow2_def)
  next
    case False
    then have "u \<le> pow2 (ilog2 q)" unfolding u_def by (subst pow2_le_iff) simp
    then show ?thesis using ilog2_le [of q] assms by simp
  qed
  then have "1 \<le> q / u" using u by (simp add: pos_le_divide_eq)
  then have "1 \<le> \<lfloor>q / u\<rfloor>" by simp
  then have "1 \<le> round_half_even (q / u)" using round_half_even_floor [of "q / u"] by linarith
  then show ?thesis using u by (simp add: round_bin_def Let_def u_def)
qed

lemma f64_of_nat_pos: "f64_lt (Fin 0) (f64_of_nat n) \<longleftrightarrow> 0 < n"
proof (cases n)
  case 0
  then show ?thesis by (simp add: f64_of_nat_def f64_of_int_def f64_round_def f64_lt_def)
next
  case (Suc k)
  have "0 < round_bin 53 (- 1022) (of_nat n)" by (rule round_bin_pos) (simp add: Suc)
  then show ?thesis
    by (simp add: Suc f64_of_nat_def f64_of_int_def f64_round_def f64_lt_def Let_def del: of_nat_Suc)
qed

lemma low_population_iff: "low_population opts x y \<longleftrightarrow> \<not> sampled opts x y"
  by (auto simp: low_population_def sampled_def)

lemma pct_change_nat:
  "pct_change (f64_of_nat x) (f64_of_nat y) =
    (if x = 0 then None
     else Some (f64_mul (f64_div (f64_sub (f64_of_nat y) (f64_of_nat x)) (f64_of_nat x)) (f64_of_nat 100)))"
  by (simp add: pct_change_def f64_of_nat_pos)

lemma fp_regression_iff: "fp_verdict opts (fp_delta_of b c) = Regression \<longleftrightarrow> latency_fails opts b c"
  by (simp add: fp_verdict_def fp_delta_of_def metric_delta_of_def latency_fails_def low_population_iff
      pct_change_nat f64_of_nat_pos p95_fails_def)

lemma bucket_regressed_iff:
  "bucket_regressed opts (ud_p95 (bucket_delta_of t x y)) \<longleftrightarrow> p95_fails opts (sz_p95_us x) (sz_p95_us y)"
  by (simp add: bucket_regressed_def bucket_delta_of_def metric_delta_of_def pct_change_nat
      f64_of_nat_pos p95_fails_def)

lemma bucket_deltas_iff:
  "bucket_deltas opts t (fr_size_buckets c) (fr_size_buckets b) \<noteq> [] \<longleftrightarrow> decade_fails opts b c"
  by (auto simp: bucket_deltas_def decade_fails_def Let_def bucket_regressed_iff low_population_iff
      split: option.splits if_splits)

lemma matching_size:
  "mt_size_regressions (fold (compare_fingerprint opts cand) fps m) \<noteq> [] \<longleftrightarrow>
    mt_size_regressions m \<noteq> [] \<or>
    (\<exists>b \<in> set fps. \<exists>c. by_text cand (fr_fingerprint b) = Some c \<and>
      \<not> latency_fails opts b c \<and> decade_fails opts b c)"
proof (induction fps arbitrary: m)
  case (Cons b fps)
  have "mt_size_regressions (compare_fingerprint opts cand b m) \<noteq> [] \<longleftrightarrow>
      mt_size_regressions m \<noteq> [] \<or>
      (\<exists>c. by_text cand (fr_fingerprint b) = Some c \<and> \<not> latency_fails opts b c \<and> decade_fails opts b c)"
    using bucket_deltas_iff
    by (auto simp: compare_fingerprint_def Let_def compare_buckets_size fp_regression_iff
        split: option.splits if_splits)
  then show ?case by (simp add: Cons.IH)
qed simp

lemma mismatches_iff:
  "cr_mismatches (compare_checksums b c corr) \<noteq> [] \<longleftrightarrow> cr_mismatches corr \<noteq> [] \<or> wrong_result b c"
  by (auto simp: compare_checksums_def wrong_result_def checksum_delta_of_def Let_def split: option.splits)

definition mismatched :: "correctness_report option \<Rightarrow> bool" where
  "mismatched corr \<longleftrightarrow> (case corr of Some cr \<Rightarrow> cr_mismatches cr \<noteq> [] | None \<Rightarrow> False)"

lemma mismatched_step:
  "mismatched (map_option (compare_checksums b c) corr) \<longleftrightarrow>
    mismatched corr \<or> corr \<noteq> None \<and> wrong_result b c"
  by (cases corr) (simp_all add: mismatched_def mismatches_iff)

lemma compare_fingerprint_correctness:
  "mt_correctness (compare_fingerprint opts cand b m) =
    (case by_text cand (fr_fingerprint b) of
       None \<Rightarrow> mt_correctness m
     | Some c \<Rightarrow> map_option (compare_checksums b c) (mt_correctness m))"
  by (simp add: compare_fingerprint_def Let_def split: option.splits)

lemma matching_correctness:
  "mismatched (mt_correctness (fold (compare_fingerprint opts cand) fps m)) \<longleftrightarrow>
    mismatched (mt_correctness m) \<or>
    mt_correctness m \<noteq> None \<and>
      (\<exists>b \<in> set fps. \<exists>c. by_text cand (fr_fingerprint b) = Some c \<and> wrong_result b c)"
proof (induction fps arbitrary: m)
  case (Cons b fps)
  show ?case
    by (cases "by_text cand (fr_fingerprint b)")
      (auto simp: Cons.IH compare_fingerprint_correctness mismatched_step)
qed simp

lemma mismatched_new:
  "\<not> mismatched (new_correctness b c)"
  "(\<exists>y. new_correctness b c = Some y) \<longleftrightarrow> rf_checksum (rr_flags b) \<and> rf_checksum (rr_flags c)"
  by (simp_all add: new_correctness_def mismatched_def)

lemma matched_set: "d \<in> set (matched cand fps) \<longleftrightarrow>
    (\<exists>b \<in> set fps. \<exists>c. by_text cand (fr_fingerprint b) = Some c \<and> d = fp_delta_of b c)"
  by (induction fps) (auto split: option.splits)

text \<open>What fails the gate as a whole, of one matched pair.\<close>

definition pair_fails :: "compare_options \<Rightarrow> bool \<Rightarrow> fingerprint_report \<Rightarrow> fingerprint_report \<Rightarrow> bool" where
  "pair_fails opts checksums b c \<longleftrightarrow>
    latency_fails opts b c \<or> decade_fails opts b c \<or> checksums \<and> wrong_result b c"

lemma gate_exit_pairs:
  "gate_exit (compare_runs v bf b cf c opts) =
    (if \<exists>x \<in> set (rr_fingerprints b). \<exists>y. by_text (rr_fingerprints c) (fr_fingerprint x) = Some y \<and>
        pair_fails opts (rf_checksum (rr_flags b) \<and> rf_checksum (rr_flags c)) x y
     then EXIT_REGRESSED else 0)"
proof -
  let ?r = "compare_runs v bf b cf c opts"
  let ?pair = "\<lambda>P. \<exists>x \<in> set (rr_fingerprints b). \<exists>y.
    by_text (rr_fingerprints c) (fr_fingerprint x) = Some y \<and> P x y"
  have 1: "cp_regressed ?r \<longleftrightarrow> ?pair (latency_fails opts)"
    unfolding compare_runs_lists filter_empty_conv
    by (auto simp: Ball_def matched_set fp_regression_iff) (metis fp_regression_iff)+
  have 2: "cp_size_regressed ?r \<longleftrightarrow> ?pair (\<lambda>x y. \<not> latency_fails opts x y \<and> decade_fails opts x y)"
    by (simp add: compare_runs_def Let_def match_runs_def matching_size new_matching_def)
  have 3: "cp_correctness_failed ?r \<longleftrightarrow>
      (rf_checksum (rr_flags b) \<and> rf_checksum (rr_flags c)) \<and> ?pair wrong_result"
  proof -
    have "cp_correctness_failed ?r \<longleftrightarrow> mismatched (mt_correctness (match_runs opts b c))"
      by (simp add: compare_runs_def Let_def mismatched_def)
    then show ?thesis
      by (simp add: match_runs_def matching_correctness new_matching_def mismatched_new)
  qed
  show ?thesis unfolding gate_exit_def 1 2 3 pair_fails_def by auto
qed

text \<open>C8: \<open>compare\<close> exits with the failure code exactly when some fingerprint that both runs have
  fails: its p95 grew by the threshold or from zero with enough executions on both sides, or that
  holds for one of its result-size decades, or both runs recorded checksums and the same number of
  executions of a deterministic statement gave different results.\<close>

theorem compare_gate_exact:
  "gate_exit (compare_runs v bf b cf c opts) = EXIT_REGRESSED \<longleftrightarrow>
    (\<exists>x \<in> set (rr_fingerprints b). \<exists>y. by_text (rr_fingerprints c) (fr_fingerprint x) = Some y \<and>
      pair_fails opts (rf_checksum (rr_flags b) \<and> rf_checksum (rr_flags c)) x y)"
  by (simp add: gate_exit_pairs EXIT_REGRESSED_def)

section \<open>A run against itself\<close>

lemma find_key_distinct: "distinct (map key xs) \<Longrightarrow> x \<in> set xs \<Longrightarrow> find (\<lambda>y. key y = key x) (rev xs) = Some x"
  by (induction xs rule: rev_induct) auto

lemma f64_sub_self: "f64_sub x x \<in> {Fin 0, NaN}"
  by (cases x) (auto simp: f64_sub_def f64_add_def f64_round_def Let_def)

lemma f64_div_self_sub: "f64_lt (Fin 0) x \<Longrightarrow> f64_div (f64_sub x x) x \<in> {Fin 0, NaN}"
  using f64_sub_self [of x]
  by (cases x) (auto simp: f64_div_def f64_lt_def f64_round_def Let_def is_finite_def)

lemma f64_hundred: "f64_of_nat 100 = Fin 100"
  using f64_of_int_exact [of 100] by (simp add: f64_of_nat_def)

lemma pct_change_self: "pct_change x x \<in> {None, Some (Fin 0), Some NaN}"
  using f64_div_self_sub [of x]
  by (auto simp: pct_change_def f64_hundred f64_mul_def Let_def is_finite_def is_zero_def f64_round_def)

lemma threshold_pos:
  assumes "f64_lt (Fin 0) t"
  shows "\<not> f64_le t (Fin 0)" and "\<not> f64_le (Fin 0) (f64_uminus t)"
  using assms by (cases t; auto simp: f64_le_def f64_lt_def split: if_splits)+

lemma f64_le_NaN [simp]: "\<not> f64_le t NaN" "\<not> f64_le NaN t"
  by (simp_all add: f64_le_def)

lemma p95_self: "f64_lt (Fin 0) (co_threshold_pct opts) \<Longrightarrow> \<not> p95_fails opts x x"
  using pct_change_self [of "f64_of_nat x"] threshold_pos
  by (auto simp: p95_fails_def pct_change_nat)

lemma verdict_self:
  "f64_lt (Fin 0) (co_threshold_pct opts) \<Longrightarrow> fp_verdict opts (fp_delta_of f f) \<in> {Low_Sample, Stable}"
  using pct_change_self [of "f64_of_nat (fr_p95_us f)"] threshold_pos [of "co_threshold_pct opts"]
  by (auto simp: fp_verdict_def fp_delta_of_def metric_delta_of_def pct_change_nat f64_of_nat_pos)

lemma flag_diffs_self [simp]: "flag_diffs f f k = []"
  by (simp add: flag_diffs_def diff_entry_def)

lemma settings_diff_self [simp]: "settings_diff_of s s = []"
  by (simp add: settings_diff_of_def)

lemma count_mismatches_self:
  "\<forall>f \<in> set fps. by_text cand (fr_fingerprint f) = Some f \<Longrightarrow>
    mt_count_mismatches (fold (compare_fingerprint opts cand) fps m) = mt_count_mismatches m"
  by (induction fps arbitrary: m) (simp_all add: compare_fingerprint_def Let_def)

text \<open>C31: A run compared with itself passes: no regression, improvement or unmatched fingerprint,
  no settings that differ, no warning (the run not being a partial one) and exit code 0, for every
  positive threshold.\<close>

theorem compare_self:
  fixes b :: run_report
  assumes "f64_lt (Fin 0) (co_threshold_pct opts)"
    and "distinct (map fr_fingerprint (rr_fingerprints b))"
    and "\<forall>f \<in> set (rr_fingerprints b). distinct (map sz_bucket (fr_size_buckets f))"
    and "\<not> rr_aborted b"
  shows "let r = compare_runs v bf b cf b opts in
    gate_exit r = 0 \<and> cp_regressions r = [] \<and> cp_improvements r = [] \<and>
    cp_only_in_baseline r = [] \<and> cp_only_in_candidate r = [] \<and> cp_count_mismatches r = 0 \<and>
    cp_settings_diff r = [] \<and> cp_comparability_warnings r = []"
proof -
  let ?r = "compare_runs v bf b cf b opts" and ?fs = "rr_fingerprints b"
  have self: "by_text ?fs (fr_fingerprint f) = Some f" if "f \<in> set ?fs" for f
    unfolding by_text_def using find_key_distinct [OF assms(2) that] .
  have label: "by_label (fr_size_buckets f) (sz_bucket x) = Some x"
    if "f \<in> set ?fs" "x \<in> set (fr_size_buckets f)" for f x
    unfolding by_label_def using find_key_distinct [of sz_bucket] assms(3) that by blast
  have unmatched: "unmatched ?fs ?fs = []" by (simp add: unmatched_def filter_empty_conv self)
  have only: "only_in_candidate_of b b = []" by (simp add: only_in_candidate_of_def filter_empty_conv)
  have verdicts: "fp_verdict opts d \<in> {Low_Sample, Stable}" if "d \<in> set (matched ?fs ?fs)" for d
    using that verdict_self [OF assms(1)] by (auto simp: matched_set self)
  have pass: "\<not> pair_fails opts k f f" if "f \<in> set ?fs" for f k
    using p95_self [OF assms(1)] label [OF that]
    by (auto simp: pair_fails_def latency_fails_def decade_fails_def wrong_result_def)
  have gate: "gate_exit ?r = 0"
    unfolding gate_exit_pairs using pass by (auto simp: self)
  then have "\<not> cp_correctness_failed ?r"
    by (auto simp: gate_exit_def EXIT_REGRESSED_def split: if_splits)
  then have corr: "mismatch_warning (map_option rank_checksums (mt_correctness (match_runs opts b b))) = []"
    by (auto simp: compare_runs_def Let_def mismatch_warning_def rank_checksums_def split: option.splits)
  have counts: "mt_count_mismatches (match_runs opts b b) = 0"
    by (simp add: match_runs_def new_matching_def count_mismatches_self self)
  have lists: "cp_regressions ?r = []" "cp_improvements ?r = []"
    using verdicts by (fastforce simp: compare_runs_lists rank_Nil_iff filter_empty_conv)+
  have only_lists: "cp_only_in_baseline ?r = []" "cp_only_in_candidate ?r = []"
    by (simp_all add: compare_runs_lists unmatched only rank_only_in_def)
  have settings: "fst (compare_settings b b) = []"
    by (simp add: compare_settings_def split: bool.splits)
  have warn: "run_warnings b b = []"
    using assms(4) by (simp add: run_warnings_def split: option.splits)
  have "cp_comparability_warnings ?r = []"
    using only_lists counts corr
    by (simp add: compare_runs_def Let_def warn settings settings_warning_def checksum_warning_def
        table_warnings_def)
  moreover have "cp_settings_diff ?r = []" "cp_count_mismatches ?r = 0"
    by (simp_all add: compare_runs_def Let_def settings counts)
  ultimately show ?thesis
    unfolding Let_def by (intro conjI) (use gate lists only_lists in simp_all)
qed

definition sample_row :: fingerprint_report where
  "sample_row =
    \<lparr>fr_id = 0, fr_fingerprint = ''select ?'', fr_count = 9, fr_errors = 0, fr_first_error = None,
     fr_skipped = 0, fr_not_run = 0, fr_p50_us = 200, fr_p95_us = 900, fr_p99_us = 950,
     fr_max_us = 990, fr_mean_us = Fin 300, fr_checksum = None, fr_result_bytes = None,
     fr_size_buckets = [\<lparr>sz_bucket = ''<1KB'', sz_count = 9, sz_p50_us = 200, sz_p95_us = 900,
       sz_mean_us = Fin 300, sz_max_us = 990, sz_bytes_total = 81\<rparr>]\<rparr>"

definition sample_report :: run_report where
  "sample_report =
    \<lparr>rr_tool = ''sql-replay'', rr_tool_version = ''0.5.0'', rr_capture_file = ''a.jsonl.zst'',
     rr_capture_dialect = ''mysql57'', rr_latency_source = LATENCY_SOURCE_REPLAYED,
     rr_target_url = ''mysql://h/d'', rr_target_server_version = ''8.0.36'', rr_started_at = [],
     rr_ended_at = [], rr_wall_secs = Fin 2, rr_aborted = False, rr_aggregation = None,
     rr_flags = \<lparr>rf_max_connections = 50, rf_allow_writes = False, rf_read_only = False,
       rf_db_override = None, rf_speed = ''max'', rf_checksum = True, rf_pool = None,
       rf_warmup = False, rf_filter_db = None, rf_filter_user = None, rf_time_window = None\<rparr>,
     rr_totals = \<lparr>to_events = 9, to_sessions = 1, to_executed = 9, to_skipped = 0, to_errors = 0,
       to_not_run = 0, to_connect_failures = 0, to_qps = Fin (9 / 2), to_filtered = 0\<rparr>,
     rr_saturation = \<lparr>sa_samples = 0, sa_saturated_samples = 0, sa_saturated_pct = Fin 0\<rparr>,
     rr_pacing = None, rr_target_settings = [(''sql_mode'', ''ANSI'')],
     rr_fingerprints = [sample_row]\<rparr>"

theorem compare_self_witness:
  "gate_exit (compare_runs ''0.5.0'' ''a'' sample_report ''b'' sample_report
      \<lparr>co_threshold_pct = Fin 10, co_min_count = 5\<rparr>) = 0"
  using compare_self [of "\<lparr>co_threshold_pct = Fin 10, co_min_count = 5\<rparr>" sample_report "''0.5.0''" "''a''" "''b''"]
  by (simp add: sample_report_def sample_row_def f64_lt_def Let_def)

end
