(* ===== verification/Baseline.thy ===== *)
theory Baseline
  imports Metrics Spool
begin

text \<open>
  \<open>baseline.rs\<close>: a run report built from the latencies a capture recorded. The histogram crate is the
  parameter \<open>hist_lib\<close>, the formatter of the \<open>time\<close> crate the parameter \<open>fmt\<close> (nanoseconds since the
  epoch to text), \<open>order\<close> the iteration order of the hash map of fingerprints.
\<close>

section \<open>The accumulator\<close>

record 'h base_agg =
  bg_hist :: 'h
  bg_count :: nat

definition new_base_agg :: "'h hist_lib \<Rightarrow> 'h base_agg" where
  "new_base_agg lib = \<lparr>bg_hist = hl_new lib 1 3600000000 3, bg_count = 0\<rparr>"

record 'h baseline_acc =
  bl_per_fp :: "u32 \<rightharpoonup> 'h base_agg"
  bl_sessions :: "nat set"
  bl_events :: nat
  bl_total :: nat
  bl_min_ts :: int
  bl_max_ts :: int

definition new_baseline_acc :: "'h baseline_acc" where
  "new_baseline_acc =
    \<lparr>bl_per_fp = Map.empty, bl_sessions = {}, bl_events = 0, bl_total = 0, bl_min_ts = 2 ^ 63 - 1,
     bl_max_ts = - (2 ^ 63)\<rparr>"

text \<open>The recorded seconds as whole microseconds.\<close>

definition recorded_micros :: "event \<Rightarrow> nat" where
  "recorded_micros e =
    f64_to_u64 (f64_max (f64_round_int (f64_mul (ev_orig_query_time_s e) (f64_of_nat 1000000))) (Fin 0))"

definition base_record :: "'h hist_lib \<Rightarrow> event \<Rightarrow> 'h base_agg \<Rightarrow> 'h base_agg" where
  "base_record lib e a =
    \<lparr>bg_hist = hl_record lib (max (recorded_micros e) 1) (bg_hist a), bg_count = bg_count a + 1\<rparr>"

definition base_entry :: "'h hist_lib \<Rightarrow> (u32 \<rightharpoonup> 'h base_agg) \<Rightarrow> u32 \<Rightarrow> 'h base_agg" where
  "base_entry lib m i = (case m i of Some a \<Rightarrow> a | None \<Rightarrow> new_base_agg lib)"

text \<open>The closure that \<open>stream_capture\<close> calls on every event.\<close>

definition baseline_event ::
    "'h hist_lib \<Rightarrow> filters \<Rightarrow> event \<Rightarrow> 'h baseline_acc \<Rightarrow> error + 'h baseline_acc" where
  "baseline_event lib f e st =
    (let st1 = st\<lparr>bl_total := bl_total st + 1\<rparr> in
     if \<not> filters_match f e then Inr st1
     else
       Inr (st1\<lparr>bl_events := bl_events st1 + 1,
         bl_sessions := insert (ev_session_id e) (bl_sessions st1),
         bl_min_ts := min (bl_min_ts st1) (ev_ts_micros e),
         bl_max_ts := max (bl_max_ts st1) (ev_ts_micros e),
         bl_per_fp := (bl_per_fp st1)(ev_fingerprint_id e \<mapsto>
           base_record lib e (base_entry lib (bl_per_fp st1) (ev_fingerprint_id e)))\<rparr>))"

section \<open>The report\<close>

text \<open>A hash map collected from the summary keeps the last text of an id.\<close>

definition summary_texts :: "summary \<Rightarrow> u32 \<rightharpoonup> string" where
  "summary_texts su = map_of (rev (map (\<lambda>e. (fe_id e, fe_text e)) (su_fingerprints su)))"

definition baseline_row :: "'h hist_lib \<Rightarrow> (u32 \<rightharpoonup> string) \<Rightarrow> u32 \<Rightarrow> 'h base_agg \<Rightarrow> fingerprint_report" where
  "baseline_row lib fp_texts i a =
    \<lparr>fr_id = i,
     fr_fingerprint = (case fp_texts i of
        Some t \<Rightarrow> t
      | None \<Rightarrow> ''<unknown fingerprint '' @ dec (unat i) @ ''>''),
     fr_count = bg_count a, fr_errors = 0, fr_first_error = None, fr_skipped = 0, fr_not_run = 0,
     fr_p50_us = hl_quantile lib (f64_lit 50 2) (bg_hist a),
     fr_p95_us = hl_quantile lib (f64_lit 95 2) (bg_hist a),
     fr_p99_us = hl_quantile lib (f64_lit 99 2) (bg_hist a),
     fr_max_us = hl_max lib (bg_hist a), fr_mean_us = hl_mean lib (bg_hist a), fr_checksum = None,
     fr_result_bytes = None, fr_size_buckets = []\<rparr>"

definition baseline_rows ::
    "'h hist_lib \<Rightarrow> (u32 \<rightharpoonup> string) \<Rightarrow> u32 list \<Rightarrow> (u32 \<rightharpoonup> 'h base_agg) \<Rightarrow> fingerprint_report list" where
  "baseline_rows lib fp_texts order m =
    rank_rows (concat (map (\<lambda>i. case m i of
      Some a \<Rightarrow> [baseline_row lib fp_texts i a] | None \<Rightarrow> []) order))"

definition format_ts_micros :: "(int \<Rightarrow> string option) \<Rightarrow> int \<Rightarrow> string" where
  "format_ts_micros fmt ts = (case fmt (ts * 1000) of Some s \<Rightarrow> s | None \<Rightarrow> [])"

definition baseline_flags :: "filters \<Rightarrow> report_flags" where
  "baseline_flags f =
    \<lparr>rf_max_connections = 0, rf_allow_writes = False, rf_read_only = False, rf_db_override = None,
     rf_speed = ''recorded'', rf_checksum = False, rf_pool = None, rf_warmup = False,
     rf_filter_db = fi_db f, rf_filter_user = fi_user f,
     rf_time_window = map_option tw_raw (fi_window f)\<rparr>"

definition baseline_totals :: "f64 \<Rightarrow> 'h baseline_acc \<Rightarrow> totals" where
  "baseline_totals wall st =
    \<lparr>to_events = bl_events st, to_sessions = card (bl_sessions st), to_executed = bl_events st,
     to_skipped = 0, to_errors = 0, to_not_run = 0, to_connect_failures = 0,
     to_qps = (if f64_lt (Fin 0) wall then f64_div (f64_of_nat (bl_events st)) wall else Fin 0),
     to_filtered = bl_total st - bl_events st\<rparr>"

definition baseline_report ::
    "'h hist_lib \<Rightarrow> (int \<Rightarrow> string option) \<Rightarrow> string \<Rightarrow> u32 list \<Rightarrow> string \<Rightarrow> filters \<Rightarrow> summary \<Rightarrow>
      'h baseline_acc \<Rightarrow> run_report" where
  "baseline_report lib fmt version order path f su st =
    (let wall = f64_div (f64_of_int (wrap_i64 (bl_max_ts st - bl_min_ts st))) (f64_of_nat 1000000) in
     \<lparr>rr_tool = ''sql-replay'', rr_tool_version = version, rr_capture_file = path,
      rr_capture_dialect = su_source_dialect su, rr_latency_source = LATENCY_SOURCE_RECORDED,
      rr_target_url = [], rr_target_server_version = [],
      rr_started_at = format_ts_micros fmt (bl_min_ts st),
      rr_ended_at = format_ts_micros fmt (bl_max_ts st), rr_wall_secs = wall, rr_aborted = False,
      rr_aggregation = None, rr_flags = baseline_flags f, rr_totals = baseline_totals wall st,
      rr_saturation = \<lparr>sa_samples = 0, sa_saturated_samples = 0, sa_saturated_pct = Fin 0\<rparr>,
      rr_pacing = None, rr_target_settings = [],
      rr_fingerprints = baseline_rows lib (summary_texts su) order (bl_per_fp st)\<rparr>)"

definition build_baseline ::
    "'h hist_lib \<Rightarrow> (int \<Rightarrow> string option) \<Rightarrow> string \<Rightarrow> u32 list \<Rightarrow> (string \<Rightarrow> capture_record option) \<Rightarrow>
      string \<Rightarrow> string option list option \<Rightarrow> filters \<Rightarrow> error + run_report" where
  "build_baseline lib fmt version order de path fl f =
    bind_result (stream_capture de (baseline_event lib f) new_baseline_acc fl) (\<lambda>(h, su, st).
      let filtered = bl_total st - bl_events st in
      if bl_events st = 0 then (if 0 < filtered then Inl (All_Filtered filtered) else Inl No_Events)
      else Inr (baseline_report lib fmt version order path f su st))"

end
