(* ===== verification/Baseline_Props.thy ===== *)
theory Baseline_Props
  imports Baseline Replay_Pass_Props
begin

text \<open>
  The baseline is what its rows say of the events of the capture: the accumulator after streaming is
  the declarative summary of the events that pass the filters.
\<close>

section \<open>The accumulator in closed form\<close>

definition of_fingerprint :: "u32 \<Rightarrow> event list \<Rightarrow> event list" where
  "of_fingerprint i es = filter (\<lambda>e. ev_fingerprint_id e = i) es"

definition agg_of :: "'h hist_lib \<Rightarrow> event list \<Rightarrow> 'h base_agg" where
  "agg_of lib es = \<lparr>bg_hist = fold (\<lambda>e. hl_record lib (max (recorded_micros e) 1)) es (hl_new lib 1 3600000000 3),
     bg_count = length es\<rparr>"

definition acc_of :: "'h hist_lib \<Rightarrow> nat \<Rightarrow> event list \<Rightarrow> 'h baseline_acc" where
  "acc_of lib n inc =
    \<lparr>bl_per_fp = (\<lambda>i. if of_fingerprint i inc = [] then None else Some (agg_of lib (of_fingerprint i inc))),
     bl_sessions = ev_session_id ` set inc, bl_events = length inc, bl_total = n,
     bl_min_ts = fold min (map ev_ts_micros inc) (2 ^ 63 - 1),
     bl_max_ts = fold max (map ev_ts_micros inc) (- (2 ^ 63))\<rparr>"

lemma agg_of_new: "agg_of lib [] = new_base_agg lib"
  by (simp add: agg_of_def new_base_agg_def)

lemma agg_of_snoc: "base_record lib e (agg_of lib es) = agg_of lib (es @ [e])"
  by (simp add: agg_of_def base_record_def)

lemma of_fingerprint_snoc [simp]:
  "of_fingerprint i (es @ [e]) = of_fingerprint i es @ (if ev_fingerprint_id e = i then [e] else [])"
  by (simp add: of_fingerprint_def)

lemma base_entry_acc: "base_entry lib (bl_per_fp (acc_of lib n inc)) i = agg_of lib (of_fingerprint i inc)"
  by (simp add: base_entry_def acc_of_def agg_of_new)

lemma per_fp_snoc:
  "(bl_per_fp (acc_of lib n inc))(ev_fingerprint_id e \<mapsto> agg_of lib (of_fingerprint (ev_fingerprint_id e) inc @ [e])) =
    bl_per_fp (acc_of lib k (inc @ [e]))"
  by (rule ext) (simp add: acc_of_def)

lemma baseline_event_acc:
  "baseline_event lib f e (acc_of lib n inc) =
    Inr (acc_of lib (n + 1) (inc @ (if filters_match f e then [e] else [])))"
proof (cases "filters_match f e")
  case False
  then show ?thesis by (simp add: baseline_event_def acc_of_def)
next
  case True
  have *: "base_record lib e (base_entry lib (bl_per_fp (acc_of lib n inc)) (ev_fingerprint_id e)) =
      agg_of lib (of_fingerprint (ev_fingerprint_id e) inc @ [e])"
    by (simp add: base_entry_acc agg_of_snoc)
  show ?thesis
    using True per_fp_snoc [of lib n inc e "n + 1"] *
    by (simp add: baseline_event_def Let_def) (simp add: acc_of_def min.commute max.commute)
qed

lemma baseline_events_acc:
  "sink_events (baseline_event lib f) es (acc_of lib n inc) =
    Inr (acc_of lib (n + length es) (inc @ filter (filters_match f) es))"
  by (induction es arbitrary: n inc) (simp_all add: baseline_event_acc)

lemma acc_of_new: "acc_of lib 0 [] = new_baseline_acc"
  by (simp add: acc_of_def new_baseline_acc_def of_fingerprint_def)

lemma build_baseline_eq:
  assumes "read_capture de fl = Inr (h, su, es)" and "inc = filter (filters_match f) es"
  shows "build_baseline lib fmt version order de path fl f =
    (if inc = [] then Inl (if es = [] then No_Events else All_Filtered (length es))
     else Inr (baseline_report lib fmt version order path f su (acc_of lib (length es) inc)))"
  unfolding build_baseline_def stream_capture_events [OF assms(1)] acc_of_new [symmetric, of lib]
    baseline_events_acc
  using assms(2) by (simp add: Let_def) (simp add: acc_of_def)

section \<open>What the report says of the capture\<close>

lemma fold_min_i64_Min:
  "xs \<noteq> [] \<Longrightarrow> \<forall>x \<in> set xs. x < 2 ^ 63 \<Longrightarrow> fold min xs (2 ^ 63 - 1) = Min (set xs :: int set)"
proof -
  assume xs: "xs \<noteq> []" "\<forall>x \<in> set xs. x < 2 ^ 63"
  then have fin: "finite (set xs)" "set xs \<noteq> {}" by simp_all
  from xs have "Min (set xs) < 2 ^ 63" using Min_in [of "set xs"] by simp
  moreover have "fold min xs (2 ^ 63 - 1) = min (2 ^ 63 - 1) (Min (set xs))"
    by (subst Min.set_eq_fold [symmetric]) (simp only: list.set(2) Min_insert [OF fin])
  ultimately show ?thesis by linarith
qed

lemma fold_max_i64_Max:
  "xs \<noteq> [] \<Longrightarrow> \<forall>x \<in> set xs. - (2 ^ 63) \<le> x \<Longrightarrow> fold max xs (- (2 ^ 63)) = Max (set xs :: int set)"
proof -
  assume xs: "xs \<noteq> []" "\<forall>x \<in> set xs. - (2 ^ 63) \<le> x"
  then have fin: "finite (set xs)" "set xs \<noteq> {}" by simp_all
  from xs have "- (2 ^ 63) \<le> Max (set xs)" using Max_in [of "set xs"] by simp
  moreover have "fold max xs (- (2 ^ 63)) = max (- (2 ^ 63)) (Max (set xs))"
    by (subst Max.set_eq_fold [symmetric]) (simp only: list.set(2) Max_insert [OF fin])
  ultimately show ?thesis by linarith
qed

lemma baseline_row_of:
  assumes "row \<in> set (baseline_rows lib fptx order (bl_per_fp (acc_of lib n inc)))"
  shows "\<exists>i \<in> set order. of_fingerprint i inc \<noteq> [] \<and> row = baseline_row lib fptx i (agg_of lib (of_fingerprint i inc))"
  using assms by (auto simp: baseline_rows_def rank_rows_def acc_of_def split: option.splits if_splits)

text \<open>C32: A baseline accounts for the capture. Without an event that passes the filters there is an
  error that says why. Otherwise every event that passes is counted as executed and the others as
  filtered; the sessions are the distinct ids, the interval goes from the earliest to the latest time
  stamp; the row of a fingerprint counts its events and its percentiles are those of its recorded
  times in capture order; and the report is marked as recorded, without a target.\<close>

theorem baseline_accounts:
  assumes "read_capture de fl = Inr (h, su, es)"
    and "\<forall>e \<in> set es. - (2 ^ 63) \<le> ev_ts_micros e \<and> ev_ts_micros e < 2 ^ 63"
  shows "case build_baseline lib fmt version order de path fl f of
      Inl err \<Rightarrow> filter (filters_match f) es = [] \<and> err = (if es = [] then No_Events else All_Filtered (length es))
    | Inr r \<Rightarrow>
        (let inc = filter (filters_match f) es; t = rr_totals r in
         to_events t = length inc \<and> to_executed t = length inc \<and> to_events t + to_filtered t = length es \<and>
         to_sessions t = card (ev_session_id ` set inc) \<and>
         rr_started_at r = format_ts_micros fmt (Min (ev_ts_micros ` set inc)) \<and>
         rr_ended_at r = format_ts_micros fmt (Max (ev_ts_micros ` set inc)) \<and>
         (\<forall>row \<in> set (rr_fingerprints r).
           fr_count row = length (of_fingerprint (fr_id row) inc) \<and> 0 < fr_count row \<and>
           fr_p95_us row = hl_quantile lib (f64_lit 95 2) (bg_hist (agg_of lib (of_fingerprint (fr_id row) inc)))) \<and>
         is_recorded r \<and> rr_target_url r = [] \<and> rr_target_settings r = [])"
proof -
  define inc where "inc = filter (filters_match f) es"
  note eq = build_baseline_eq [OF assms(1) inc_def]
  show ?thesis
  proof (cases "inc = []")
    case True
    then show ?thesis unfolding eq by (simp add: inc_def)
  next
    case False
    have len: "length inc \<le> length es" by (simp add: inc_def)
    have ts: "\<forall>x \<in> set (map ev_ts_micros inc). - (2 ^ 63) \<le> x \<and> x < 2 ^ 63"
      using assms(2) by (auto simp: inc_def)
    have bounds: "bl_min_ts (acc_of lib n inc) = Min (ev_ts_micros ` set inc)"
      "bl_max_ts (acc_of lib n inc) = Max (ev_ts_micros ` set inc)" for n
      using fold_min_i64_Min [of "map ev_ts_micros inc"] fold_max_i64_Max [of "map ev_ts_micros inc"] False ts
      by (simp_all add: acc_of_def)
    have rows: "\<forall>row \<in> set (baseline_rows lib fptx order (bl_per_fp (acc_of lib n inc))).
        fr_count row = length (of_fingerprint (fr_id row) inc) \<and> of_fingerprint (fr_id row) inc \<noteq> [] \<and>
        fr_p95_us row = hl_quantile lib (f64_lit 95 2) (bg_hist (agg_of lib (of_fingerprint (fr_id row) inc)))"
      for fptx n
      by (auto simp: baseline_row_def agg_of_def dest!: baseline_row_of)
    show ?thesis
      using False len bounds rows
      unfolding eq by (simp add: inc_def [symmetric] baseline_report_def baseline_totals_def Let_def is_recorded_def)
        (simp add: acc_of_def)
  qed
qed

theorem baseline_accounts_witness:
  "\<exists>r. build_baseline count_hist (\<lambda>ns. None) [] [0] sample_line [] sample_file
      \<lparr>fi_db = None, fi_user = None, fi_window = None\<rparr> = Inr r \<and>
    to_executed (rr_totals r) = 3 \<and> to_sessions (rr_totals r) = 2 \<and> is_recorded r"
proof -
  let ?f = "\<lparr>fi_db = None, fi_user = None, fi_window = None\<rparr>"
  have all: "filter (filters_match ?f) sample_events = sample_events"
    by (simp add: filters_match_def)
  have ts: "\<forall>e \<in> set sample_events. - (2 ^ 63) \<le> ev_ts_micros e \<and> ev_ts_micros e < 2 ^ 63"
    by (simp add: sample_events_def spool_event_def)
  have ids: "card (ev_session_id ` set sample_events) = 2"
    by (simp add: sample_events_def spool_event_def card_insert_if)
  have len: "length sample_events = 3" "sample_events \<noteq> []" by (simp_all add: sample_events_def)
  obtain h su where "read_capture sample_line sample_file = Inr (h, su, sample_events)"
    using sample_read by blast
  from baseline_accounts [OF this ts, where lib = count_hist and fmt = "\<lambda>ns. None" and version = "[]"
    and order = "[0]" and path = "[]" and f = ?f]
  show ?thesis unfolding all
    by (auto simp: ids len Let_def split: sum.splits)
qed

end
