(* ===== verification/Compare_Text.thy ===== *)
theory Compare_Text
  imports Compare
begin

text \<open>
  The comparison printed to stdout (\<open>CompareReport::render_stdout\<close> in \<open>compare.rs\<close>), section by
  section in the order of the code.
\<close>

section \<open>Cells and tables\<close>

definition fmt_pct :: "f64 option \<Rightarrow> string" where
  "fmt_pct p = (case p of Some x \<Rightarrow> fmt_fixed_signed 1 x @ ''%'' | None \<Rightarrow> ''n/a'')"

definition fmt_ms :: "f64 \<Rightarrow> string" where
  "fmt_ms us = fmt_fixed 3 (f64_div us (f64_of_nat 1000))"

definition line :: "string \<Rightarrow> string" where
  "line s = s @ [NEWLINE]"

text \<open>The first \<open>n\<close> rows and, when there are more, how many.\<close>

definition top_rows :: "string \<Rightarrow> nat \<Rightarrow> ('a \<Rightarrow> string) \<Rightarrow> 'a list \<Rightarrow> string" where
  "top_rows indent n show1 xs =
    concat (map show1 (take n xs)) @
    (if n < length xs then line (indent @ ELLIPSIS @ '' and '' @ dec (length xs - n) @ '' more'') else [])"

definition count_pair :: "nat \<Rightarrow> nat \<Rightarrow> string" where
  "count_pair b c = dec b @ ''/'' @ dec c"

definition mismatch_mark :: "bool \<Rightarrow> string" where
  "mismatch_mark m = (if m then ''  [count mismatch]'' else [])"

definition bytes_cell :: "bytes_delta option \<Rightarrow> string" where
  "bytes_cell b =
    (case b of
       Some d \<Rightarrow> fmt_bytes (bd_baseline_mean d) @ ARROW @ fmt_bytes (bd_candidate_mean d)
     | None \<Rightarrow> ''n/a'')"

definition fp_table_row :: "fp_delta \<Rightarrow> string" where
  "fp_table_row d =
    line (pad_left 12 (fmt_ms (md_baseline_us (fd_p95 d))) @ '' '' @
      pad_left 12 (fmt_ms (md_candidate_us (fd_p95 d))) @ '' '' @
      pad_left 9 (fmt_pct (md_delta_pct (fd_p95 d))) @ '' '' @
      pad_left 9 (fmt_pct (md_delta_pct (fd_mean d))) @ '' '' @
      pad_left 11 (count_pair (fd_baseline_count d) (fd_candidate_count d)) @ '' '' @
      pad_left 15 (bytes_cell (fd_result_bytes d)) @ ''  '' @
      truncate_chars (fd_fingerprint d) 70 @ mismatch_mark (fd_count_mismatch d))"

definition fp_table :: "nat \<Rightarrow> fp_delta list \<Rightarrow> string" where
  "fp_table n rows =
    line (pad_left 12 ''p95 base(ms)'' @ '' '' @ pad_left 12 ''p95 cand(ms)'' @ '' '' @
      pad_left 9 (DELTA @ ''p95'') @ '' '' @ pad_left 9 (DELTA @ ''mean'') @ '' '' @
      pad_left 11 ''count b/c'' @ '' '' @ pad_left 15 (''res/query b'' @ ARROW @ ''c'') @ ''  '' @
      ''fingerprint'') @
    top_rows ''  '' n fp_table_row rows"

section \<open>Heading, settings and totals\<close>

definition run_line :: "string \<Rightarrow> run_meta \<Rightarrow> string" where
  "run_line label m =
    line (''  '' @ pad_left 9 label @ '': '' @ rm_file m @ '' '' @ EM_DASH @
      (if meta_recorded m
       then '' recorded (slow log) latencies from capture '' @ rm_capture_file m
       else '' target '' @ display_server_version m @ '' ('' @ rm_target_url m @ '')''))"

definition warnings_text :: "string list \<Rightarrow> string" where
  "warnings_text ws =
    (if ws = [] then []
     else line (''!!! COMPARABILITY WARNINGS '' @ EM_DASH @
         '' the runs may not be directly comparable !!!'') @
       concat (map (\<lambda>w. line (''  - '' @ w)) ws) @ line [])"

definition settings_text :: "string option \<Rightarrow> setting_diff list \<Rightarrow> string" where
  "settings_text note ds =
    (case note of Some s \<Rightarrow> line (''Target settings: '' @ s) @ line [] | None \<Rightarrow> []) @
    (if ds = [] then []
     else line ''Target settings diff (baseline -> candidate):'' @
       concat (map (\<lambda>d. line (''  '' @ sd_name d @ '': '' @ show_opt ''<absent>'' (sd_baseline d) @
         '' -> '' @ show_opt ''<absent>'' (sd_candidate d))) ds) @ line [])"

definition totals_text :: "totals_delta \<Rightarrow> string" where
  "totals_text t =
    line (''Totals: QPS '' @ fmt_fixed 1 (td_baseline_qps t) @ '' -> '' @
      fmt_fixed 1 (td_candidate_qps t) @ '' ('' @ fmt_pct (td_qps_delta_pct t) @ '') | wall '' @
      fmt_fixed 2 (td_baseline_wall_secs t) @ ''s -> '' @ fmt_fixed 2 (td_candidate_wall_secs t) @
      ''s ('' @ fmt_pct (td_wall_delta_pct t) @ '') | executed '' @ dec (td_baseline_executed t) @
      '' -> '' @ dec (td_candidate_executed t) @ '' | errors '' @ dec (td_baseline_errors t) @
      '' -> '' @ dec (td_candidate_errors t) @ '' ('' @ dec_signed (td_error_delta t) @ '')'')"

definition matched_count :: "compare_report \<Rightarrow> nat" where
  "matched_count r =
    length (cp_regressions r) + length (cp_improvements r) + length (cp_stable r) + length (cp_low_sample r)"

definition matched_text :: "compare_report \<Rightarrow> string" where
  "matched_text r =
    line (''Fingerprints: '' @ dec (matched_count r) @ '' matched ('' @ dec (length (cp_stable r)) @
      '' within threshold), '' @ dec (length (cp_only_in_baseline r)) @ '' only in baseline, '' @
      dec (length (cp_only_in_candidate r)) @ '' only in candidate, '' @ dec (cp_count_mismatches r) @
      '' with executed-count mismatch'') @ line []"

section \<open>Correctness\<close>

definition checksum_row :: "checksum_delta \<Rightarrow> string" where
  "checksum_row d =
    line (''    digest '' @ cd_baseline_digest d @ '' -> '' @ cd_candidate_digest d @ '' | rows '' @
      dec (cd_baseline_rows d) @ '' -> '' @ dec (cd_candidate_rows d) @ '' | events '' @
      count_pair (cd_baseline_events d) (cd_candidate_events d) @
      (if cd_columns_differ d then '' | COLUMNS DIFFER'' else []) @
      (if cd_events_differ d then '' | event counts differ'' else []) @ ''  '' @
      truncate_chars (cd_fingerprint d) 60)"

definition checksum_list :: "nat \<Rightarrow> string \<Rightarrow> checksum_delta list \<Rightarrow> string" where
  "checksum_list n label ds =
    (if ds = [] then [] else line (''  '' @ label @ '':'') @ top_rows ''    '' n checksum_row ds)"

definition correctness_text :: "nat \<Rightarrow> correctness_report option \<Rightarrow> string" where
  "correctness_text n corr =
    (case corr of
       None \<Rightarrow> []
     | Some c \<Rightarrow>
        line (''Result correctness (--checksum): '' @ dec (cr_checked c) @ '' fingerprints checked, '' @
          dec (cr_matched c) @ '' matched, '' @ dec (length (cr_mismatches c)) @ '' MISMATCHED, '' @
          dec (length (cr_advisory c)) @ '' advisory'') @
        line (''  note: '' @ cr_note c) @
        checksum_list n (''MISMATCH (deterministic '' @ EM_DASH @ '' wrong answers)'') (cr_mismatches c) @
        checksum_list n (''advisory (nondeterministic '' @ EM_DASH @ '' diff advisory only)'') (cr_advisory c) @
        line [])"

section \<open>Rankings\<close>

definition regressions_text :: "nat \<Rightarrow> compare_report \<Rightarrow> string" where
  "regressions_text n r =
    line (''Regressions (p95 '' @ fmt_fixed_signed 0 (cp_threshold_pct r) @ ''% or worse, count >= '' @
      dec (cp_min_count r) @ '' in both runs): '' @ dec (length (cp_regressions r))) @
    (if cp_regressions r = [] then [] else fp_table n (cp_regressions r)) @ line []"

definition decade_row :: "bucket_delta \<Rightarrow> string" where
  "decade_row d =
    line (pad_left 10 (ud_bucket d) @ '' '' @ pad_left 12 (fmt_ms (md_baseline_us (ud_p95 d))) @ '' '' @
      pad_left 12 (fmt_ms (md_candidate_us (ud_p95 d))) @ '' '' @
      pad_left 9 (fmt_pct (md_delta_pct (ud_p95 d))) @ '' '' @
      pad_left 11 (count_pair (ud_baseline_count d) (ud_candidate_count d)) @ ''  '' @
      truncate_chars (ud_fingerprint d) 60 @ mismatch_mark (ud_count_mismatch d))"

definition decades_text :: "nat \<Rightarrow> compare_report \<Rightarrow> string" where
  "decades_text n r =
    (case cp_size_note r of
       Some note \<Rightarrow> line (''Result-size decades: '' @ note) @ line []
     | None \<Rightarrow>
        line (''Result-size decade regressions (p95 '' @ fmt_fixed_signed 0 (cp_threshold_pct r) @
          ''% or worse inside one decade of a fingerprint the ranking above did not flag; '' @
          dec (cp_size_buckets_checked r) @ '' decade pair(s) checked): '' @
          dec (length (cp_size_regressions r))) @
        (if cp_size_regressions r = [] then []
         else
           line (pad_left 10 ''decade'' @ '' '' @ pad_left 12 ''p95 base(ms)'' @ '' '' @
             pad_left 12 ''p95 cand(ms)'' @ '' '' @ pad_left 9 (DELTA @ ''p95'') @ '' '' @
             pad_left 11 ''count b/c'' @ ''  fingerprint'') @
           top_rows ''  '' n decade_row (cp_size_regressions r))) @
    line []"

definition improvements_text :: "nat \<Rightarrow> compare_report \<Rightarrow> string" where
  "improvements_text n r =
    line (''Improvements (p95 -'' @ fmt_fixed 0 (cp_threshold_pct r) @ ''% or better): '' @
      dec (length (cp_improvements r))) @
    (if cp_improvements r = [] then [] else fp_table n (cp_improvements r)) @ line []"

definition low_sample_text :: "nat \<Rightarrow> compare_report \<Rightarrow> string" where
  "low_sample_text n r =
    (if cp_low_sample r = [] then []
     else
       line (''Low-sample fingerprints (count < '' @ dec (cp_min_count r) @
         '' in either run, excluded from the ranking): '' @ dec (length (cp_low_sample r))) @
       fp_table n (cp_low_sample r) @ line [])"

definition only_in_row :: "only_in \<Rightarrow> string" where
  "only_in_row o1 =
    line (''  '' @ pad_left 6 (dec (oi_count o1)) @ ''x ('' @ dec (oi_errors o1) @ '' errors)  '' @
      truncate_chars (oi_fingerprint o1) 70)"

definition only_in_text :: "nat \<Rightarrow> string \<Rightarrow> only_in list \<Rightarrow> string" where
  "only_in_text n label os =
    (if os = [] then []
     else line (label @ '': '' @ dec (length os)) @ top_rows ''  '' n only_in_row os @ line [])"

definition error_changes :: "compare_report \<Rightarrow> fp_delta list" where
  "error_changes r =
    filter (\<lambda>d. fd_error_delta d \<noteq> 0)
      (cp_regressions r @ cp_improvements r @ cp_stable r @ cp_low_sample r)"

definition error_change_row :: "fp_delta \<Rightarrow> string" where
  "error_change_row d =
    line (''  '' @ dec (fd_baseline_errors d) @ '' -> '' @ dec (fd_candidate_errors d) @ '' errors ('' @
      dec_signed (fd_error_delta d) @ '')  '' @ truncate_chars (fd_fingerprint d) 70)"

definition error_changes_text :: "nat \<Rightarrow> compare_report \<Rightarrow> string" where
  "error_changes_text n r =
    (if error_changes r = [] then []
     else
       line (''Fingerprints with error-count changes: '' @ dec (length (error_changes r))) @
       top_rows ''  '' n error_change_row (error_changes r) @ line [])"

section \<open>The whole text\<close>

definition render_stdout :: "compare_report \<Rightarrow> nat \<Rightarrow> string" where
  "render_stdout r n =
    line ''Comparing runs:'' @ run_line ''baseline'' (cp_baseline r) @
    run_line ''candidate'' (cp_candidate r) @ line [] @
    warnings_text (cp_comparability_warnings r) @
    settings_text (cp_settings_note r) (cp_settings_diff r) @ totals_text (cp_totals r) @
    matched_text r @ correctness_text n (cp_correctness r) @ regressions_text n r @
    decades_text n r @ improvements_text n r @ low_sample_text n r @
    only_in_text n ''Only in baseline'' (cp_only_in_baseline r) @
    only_in_text n ''Only in candidate'' (cp_only_in_candidate r) @ error_changes_text n r"

end
