(* ===== verification/Compare_Html.thy ===== *)
theory Compare_Html
  imports Compare_Text
begin

text \<open>
  The comparison as a self-contained HTML page (\<open>compare_html.rs\<close>). Templates are written with a
  back quote for the double quote and a tilde for the end of a line, which \<open>html\<close> puts in; neither
  occurs in the templates of the code. Every text of the report goes through \<open>esc\<close>.
\<close>

section \<open>Escaping\<close>

definition esc_char :: "char \<Rightarrow> string" where
  "esc_char c =
    (if c = CHR ''&'' then ''&amp;''
     else if c = CHR ''<'' then ''&lt;''
     else if c = CHR ''>'' then ''&gt;''
     else if c = DQUOTE then ''&quot;''
     else if c = SQUOTE then ''&#39;''
     else [c])"

definition esc :: "string \<Rightarrow> string" where
  "esc s = concat (map esc_char s)"

definition html :: "string \<Rightarrow> string" where
  "html s = map (\<lambda>c. if c = CHR ''`'' then DQUOTE else if c = CHR ''~'' then NEWLINE else c) s"

section \<open>Cells\<close>

definition num_cell :: "string \<Rightarrow> string" where
  "num_cell t = html ''<td class=`num`>'' @ t @ ''</td>''"

definition data_cell :: "string \<Rightarrow> string \<Rightarrow> string" where
  "data_cell v t = html ''<td class=`num` data-v=`'' @ v @ html ''`>'' @ t @ ''</td>''"

definition absent_cell :: string where
  "absent_cell = html ''<td class=`num` data-v=`0`>n/a</td>''"

definition pct_class :: "f64 \<Rightarrow> string" where
  "pct_class p =
    (if f64_le (Fin (1 / 2)) p then ''worse''
     else if f64_le p (Fin (- 1 / 2)) then ''better'' else [])"

definition pct_cell :: "f64 option \<Rightarrow> string" where
  "pct_cell p =
    (case p of
       Some x \<Rightarrow>
         html ''<td class=`num '' @ pct_class x @ html ''` data-v=`'' @ fmt_fixed 4 x @ html ''`>'' @
         fmt_fixed_signed 1 x @ ''%</td>''
     | None \<Rightarrow> absent_cell)"

definition badge :: "string \<Rightarrow> string" where
  "badge t = html '' <span class=`badge`>'' @ t @ ''</span>''"

definition mismatch_badge :: "bool \<Rightarrow> string" where
  "mismatch_badge m = (if m then badge ''count mismatch'' else [])"

definition us_cell :: "f64 \<Rightarrow> string" where
  "us_cell us = data_cell (show_f64 us) (fmt_ms us)"

definition nat_cell :: "nat \<Rightarrow> string" where
  "nat_cell n = data_cell (dec n) (dec n)"

definition metric_cells :: "metric_delta \<Rightarrow> string" where
  "metric_cells d =
    [NEWLINE] @ us_cell (md_baseline_us d) @ us_cell (md_candidate_us d) @ pct_cell (md_delta_pct d)"

definition bytes_cells :: "bytes_delta option \<Rightarrow> string" where
  "bytes_cells b =
    [NEWLINE] @
    (case b of
       Some d \<Rightarrow>
         data_cell (show_f64 (bd_baseline_mean d)) (fmt_bytes (bd_baseline_mean d)) @
         data_cell (show_f64 (bd_candidate_mean d)) (fmt_bytes (bd_candidate_mean d)) @
         pct_cell (bd_mean_delta_pct d)
     | None \<Rightarrow>
         data_cell (show_f64 (Fin 0)) ''n/a'' @ data_cell (show_f64 (Fin 0)) ''n/a'' @ absent_cell)"

section \<open>Tables\<close>

definition fp_row :: "string \<Rightarrow> fp_delta \<Rightarrow> string" where
  "fp_row cls d =
    ''<tr><td>'' @ cls @ html ''</td><td class=`fp`>'' @ esc (fd_fingerprint d) @
    mismatch_badge (fd_count_mismatch d) @ html ''</td>~'' @ nat_cell (fd_baseline_count d) @
    nat_cell (fd_candidate_count d) @ metric_cells (fd_p95 d) @ metric_cells (fd_p50 d) @
    metric_cells (fd_p99 d) @ metric_cells (fd_mean d) @ bytes_cells (fd_result_bytes d) @
    [NEWLINE] @ nat_cell (fd_baseline_errors d) @ nat_cell (fd_candidate_errors d) @ html ''</tr>~''"

definition fp_rows :: "fp_delta list \<Rightarrow> string \<Rightarrow> string" where
  "fp_rows rows cls = concat (map (fp_row cls) rows)"

definition only_in_html_row :: "only_in \<Rightarrow> string" where
  "only_in_html_row o1 =
    ''<tr>'' @ num_cell (dec (oi_count o1)) @ num_cell (dec (oi_errors o1)) @
    html ''<td class=`fp`>'' @ esc (oi_fingerprint o1) @ html ''</td></tr>~''"

definition only_in_table :: "string \<Rightarrow> only_in list \<Rightarrow> string" where
  "only_in_table title os =
    (if os = [] then []
     else
       ''<h2>'' @ title @ '' ('' @ dec (length os) @
       html '')</h2>~<table><thead><tr><th>executed</th><th>errors</th><th>fingerprint</th></tr></thead><tbody>~'' @
       concat (map only_in_html_row os) @ html ''</tbody></table>~'')"

definition row_open :: "bool \<Rightarrow> string" where
  "row_open differs = (if differs then html ''<tr class=`differs`>'' else ''<tr>'')"

definition checksum_html_row :: "bool \<Rightarrow> checksum_delta \<Rightarrow> string" where
  "checksum_html_row failures d =
    row_open failures @ html ''<td class=`fp`>'' @ esc (cd_fingerprint d) @ ''</td>'' @
    num_cell (esc (cd_baseline_digest d)) @ num_cell (esc (cd_candidate_digest d)) @ [NEWLINE] @
    num_cell (dec (cd_baseline_rows d)) @ num_cell (dec (cd_candidate_rows d)) @
    num_cell (dec (cd_baseline_events d)) @ num_cell (dec (cd_candidate_events d)) @ ''<td>'' @
    (if cd_columns_differ d then badge ''columns differ'' else []) @
    (if cd_events_differ d then badge ''event counts differ'' else []) @
    (if cd_nondeterministic d then badge ''nondeterministic'' else []) @ html ''</td></tr>~''"

definition checksum_table :: "string \<Rightarrow> bool \<Rightarrow> checksum_delta list \<Rightarrow> string" where
  "checksum_table title failures ds =
    (if ds = [] then []
     else
       ''<h3>'' @ esc title @ '' ('' @ dec (length ds) @
       html '')</h3>~<table><thead><tr><th>fingerprint</th>'' @
       ''<th>digest b</th><th>digest c</th><th>rows b</th><th>rows c</th>'' @
       html ''<th>events b</th><th>events c</th><th>flags</th></tr></thead><tbody>~'' @
       concat (map (checksum_html_row failures) ds) @ html ''</tbody></table>~'')"

definition bucket_metric_cells :: "metric_delta \<Rightarrow> string" where
  "bucket_metric_cells d =
    [NEWLINE] @ num_cell (fmt_ms (md_baseline_us d)) @ num_cell (fmt_ms (md_candidate_us d)) @
    pct_cell (md_delta_pct d)"

definition size_bucket_row :: "bucket_delta \<Rightarrow> string" where
  "size_bucket_row d =
    row_open True @ ''<td>'' @ esc (ud_bucket d) @ html ''</td><td class=`fp`>'' @
    esc (ud_fingerprint d) @ mismatch_badge (ud_count_mismatch d) @ html ''</td>~'' @
    num_cell (dec (ud_baseline_count d)) @ num_cell (dec (ud_candidate_count d)) @
    bucket_metric_cells (ud_p95 d) @ bucket_metric_cells (ud_p50 d) @ bucket_metric_cells (ud_mean d) @
    [NEWLINE] @ num_cell (fmt_bytes (f64_of_nat (ud_baseline_bytes_total d))) @
    num_cell (fmt_bytes (f64_of_nat (ud_candidate_bytes_total d))) @ html ''</tr>~''"

definition delta_head :: "string \<Rightarrow> string" where
  "delta_head t = ''<th>'' @ DELTA @ t @ ''</th>''"

definition size_bucket_rows :: "bucket_delta list \<Rightarrow> string" where
  "size_bucket_rows rows =
    (if rows = [] then []
     else
       ''<table><thead><tr><th>decade</th><th>fingerprint</th><th>count b</th><th>count c</th>'' @
       ''<th>p95 b (ms)</th><th>p95 c (ms)</th>'' @ delta_head ''p95'' @
       ''<th>p50 b (ms)</th><th>p50 c (ms)</th>'' @ delta_head ''p50'' @
       ''<th>mean b (ms)</th><th>mean c (ms)</th>'' @ delta_head ''mean'' @
       html ''<th>bytes b</th><th>bytes c</th></tr></thead><tbody>~'' @
       concat (map size_bucket_row rows) @ html ''</tbody></table>~'')"

section \<open>Run metadata\<close>

definition meta_flags :: "run_meta \<Rightarrow> string" where
  "meta_flags m =
    (let f = rm_flags m in
     ''max-connections='' @ dec (rf_max_connections f) @ '' allow-writes='' @
     show_bool (rf_allow_writes f) @ '' db-override='' @ show_opt ''<none>'' (rf_db_override f) @
     '' speed='' @ rf_speed f)"

definition meta_pacing :: "run_meta \<Rightarrow> string" where
  "meta_pacing m =
    (case rm_pacing m of
       Some p \<Rightarrow> ''speed '' @ show_f64 (pr_speed p) @ ''x, max lag '' @ dec (pr_max_lag_us p div 1000) @
         '' ms, mean lag '' @ fmt_fixed 1 (f64_div (pr_mean_lag_us p) (f64_of_nat 1000)) @ '' ms''
     | None \<Rightarrow> EM_DASH)"

definition meta_url :: "run_meta \<Rightarrow> string" where
  "meta_url m = (if rm_target_url m = [] then EM_DASH @ '' (no target)'' else rm_target_url m)"

definition meta_values :: "run_meta \<Rightarrow> string list" where
  "meta_values m =
    [rm_file m, rm_latency_source m, display_server_version m, meta_url m, rm_capture_file m,
     rm_capture_dialect m, rm_started_at m, fmt_fixed 2 (rm_wall_secs m) @ ''s'',
     dec (to_executed (rm_totals m)) @ '' / '' @ dec (to_errors (rm_totals m)), meta_flags m,
     meta_pacing m]"

definition META_NAMES :: "string list" where
  "META_NAMES =
    [''run file'', ''latency source'', ''target server version'', ''target url'', ''capture file'',
     ''capture dialect'', ''started at'', ''wall clock'', ''executed / errors'', ''flags'', ''pacing'']"

definition meta_differs :: "string \<Rightarrow> string \<Rightarrow> string \<Rightarrow> bool" where
  "meta_differs name bv cv \<longleftrightarrow>
    bv \<noteq> cv \<and> name \<noteq> ''run file'' \<and> name \<noteq> ''started at'' \<and> name \<noteq> ''target url''"

definition meta_row :: "string \<times> string \<times> string \<Rightarrow> string" where
  "meta_row e =
    (case e of (name, bv, cv) \<Rightarrow>
      row_open (meta_differs name bv cv) @ ''<th>'' @ esc name @ ''</th><td>'' @ esc bv @
      ''</td><td>'' @ esc cv @ html ''</td></tr>~'')"

definition meta_entries :: "run_meta \<Rightarrow> run_meta \<Rightarrow> (string \<times> string \<times> string) list" where
  "meta_entries b c = zip META_NAMES (zip (meta_values b) (meta_values c))"

definition meta_rows :: "run_meta \<Rightarrow> run_meta \<Rightarrow> string" where
  "meta_rows b c = concat (map meta_row (meta_entries b c))"

section \<open>The head of the page\<close>

definition PLUS_MINUS :: string where "PLUS_MINUS = [CHR 0xC2, CHR 0xB1]"
definition UP_MARK :: string where "UP_MARK = [CHR 0xE2, CHR 0x96, CHR 0xB2]"
definition DOWN_MARK :: string where "DOWN_MARK = [CHR 0xE2, CHR 0x96, CHR 0xBC]"
definition WARN_MARK :: string where "WARN_MARK = [CHR 0xE2, CHR 0x9A, CHR 0xA0]"
definition AT_LEAST :: string where "AT_LEAST = [CHR 0xE2, CHR 0x89, CHR 0xA5]"

definition PAGE_STYLE :: string where
  "PAGE_STYLE =
    html '':root { color-scheme: light dark; }~'' @
    html ''body { font: 14px/1.45 system-ui, sans-serif; margin: 1.5rem auto; max-width: 90rem; padding: 0 1rem; }~'' @
    html ''h1 { font-size: 1.4rem; } h2 { font-size: 1.1rem; margin-top: 1.6rem; }~'' @
    html ''table { border-collapse: collapse; width: 100%; margin: .5rem 0 1rem; }~'' @
    html ''th, td { border: 1px solid color-mix(in srgb, currentColor 25%, transparent); padding: .25rem .5rem; text-align: left; vertical-align: top; }~'' @
    html ''thead th { position: sticky; top: 0; background: Canvas; }~'' @
    html ''td.num { text-align: right; font-variant-numeric: tabular-nums; white-space: nowrap; }~'' @
    html ''td.fp { font-family: ui-monospace, monospace; font-size: .85rem; word-break: break-word; max-width: 36rem; }~'' @
    html ''.worse { color: light-dark(#b00020, #ff8a80); font-weight: 600; }~'' @
    html ''.better { color: light-dark(#00695c, #80cbc4); font-weight: 600; }~'' @
    html ''.warnbox { border: 2px solid light-dark(#b00020, #ff8a80); background: light-dark(#fff3f3, #3a1416); padding: .75rem 1rem; border-radius: .4rem; margin: 1rem 0; }~'' @
    html ''.warnbox h2 { margin: 0 0 .4rem; color: light-dark(#b00020, #ff8a80); }~'' @
    html ''.badge { background: light-dark(#fde293, #6d5300); border-radius: .5rem; padding: 0 .4rem; font-size: .75rem; white-space: nowrap; }~'' @
    html ''tr.differs td { background: light-dark(#fff8e1, #4a3d10); }~'' @
    html ''table.sortable th { cursor: pointer; user-select: none; }~'' @
    html ''table.sortable th[data-dir=`asc`]::after { content: ` '' @ UP_MARK @ html ''`; }~'' @
    html ''table.sortable th[data-dir=`desc`]::after { content: ` '' @ DOWN_MARK @ html ''`; }~'' @
    html ''.muted { opacity: .7; }~'' @
    html ''.versions { font-size: 1.05rem; }~'' @
    html ''.versions b { font-size: 1.2rem; }~''"

definition page_title :: "compare_report \<Rightarrow> string" where
  "page_title r =
    ''sql-replay compare: '' @ display_server_version (cp_baseline r) @ '' vs '' @
    display_server_version (cp_candidate r)"

definition run_name :: "run_meta \<Rightarrow> string" where
  "run_name m = ''<b>'' @ esc (display_server_version m) @ ''</b> ('' @ esc (rm_file m) @ '')''"

definition page_head :: "compare_report \<Rightarrow> string" where
  "page_head r =
    html ''<!doctype html>~<html lang=`en`>~<head>~<meta charset=`utf-8`>~'' @
    html ''<meta name=`viewport` content=`width=device-width, initial-scale=1`>~'' @
    ''<title>'' @ esc (page_title r) @ html ''</title>~<style>~'' @ PAGE_STYLE @
    html ''</style>~</head>~<body>~'' @ ''<h1>'' @ esc (page_title r) @ html ''</h1>~'' @
    html ''<p class=`versions`>baseline '' @ run_name (cp_baseline r) @ '' '' @ ARROW @
    '' candidate '' @ run_name (cp_candidate r) @ html ''<br>~'' @
    html ''<span class=`muted`>generated by sql-replay '' @ esc (cp_tool_version r) @ '' '' @ EM_DASH @
    '' threshold '' @ PLUS_MINUS @ show_f64 (cp_threshold_pct r) @ ''%, min count '' @
    dec (cp_min_count r) @ html ''</span></p>~''"

section \<open>Verdicts\<close>

definition warning_box :: "string list \<Rightarrow> string" where
  "warning_box ws =
    (if ws = [] then []
     else
       html ''<div class=`warnbox`><h2>'' @ WARN_MARK @ '' Comparability warnings '' @ EM_DASH @
       html '' the runs may not be directly comparable</h2><ul>~'' @
       concat (map (\<lambda>w. ''<li>'' @ esc w @ html ''</li>~'') ws) @ html ''</ul></div>~'')"

definition fail_line :: "string \<Rightarrow> string \<Rightarrow> string" where
  "fail_line bold code =
    html ''<p><b class=`worse`>'' @ bold @ ''</b> (exit code 2).</p>'' @ code"

definition verdict_lines :: "compare_report \<Rightarrow> string" where
  "verdict_lines r =
    (if cp_correctness_failed r
     then fail_line
       (dec (case cp_correctness r of Some c \<Rightarrow> length (cr_mismatches c) | None \<Rightarrow> 0) @
        '' fingerprint(s) returned different data (result checksum mismatch)'') [NEWLINE]
     else []) @
    (if cp_size_regressed r
     then fail_line
       (dec (length (cp_size_regressions r)) @ '' result-size decade(s) regressed '' @ AT_LEAST @ '' '' @
        show_f64 (cp_threshold_pct r) @ ''% on p95 inside otherwise-stable fingerprints'') [NEWLINE]
     else []) @
    (if cp_regressed r
     then fail_line
       (dec (length (cp_regressions r)) @ '' fingerprint(s) regressed '' @ AT_LEAST @ '' '' @
        show_f64 (cp_threshold_pct r) @ ''% on p95'') []
     else if \<not> cp_size_regressed r \<and> \<not> cp_correctness_failed r
     then html ''<p><b class=`better`>No regressions at/beyond the '' @ show_f64 (cp_threshold_pct r) @
       ''% threshold</b> (exit code 0).</p>''
     else [])"

section \<open>Sections\<close>

definition head_cell :: "string \<Rightarrow> string" where
  "head_cell t = ''<th>'' @ t @ ''</th>''"

definition totals_table :: "totals_delta \<Rightarrow> string" where
  "totals_table t =
    html ''<h2>Totals</h2>~<table><tbody>'' @
    ''<tr>'' @ head_cell ''QPS'' @ num_cell (fmt_fixed 1 (td_baseline_qps t)) @
      num_cell (fmt_fixed 1 (td_candidate_qps t)) @ num_cell (fmt_pct (td_qps_delta_pct t)) @ ''</tr>'' @
    ''<tr>'' @ head_cell ''wall clock'' @ num_cell (fmt_fixed 2 (td_baseline_wall_secs t) @ ''s'') @
      num_cell (fmt_fixed 2 (td_candidate_wall_secs t) @ ''s'') @
      num_cell (fmt_pct (td_wall_delta_pct t)) @ ''</tr>'' @
    ''<tr>'' @ head_cell ''executed'' @ num_cell (dec (td_baseline_executed t)) @
      num_cell (dec (td_candidate_executed t)) @ ''<td></td></tr>'' @
    ''<tr>'' @ head_cell ''errors'' @ num_cell (dec (td_baseline_errors t)) @
      num_cell (dec (td_candidate_errors t)) @ num_cell (dec_signed (td_error_delta t)) @ ''</tr>'' @
    html ''</tbody></table>~''"

definition metadata_table :: "run_meta \<Rightarrow> run_meta \<Rightarrow> string" where
  "metadata_table b c =
    html ''<h2>Run metadata</h2>~<table><thead><tr><th></th><th>baseline</th><th>candidate</th></tr></thead><tbody>~'' @
    meta_rows b c @ html ''</tbody></table>~''"

definition muted :: "string \<Rightarrow> string" where
  "muted t = html ''<p class=`muted`>'' @ t @ html ''</p>~''"

definition setting_value :: "string option \<Rightarrow> string" where
  "setting_value v = (case v of Some s \<Rightarrow> esc s | None \<Rightarrow> ''<i>absent</i>'')"

definition setting_row :: "setting_diff \<Rightarrow> string" where
  "setting_row d =
    row_open True @ ''<th>'' @ esc (sd_name d) @ ''</th><td>'' @ setting_value (sd_baseline d) @
    ''</td><td>'' @ setting_value (sd_candidate d) @ html ''</td></tr>~''"

definition settings_html :: "string option \<Rightarrow> setting_diff list \<Rightarrow> string" where
  "settings_html note ds =
    (case note of
       Some n \<Rightarrow> html ''<h2>Target settings diff</h2>~'' @ muted (esc n)
     | None \<Rightarrow>
        if ds = [] then []
        else
          html ''<h2>Target settings diff</h2>~<table><thead><tr><th>variable</th><th>baseline</th><th>candidate</th></tr></thead><tbody>~'' @
          concat (map setting_row ds) @ html ''</tbody></table>~'')"

definition correctness_html :: "correctness_report option \<Rightarrow> string" where
  "correctness_html corr =
    (case corr of
       None \<Rightarrow> []
     | Some c \<Rightarrow>
        ''<h2>Result correctness (--checksum): '' @ dec (cr_checked c) @ '' checked, '' @
        dec (cr_matched c) @ '' matched, '' @ dec (length (cr_mismatches c)) @ '' mismatched, '' @
        dec (length (cr_advisory c)) @ html '' advisory</h2>~'' @ muted (esc (cr_note c)) @
        checksum_table (''Mismatches (deterministic '' @ EM_DASH @ '' wrong answers)'') True (cr_mismatches c) @
        checksum_table ''Advisory (nondeterministic or unequal event populations)'' False (cr_advisory c))"

definition decades_html :: "compare_report \<Rightarrow> string" where
  "decades_html r =
    (case cp_size_note r of
       Some n \<Rightarrow> html ''<h2>Result-size decades</h2>~'' @ muted (esc n)
     | None \<Rightarrow>
        ''<h2>Result-size decade regressions ('' @ dec (length (cp_size_regressions r)) @ ''; '' @
        dec (cp_size_buckets_checked r) @ html '' decade pair(s) checked)</h2>~'' @
        muted (''Per-decade p95 regressions inside fingerprints the fingerprint-level '' @
          ''verdict did not flag '' @ EM_DASH @ '' regressions that only affect one result-size class and would '' @
          ''otherwise be averaged away by the mixed-size percentiles.'') @
        size_bucket_rows (cp_size_regressions r))"

definition matched_heading :: "compare_report \<Rightarrow> string" where
  "matched_heading r =
    ''<h2>Matched fingerprints ('' @ dec (matched_count r) @ '': '' @ dec (length (cp_regressions r)) @
    '' regressed, '' @ dec (length (cp_improvements r)) @ '' improved, '' @
    dec (length (cp_stable r)) @ '' within threshold, '' @ dec (length (cp_low_sample r)) @
    html '' low-sample)</h2>~'' @
    muted (''Sorted by worst p95 regression; click a column header to re-sort. Low-sample rows (count &lt; '' @
      dec (cp_min_count r) @ '' in either run) are excluded from the regression verdict.'')"

definition matched_columns :: string where
  "matched_columns =
    html ''<table class=`sortable`><thead><tr>'' @
    ''<th>class</th><th>fingerprint</th><th>count b</th><th>count c</th>'' @
    ''<th>p95 b (ms)</th><th>p95 c (ms)</th>'' @ delta_head ''p95'' @
    ''<th>p50 b (ms)</th><th>p50 c (ms)</th>'' @ delta_head ''p50'' @
    ''<th>p99 b (ms)</th><th>p99 c (ms)</th>'' @ delta_head ''p99'' @
    ''<th>mean b (ms)</th><th>mean c (ms)</th>'' @ delta_head ''mean'' @
    ''<th>res/q b</th><th>res/q c</th>'' @ delta_head ''res'' @
    html ''<th>errs b</th><th>errs c</th></tr></thead><tbody>~''"

definition matched_table :: "compare_report \<Rightarrow> string" where
  "matched_table r =
    matched_columns @ fp_rows (cp_regressions r) ''regressed'' @ fp_rows (cp_improvements r) ''improved'' @
    fp_rows (cp_stable r) ''stable'' @ fp_rows (cp_low_sample r) ''low-sample'' @
    html ''</tbody></table>~''"

definition SORT_SCRIPT :: string where
  "SORT_SCRIPT =
    html ''document.querySelectorAll(`table.sortable`).forEach(function (t) {~'' @
    html ''  var ths = t.querySelectorAll(`th`);~'' @
    html ''  ths.forEach(function (th, i) {~'' @
    html ''    th.addEventListener(`click`, function () {~'' @
    html ''      var dir = th.dataset.dir === `desc` ? `asc` : `desc`;~'' @
    html ''      ths.forEach(function (h) { delete h.dataset.dir; });~'' @
    html ''      th.dataset.dir = dir;~'' @
    html ''      var tb = t.tBodies[0];~'' @
    html ''      var rows = Array.prototype.slice.call(tb.rows);~'' @
    html ''      rows.sort(function (a, b) {~'' @
    html ''        var av = a.cells[i].dataset.v !== undefined ? a.cells[i].dataset.v : a.cells[i].textContent;~'' @
    html ''        var bv = b.cells[i].dataset.v !== undefined ? b.cells[i].dataset.v : b.cells[i].textContent;~'' @
    html ''        var an = parseFloat(av), bn = parseFloat(bv);~'' @
    html ''        var c = (isNaN(an) || isNaN(bn)) ? String(av).localeCompare(String(bv)) : an - bn;~'' @
    html ''        return dir === `asc` ? c : -c;~'' @
    html ''      });~'' @
    html ''      rows.forEach(function (rw) { tb.appendChild(rw); });~'' @
    html ''    });~'' @
    html ''  });~'' @
    html ''});~''"

definition page_foot :: string where
  "page_foot = html ''<script>~'' @ SORT_SCRIPT @ html ''</script>~</body>~</html>~''"

definition render_html :: "compare_report \<Rightarrow> string" where
  "render_html r =
    page_head r @ warning_box (cp_comparability_warnings r) @ verdict_lines r @
    totals_table (cp_totals r) @ metadata_table (cp_baseline r) (cp_candidate r) @
    settings_html (cp_settings_note r) (cp_settings_diff r) @ correctness_html (cp_correctness r) @
    decades_html r @ matched_heading r @ matched_table r @
    only_in_table ''Only in baseline'' (cp_only_in_baseline r) @
    only_in_table ''Only in candidate'' (cp_only_in_candidate r) @ page_foot"

end
