(* ===== verification/Html_Props.thy ===== *)
theory Html_Props
  imports Compare_Html Compare_Props
begin

text \<open>
  The page's markup is the template's: no text of a report opens or closes a tag or leaves an
  attribute value, and what a text shows is the text.
\<close>

section \<open>Reading the markup\<close>

text \<open>Where a reader of the page is: in the text, in a tag, or in a quoted value of one. The values
  themselves are dropped.\<close>

datatype html_mode = In_Text | In_Tag string | In_Value string

fun markup_scan :: "html_mode \<Rightarrow> string \<Rightarrow> string list \<times> html_mode" where
  "markup_scan st [] = ([], st)"
| "markup_scan In_Text (c # cs) =
    (if c = CHR ''<'' then markup_scan (In_Tag []) cs else markup_scan In_Text cs)"
| "markup_scan (In_Tag t) (c # cs) =
    (if c = CHR ''>'' then (case markup_scan In_Text cs of (ts, st) \<Rightarrow> (t # ts, st))
     else if c = DQUOTE then markup_scan (In_Value (t @ [c])) cs
     else markup_scan (In_Tag (t @ [c])) cs)"
| "markup_scan (In_Value t) (c # cs) =
    (if c = DQUOTE then markup_scan (In_Tag (t @ [c])) cs else markup_scan (In_Value t) cs)"

definition markup :: "string \<Rightarrow> string list" where
  "markup s = fst (markup_scan In_Text s)"

definition complete :: "string \<Rightarrow> bool" where
  "complete s \<longleftrightarrow> snd (markup_scan In_Text s) = In_Text"

lemma markup_scan_append:
  "markup_scan st (a @ b) =
    (fst (markup_scan st a) @ fst (markup_scan (snd (markup_scan st a)) b),
     snd (markup_scan (snd (markup_scan st a)) b))"
  by (induction st a rule: markup_scan.induct) (simp_all add: case_prod_beta)

lemma scan_value_inert: "DQUOTE \<notin> set s \<Longrightarrow> markup_scan (In_Value t) s = ([], In_Value t)"
  by (induction s) auto

lemma scan_text_plain: "CHR ''<'' \<notin> set s \<Longrightarrow> markup_scan In_Text s = ([], In_Text)"
  by (induction s) auto

section \<open>Texts with the same markup\<close>

definition alike :: "string \<Rightarrow> string \<Rightarrow> bool" where
  "alike s s' \<longleftrightarrow> complete s \<and> complete s' \<and> markup s = markup s'"

named_theorems alike_intros
named_theorems inert_rules

lemma alike_append [alike_intros]: "alike a a' \<Longrightarrow> alike b b' \<Longrightarrow> alike (a @ b) (a' @ b')"
  by (simp add: alike_def complete_def markup_def markup_scan_append)

lemma alike_plain: "CHR ''<'' \<notin> set s \<Longrightarrow> CHR ''<'' \<notin> set s' \<Longrightarrow> alike s s'"
  by (simp add: alike_def complete_def markup_def scan_text_plain)

lemma alike_refl: "complete s \<Longrightarrow> alike s s"
  by (simp add: alike_def)

lemma alike_Nil [alike_intros]: "alike [] []"
  by (simp add: alike_plain)

lemma alike_concat:
  "list_all2 (\<lambda>x y. alike (f x) (g y)) xs ys \<Longrightarrow> alike (concat (map f xs)) (concat (map g ys))"
  by (induction rule: list_all2_induct) (simp_all add: alike_Nil alike_append)

text \<open>Rows that are alike whenever a feature of them is the same.\<close>

lemma alike_rows:
  assumes "map h xs = map h ys" and "\<And>x y. h x = h y \<Longrightarrow> alike (f x) (f y)"
  shows "alike (concat (map f xs)) (concat (map f ys))"
proof (rule alike_concat)
  show "list_all2 (\<lambda>x y. alike (f x) (f y)) xs ys"
    using assms by (simp add: list_all2_conv_all_nth list_eq_iff_nth_eq)
qed

lemma alike_if:
  "c = c' \<Longrightarrow> (c \<Longrightarrow> alike a a') \<Longrightarrow> (\<not> c \<Longrightarrow> alike b b') \<Longrightarrow>
    alike (if c then a else b) (if c' then a' else b')"
  by simp

section \<open>Numbers print no markup\<close>

definition inert :: "string \<Rightarrow> bool" where
  "inert s \<longleftrightarrow> CHR ''<'' \<notin> set s \<and> DQUOTE \<notin> set s"

lemma alike_inert: "inert s \<Longrightarrow> inert s' \<Longrightarrow> alike s s'"
  by (simp add: inert_def alike_plain)

lemma inert_append [inert_rules]: "inert a \<Longrightarrow> inert b \<Longrightarrow> inert (a @ b)"
  by (simp add: inert_def)

lemma inert_Cons [simp]: "inert (c # s) \<longleftrightarrow> c \<noteq> CHR ''<'' \<and> c \<noteq> DQUOTE \<and> inert s"
  by (auto simp: inert_def)

lemma inert_Nil [simp]: "inert []"
  by (simp add: inert_def)

lemma inert_subset: "inert s \<Longrightarrow> set t \<subseteq> set s \<Longrightarrow> inert t"
  by (auto simp: inert_def)

lemma inert_dec [simp, inert_rules]: "inert (dec n)"
  using dec_digits [of n] by (auto simp: inert_def is_ascii_digit_def byte_def)

lemma inert_replicate [simp]: "inert (replicate n c) \<longleftrightarrow> n = 0 \<or> c \<noteq> CHR ''<'' \<and> c \<noteq> DQUOTE"
  by (auto simp: inert_def)

lemma inert_app_iff [simp]: "inert (a @ b) \<longleftrightarrow> inert a \<and> inert b"
  by (auto simp: inert_def)

lemma inert_fixed [simp, inert_rules]: "inert (fmt_fixed k x)"
  by (auto simp: fmt_fixed_def fixed_digits_def dec_pad_def Let_def split: f64.splits)

lemma inert_signed [simp, inert_rules]: "inert (fmt_fixed_signed k x)"
  by (simp add: fmt_fixed_signed_def)

lemma inert_dec_signed [simp, inert_rules]: "inert (dec_signed i)"
  by (simp add: dec_signed_def dec_int_def)

lemma inert_bytes [simp, inert_rules]: "inert (fmt_bytes b)"
  by (simp add: fmt_bytes_def Let_def)

lemma inert_pct [simp, inert_rules]: "inert (fmt_pct p)"
  by (simp add: fmt_pct_def split: option.splits)

lemma inert_ms [simp, inert_rules]: "inert (fmt_ms us)"
  by (simp add: fmt_ms_def)

lemma inert_plain: "inert (dec_plain m k)"
proof -
  have "inert (take n (dec m))" "inert (drop n (dec m))" for n
    by (rule inert_subset [OF inert_dec [of m]]; simp add: set_take_subset set_drop_subset)+
  then show ?thesis by (simp add: dec_plain_def Let_def)
qed

lemma inert_f64 [simp, inert_rules]: "inert (show_f64 x)"
  by (cases x) (simp_all add: show_rat_def Let_def inert_plain split: prod.split)

section \<open>Escaped texts\<close>

lemma esc_char_safe: "CHR ''<'' \<notin> set (esc_char c)" "DQUOTE \<notin> set (esc_char c)"
  by (auto simp: esc_char_def)

lemma inert_esc [simp, inert_rules]: "inert (esc s)"
  by (auto simp: inert_def esc_def esc_char_safe)

text \<open>A reader replaces the five character references.\<close>

fun unesc :: "string \<Rightarrow> string" where
  "unesc [] = []"
| "unesc (c # cs) =
    (if prefix ''&amp;'' (c # cs) then CHR ''&'' # unesc (drop 4 cs)
     else if prefix ''&lt;'' (c # cs) then CHR ''<'' # unesc (drop 3 cs)
     else if prefix ''&gt;'' (c # cs) then CHR ''>'' # unesc (drop 3 cs)
     else if prefix ''&quot;'' (c # cs) then DQUOTE # unesc (drop 5 cs)
     else if prefix ''&#39;'' (c # cs) then SQUOTE # unesc (drop 4 cs)
     else c # unesc cs)"

lemma unesc_char: "unesc (esc_char c @ s) = c # unesc s"
  by (simp add: esc_char_def)

text \<open>What a page shows of a text is the text: resolving the character references of an
  escaped string gives the string back.\<close>

theorem esc_shows_text: "unesc (esc s) = s"
  by (induction s) (simp_all add: esc_def unesc_char)

section \<open>Cells\<close>

lemma markup_cell:
  "inert v \<Longrightarrow> alike t t' \<Longrightarrow> inert v' \<Longrightarrow> alike (data_cell v t) (data_cell v' t')"
  by (simp add: alike_def complete_def markup_def data_cell_def html_def markup_scan_append
      scan_value_inert inert_def)

lemma alike_num_cell [alike_intros]: "alike t t' \<Longrightarrow> alike (num_cell t) (num_cell t')"
  by (simp add: alike_def complete_def markup_def num_cell_def html_def markup_scan_append)

lemma complete_simps [simp]: "complete [] \<longleftrightarrow> True"
  by (simp add: complete_def)

lemma inert_pct_class: "inert (pct_class p)"
  by (simp add: pct_class_def)

lemma pct_cell_markup:
  "markup_scan In_Text (pct_cell p) =
    ([''td class='' @ [DQUOTE, DQUOTE] @ '' data-v='' @ [DQUOTE, DQUOTE], ''/td''], In_Text)"
proof (cases p)
  case None
  then show ?thesis by (simp add: pct_cell_def absent_cell_def html_def)
next
  case (Some x)
  have "DQUOTE \<notin> set (pct_class x)" "DQUOTE \<notin> set (fmt_fixed 4 x)" "CHR ''<'' \<notin> set (fmt_fixed_signed 1 x)"
    using inert_pct_class [of x] inert_fixed [of 4 x] inert_signed [of 1 x] by (simp_all add: inert_def)
  then show ?thesis
    using Some by (simp add: pct_cell_def html_def markup_scan_append scan_value_inert scan_text_plain)
qed

lemma alike_pct_cell [alike_intros]: "alike (pct_cell p) (pct_cell p')"
  by (simp add: alike_def complete_def markup_def pct_cell_markup)

lemma alike_absent [alike_intros]: "alike (pct_cell p) absent_cell" "alike absent_cell (pct_cell p)"
  using alike_pct_cell [of p None] alike_pct_cell [of None p] by (simp_all add: pct_cell_def)

lemma alike_us_cell [alike_intros]: "alike (us_cell a) (us_cell b)"
  unfolding us_cell_def by (intro markup_cell alike_inert) simp_all

lemma alike_nat_cell [alike_intros]: "alike (nat_cell a) (nat_cell b)"
  unfolding nat_cell_def by (intro markup_cell alike_inert) simp_all

lemma alike_newline [alike_intros]: "alike [NEWLINE] [NEWLINE]"
  by (simp add: alike_plain)

lemma alike_metric_cells [alike_intros]: "alike (metric_cells a) (metric_cells b)"
  unfolding metric_cells_def by (intro alike_intros)

lemma bytes_cells_shape:
  obtains x y t u p where "bytes_cells b =
    [NEWLINE] @ data_cell (show_f64 x) t @ data_cell (show_f64 y) u @ pct_cell p" "inert t" "inert u"
proof (cases b)
  case None
  show thesis
    by (rule that [of "Fin 0" "''n/a''" "Fin 0" "''n/a''" None]) (simp_all add: None bytes_cells_def pct_cell_def)
next
  case (Some d)
  show thesis
    by (rule that [of "bd_baseline_mean d" "fmt_bytes (bd_baseline_mean d)" "bd_candidate_mean d"
          "fmt_bytes (bd_candidate_mean d)" "bd_mean_delta_pct d"]) (simp_all add: Some bytes_cells_def)
qed

lemma alike_bytes_cells [alike_intros]: "alike (bytes_cells a) (bytes_cells b)"
  by (rule bytes_cells_shape [of a]; rule bytes_cells_shape [of b])
    (simp only:, intro alike_append alike_newline alike_pct_cell markup_cell alike_inert inert_f64)

lemma alike_esc [alike_intros]: "alike (esc s) (esc s')"
  by (simp add: alike_inert)

lemma alike_numbers [alike_intros]:
  "alike (dec m) (dec n)" "alike (fmt_fixed k x) (fmt_fixed k y)"
  "alike (fmt_bytes x) (fmt_bytes y)" "alike (fmt_ms x) (fmt_ms y)" "alike (fmt_pct p) (fmt_pct q)"
  "alike (dec_signed i) (dec_signed j)" "alike (show_f64 x) (show_f64 y)"
  by (simp_all add: alike_inert del: show_f64.simps)

lemmas literal_simps = complete_def html_def badge_def

text \<open>A literal of the template, read by the simplifier.\<close>

lemma alike_lit: "snd (markup_scan In_Text s) = In_Text \<Longrightarrow> alike s s"
  by (simp add: alike_def complete_def)

lemma alike_badge [alike_intros]: "alike (mismatch_badge m) (mismatch_badge m)"
  by (cases m) (simp_all add: mismatch_badge_def alike_refl literal_simps)

lemma alike_row_open [alike_intros]: "b = b' \<Longrightarrow> alike (row_open b) (row_open b')"
  by (cases b) (simp_all add: row_open_def alike_refl literal_simps)

section \<open>Rows and tables\<close>

lemma alike_fp_row: "fd_count_mismatch d = fd_count_mismatch d' \<Longrightarrow> alike (fp_row cls d) (fp_row cls d')"
  if "inert cls"
  unfolding fp_row_def
  by (intro alike_intros alike_inert [OF that that]; simp add: alike_refl literal_simps alike_badge)

lemma alike_fp_rows:
  "inert cls \<Longrightarrow> map fd_count_mismatch xs = map fd_count_mismatch ys \<Longrightarrow> alike (fp_rows xs cls) (fp_rows ys cls)"
  unfolding fp_rows_def by (rule alike_rows [where h = fd_count_mismatch]) (simp_all add: alike_fp_row)

lemma alike_only_row: "alike (only_in_html_row a) (only_in_html_row b)"
  unfolding only_in_html_row_def
  by (intro alike_intros; simp add: alike_refl literal_simps)

lemma alike_only_in [alike_intros]:
  "alike title title \<Longrightarrow> length xs = length ys \<Longrightarrow> alike (only_in_table title xs) (only_in_table title ys)"
proof (cases "xs = []")
  case False
  assume eq: "alike title title" "length xs = length ys"
  have rows: "alike (concat (map only_in_html_row xs)) (concat (map only_in_html_row ys))"
    by (rule alike_rows [where h = "\<lambda>x. ()"]) (simp_all add: eq(2) map_replicate_const alike_only_row)
  have ys: "ys \<noteq> []" using False eq(2) by auto
  show ?thesis
    unfolding only_in_table_def if_not_P [OF False] if_not_P [OF ys] eq(2)
    by (intro alike_append alike_numbers rows eq(1); simp add: alike_lit html_def)
qed (simp add: only_in_table_def alike_Nil)

definition checksum_flags :: "checksum_delta \<Rightarrow> bool \<times> bool \<times> bool" where
  "checksum_flags d = (cd_columns_differ d, cd_events_differ d, cd_nondeterministic d)"

lemma alike_checksum_row:
  "checksum_flags d = checksum_flags d' \<Longrightarrow> alike (checksum_html_row k d) (checksum_html_row k d')"
  unfolding checksum_html_row_def checksum_flags_def
  by (intro alike_if alike_intros; simp add: alike_refl literal_simps)

lemma alike_checksum_table [alike_intros]:
  "map checksum_flags xs = map checksum_flags ys \<Longrightarrow> alike (checksum_table t k xs) (checksum_table t k ys)"
proof (cases "xs = []")
  case False
  assume eq: "map checksum_flags xs = map checksum_flags ys"
  have rows: "alike (concat (map (checksum_html_row k) xs)) (concat (map (checksum_html_row k) ys))"
    by (rule alike_rows [OF eq]) (rule alike_checksum_row)
  have ys: "ys \<noteq> []" using False eq by auto
  show ?thesis
    unfolding checksum_table_def if_not_P [OF False] if_not_P [OF ys]
    by (intro alike_append alike_numbers alike_esc rows; simp add: alike_lit html_def)
qed (simp add: checksum_table_def alike_Nil)

lemma alike_bucket_cells [alike_intros]: "alike (bucket_metric_cells a) (bucket_metric_cells b)"
  unfolding bucket_metric_cells_def by (intro alike_intros)

lemma alike_bucket_row:
  "ud_count_mismatch d = ud_count_mismatch d' \<Longrightarrow> alike (size_bucket_row d) (size_bucket_row d')"
  unfolding size_bucket_row_def
  by (intro alike_intros; simp add: alike_refl literal_simps alike_badge)

lemma alike_marks [alike_intros]:
  "alike EM_DASH EM_DASH" "alike ARROW ARROW" "alike DELTA DELTA" "alike AT_LEAST AT_LEAST"
  "alike WARN_MARK WARN_MARK" "alike PLUS_MINUS PLUS_MINUS"
  by (simp_all add: alike_plain EM_DASH_def ARROW_def DELTA_def AT_LEAST_def WARN_MARK_def PLUS_MINUS_def)

lemma alike_delta_head: "alike t t \<Longrightarrow> alike (delta_head t) (delta_head t)"
  unfolding delta_head_def by (intro alike_append alike_marks; simp add: alike_lit)

lemma alike_size_bucket_rows:
  assumes "map ud_count_mismatch xs = map ud_count_mismatch ys"
  shows "alike (size_bucket_rows xs) (size_bucket_rows ys)"
proof (cases "xs = []")
  case False
  have rows: "alike (concat (map size_bucket_row xs)) (concat (map size_bucket_row ys))"
    by (rule alike_rows [OF assms]) (rule alike_bucket_row)
  have ys: "ys \<noteq> []" using False assms by auto
  show ?thesis
    unfolding size_bucket_rows_def if_not_P [OF False] if_not_P [OF ys]
    by (intro alike_append rows alike_delta_head; simp add: alike_lit html_def)
qed (use assms in \<open>simp add: size_bucket_rows_def alike_Nil\<close>)

section \<open>The sections of the page\<close>

definition meta_marks :: "compare_report \<Rightarrow> bool list" where
  "meta_marks r = map (\<lambda>(n, b, c). meta_differs n b c) (meta_entries (cp_baseline r) (cp_candidate r))"

lemma alike_meta_rows:
  assumes "meta_marks r = meta_marks r'"
  shows "alike (meta_rows (cp_baseline r) (cp_candidate r)) (meta_rows (cp_baseline r') (cp_candidate r'))"
  unfolding meta_rows_def
proof (rule alike_rows [OF assms [unfolded meta_marks_def]])
  fix x y :: "string \<times> string \<times> string"
  assume "(case x of (n, b, c) \<Rightarrow> meta_differs n b c) = (case y of (n, b, c) \<Rightarrow> meta_differs n b c)"
  then show "alike (meta_row x) (meta_row y)"
    unfolding meta_row_def
    by (cases x; cases y; simp only: prod.case)
      (intro alike_append alike_esc alike_row_open; simp add: alike_lit html_def)
qed

lemma inert_style: "CHR ''<'' \<notin> set PAGE_STYLE"
  by (simp add: PAGE_STYLE_def html_def UP_MARK_def DOWN_MARK_def)

lemma inert_script: "CHR ''<'' \<notin> set SORT_SCRIPT"
  by (simp add: SORT_SCRIPT_def html_def)

lemma alike_run_name: "alike (run_name m) (run_name m')"
  unfolding run_name_def by (intro alike_append alike_esc; simp add: alike_lit)

lemma alike_page_head: "alike (page_head r) (page_head r')"
  unfolding page_head_def
  by (intro alike_append alike_esc alike_run_name alike_marks alike_numbers alike_plain [OF inert_style inert_style];
      simp add: alike_lit html_def)

lemma alike_page_foot: "alike page_foot page_foot"
  unfolding page_foot_def
  by (intro alike_append alike_plain [OF inert_script inert_script]; simp add: alike_lit html_def)

lemma alike_warning_box:
  assumes "length ws = length ws'"
  shows "alike (warning_box ws) (warning_box ws')"
proof (cases "ws = []")
  case False
  have ws': "ws' \<noteq> []" using False assms by auto
  have items: "alike (concat (map (\<lambda>w. ''<li>'' @ esc w @ html ''</li>~'') ws))
      (concat (map (\<lambda>w. ''<li>'' @ esc w @ html ''</li>~'') ws'))"
  proof (rule alike_rows [where h = "\<lambda>x. ()"])
    show "alike (''<li>'' @ esc x @ html ''</li>~'') (''<li>'' @ esc y @ html ''</li>~'')" for x y
      by (intro alike_append alike_esc; simp add: alike_lit html_def)
  qed (simp add: assms map_replicate_const)
  show ?thesis
    unfolding warning_box_def if_not_P [OF False] if_not_P [OF ws']
    by (intro alike_append alike_marks items; simp add: alike_lit html_def)
qed (use assms in \<open>simp add: warning_box_def alike_Nil\<close>)

lemma alike_fail_line: "alike b b' \<Longrightarrow> alike c c' \<Longrightarrow> alike (fail_line b c) (fail_line b' c')"
  unfolding fail_line_def by (intro alike_append; simp add: alike_lit html_def)

lemma alike_verdict:
  assumes "cp_correctness_failed r = cp_correctness_failed r'" "cp_size_regressed r = cp_size_regressed r'"
    "cp_regressed r = cp_regressed r'"
  shows "alike (verdict_lines r) (verdict_lines r')"
  unfolding verdict_lines_def assms
  by (intro alike_append alike_if refl alike_fail_line alike_numbers alike_marks alike_Nil alike_newline;
      simp add: alike_lit html_def)

lemma alike_head_cell: "alike t t \<Longrightarrow> alike (head_cell t) (head_cell t)"
  unfolding head_cell_def by (intro alike_append; simp add: alike_lit)

lemma alike_totals: "alike (totals_table t) (totals_table t')"
  unfolding totals_table_def
  by (intro alike_append alike_head_cell alike_num_cell alike_numbers; simp add: alike_lit html_def)

lemma alike_metadata:
  "meta_marks r = meta_marks r' \<Longrightarrow>
    alike (metadata_table (cp_baseline r) (cp_candidate r)) (metadata_table (cp_baseline r') (cp_candidate r'))"
  unfolding metadata_table_def by (intro alike_append alike_meta_rows; simp add: alike_lit html_def)

lemma alike_muted: "alike t t' \<Longrightarrow> alike (muted t) (muted t')"
  unfolding muted_def by (intro alike_append; simp add: alike_lit html_def)

definition setting_sides :: "setting_diff \<Rightarrow> bool \<times> bool" where
  "setting_sides d = (sd_baseline d = None, sd_candidate d = None)"

lemma alike_setting_value: "(v = None) = (v' = None) \<Longrightarrow> alike (setting_value v) (setting_value v')"
  by (cases v; cases v') (simp_all add: setting_value_def alike_esc alike_lit)

lemma alike_setting_row: "setting_sides d = setting_sides d' \<Longrightarrow> alike (setting_row d) (setting_row d')"
  unfolding setting_row_def setting_sides_def
  by (intro alike_append alike_row_open alike_esc alike_setting_value; simp add: alike_lit html_def)

lemma alike_settings:
  assumes "(nt1 = None) = (nt2 = None)" "map setting_sides ds = map setting_sides ds'"
  shows "alike (settings_html nt1 ds) (settings_html nt2 ds')"
proof (cases nt1)
  case (Some n)
  then obtain n' where "nt2 = Some n'" using assms(1) by auto
  with Some show ?thesis
    unfolding settings_html_def
    by (simp only: option.case) (intro alike_append alike_muted alike_esc; simp add: alike_lit html_def)
next
  case None
  then have nt2: "nt2 = None" using assms(1) by simp
  have rows: "alike (concat (map setting_row ds)) (concat (map setting_row ds'))"
    by (rule alike_rows [OF assms(2)]) (rule alike_setting_row)
  have "ds = [] \<longleftrightarrow> ds' = []" using assms(2) by auto
  then show ?thesis
    unfolding settings_html_def None nt2 option.case
    by (intro alike_if alike_append rows alike_Nil; simp add: alike_lit html_def)
qed

definition correctness_shape :: "correctness_report \<Rightarrow> (bool \<times> bool \<times> bool) list \<times> (bool \<times> bool \<times> bool) list" where
  "correctness_shape c = (map checksum_flags (cr_mismatches c), map checksum_flags (cr_advisory c))"

lemma alike_correctness:
  assumes "map_option correctness_shape x = map_option correctness_shape y"
  shows "alike (correctness_html x) (correctness_html y)"
proof (cases x)
  case (Some c)
  then obtain c' where y: "y = Some c'" and eq: "correctness_shape c = correctness_shape c'"
    using assms by (cases y) auto
  have tables: "alike (checksum_table t k (cr_mismatches c)) (checksum_table t k (cr_mismatches c'))"
    "alike (checksum_table t k (cr_advisory c)) (checksum_table t k (cr_advisory c'))" for t k
    using eq by (simp_all add: correctness_shape_def alike_checksum_table)
  show ?thesis
    unfolding correctness_html_def Some y option.case
    by (intro alike_append alike_muted alike_esc alike_numbers tables; simp add: alike_lit html_def)
qed (use assms in \<open>simp add: correctness_html_def alike_Nil\<close>)

lemma alike_decades:
  assumes "(cp_size_note r = None) = (cp_size_note r' = None)"
    "map ud_count_mismatch (cp_size_regressions r) = map ud_count_mismatch (cp_size_regressions r')"
  shows "alike (decades_html r) (decades_html r')"
proof (cases "cp_size_note r")
  case (Some n)
  then obtain n' where n': "cp_size_note r' = Some n'" using assms(1) by auto
  show ?thesis
    unfolding decades_html_def Some n' option.case
    by (intro alike_append alike_muted alike_esc; simp add: alike_lit html_def)
next
  case None
  then have n': "cp_size_note r' = None" using assms(1) by simp
  show ?thesis
    unfolding decades_html_def None n' option.case
    by (intro alike_append alike_muted alike_numbers alike_marks alike_size_bucket_rows [OF assms(2)];
        simp add: alike_lit html_def)
qed

lemma alike_matched_heading: "alike (matched_heading r) (matched_heading r')"
  unfolding matched_heading_def
  by (intro alike_append alike_muted alike_numbers; simp add: alike_lit html_def)

definition row_marks :: "compare_report \<Rightarrow> bool list list" where
  "row_marks r = map (map fd_count_mismatch)
    [cp_regressions r, cp_improvements r, cp_stable r, cp_low_sample r]"

lemma alike_matched_table:
  assumes "row_marks r = row_marks r'"
  shows "alike (matched_table r) (matched_table r')"
proof -
  have columns: "alike matched_columns matched_columns"
    unfolding matched_columns_def by (intro alike_append alike_delta_head; simp add: alike_lit html_def)
  show ?thesis
    unfolding matched_table_def using assms
    by (intro alike_append columns alike_fp_rows; simp add: alike_lit html_def row_marks_def)
qed

section \<open>The page\<close>

text \<open>Two reports with tables of the same lengths and rows with the same marks; every text and every
  number may differ.\<close>

definition same_shape :: "compare_report \<Rightarrow> compare_report \<Rightarrow> bool" where
  "same_shape r r' \<longleftrightarrow>
    length (cp_comparability_warnings r) = length (cp_comparability_warnings r') \<and>
    cp_correctness_failed r = cp_correctness_failed r' \<and> cp_size_regressed r = cp_size_regressed r' \<and>
    cp_regressed r = cp_regressed r' \<and> meta_marks r = meta_marks r' \<and>
    (cp_settings_note r = None) = (cp_settings_note r' = None) \<and>
    map setting_sides (cp_settings_diff r) = map setting_sides (cp_settings_diff r') \<and>
    map_option correctness_shape (cp_correctness r) = map_option correctness_shape (cp_correctness r') \<and>
    (cp_size_note r = None) = (cp_size_note r' = None) \<and>
    map ud_count_mismatch (cp_size_regressions r) = map ud_count_mismatch (cp_size_regressions r') \<and>
    row_marks r = row_marks r' \<and>
    length (cp_only_in_baseline r) = length (cp_only_in_baseline r') \<and>
    length (cp_only_in_candidate r) = length (cp_only_in_candidate r')"

lemma same_shape_alike:
  assumes "same_shape r r'"
  shows "alike (render_html r) (render_html r')"
proof -
  have title: "alike ''Only in baseline'' ''Only in baseline''" "alike ''Only in candidate'' ''Only in candidate''"
    by (simp_all add: alike_plain)
  show ?thesis
    unfolding render_html_def using assms
    by (intro alike_append alike_page_head alike_warning_box alike_verdict alike_totals alike_metadata
        alike_settings alike_correctness alike_decades alike_matched_heading alike_matched_table
        alike_only_in title alike_page_foot; simp add: same_shape_def)
qed

text \<open>C21: No text of a comparison can inject markup into its page. The tags and attributes of the
  page (the attribute values apart) are fixed by the lengths of the tables and the marks of their
  rows: two reports that agree on these have the same markup whatever fingerprints, file names,
  server versions, settings and warnings they hold, and the page ends outside every tag.\<close>

theorem html_no_injection:
  assumes "same_shape r r'"
  shows "markup (render_html r) = markup (render_html r') \<and> complete (render_html r)"
  using same_shape_alike [OF assms] by (simp add: alike_def)

definition sample_page :: "string \<Rightarrow> compare_report" where
  "sample_page t =
    (compare_runs ''0.5.0'' ''a'' sample_report ''b'' sample_report
      \<lparr>co_threshold_pct = Fin 10, co_min_count = 5\<rparr>)
    \<lparr>cp_comparability_warnings := [t],
     cp_only_in_baseline := [\<lparr>oi_fingerprint = t, oi_count = 3, oi_errors = 0\<rparr>]\<rparr>"

theorem html_no_injection_witness:
  "markup (render_html (sample_page ''<script>alert(1)</script>'')) =
    markup (render_html (sample_page ''select ?''))"
  using html_no_injection [of "sample_page ''<script>alert(1)</script>''" "sample_page ''select ?''"]
  by (simp add: same_shape_def sample_page_def meta_marks_def row_marks_def)

end
