(* ===== verification/Command.thy ===== *)
theory Command
  imports Replay_Pass Baseline Compare_Html Capture
begin

text \<open>
  The production entry of a replay (\<open>run_replay_with_shutdown\<close>, with the probe of the target) and the
  subcommands of \<open>main.rs\<close>: what is printed, which files are written, the exit code. The URL parser
  and the driver, the serialisation to JSON and the file system are parameters; the signal handlers
  only set the shutdown flag.
\<close>

section \<open>Probing the target\<close>

text \<open>A connection of the driver: \<open>query_first\<close> of the version and of a variable, \<open>disconnect\<close>.\<close>

record probe_conn =
  pb_version :: "target_error + string option"
  pb_query :: "string \<Rightarrow> target_error + (string \<times> string) option"
  pb_disconnect :: "target_error + unit"

definition show_variable :: "probe_conn \<Rightarrow> string \<Rightarrow> string option" where
  "show_variable conn name =
    (case pb_query conn (''SHOW VARIABLES LIKE '' @ [SQUOTE] @ name @ [SQUOTE]) of
       Inr (Some (n, v)) \<Rightarrow> Some v
     | _ \<Rightarrow> None)"

text \<open>\<open>BTreeMap::insert\<close> on the entries in key order.\<close>

fun btree_insert :: "string \<Rightarrow> 'v \<Rightarrow> (string \<times> 'v) list \<Rightarrow> (string \<times> 'v) list" where
  "btree_insert k v [] = [(k, v)]"
| "btree_insert k v ((k1, v1) # xs) =
    (if k = k1 then (k, v) # xs
     else if k < k1 then (k, v) # (k1, v1) # xs
     else (k1, v1) # btree_insert k v xs)"

definition PROBED_VARIABLES :: "string list" where
  "PROBED_VARIABLES =
    [''sql_mode'', ''character_set_server'', ''collation_server'', ''innodb_buffer_pool_size'']"

definition ISOLATION_NAMES :: "string list" where
  "ISOLATION_NAMES = [''transaction_isolation'', ''tx_isolation'']"

definition insert_shown :: "string \<Rightarrow> string option \<Rightarrow> (string \<times> string) list \<Rightarrow> (string \<times> string) list" where
  "insert_shown name v out = (case v of Some x \<Rightarrow> btree_insert name x out | None \<Rightarrow> out)"

definition collect_target_settings :: "probe_conn \<Rightarrow> (string \<times> string) list" where
  "collect_target_settings conn =
    insert_shown ''transaction_isolation'' (find_map (show_variable conn) ISOLATION_NAMES)
      (fold (\<lambda>n. insert_shown n (show_variable conn n)) PROBED_VARIABLES [])"

section \<open>Running a replay\<close>

datatype replay_error =
    Fd_Limit nat nat | Invalid_Url | Cannot_Connect string target_error | Probe_Failed target_error
  | Ingest error | Task_Panicked

definition map_error :: "('e \<Rightarrow> 'f) \<Rightarrow> 'e + 'a \<Rightarrow> 'f + 'a" where
  "map_error f r = (case r of Inl e \<Rightarrow> Inl (f e) | Inr x \<Rightarrow> Inr x)"

text \<open>\<open>connect\<close> is the driver's, given the URL and the database to use instead of the URL's.\<close>

definition probe_target ::
    "nat option \<Rightarrow> (string \<Rightarrow> bool) \<Rightarrow> (string \<Rightarrow> string option \<Rightarrow> target_error + probe_conn) \<Rightarrow>
      replay_options \<Rightarrow> replay_error + target_info" where
  "probe_target limit url_ok connect opts =
    bind_result
      (case limit of
         None \<Rightarrow> Inr ()
       | Some n \<Rightarrow> map_error (\<lambda>(needed, suggest). Fd_Limit needed suggest) (check_fd_headroom (connection_cap opts) n))
      (\<lambda>_. if \<not> url_ok (ro_url opts) then Inl Invalid_Url
        else bind_result (map_error (Cannot_Connect (redact_url (ro_url opts))) (connect (ro_url opts) (ro_db_override opts)))
          (\<lambda>conn. bind_result (map_error Probe_Failed (pb_version conn))
            (\<lambda>v. bind_result (map_error Probe_Failed (pb_disconnect conn))
              (\<lambda>_. Inr \<lparr>ti_server_version = (case v of Some s \<Rightarrow> s | None \<Rightarrow> []),
                ti_settings = collect_target_settings conn\<rparr>))))"

text \<open>What a run meets, pass by pass: the moves of the scheduler, the clock, the iteration order of the
  table, the shutdown flag before the pass.\<close>

record schedule =
  sc_moves :: "nat \<Rightarrow> move list"
  sc_clock :: "nat \<Rightarrow> clock"
  sc_order :: "nat \<Rightarrow> u32 list"
  sc_flag :: "nat \<Rightarrow> bool"

definition replay_passes ::
    "'h environment \<Rightarrow> replay_options \<Rightarrow> target_info \<Rightarrow> schedule \<Rightarrow> capture_info \<Rightarrow> session list \<Rightarrow>
      replay_outcome option" where
  "replay_passes env opts info sc cap ss =
    run_passes opts
      (\<lambda>k. run_pass env cap opts info (sc_clock sc k) (sc_order sc k) (sc_flag sc k) ss (sc_moves sc k))
      (sc_flag sc)"

definition run_replay ::
    "'h environment \<Rightarrow> (string \<Rightarrow> capture_record option) \<Rightarrow> (event \<Rightarrow> bytes option) \<Rightarrow>
      (bytes \<Rightarrow> event option) \<Rightarrow> (nat \<Rightarrow> bool) \<Rightarrow> nat option \<Rightarrow> (string \<Rightarrow> bool) \<Rightarrow>
      (string \<Rightarrow> string option \<Rightarrow> target_error + probe_conn) \<Rightarrow> schedule \<Rightarrow> string \<Rightarrow>
      string option list option \<Rightarrow> replay_options \<Rightarrow> replay_error + replay_outcome" where
  "run_replay env dc ser de disk limit url_ok connect sc path fl opts =
    bind_result (probe_target limit url_ok connect opts) (\<lambda>info.
    bind_result (map_error Ingest (spool_replay dc ser de disk path fl opts)) (\<lambda>(cap, ss).
      case replay_passes env opts info sc cap ss of
        Some oc \<Rightarrow> Inr oc
      | None \<Rightarrow> Inl Task_Panicked))"

section \<open>Paths of pass reports\<close>

text \<open>A path is a directory part and a file name, as \<open>Path::file_name\<close> finds it: empty components and
  dots at the end do not count. \<open>rev_tail\<close> drops them from the reversed path.\<close>

fun rev_tail :: "string \<Rightarrow> string" where
  "rev_tail [] = []"
| "rev_tail (c # cs) =
    (if c = CHR ''/'' then rev_tail cs
     else if c = CHR ''.'' \<and> (cs = [] \<or> hd cs = CHR ''/'') then rev_tail cs
     else c # cs)"

definition split_path :: "string \<Rightarrow> (string \<times> string) option" where
  "split_path p =
    (let r = rev_tail (rev p); name = rev (takeWhile (\<lambda>c. c \<noteq> CHR ''/'') r) in
     if name = [] \<or> name = ''..'' then None
     else Some (rev (dropWhile (\<lambda>c. c \<noteq> CHR ''/'') r), name))"

text \<open>The stem and the extension: the text after the last dot, unless the dot comes first.\<close>

definition split_extension :: "string \<Rightarrow> string \<times> string option" where
  "split_extension name =
    (let r = rev name; ext = takeWhile (\<lambda>c. c \<noteq> CHR ''.'') r; rest = dropWhile (\<lambda>c. c \<noteq> CHR ''.'') r in
     if rest = [] \<or> tl rest = [] then (name, None) else (rev (tl rest), Some (rev ext)))"

definition with_extension :: "string \<Rightarrow> string \<Rightarrow> string" where
  "with_extension p ext =
    (case split_path p of
       None \<Rightarrow> p
     | Some (dir, name) \<Rightarrow> dir @ fst (split_extension name) @ (if ext = [] then [] else ''.'' @ ext))"

definition path_extension :: "string \<Rightarrow> string option" where
  "path_extension p = (case split_path p of None \<Rightarrow> None | Some (dir, name) \<Rightarrow> snd (split_extension name))"

definition pass_report_path :: "string \<Rightarrow> nat \<Rightarrow> string" where
  "pass_report_path out n =
    (case path_extension out of
       Some ext \<Rightarrow> with_extension out (''pass'' @ dec n @ ''.'' @ ext)
     | None \<Rightarrow> with_extension out (''pass'' @ dec n))"

section \<open>The subcommands\<close>

text \<open>What a subcommand leaves: its text, the files in the order they are written, the exit code.\<close>

record command_result =
  cm_stdout :: string
  cm_files :: "(string \<times> string) list"
  cm_exit :: int

text \<open>A subcommand that returns an error exits with 1; \<open>write\<close> says whether a file can be written.\<close>

definition tool_error :: command_result where
  "tool_error = \<lparr>cm_stdout = [], cm_files = [], cm_exit = 1\<rparr>"

definition write_file :: "(string \<Rightarrow> bool) \<Rightarrow> string \<Rightarrow> string option \<Rightarrow> command_result \<Rightarrow> (command_result + command_result)" where
  "write_file writable path text res =
    (case text of
       None \<Rightarrow> Inl (res\<lparr>cm_exit := 1\<rparr>)
     | Some t \<Rightarrow>
        if writable path then Inr (res\<lparr>cm_files := cm_files res @ [(path, t)]\<rparr>)
        else Inl (res\<lparr>cm_exit := 1\<rparr>))"

fun write_files ::
    "(string \<Rightarrow> bool) \<Rightarrow> (string \<times> string option) list \<Rightarrow> command_result \<Rightarrow> command_result + command_result" where
  "write_files writable [] res = Inr res"
| "write_files writable ((p, t) # fs) res = bind_result (write_file writable p t res) (write_files writable fs)"

definition finished :: "int \<Rightarrow> command_result + command_result \<Rightarrow> command_result" where
  "finished code r = (case r of Inl failed \<Rightarrow> failed | Inr res \<Rightarrow> res\<lparr>cm_exit := code\<rparr>)"

definition printed :: "string \<Rightarrow> command_result" where
  "printed t = \<lparr>cm_stdout = t, cm_files = [], cm_exit = 0\<rparr>"

definition is_pcap_input :: "string \<Rightarrow> bytes \<Rightarrow> bool" where
  "is_pcap_input format1 content =
    (if format1 = ''pcap'' then True
     else if format1 = ''slowlog'' then False
     else looks_like_pcap content)"

definition captured_text :: "summary \<Rightarrow> f64 \<Rightarrow> string \<Rightarrow> string" where
  "captured_text s elapsed out =
    line (''captured '' @ dec (su_event_count s) @ '' events / '' @ dec (su_session_count s) @
      '' sessions / '' @ dec (length (su_fingerprints s)) @ '' fingerprints (dialect: '' @
      su_source_dialect s @ '', admin commands ignored: '' @ dec (su_admin_commands_ignored s) @
      '') in '' @ fmt_fixed 2 elapsed @ ''s -> '' @ out)"

definition pcap_text :: "pcap_summary \<Rightarrow> string" where
  "pcap_text p =
    line (''pcap: '' @ dec (ps_packets p) @ '' packets, '' @ dec (ps_connections p) @
      '' connections ('' @ dec (ps_connections_decoded p) @ '' decoded, '' @
      dec (ps_connections_tls_skipped p) @ '' TLS-skipped, '' @
      dec (ps_connections_compressed_skipped p) @ '' compressed-skipped, '' @
      dec (ps_connections_midstream_skipped p) @ '' mid-stream-skipped, '' @
      dec (ps_connections_broken p) @ '' broken); prepared statements: '' @
      dec (ps_statements_expanded p) @ '' expanded, '' @
      dec (ps_statements_inexpandable p) @ '' inexpandable; '' @
      dec (ps_responses_missing p) @ '' responses missing; server version(s): '' @
      (if ps_server_versions p = [] then ''none seen''
       else join '', '' (ps_server_versions p)))"

text \<open>The input as the two parsers see it: its bytes, its lines, the results of the packet reader.\<close>

record input_file =
  in_bytes :: bytes
  in_lines :: "string option list option"
  in_blocks :: "read_result list"

datatype capture_error = Slowlog_Capture error | Pcap_Capture "error scan_error"

definition capture_run ::
    "time_lib \<Rightarrow> (capture_record \<Rightarrow> string option) \<Rightarrow> (engine \<Rightarrow> flow_key list) \<Rightarrow> string \<Rightarrow> string \<Rightarrow>
      input_file \<Rightarrow> string \<Rightarrow> nat \<Rightarrow> string option \<Rightarrow> string list option \<Rightarrow>
      capture_error + (string list \<times> summary)" where
  "capture_run lib enc keys version now input format1 port dialect out =
    (if is_pcap_input format1 (in_bytes input)
     then map_error Pcap_Capture (run_capture_pcap enc keys version now port dialect (in_blocks input) out)
     else map_error Slowlog_Capture (run_capture lib enc version now dialect (in_lines input) out))"

text \<open>The capture file is given by its lines, before compression.\<close>

definition capture_command ::
    "capture_error + (string list \<times> summary) \<Rightarrow> f64 \<Rightarrow> string \<Rightarrow> command_result" where
  "capture_command run elapsed out =
    (case run of
       Inl e \<Rightarrow> tool_error
     | Inr (ls, s) \<Rightarrow>
        \<lparr>cm_stdout = captured_text s elapsed out @ (case su_pcap s of Some p \<Rightarrow> pcap_text p | None \<Rightarrow> []),
         cm_files = [(out, concat (map line ls))], cm_exit = 0\<rparr>)"

text \<open>The reports of the passes, numbered from one, and then the headline report.\<close>

definition replay_files ::
    "(run_report \<Rightarrow> string option) \<Rightarrow> string \<Rightarrow> replay_outcome \<Rightarrow> run_report \<Rightarrow> (string \<times> string option) list" where
  "replay_files to_json out oc headline =
    (if oc_aggregated oc \<noteq> None
     then map (\<lambda>(i, r). (pass_report_path out (i + 1), to_json r)) (enumerate 0 (oc_passes oc))
     else []) @ [(out, to_json headline)]"

definition replay_command ::
    "(run_report \<Rightarrow> string option) \<Rightarrow> (string \<Rightarrow> bool) \<Rightarrow> replay_error + replay_outcome \<Rightarrow> nat \<Rightarrow>
      string option \<Rightarrow> command_result" where
  "replay_command to_json writable run n out =
    (case run of
       Inl e \<Rightarrow> tool_error
     | Inr oc \<Rightarrow>
        (case primary oc of
           None \<Rightarrow> tool_error\<lparr>cm_exit := 101\<rparr>
         | Some headline \<Rightarrow>
            finished (if outcome_aborted oc then 130 else 0)
              (write_files writable
                (case out of Some path \<Rightarrow> replay_files to_json path oc headline | None \<Rightarrow> [])
                (printed (render_table headline n)))))"

definition baseline_command ::
    "(run_report \<Rightarrow> string option) \<Rightarrow> (string \<Rightarrow> bool) \<Rightarrow> error + run_report \<Rightarrow> nat \<Rightarrow> string \<Rightarrow> command_result" where
  "baseline_command to_json writable r n out =
    (case r of
       Inl e \<Rightarrow> tool_error
     | Inr rep \<Rightarrow> finished 0 (write_files writable [(out, to_json rep)] (printed (render_table rep n))))"

text \<open>\<open>load\<close> reads and parses a run report.\<close>

definition compare_command ::
    "(string \<Rightarrow> run_report option) \<Rightarrow> (compare_report \<Rightarrow> string option) \<Rightarrow> (string \<Rightarrow> bool) \<Rightarrow> string \<Rightarrow>
      string \<Rightarrow> string \<Rightarrow> compare_options \<Rightarrow> nat \<Rightarrow> string option \<Rightarrow> string option \<Rightarrow> command_result" where
  "compare_command load to_json writable version base cand opts n json out =
    (case load base of
       None \<Rightarrow> tool_error
     | Some b \<Rightarrow>
        (case load cand of
           None \<Rightarrow> tool_error
         | Some c \<Rightarrow>
            (let r = compare_runs version base b cand c opts in
             finished (gate_exit r)
               (write_files writable
                 ((case json of Some p \<Rightarrow> [(p, to_json r)] | None \<Rightarrow> []) @
                  (case out of Some p \<Rightarrow> [(p, Some (render_html r))] | None \<Rightarrow> []))
                 (printed (render_stdout r n))))))"

section \<open>The arguments\<close>

text \<open>The values of the arguments after parsing and defaults; a bound of the time window and the speed
  come from \<open>parse_window\<close> and \<open>parse_speed\<close>.\<close>

record capture_args =
  ca_input :: string
  ca_out :: string
  ca_format :: string
  ca_port :: u16
  ca_dialect :: "string option"

record replay_args =
  ra_capture :: string
  ra_url :: string
  ra_max_connections :: nat
  ra_db_override :: "string option"
  ra_allow_writes :: bool
  ra_read_only :: bool
  ra_speed :: speed
  ra_out :: "string option"
  ra_top :: nat
  ra_warmup :: bool
  ra_repeat :: u32
  ra_filter_db :: "string option"
  ra_filter_user :: "string option"
  ra_time_window :: "time_window option"
  ra_pool :: "u32 option"
  ra_spool_dir :: "string option"
  ra_checksum :: bool

record baseline_args =
  ba_capture :: string
  ba_out :: string
  ba_filter_db :: "string option"
  ba_filter_user :: "string option"
  ba_time_window :: "time_window option"
  ba_top :: nat

record compare_args =
  xa_baseline :: string
  xa_candidate :: string
  xa_out :: "string option"
  xa_json :: "string option"
  xa_min_count :: nat
  xa_threshold_pct :: f64
  xa_top :: nat

datatype cmd =
    Cmd_Capture capture_args | Cmd_Replay replay_args | Cmd_Baseline baseline_args
  | Cmd_Compare compare_args

text \<open>The constraints on the values that the parser enforces.\<close>

definition args_accepted :: "cmd \<Rightarrow> bool" where
  "args_accepted c =
    (case c of
       Cmd_Capture a \<Rightarrow> ca_format a = ''auto'' \<or> ca_format a = ''slowlog'' \<or> ca_format a = ''pcap''
     | Cmd_Replay a \<Rightarrow>
        \<not> (ra_read_only a \<and> ra_allow_writes a) \<and> 1 \<le> ra_repeat a \<and>
        (case ra_pool a of None \<Rightarrow> True | Some n \<Rightarrow> 1 \<le> n)
     | Cmd_Baseline a \<Rightarrow> True
     | Cmd_Compare a \<Rightarrow> True)"

definition options_of_args :: "replay_args \<Rightarrow> replay_options" where
  "options_of_args a =
    \<lparr>ro_url = ra_url a, ro_max_connections = ra_max_connections a, ro_allow_writes = ra_allow_writes a,
     ro_read_only = ra_read_only a, ro_db_override = ra_db_override a, ro_speed = ra_speed a,
     ro_pool = map_option unat (ra_pool a), ro_warmup = ra_warmup a, ro_repeat = unat (ra_repeat a),
     ro_filters = \<lparr>fi_db = ra_filter_db a, fi_user = ra_filter_user a, fi_window = ra_time_window a\<rparr>,
     ro_spool_dir = ra_spool_dir a, ro_checksum = ra_checksum a\<rparr>"

text \<open>What a subcommand calls: the four entry points of the library (models of which are
  \<open>capture_run\<close>, \<open>run_replay\<close>, \<open>build_baseline\<close> and the reading of a report), the serialisations, the
  file system, the stopwatch of the capture.\<close>

record entry_points =
  ep_capture :: "capture_args \<Rightarrow> capture_error + (string list \<times> summary)"
  ep_elapsed :: f64
  ep_replay :: "string \<Rightarrow> replay_options \<Rightarrow> replay_error + replay_outcome"
  ep_baseline :: "string \<Rightarrow> filters \<Rightarrow> error + run_report"
  ep_load :: "string \<Rightarrow> run_report option"
  ep_run_json :: "run_report \<Rightarrow> string option"
  ep_compare_json :: "compare_report \<Rightarrow> string option"
  ep_writable :: "string \<Rightarrow> bool"
  ep_version :: string

definition main_command :: "entry_points \<Rightarrow> cmd \<Rightarrow> command_result" where
  "main_command ep c =
    (case c of
       Cmd_Capture a \<Rightarrow> capture_command (ep_capture ep a) (ep_elapsed ep) (ca_out a)
     | Cmd_Replay a \<Rightarrow>
        replay_command (ep_run_json ep) (ep_writable ep) (ep_replay ep (ra_capture a) (options_of_args a))
          (ra_top a) (ra_out a)
     | Cmd_Baseline a \<Rightarrow>
        baseline_command (ep_run_json ep) (ep_writable ep)
          (ep_baseline ep (ba_capture a)
            \<lparr>fi_db = ba_filter_db a, fi_user = ba_filter_user a, fi_window = ba_time_window a\<rparr>)
          (ba_top a) (ba_out a)
     | Cmd_Compare a \<Rightarrow>
        compare_command (ep_load ep) (ep_compare_json ep) (ep_writable ep) (ep_version ep)
          (xa_baseline a) (xa_candidate a)
          \<lparr>co_threshold_pct = xa_threshold_pct a, co_min_count = xa_min_count a\<rparr>
          (xa_top a) (xa_json a) (xa_out a))"

section \<open>Memory tuning\<close>

text \<open>The environment after the call, and the threshold handed to the allocator, if any, of the glibc
  build.\<close>

definition RETAINED_BUFFER_CAP_BYTES :: nat where "RETAINED_BUFFER_CAP_BYTES = 128 * 1024"

definition tune_process_memory :: "(string \<rightharpoonup> string) \<Rightarrow> (string \<rightharpoonup> string) \<times> nat option" where
  "tune_process_memory env =
    (let cap = ''MYSQL_ASYNC_BUFFER_SIZE_CAP'';
         env1 = (if env cap = None then env(cap \<mapsto> dec RETAINED_BUFFER_CAP_BYTES) else env) in
     (env1, if env1 ''MALLOC_MMAP_THRESHOLD_'' = None then Some RETAINED_BUFFER_CAP_BYTES else None))"

end
