(* ===== verification/Command_Props.thy ===== *)
theory Command_Props
  imports Command Replay_Pass_Props Compare_Props
begin

text \<open>
  The recorded settings and their comparison, the paths of the pass reports, and the exit codes.
\<close>

section \<open>Settings\<close>

definition strict_keys :: "(string \<times> 'v) list \<Rightarrow> bool" where
  "strict_keys xs \<longleftrightarrow> sorted_wrt (<) (map fst xs)"

lemma map_of_btree_insert: "map_of (btree_insert k v xs) = (map_of xs)(k \<mapsto> v)" if "strict_keys xs"
  using that by (induction k v xs rule: btree_insert.induct) (auto simp: strict_keys_def fun_upd_twist)

lemma set_btree_insert: "fst ` set (btree_insert k v xs) = insert k (fst ` set xs)"
  by (induction k v xs rule: btree_insert.induct) auto

lemma strict_btree_insert: "strict_keys xs \<Longrightarrow> strict_keys (btree_insert k v xs)"
proof (induction k v xs rule: btree_insert.induct)
  case (2 k v k1 v1 xs)
  have "\<forall>y \<in> fst ` set (btree_insert k v xs). k1 < y" if "k1 < k"
    unfolding set_btree_insert using 2(2) that by (auto simp: strict_keys_def)
  with 2 show ?case by (auto simp: strict_keys_def)
qed (simp add: strict_keys_def)

lemma insert_shown:
  assumes "strict_keys out"
  shows "strict_keys (insert_shown n v out)"
    and "map_of (insert_shown n v out) k = (if k = n \<and> v \<noteq> None then v else map_of out k)"
  using assms by (auto simp: insert_shown_def strict_btree_insert map_of_btree_insert split: option.splits)

definition isolation :: "probe_conn \<Rightarrow> string option" where
  "isolation conn =
    (case show_variable conn ''transaction_isolation'' of
       Some v \<Rightarrow> Some v
     | None \<Rightarrow> show_variable conn ''tx_isolation'')"

lemma find_map_isolation: "find_map (show_variable conn) ISOLATION_NAMES = isolation conn"
  by (simp add: ISOLATION_NAMES_def isolation_def split: option.split)

lemma collected:
  "strict_keys (collect_target_settings conn)"
  "map_of (collect_target_settings conn) k =
    (if k \<in> set PROBED_VARIABLES then show_variable conn k
     else if k = ''transaction_isolation'' then isolation conn else None)"
proof -
  let ?f = "\<lambda>n. insert_shown n (show_variable conn n)"
  have fold: "strict_keys out \<Longrightarrow> strict_keys (fold ?f ns out) \<and>
      (\<forall>k. map_of (fold ?f ns out) k =
        (if k \<in> set ns \<and> show_variable conn k \<noteq> None then show_variable conn k else map_of out k))" for ns out
    by (induction ns arbitrary: out) (auto simp: insert_shown)
  have nil: "strict_keys ([] :: (string \<times> string) list)" by (simp add: strict_keys_def)
  note base = fold [OF nil, of PROBED_VARIABLES]
  show "strict_keys (collect_target_settings conn)"
    unfolding collect_target_settings_def by (rule insert_shown) (use base in blast)
  have "''transaction_isolation'' \<notin> set PROBED_VARIABLES" by (simp add: PROBED_VARIABLES_def)
  then show "map_of (collect_target_settings conn) k =
    (if k \<in> set PROBED_VARIABLES then show_variable conn k
     else if k = ''transaction_isolation'' then isolation conn else None)"
    unfolding collect_target_settings_def find_map_isolation
    using base by (auto simp: insert_shown)
qed

lemma settings_diff_names:
  "map sd_name (settings_diff_of xs ys) =
    filter (\<lambda>n. map_of xs n \<noteq> map_of ys n) (remdups (sort (map fst xs @ map fst ys)))"
  by (simp add: settings_diff_of_def comp_def)

text \<open>The settings two replays record are compared variable by variable: the differences
  listed are exactly the probed variables the two servers answer differently, and the isolation
  level, which older and newer servers name differently, is compared across its two names.\<close>

theorem settings_compared:
  "set (map sd_name (settings_diff_of (collect_target_settings a) (collect_target_settings b))) =
    {k \<in> set PROBED_VARIABLES. show_variable a k \<noteq> show_variable b k} \<union>
    (if isolation a \<noteq> isolation b then {''transaction_isolation''} else {})"
proof -
  have fresh: "''transaction_isolation'' \<notin> set PROBED_VARIABLES" by (simp add: PROBED_VARIABLES_def)
  have keys: "map_of xs k \<noteq> map_of ys k \<Longrightarrow> k \<in> fst ` set xs \<union> fst ` set ys"
    for k and xs ys :: "(string \<times> string) list"
    by (metis UnI1 UnI2 map_of_eq_None_iff)
  have diff: "k \<in> set (map sd_name (settings_diff_of xs ys)) \<longleftrightarrow> map_of xs k \<noteq> map_of ys k"
    for k and xs ys :: "(string \<times> string) list"
    unfolding settings_diff_names using keys [of xs k ys] by auto
  show ?thesis
  proof (rule set_eqI)
    fix k
    let ?t = "''transaction_isolation''"
    show "k \<in> set (map sd_name (settings_diff_of (collect_target_settings a) (collect_target_settings b))) \<longleftrightarrow>
      k \<in> {k \<in> set PROBED_VARIABLES. show_variable a k \<noteq> show_variable b k} \<union>
        (if isolation a \<noteq> isolation b then {?t} else {})"
      unfolding diff collected(2) using fresh by (cases "k = ?t") simp_all
  qed
qed

section \<open>Paths\<close>

lemma dec_inject: "dec m = dec n \<longleftrightarrow> m = n"
  by (metis digits_nat_dec)

text \<open>The reports of a repeated run never overwrite each other or the headline report.\<close>

lemma split_extension_join:
  assumes "split_extension name = (stem, ext)"
  shows "name = stem @ (case ext of None \<Rightarrow> [] | Some e \<Rightarrow> CHR ''.'' # e)"
proof -
  let ?P = "\<lambda>c. c \<noteq> CHR ''.''"
  let ?e = "takeWhile ?P (rev name)" and ?r = "dropWhile ?P (rev name)"
  have "rev name = ?e @ ?r" by (rule takeWhile_dropWhile_id [symmetric])
  then have cut: "name = rev ?r @ rev ?e" by (metis rev_append rev_rev_ident)
  show ?thesis
  proof (cases "?r = [] \<or> tl ?r = []")
    case True
    then have "stem = name" "ext = None" using assms by (auto simp: split_extension_def Let_def)
    then show ?thesis by simp
  next
    case False
    have "hd ?r = CHR ''.''" using False hd_dropWhile [of ?P "rev name"] by blast
    then have r: "?r = CHR ''.'' # tl ?r" using False by (cases ?r) auto
    have "stem = rev (tl ?r)" "ext = Some (rev ?e)"
      using assms False by (auto simp: split_extension_def Let_def split: if_splits)
    moreover have "name = rev (tl ?r) @ CHR ''.'' # rev ?e"
      using cut r by (metis append.assoc append_Cons append_Nil rev.simps(2))
    ultimately show ?thesis by simp
  qed
qed

theorem pass_paths_distinct:
  assumes "split_path out = Some (dir, name)"
  shows "pass_report_path out m = pass_report_path out n \<longleftrightarrow> m = n"
    and "length (dir @ name) < length (pass_report_path out n)"
proof -
  obtain stem ext where s: "split_extension name = (stem, ext)" by (cases "split_extension name")
  note name = split_extension_join [OF s]
  have path: "pass_report_path out k =
      dir @ stem @ ''.pass'' @ dec k @ (case ext of None \<Rightarrow> [] | Some e \<Rightarrow> CHR ''.'' # e)" for k
    using assms s by (simp add: pass_report_path_def path_extension_def with_extension_def split: option.splits)
  show "pass_report_path out m = pass_report_path out n \<longleftrightarrow> m = n"
    by (simp add: path dec_inject)
  show "length (dir @ name) < length (pass_report_path out n)"
    by (subst name) (simp add: path)
qed

section \<open>Exit codes\<close>

definition written :: "(string \<Rightarrow> bool) \<Rightarrow> (string \<times> string option) list \<Rightarrow> bool" where
  "written w fs \<longleftrightarrow> list_all (\<lambda>(p, t). t \<noteq> None \<and> w p) fs"

lemma write_files_Inl: "write_files w fs res = Inl r \<Longrightarrow> cm_exit r = 1"
  by (induction fs arbitrary: res) (auto simp: write_file_def split: option.splits if_splits)

lemma write_files_ok:
  "written w fs \<Longrightarrow>
    write_files w fs res = Inr (res\<lparr>cm_files := cm_files res @ map (\<lambda>(p, t). (p, the t)) fs\<rparr>)"
  by (induction fs arbitrary: res) (auto simp: written_def write_file_def)

lemma write_files_failed: "\<not> written w fs \<Longrightarrow> \<exists>r. write_files w fs res = Inl r"
  by (induction fs arbitrary: res) (auto simp: written_def write_file_def split: option.splits)

lemma finished_exit:
  "cm_exit (finished code (write_files w fs res)) = (if written w fs then code else 1)"
  using write_files_ok [of w fs res] write_files_failed [of w fs res] write_files_Inl [of w fs res]
  by (auto simp: finished_def)

text \<open>A comparison exits with the gate's code when both reports load and every file asked for is
  written, and with 1 otherwise.\<close>

theorem compare_exit:
  "cm_exit (compare_command load to_json writable version base cand opts n json out) =
    (case (load base, load cand) of
       (Some b, Some c) \<Rightarrow>
        let r = compare_runs version base b cand c opts in
        if written writable ((case json of Some p \<Rightarrow> [(p, to_json r)] | None \<Rightarrow> []) @
             (case out of Some p \<Rightarrow> [(p, Some (render_html r))] | None \<Rightarrow> []))
        then gate_exit r else 1
     | _ \<Rightarrow> 1)"
  by (simp add: compare_command_def finished_exit tool_error_def Let_def split: option.split)

text \<open>A replay exits with 0 exactly when it was not aborted and every report asked for is written,
  the reports of the passes before the headline report.\<close>

theorem replay_exit_zero:
  "cm_exit (replay_command to_json writable run n out) = 0 \<longleftrightarrow>
    (\<exists>oc headline. run = Inr oc \<and> primary oc = Some headline \<and> \<not> outcome_aborted oc \<and>
      written writable (case out of Some path \<Rightarrow> replay_files to_json path oc headline | None \<Rightarrow> []))"
  by (auto simp: replay_command_def finished_exit tool_error_def split: sum.split option.split)

end
