(* ===== verification/Pipeline.thy ===== *)
theory Pipeline
  imports Command_Props Capture_Props
begin

text \<open>
  The whole path: a slow log is captured, the capture file is replayed, and the reports account for
  the statements of the log.
\<close>

section \<open>From ids to fingerprints\<close>

lemma fp_texts_of_table:
  assumes "su_fingerprints su = fingerprint_table r" and "reg_inv r" and "unat i < length (texts r)"
  shows "fp_texts_of su i = Some (texts r ! unat i)"
proof -
  let ?n = "length (texts r)"
  let ?t = "map (\<lambda>k. (word_of_nat k :: u32, texts r ! k)) [0..<?n]"
  have n: "?n \<le> 2 ^ 32" using assms(2) by (simp add: reg_inv_def)
  have t: "map (\<lambda>e. (fe_id e, fe_text e)) (su_fingerprints su) = ?t"
    unfolding assms(1) fingerprint_table_def by (rule nth_equalityI) auto
  have "inj_on (word_of_nat :: nat \<Rightarrow> u32) {0..<?n}"
    by (rule inj_on_inverseI [of _ unat]) (use n in \<open>simp add: unat_reg_index\<close>)
  then have d: "distinct (map fst ?t)" by (simp add: distinct_map comp_def)
  have "(i, texts r ! unat i) \<in> set ?t" using assms(3) by (force simp: image_iff)
  then have "(i, texts r ! unat i) \<in> set (rev ?t)" by (simp only: set_rev)
  moreover have "distinct (map fst (rev ?t))" using d by (simp add: rev_map [symmetric])
  ultimately show ?thesis unfolding fp_texts_of_def t by (rule map_of_is_SomeI [rotated])
qed

text \<open>Among the events of a capture, those with the id of a row are those with its fingerprint.\<close>

lemma id_is_fingerprint:
  assumes "reg_inv r" and "unat i < length (texts r)"
    and "unat (ev_fingerprint_id e) < length (texts r)"
    and "texts r ! unat (ev_fingerprint_id e) = fingerprint (ev_query e)"
  shows "ev_fingerprint_id e = i \<longleftrightarrow> fingerprint (ev_query e) = texts r ! unat i"
proof -
  have "distinct (texts r)" using assms(1) by (simp add: reg_inv_def)
  then show ?thesis
    using assms(2-4) by (metis nth_eq_iff_index_eq word_unat_eq_iff)
qed

lemma filter_reset:
  assumes "map (\<lambda>e. e\<lparr>ev_fingerprint_id := 0\<rparr>) es = map query_event qs"
    and "\<And>e. P (e\<lparr>ev_fingerprint_id := 0\<rparr>) = P e"
  shows "length (filter P es) = length (filter (\<lambda>q. P (query_event q)) qs)"
proof -
  have "length (filter P es) = length (filter P (map (\<lambda>e. e\<lparr>ev_fingerprint_id := 0\<rparr>) es))"
    by (simp add: filter_map comp_def assms(2))
  then show ?thesis by (simp add: assms(1) filter_map comp_def)
qed

section \<open>A replay of a captured log\<close>

lemma run_replay_passes:
  assumes "run_replay env dc ser des disk limit url_ok connect sc path fl opts = Inr oc"
    and "r \<in> set (oc_passes oc)"
  obtains cap ss info j where "spool_replay dc ser des disk path fl opts = Inr (cap, ss)"
    and "run_pass env cap opts info (sc_clock sc j) (sc_order sc j) (sc_flag sc j) ss (sc_moves sc j) = Some r"
proof -
  obtain info cap ss where i: "spool_replay dc ser des disk path fl opts = Inr (cap, ss)"
      "replay_passes env opts info sc cap ss = Some oc"
    using assms(1)
    by (auto simp: run_replay_def map_error_def bind_result_Inr_iff split: option.splits sum.splits)
  from i(2) obtain j where
      "run_pass env cap opts info (sc_clock sc j) (sc_order sc j) (sc_flag sc j) ss (sc_moves sc j) = Some r"
    using run_passes_from [OF _ assms(2)] unfolding replay_passes_def by blast
  with i(1) show thesis by (rule that)
qed

text \<open>C4: From the log to the report: when a slow log is captured and the capture file is replayed,
  with any schedule, answers of the server, warm-up, repetition and abort, every report of a pass
  accounts for each statement of the log once, filtered ones included, and a row of the report
  counts exactly the statements of the log that pass the filters and have the row's fingerprint.\<close>

theorem captured_log_accounted:
  assumes codec: "\<forall>r l. enc r = Some l \<longrightarrow> dc l = Some r \<and> trim l \<noteq> []"
    and run: "run_capture lib enc version now ovr (Some (map Some raws)) (Some []) = Inr (ls, su)"
    and log: "snd (parse_log lib (map text_line raws)) = qs" and few: "length qs \<le> 2 ^ 32"
    and spooled: "\<forall>e. e\<lparr>ev_fingerprint_id := 0\<rparr> \<in> query_event ` set qs \<longrightarrow>
      (\<exists>b. ser e = Some b \<and> des b = Some e \<and> length b < 2 ^ 32) \<and> ev_ts_micros e < 2 ^ 63"
    and disk: "\<forall>n. disk n"
    and replay: "run_replay env dc ser des disk limit url_ok connect sc path (Some (map Some ls)) opts = Inr oc"
    and r: "r \<in> set (oc_passes oc)"
  shows "to_executed (rr_totals r) + to_errors (rr_totals r) + to_skipped (rr_totals r) +
      to_not_run (rr_totals r) + to_filtered (rr_totals r) = length qs \<and>
    (\<forall>row \<in> set (rr_fingerprints r).
      (let n = fr_count row + fr_errors row + fr_skipped row + fr_not_run row in
       n = 0 \<or> n = length (filter (\<lambda>q. filters_match (ro_filters opts) (query_event q) \<and>
         fingerprint (pq_query q) = fr_fingerprint row) qs)))"
proof -
  obtain h es reg where c: "read_capture dc (Some (map Some ls)) = Inr (h, su, es)"
      "map (\<lambda>e. e\<lparr>ev_fingerprint_id := 0\<rparr>) es = map query_event qs"
      "su_fingerprints su = fingerprint_table reg" "reg_inv reg"
      "\<forall>e \<in> set es. unat (ev_fingerprint_id e) < length (texts reg) \<and>
        texts reg ! unat (ev_fingerprint_id e) = fingerprint (ev_query e)"
    using captured_file [OF codec run, unfolded log, OF few] by metis
  have es: "e\<lparr>ev_fingerprint_id := 0\<rparr> \<in> query_event ` set qs" if "e \<in> set es" for e
    using arg_cong [OF c(2), of set] that by auto
  obtain cap ss info j where p: "spool_replay dc ser des disk path (Some (map Some ls)) opts = Inr (cap, ss)"
      "run_pass env cap opts info (sc_clock sc j) (sc_order sc j) (sc_flag sc j) ss (sc_moves sc j) = Some r"
    using run_replay_passes [OF replay r] .
  have mem: "memory_replay dc path (Some (map Some ls)) opts = Inr (cap, ss)"
    using spool_replay_eq_memory [OF c(1), of ser des disk path opts] p(1) es spooled disk by fastforce
  note acc = memory_pass_accounts [OF c(1) mem p(2)]
  have row: "n = 0 \<or> n = length (filter (\<lambda>q. filters_match (ro_filters opts) (query_event q) \<and>
      fingerprint (pq_query q) = fr_fingerprint row) qs)"
    if "row \<in> set (rr_fingerprints r)" "n = fr_count row + fr_errors row + fr_skipped row + fr_not_run row" for row n
  proof (cases "n = 0")
    case False
    have n: "n = length (filter (\<lambda>e. filters_match (ro_filters opts) e \<and> ev_fingerprint_id e = fr_id row) es)"
      using acc that by (simp add: conj_commute)
    with False have "filter (\<lambda>e. filters_match (ro_filters opts) e \<and> ev_fingerprint_id e = fr_id row) es \<noteq> []"
      by auto
    then obtain e where "e \<in> set es" "ev_fingerprint_id e = fr_id row"
      unfolding filter_empty_conv by blast
    then have i: "unat (fr_id row) < length (texts reg)" using c(5) by auto
    have t: "fr_fingerprint row = texts reg ! unat (fr_id row)"
      using pass_row_text [OF mem c(1) p(2) that(1) fp_texts_of_table [OF c(3,4) i]] .
    have "filter (\<lambda>e. filters_match (ro_filters opts) e \<and> ev_fingerprint_id e = fr_id row) es =
        filter (\<lambda>e. filters_match (ro_filters opts) e \<and> fingerprint (ev_query e) = fr_fingerprint row) es"
      by (rule filter_cong [OF refl]) (use id_is_fingerprint [OF c(4) i] c(5) t in auto)
    also have "length \<dots> = length (filter (\<lambda>q. filters_match (ro_filters opts) (query_event q) \<and>
        fingerprint (ev_query (query_event q)) = fr_fingerprint row) qs)"
      by (rule filter_reset [OF c(2)]) (simp add: filters_match_def split: option.split)
    finally show ?thesis unfolding n by (simp add: query_event_def)
  qed simp
  have "length es = length qs" using c(2) by (metis length_map)
  then show ?thesis using acc row by (simp add: Let_def)
qed

text \<open>A log of one statement, captured with the sample codec and replayed by one task.\<close>

definition one_ser :: "event \<Rightarrow> bytes option" where
  "one_ser e = Some (replicate (unat (ev_fingerprint_id e)) 0)"

definition one_des :: "bytes \<Rightarrow> event option" where
  "one_des b = Some ((query_event sample_query)\<lparr>ev_fingerprint_id := word_of_nat (length b)\<rparr>)"

lemma one_codec:
  assumes "e\<lparr>ev_fingerprint_id := 0\<rparr> = query_event sample_query"
  shows "(\<exists>b. one_ser e = Some b \<and> one_des b = Some e \<and> length b < 2 ^ 32) \<and> ev_ts_micros e < 2 ^ 63"
proof -
  have "unat (ev_fingerprint_id e) < 2 ^ 32" using unsigned_less [of "ev_fingerprint_id e"] by simp
  moreover have "one_des (replicate (unat (ev_fingerprint_id e)) 0) = Some e"
    using assms by (cases e) (simp add: one_des_def query_event_def)
  moreover have "ev_ts_micros e = 0"
    using arg_cong [OF assms, of ev_ts_micros] by (simp add: query_event_def sample_query_def)
  ultimately show ?thesis by (simp add: one_ser_def)
qed

definition sample_probe :: probe_conn where
  "sample_probe = \<lparr>pb_version = Inr None, pb_query = (\<lambda>q. Inr None), pb_disconnect = Inr ()\<rparr>"

definition sample_schedule :: schedule where
  "sample_schedule = \<lparr>sc_moves = (\<lambda>k. [Task 0 Go]), sc_clock = (\<lambda>k. sample_clock), sc_order = (\<lambda>k. [0]),
     sc_flag = (\<lambda>k. False)\<rparr>"

definition sample_replay :: "replay_error + replay_outcome" where
  "sample_replay = run_replay sample_env sample_de one_ser one_des (\<lambda>n. True) None (\<lambda>u. True)
    (\<lambda>u d. Inr sample_probe) sample_schedule [] (Some [Some ''a'', Some ''aa'', Some ''aaa'']) (new_options [])"

lemma sample_qs: "snd (parse_log empty_lib (map text_line [''DO 1''])) = [sample_query]"
  by (simp add: sample_text_line sample_parse)

lemma sample_memory:
  obtains cap where "memory_replay sample_de [] (Some [Some ''a'', Some ''aa'', Some ''aaa'']) (new_options []) =
      Inr (cap, [new_session 0 False [Inr (query_event sample_query)]])"
    and "spool_replay sample_de one_ser one_des (\<lambda>n. True) [] (Some [Some ''a'', Some ''aa'', Some ''aaa'']) (new_options []) =
      Inr (cap, [new_session 0 False [Inr (query_event sample_query)]])"
proof -
  let ?fl = "Some [Some ''a'', Some ''aa'', Some ''aaa'']"
  have trims: "trim ''a'' = ''a''" "trim ''aa'' = ''aa''" "trim ''aaa'' = ''aaa''"
    by (simp_all add: trim_id solid_def is_ascii_def byte_def)
  obtain h su where rd: "read_capture sample_de ?fl = Inr (h, su, [query_event sample_query])"
    by (simp add: read_capture_def stream_capture_def stream_record_def trims three_de_def
        sample_records_def FORMAT_VERSION_def collect_def)
  have g: "\<not> should_execute (ev_query (query_event sample_query)) False"
    using sample_gate by (simp add: query_event_def sample_query_def)
  have ms: "filter (filters_match (ro_filters (new_options []))) [query_event sample_query] = [query_event sample_query]"
    by (simp add: new_options_def filters_match_def)
  obtain cap where m: "memory_replay sample_de [] ?fl (new_options []) =
      Inr (cap, [new_session 0 False [Inr (query_event sample_query)]])"
    using g ms by (simp add: memory_replay_def rd Let_def memory_session_def group_sessions_def group_event_def
        new_options_def) (simp add: query_event_def sample_query_def)
  have "\<forall>e \<in> set [query_event sample_query].
      (\<exists>b. one_ser e = Some b \<and> one_des b = Some e \<and> length b < 2 ^ 32) \<and> ev_ts_micros e < 2 ^ 63"
    using one_codec [of "query_event sample_query"] by (simp add: query_event_def)
  then have "spool_replay sample_de one_ser one_des (\<lambda>n. True) [] ?fl (new_options []) =
      memory_replay sample_de [] ?fl (new_options [])"
    by (intro spool_replay_eq_memory [OF rd]) auto
  with m show thesis using that by simp
qed

lemma sample_replay_done:
  obtains oc r where "sample_replay = Inr oc" and "oc_passes oc = [r]"
proof -
  obtain cap where sp: "spool_replay sample_de one_ser one_des (\<lambda>n. True) []
      (Some [Some ''a'', Some ''aa'', Some ''aaa'']) (new_options []) =
      Inr (cap, [new_session 0 False [Inr (query_event sample_query)]])"
    using sample_memory by blast
  obtain info where pr: "probe_target None (\<lambda>u. True) (\<lambda>u d. Inr sample_probe) (new_options []) = Inr info"
    by (simp add: probe_target_def map_error_def sample_probe_def)
  obtain r where r: "run_pass sample_env cap (new_options []) info sample_clock [0] False
      [new_session 0 False [Inr (query_event sample_query)]] [Task 0 Go] = Some r"
    by (simp add: run_pass_def new_pass_def new_shared_def new_session_def session_step_def step_at_def
        session_start_def drain_session_def pass_done_def)
  have o: "ro_repeat (new_options []) = 1" "\<not> ro_warmup (new_options [])" by (simp_all add: new_options_def)
  have "replay_passes sample_env (new_options []) info sample_schedule cap
      [new_session 0 False [Inr (query_event sample_query)]] = Some \<lparr>oc_passes = [r], oc_aggregated = None\<rparr>"
    using r o by (simp add: replay_passes_def run_passes_def sample_schedule_def measured_outcome_def)
  then have "sample_replay = Inr \<lparr>oc_passes = [r], oc_aggregated = None\<rparr>"
    by (simp add: sample_replay_def run_replay_def pr sp map_error_def)
  then show thesis using that by simp
qed

theorem captured_log_accounted_witness:
  "\<exists>oc r. sample_replay = Inr oc \<and> oc_passes oc = [r] \<and>
    to_executed (rr_totals r) + to_errors (rr_totals r) + to_skipped (rr_totals r) +
      to_not_run (rr_totals r) + to_filtered (rr_totals r) = 1"
proof -
  obtain oc r where s: "sample_replay = Inr oc" "oc_passes oc = [r]" by (rule sample_replay_done)
  then show ?thesis
    using captured_log_accounted [OF sample_codec sample_run sample_qs, of one_ser one_des "\<lambda>n. True"
        sample_env None "\<lambda>u. True" "\<lambda>u d. Inr sample_probe" sample_schedule "[]" "new_options []" oc r]
      one_codec
    by (simp add: sample_replay_def)
qed

end
