(* ===== verification/Transport.thy ===== *)
theory Transport
  imports Tcp_Stream_Props Wire_Props
begin

text \<open>
  The reassembler and the assembler together: the packets a peer framed arrive whole, whatever TCP does
  to the segments on the way.
\<close>

text \<open>The reassembler never delivers an empty chunk.\<close>

lemma drain_chunks: "drain m pb nx = (m', pb', n, out) \<Longrightarrow> chunks_ok out"
proof (induction m pb nx arbitrary: m' pb' n out rule: drain.induct)
  case (2 r ts data m pb nx)
  let ?e = "(r + length data) mod 2 ^ 64"
  show ?case
  proof (cases "nx < r \<or> ?e \<le> nx")
    case True
    then show ?thesis using 2 by (auto simp: Let_def chunks_ok_def split: if_splits)
  next
    case False
    obtain m1 pb1 n1 o1 where d: "drain m (pb - length data) ?e = (m1, pb1, n1, o1)" by (metis prod_cases4)
    have "?e \<le> r + length data" by simp
    with False have "drop (nx - r) data \<noteq> []" by auto
    moreover have "chunks_ok o1" using 2(2) [OF _ refl refl _ d] False by simp
    ultimately show ?thesis using "2.prems" False d by (auto simp: Let_def chunks_ok_def)
  qed
qed (simp add: chunks_ok_def)

lemma stream_data_chunks: "stream_data ts seq body s = (s', out) \<Longrightarrow> chunks_ok out"
proof -
  assume d: "stream_data ts seq body s = (s', out)"
  show ?thesis
  proof (cases "out = []")
    case False
    define s1 where "s1 = (if ss_started s then s else s\<lparr>ss_isn := seq, ss_started := True\<rparr>)"
    let ?r = "rel s1 seq" and ?next = "ss_next_rel s1"
    let ?e = "(?r + length body) mod 2 ^ 64"
    have c: "\<not> ?e \<le> ?next" "?r \<le> ?next"
      using d False unfolding stream_data_def s1_def [symmetric] Let_def by (auto split: if_splits)
    obtain m pb n o1 where r: "drain (ss_pending s1) (ss_pending_bytes s1) ?e = (m, pb, n, o1)" by (metis prod_cases4)
    have o: "out = (ts, drop (?next - ?r) body) # o1"
      using d False c r unfolding stream_data_def s1_def [symmetric] Let_def by (auto split: if_splits)
    have "?e \<le> ?r + length body" by simp
    with c have "drop (?next - ?r) body \<noteq> []" by auto
    with drain_chunks [OF r] show ?thesis by (simp add: o chunks_ok_def)
  qed (simp add: chunks_ok_def)
qed

lemma receive_chunks: "receive isn segs s = (s', out) \<Longrightarrow> chunks_ok out"
proof (induction isn segs s arbitrary: s' out rule: receive.induct)
  case (2 isn ts p body segs s)
  obtain s1 o1 where d: "stream_data ts (isn + word_of_nat p) body s = (s1, o1)" by fastforce
  obtain s2 o2 where r: "receive isn segs s1 = (s2, o2)" by fastforce
  have "chunks_ok o2" using "2.IH" [OF d [symmetric] r] .
  with stream_data_chunks [OF d] "2.prems" d r show ?case by (force simp: chunks_ok_def)
qed (simp add: chunks_ok_def)

lemma sent_packets_parts:
  "map (\<lambda>p. (first_seq p, last_seq p, payload p)) (sent_packets T off ps) = map (\<lambda>(q, p). (q, last_frame_seq q p, p)) ps"
  by (induction T off ps rule: sent_packets.induct) auto

text \<open>C19: Packets survive the network: when a peer frames payloads of up to 64 MiB, TCP cuts the frames
  into segments anywhere, and the segments are captured in any order, each at least once, reassembling
  and assembling them gives the payloads back, in order, with their sequence ids, and nothing is left
  over, as long as the out-of-order buffer does not overflow.\<close>

theorem packets_transported:
  assumes "pieces_ok bs" and "concat bs = encode_all ps" and "fits ps"
    and "\<forall>x \<in> set is. snd x < length bs" and "snd ` set is = {..<length bs}"
    and "receive (syn + 1) (arrivals bs is) (on_syn syn new_stream) = (s, out)" and "\<not> ss_overflow s"
  shows "map (\<lambda>p. (first_seq p, last_seq p, payload p)) (snd (feed_all new_assembler out)) =
      map (\<lambda>(q, p). (q, last_frame_seq q p, p)) ps \<and>
    asm_buf (fst (feed_all new_assembler out)) = [] \<and> \<not> asm_broken (fst (feed_all new_assembler out))"
proof -
  have "delivered out = concat bs"
    using stream_delivered [OF assms(1,4,5), of syn] assms(6,7) by simp
  then have "stream_of out = encode_all ps" using assms(2) by (simp add: delivered_def stream_of_def)
  from assembler_roundtrip [OF assms(3) receive_chunks [OF assms(6)] this]
  show ?thesis using sent_packets_parts [of "chunk_time out" 0 ps] by simp
qed

text \<open>A COM_PING whose frame is cut in two; the second segment comes first and once more at the end.\<close>

theorem packets_transported_witness:
  "\<exists>s out. receive 0 (arrivals [[1, 0], [0, 0, 14]] [(5, 1), (6, 0), (7, 1)]) (on_syn (- 1) new_stream) = (s, out) \<and>
    map (\<lambda>p. (first_seq p, last_seq p, payload p)) (snd (feed_all new_assembler out)) = [(0, 0, [14])]"
proof -
  let ?run = "receive (- 1 + 1) (arrivals [[1, 0], [0, 0, 14]] [(5, 1), (6, 0), (7, 1)]) (on_syn (- 1) new_stream)"
  obtain s out where r: "?run = (s, out)" by fastforce
  have "\<not> ss_overflow (fst ?run)"
    by (simp add: on_syn_def new_stream_def stream_data_def rel_start Let_def MAX_PENDING_BYTES_def
        arrivals_def cut_def)
  then have o: "\<not> ss_overflow s" using r by simp
  have e: "concat [[1, 0], [0, 0, 14]] = encode_all [(0, [14])]"
    by (simp add: encode_all_def encode.simps FULL_def frame_def numeral_3_eq_3)
  have "pieces_ok [[1, 0], [0, 0, 14]]" "fits [(0, [14])]"
    by (simp_all add: pieces_ok_def fits_def MAX_LOGICAL_PACKET_def)
  moreover have "\<forall>x \<in> set [(5 :: int, 1), (6, 0), (7, 1)]. snd x < length [[1, 0], [0, 0, 14 :: u8]]"
    "snd ` set [(5 :: int, 1), (6, 0), (7, 1)] = {..<length [[1, 0], [0, 0, 14 :: u8]]}"
    by auto
  ultimately have "map (\<lambda>p. (first_seq p, last_seq p, payload p)) (snd (feed_all new_assembler out)) =
      map (\<lambda>(q, p). (q, last_frame_seq q p, p)) [(0, [14])]"
    using packets_transported [OF _ e _ _ _ r o] by blast
  moreover have "last_frame_seq 0 [14] = 0" by (simp add: last_frame_seq.simps FULL_def)
  moreover have "receive 0 (arrivals [[1, 0], [0, 0, 14]] [(5, 1), (6, 0), (7, 1)]) (on_syn (- 1) new_stream) = (s, out)"
    using r by simp
  ultimately show ?thesis by (intro exI [of _ s] exI [of _ out]) (simp only: list.map prod.case)
qed

end
