(* ===== verification/Messages.thy ===== *)
theory Messages
  imports Conn_Props Wire_Props
begin

text \<open>
  From chunks to packets inside a running connection: an assembler that has read whole messages reads
  the next one whole, however TCP cuts it; the state machine neither reads nor changes the assemblers,
  so a message in chunks does what its packets do.
\<close>

section \<open>Messages\<close>

text \<open>An assembler that has read whole messages only.\<close>

definition caught_up :: "assembler \<Rightarrow> bool" where
  "caught_up a \<longleftrightarrow>
    (\<exists>cs ps. chunks_ok cs \<and> fits ps \<and> stream_of cs = encode_all ps \<and> a = fst (feed_all new_assembler cs))"

lemma caught_up_new: "caught_up new_assembler"
  unfolding caught_up_def
  by (intro exI [of _ "[]"]) (simp add: chunks_ok_def fits_def stream_of_def encode_all_def)

lemma feed_all_append:
  "feed_all a (cs @ ds) =
    (case feed_all a cs of (a1, out1) \<Rightarrow> case feed_all a1 ds of (a2, out2) \<Rightarrow> (a2, out1 @ out2))"
  by (induction a cs rule: feed_all.induct) (auto split: prod.splits)

lemma stream_of_append [simp]: "stream_of (cs @ ds) = stream_of cs @ stream_of ds"
  by (simp add: stream_of_def)

lemma encode_all_append [simp]: "encode_all (ps @ qs) = encode_all ps @ encode_all qs"
  by (simp add: encode_all_def)

lemma encode_all_simps [simp]:
  "encode_all [] = []" "encode_all ((s, p) # ps) = encode s p @ encode_all ps"
  by (simp_all add: encode_all_def)

lemma sent_packets_append:
  "sent_packets T off (ps @ qs) = sent_packets T off ps @ sent_packets T (off + length (encode_all ps)) qs"
  by (induction T off ps rule: sent_packets.induct) (simp_all add: add.assoc)

lemma sent_packets_shift: "sent_packets T (k + off) ps = sent_packets (\<lambda>o1. T (k + o1)) off ps"
  by (induction ps arbitrary: off) (auto simp: add.assoc)

lemma chunk_time_later: "chunk_time (cs @ ds) (length (stream_of cs) + o1) = chunk_time ds o1"
  by (induction cs) (auto simp: stream_of_def)

lemma chunk_time_earlier: "o1 < length (stream_of cs) \<Longrightarrow> chunk_time (cs @ ds) o1 = chunk_time cs o1"
  by (induction cs arbitrary: o1) (auto simp: stream_of_def)

lemma caught_up_message:
  assumes "caught_up a" and "chunks_ok ds" and "fits qs" and "stream_of ds = encode_all qs"
  shows "snd (feed_all a ds) = sent_packets (chunk_time ds) 0 qs"
    and "caught_up (fst (feed_all a ds))"
proof -
  obtain cs ps where h: "chunks_ok cs" "fits ps" "stream_of cs = encode_all ps" "a = fst (feed_all new_assembler cs)"
    using assms(1) unfolding caught_up_def by blast
  have all: "chunks_ok (cs @ ds)" "fits (ps @ qs)" "stream_of (cs @ ds) = encode_all (ps @ qs)"
    using h assms by (auto simp: chunks_ok_def fits_def)
  have cut: "feed_all new_assembler (cs @ ds) =
      (fst (feed_all a ds), snd (feed_all new_assembler cs) @ snd (feed_all a ds))"
    by (simp add: feed_all_append h(4) split: prod.splits)
  have "snd (feed_all new_assembler (cs @ ds)) = sent_packets (chunk_time (cs @ ds)) 0 (ps @ qs)"
    and old: "snd (feed_all new_assembler cs) = sent_packets (chunk_time cs) 0 ps"
    using assembler_roundtrip [OF all(2,1,3)] assembler_roundtrip [OF h(2,1,3)] by simp_all
  moreover have "sent_packets (chunk_time (cs @ ds)) 0 ps = sent_packets (chunk_time cs) 0 ps"
    by (rule sent_packets_cong) (simp add: chunk_time_earlier h(3))
  moreover have "sent_packets (chunk_time (cs @ ds)) (length (encode_all ps)) qs = sent_packets (chunk_time ds) 0 qs"
    using sent_packets_shift [of "chunk_time (cs @ ds)" "length (encode_all ps)" 0 qs]
    by (simp add: chunk_time_later flip: h(3))
  ultimately show "snd (feed_all a ds) = sent_packets (chunk_time ds) 0 qs"
    using cut by (simp add: sent_packets_append)
  show "caught_up (fst (feed_all a ds))"
    unfolding caught_up_def using all cut by (metis fst_conv)
qed

lemma caught_up_whole: "caught_up a \<Longrightarrow> \<not> asm_broken a"
  unfolding caught_up_def using assembler_roundtrip by blast

lemma feed_broken: "asm_broken a \<Longrightarrow> feed a t d = (a, [])"
  by (simp add: feed_def)

lemma feed_all_broken: "asm_broken a \<Longrightarrow> feed_all a cs = (a, [])"
  by (induction a cs rule: feed_all.induct) (auto simp: feed_broken)

section \<open>The assemblers and the state machine\<close>

definition with_asm :: "assembler \<Rightarrow> assembler \<Rightarrow> conn \<Rightarrow> conn" where
  "with_asm a b c = c\<lparr>cn_client := a, cn_server := b\<rparr>"

text \<open>The state machine neither reads nor changes the assemblers.\<close>

lemma with_asm_login: "on_login pkt (with_asm a b c) = with_asm a b (on_login pkt c)"
  by (simp add: on_login_def login_names_def with_asm_def Let_def split: option.split)

lemma with_asm_queue: "queue_event s t q (with_asm a b c) = with_asm a b (queue_event s t q c)"
  by (simp add: queue_event_def push_pending_def with_asm_def Let_def split: option.split)

lemma with_asm_push: "push_pending s p (with_asm a b c) = with_asm a b (push_pending s p c)"
  by (simp add: push_pending_def with_asm_def)

lemma with_asm_ignored: "count_ignored (with_asm a b c) = with_asm a b (count_ignored c)"
  by (simp add: count_ignored_def with_asm_def)

lemma with_asm_text: "com_query_text (with_asm a b c) p = com_query_text c p"
  by (simp add: com_query_text_def with_asm_def)

lemma with_asm_drop: "drop_long_data k (with_asm a b c) = with_asm a b (drop_long_data k c)"
  by (simp add: drop_long_data_def with_asm_def cong: if_cong)

lemma with_asm_types:
  "execute_types (with_asm a b c) k n m bd r = (case execute_types c k n m bd r of (c', x) \<Rightarrow> (with_asm a b c', x))"
  by (simp add: execute_types_def set_param_types_def with_asm_def split: option.split prod.split)

lemma with_asm_values:
  "execute_values (with_asm a b c) k n m r = (case execute_values c k n m r of (c', x) \<Rightarrow> (with_asm a b c', x))"
  by (simp add: execute_values_def with_asm_types split: option.split prod.split)
    (simp add: with_asm_def)

lemma with_asm_execute:
  "decode_execute (with_asm a b c) p = (case decode_execute c p of (c', x) \<Rightarrow> (with_asm a b c', x))"
proof -
  have s: "cn_stmts (with_asm a b c) = cn_stmts c" "cn_query_attrs (with_asm a b c) = cn_query_attrs c"
    by (simp_all add: with_asm_def)
  show ?thesis
    by (simp add: decode_execute_def s with_asm_values with_asm_drop Let_def split: option.split prod.split)
qed

lemma with_asm_fields:
  "(with_asm a b c)\<lparr>cn_db := d\<rparr> = with_asm a b (c\<lparr>cn_db := d\<rparr>)"
  "(with_asm a b c)\<lparr>cn_stmts := m\<rparr> = with_asm a b (c\<lparr>cn_stmts := m\<rparr>)"
  "(with_asm a b c)\<lparr>cn_stats := st\<rparr> = with_asm a b (c\<lparr>cn_stats := st\<rparr>)"
  "(with_asm a b c)\<lparr>cn_long_data := l\<rparr> = with_asm a b (c\<lparr>cn_long_data := l\<rparr>)"
  "(with_asm a b c)\<lparr>cn_finished := f\<rparr> = with_asm a b (c\<lparr>cn_finished := f\<rparr>)"
  "(with_asm a b c)\<lparr>cn_disposition := p\<rparr> = with_asm a b (c\<lparr>cn_disposition := p\<rparr>)"
  "cn_stmts (with_asm a b c) = cn_stmts c" "cn_stats (with_asm a b c) = cn_stats c"
  "cn_long_data (with_asm a b c) = cn_long_data c" "cn_phase (with_asm a b c) = cn_phase c"
  by (simp_all add: with_asm_def)

lemma with_asm_command: "on_command pkt (with_asm a b c) = with_asm a b (on_command pkt c)"
proof -
  define c1 where "c1 = (if cn_pending c = [] then c\<lparr>cn_server_cont_seq := None\<rparr> else c)"
  have pre: "(if cn_pending (with_asm a b c) = [] then (with_asm a b c)\<lparr>cn_server_cont_seq := None\<rparr>
      else with_asm a b c) = with_asm a b c1"
    by (simp add: c1_def with_asm_def)
  have "com_query s t p (with_asm a b c1) = with_asm a b (com_query s t p c1)" for s t p
    by (simp add: com_query_def with_asm_text with_asm_queue with_asm_push with_asm_ignored split: option.split)
  moreover have "com_init_db s t p (with_asm a b c1) = with_asm a b (com_init_db s t p c1)" for s t p
    by (simp add: com_init_db_def Let_def with_asm_fields with_asm_queue)
  moreover have "com_stmt_execute s t p (with_asm a b c1) = with_asm a b (com_stmt_execute s t p c1)" for s t p
    by (simp add: com_stmt_execute_def with_asm_execute with_asm_fields with_asm_queue with_asm_push
        split: prod.split option.split)
  moreover have "com_send_long_data p (with_asm a b c1) = with_asm a b (com_send_long_data p c1)" for p
    by (simp add: com_send_long_data_def with_asm_fields Let_def)
  moreover have "com_stmt_close p (with_asm a b c1) = with_asm a b (com_stmt_close p c1)" for p
    by (simp add: com_stmt_close_def Let_def with_asm_fields with_asm_drop)
  moreover have "com_stmt_reset s p (with_asm a b c1) = with_asm a b (com_stmt_reset s p c1)" for s p
    by (simp add: com_stmt_reset_def with_asm_push with_asm_drop)
  ultimately show ?thesis
    unfolding on_command_def Let_def pre c1_def [symmetric]
    by (simp add: with_asm_push with_asm_ignored with_asm_fields split: list.split)
qed

lemma with_asm_client: "on_client_packet pkt (with_asm a b c) = with_asm a b (on_client_packet pkt c)"
  by (simp add: on_client_packet_def with_asm_fields with_asm_login with_asm_command split: phase.split)

lemma with_asm_server:
  "on_server_packet pkt (with_asm a b c) = (case on_server_packet pkt c of (c', out) \<Rightarrow> (with_asm a b c', out))"
  by (simp add: on_server_packet_def on_response_def complete_request_def register_stmt_def with_asm_def
      split: phase.split option.split list.split pending.split prod.split)

lemma with_asm_packet:
  "on_packet d pkt (with_asm a b c) = (case on_packet d pkt c of (c', out) \<Rightarrow> (with_asm a b c', out))"
  by (cases d) (simp_all add: on_packet_def with_asm_client with_asm_server)

lemma decoding_with_asm [simp]: "decoding (with_asm a b c) = decoding c"
  by (simp add: decoding_def with_asm_def)

lemma with_asm_packets:
  "on_packets d pkts (with_asm a b c) = (case on_packets d pkts c of (c', out) \<Rightarrow> (with_asm a b c', out))"
proof (induction d pkts c rule: on_packets.induct)
  case (2 d pkt pkts c)
  obtain c1 o1 where "on_packet d pkt c = (c1, o1)" by fastforce
  with 2 show ?case by (simp add: with_asm_packet split: prod.split)
qed simp

lemma packets_keep_asm:
  assumes "on_packets d pkts c = (c', out)"
  shows "cn_client c' = cn_client c" and "cn_server c' = cn_server c"
proof -
  have "with_asm (cn_client c) (cn_server c) c = c" by (simp add: with_asm_def)
  then have "c' = with_asm (cn_client c) (cn_server c) c'"
    using with_asm_packets [of d pkts "cn_client c" "cn_server c" c] assms by simp
  then show "cn_client c' = cn_client c" "cn_server c' = cn_server c"
    by (metis conn.select_convs(2) conn.surjective conn.update_convs(2,3) with_asm_def,
        metis conn.select_convs(3) conn.surjective conn.update_convs(2,3) with_asm_def)
qed

lemma packets_split:
  "on_packets d (ps @ qs) c = (c2, out) \<Longrightarrow> decoding c \<Longrightarrow> decoding c2 \<Longrightarrow>
    \<exists>c1 o1 o2. on_packets d ps c = (c1, o1) \<and> decoding c1 \<and> on_packets d qs c1 = (c2, o2) \<and> out = o1 @ o2"
proof (induction d ps c arbitrary: out rule: on_packets.induct)
  case (2 d pkt pkts c)
  obtain c1 o1 where s: "on_packet d pkt c = (c1, o1)" by fastforce
  have dc: "decoding c1" using "2.prems" s by (auto split: if_splits)
  obtain o2 where r: "on_packets d (pkts @ qs) c1 = (c2, o2)" "out = o1 @ o2"
    using "2.prems"(1) s dc by (auto split: prod.splits)
  from "2.IH" [OF s [symmetric] _ r(1) dc "2.prems"(3)] dc obtain c3 o3 o4 where
    "on_packets d pkts c1 = (c3, o3)" "decoding c3" "on_packets d qs c3 = (c2, o4)" "o2 = o3 @ o4"
    by blast
  then show ?case using s dc r(2) by simp
qed simp

section \<open>A message in chunks\<close>

definition message_data :: "dir \<Rightarrow> chunk list \<Rightarrow> input list" where
  "message_data d cs = map (\<lambda>(t, b). Data d t b) cs"

definition asm_of :: "dir \<Rightarrow> conn \<Rightarrow> assembler" where
  "asm_of d c = (case d of Client \<Rightarrow> cn_client c | Server \<Rightarrow> cn_server c)"

definition set_asm :: "dir \<Rightarrow> assembler \<Rightarrow> conn \<Rightarrow> conn" where
  "set_asm d a c =
    (case d of Client \<Rightarrow> with_asm a (cn_server c) c | Server \<Rightarrow> with_asm (cn_client c) a c)"

lemma asm_of_set_asm [simp]: "asm_of d (set_asm d a c) = a" "set_asm d a (set_asm d b c) = set_asm d a c"
    "decoding (set_asm d a c) = decoding c"
  by (simp_all add: asm_of_def set_asm_def with_asm_def decoding_def split: dir.split)

lemma set_asm_packets:
  "on_packets d pkts c = (c', out) \<Longrightarrow> on_packets d pkts (set_asm e a c) = (set_asm e a c', out)"
  by (cases e) (simp_all add: set_asm_def with_asm_packets packets_keep_asm)

definition unbroken :: "conn \<Rightarrow> bool" where
  "unbroken c \<longleftrightarrow> \<not> asm_broken (cn_client c) \<and> \<not> asm_broken (cn_server c)"

lemma unbroken_set_asm: "unbroken c \<Longrightarrow> \<not> asm_broken a \<Longrightarrow> unbroken (set_asm d a c)"
  by (cases d) (simp_all add: unbroken_def set_asm_def with_asm_def)

lemma on_data_message:
  assumes "decoding c" and "unbroken c" and "feed (asm_of d c) t b = (a, pkts)" and "\<not> asm_broken a"
    and "on_packets d pkts c = (c', out)"
  shows "on_data d t b c = (set_asm d a c', out)"
proof -
  have f: "feed_dir d t b c = (set_asm d a c, pkts)"
    using assms(3) by (cases d) (simp_all add: feed_dir_def asm_of_def set_asm_def with_asm_def)
  show ?thesis
    using assms(1) unbroken_set_asm [OF assms(2,4), of d] set_asm_packets [OF assms(5), of d a]
    by (simp add: on_data_def f unbroken_def)
qed

lemma run_message:
  assumes "decoding c" and "unbroken c" and "feed_all (asm_of d c) cs = (a, pkts)" and "\<not> asm_broken a"
    and "on_packets d pkts c = (c', out)" and "decoding c'"
  shows "run (message_data d cs) c = (set_asm d a c', out)"
  using assms
proof (induction cs arbitrary: c c' pkts out)
  case Nil
  moreover have "set_asm d (asm_of d c) c = c"
    by (cases d) (simp_all add: set_asm_def asm_of_def with_asm_def)
  ultimately show ?case by (auto simp: message_data_def)
next
  case (Cons x cs)
  obtain t b where x: "x = (t, b)" by fastforce
  obtain a1 ps1 where f1: "feed (asm_of d c) t b = (a1, ps1)" by fastforce
  obtain ps2 where f2: "feed_all a1 cs = (a, ps2)" "pkts = ps1 @ ps2"
    using Cons.prems(3) f1 by (auto simp: x split: prod.splits)
  have nb: "\<not> asm_broken a1"
    using f2(1) Cons.prems(4) feed_all_broken [of a1 cs] by auto
  obtain c1 o1 o2 where s: "on_packets d ps1 c = (c1, o1)" "decoding c1" "on_packets d ps2 c1 = (c', o2)" "out = o1 @ o2"
    using packets_split Cons.prems(1,5,6) f2(2) by metis
  have "unbroken c1" using Cons.prems(2) packets_keep_asm [OF s(1)] by (simp add: unbroken_def)
  then have "run (message_data d cs) (set_asm d a1 c1) = (set_asm d a (set_asm d a1 c'), o2)"
    by (intro Cons.IH [OF _ _ _ Cons.prems(4) set_asm_packets [OF s(3)]])
      (use s(2) f2(1) nb Cons.prems(6) unbroken_set_asm in simp_all)
  then show ?case
    using on_data_message [OF Cons.prems(1,2) f1 nb s(1)] s(4) by (simp add: message_data_def x)
qed

definition ready :: "conn \<Rightarrow> bool" where
  "ready c \<longleftrightarrow> decoding c \<and> caught_up (cn_client c) \<and> caught_up (cn_server c)"

lemma ready_set_asm: "ready c \<Longrightarrow> caught_up a \<Longrightarrow> ready (set_asm d a c)"
  by (cases d) (simp_all add: ready_def set_asm_def with_asm_def decoding_def)

text \<open>A message, in whatever chunks, is the packets its sender framed.\<close>

lemma message:
  assumes "ready c" and "chunks_ok cs" and "fits ps" and "stream_of cs = encode_all ps"
    and "on_packets d (sent_packets (chunk_time cs) 0 ps) c = (c', out)" and "decoding c'"
  shows "\<exists>a. run (message_data d cs) c = (set_asm d a c', out) \<and> ready (set_asm d a c')"
proof -
  have up: "caught_up (asm_of d c)" using assms(1) by (cases d) (simp_all add: ready_def asm_of_def)
  obtain a where f: "feed_all (asm_of d c) cs = (a, sent_packets (chunk_time cs) 0 ps)" "caught_up a"
    using caught_up_message [OF up assms(2-4)] by (metis prod.collapse)
  have "run (message_data d cs) c = (set_asm d a c', out)"
    using assms(1) caught_up_whole
    by (intro run_message [OF _ _ f(1) _ assms(5,6)]) (use f(2) in \<open>auto simp: ready_def unbroken_def\<close>)
  moreover have "ready c'"
    using assms(1,6) packets_keep_asm [OF assms(5)] by (simp add: ready_def)
  ultimately show ?thesis using ready_set_asm f(2) by blast
qed

lemma run_append: "run (is @ js) c = (case run is c of (c1, o1) \<Rightarrow> case run js c1 of (c2, o2) \<Rightarrow> (c2, o1 @ o2))"
  by (induction "is" arbitrary: c) (auto split: prod.splits)

end
