(* ===== verification/Conversation.thy ===== *)
theory Conversation
  imports Messages
begin

text \<open>
  A whole connection as its two peers see it: what the client and the server frame, however TCP cuts
  it, comes out of the decoder as the statements the client sent, each with the user, the database,
  the time and the latency it had; prepared statements come out with their values filled in.
\<close>

section \<open>What the peers send\<close>

text \<open>A bound value, its type on the wire, its bytes and its SQL literal.\<close>

datatype param = Null_Param | Int_Param int | Text_Param bytes

definition param_ok :: "param \<Rightarrow> bool" where
  "param_ok v =
    (case v of Null_Param \<Rightarrow> True | Int_Param i \<Rightarrow> - (2 ^ 63) \<le> i \<and> i < 2 ^ 63 | Text_Param b \<Rightarrow> length b < 251)"

definition param_type :: "param \<Rightarrow> u8 \<times> u8" where
  "param_type v = (case v of Null_Param \<Rightarrow> (0x06, 0) | Int_Param i \<Rightarrow> (0x08, 0) | Text_Param b \<Rightarrow> (0xFD, 0))"

definition param_bytes :: "param \<Rightarrow> bytes" where
  "param_bytes v =
    (case v of Null_Param \<Rightarrow> [] | Int_Param i \<Rightarrow> le_bytes 8 (nat (i mod 2 ^ 64))
     | Text_Param b \<Rightarrow> word_of_nat (length b) # b)"

definition param_literal :: "param \<Rightarrow> string" where
  "param_literal v =
    (case v of Null_Param \<Rightarrow> ''NULL'' | Int_Param i \<Rightarrow> dec_int i | Text_Param b \<Rightarrow> bytes_literal b)"

text \<open>The bitmap says which values are NULL.\<close>

definition null_map :: "bytes \<Rightarrow> param list \<Rightarrow> bool" where
  "null_map bitmap vs \<longleftrightarrow>
    length bitmap = bitmap_len (length vs) \<and> (\<forall>i < length vs. null_bit bitmap i \<longleftrightarrow> vs ! i = Null_Param)"

text \<open>The commands that get an answer. A query carries an empty list of attributes when they were
  negotiated; a preparation is told the id and the number of placeholders by its answer.\<close>

datatype command =
    Query bytes | Init_Db bytes | Prepare bytes nat nat | Execute nat bytes "param list" | Other u8 bytes

definition command_payload :: "bool \<Rightarrow> command \<Rightarrow> bytes" where
  "command_payload attrs cmd =
    (case cmd of
       Query q \<Rightarrow> 0x03 # (if attrs then 0 # 1 # q else q)
     | Init_Db d \<Rightarrow> 0x02 # d
     | Prepare q k n \<Rightarrow> 0x16 # q
     | Execute k bitmap vs \<Rightarrow>
         0x17 # le_bytes 4 k @ [0] @ le_bytes 4 1 @
           (if vs = [] then []
            else bitmap @ [1] @ concat (map (\<lambda>v. [fst (param_type v), snd (param_type v)]) vs) @
              concat (map param_bytes vs))
     | Other b body \<Rightarrow> b # body)"

text \<open>The packets of an answer are numbered on from the request.\<close>

fun numbered_from :: "u8 \<Rightarrow> (u8 \<times> bytes) list \<Rightarrow> bool" where
  "numbered_from s [] \<longleftrightarrow> True"
| "numbered_from s ((q, p) # ps) \<longleftrightarrow> q = s \<and> numbered_from (last_frame_seq q p + 1) ps"

text \<open>A request, its answer, and the chunks in which they arrive.\<close>

record exchange =
  ex_command :: command
  ex_request :: "chunk list"
  ex_answer :: "(u8 \<times> bytes) list"
  ex_response :: "chunk list"

definition exchange_data :: "exchange \<Rightarrow> input list" where
  "exchange_data x = message_data Client (ex_request x) @ message_data Server (ex_response x)"

definition framed :: "chunk list \<Rightarrow> (u8 \<times> bytes) list \<Rightarrow> bool" where
  "framed cs ps \<longleftrightarrow> chunks_ok cs \<and> fits ps \<and> stream_of cs = encode_all ps"

text \<open>The statements prepared so far: the text and the number of placeholders.\<close>

type_synonym prepared = "nat \<rightharpoonup> string \<times> nat"

definition command_ok :: "prepared \<Rightarrow> command \<Rightarrow> bytes \<Rightarrow> bool" where
  "command_ok env cmd answer \<longleftrightarrow>
    (case cmd of
       Prepare q k n \<Rightarrow>
         k < 2 ^ 32 \<and> n < 2 ^ 16 \<and>
         (\<exists>cols rest. length cols = 2 \<and> answer = 0 # le_bytes 4 k @ cols @ le_bytes 2 n @ rest)
     | Execute k bitmap vs \<Rightarrow>
         k < 2 ^ 32 \<and> (\<exists>q. env k = Some (q, length vs)) \<and> null_map bitmap vs \<and> list_all param_ok vs
     | Other b body \<Rightarrow> b \<notin> {0x01, 0x02, 0x03, 0x16, 0x17, 0x18, 0x19, 0x1A}
     | _ \<Rightarrow> True)"

definition exchange_ok :: "bool \<Rightarrow> prepared \<Rightarrow> exchange \<Rightarrow> bool" where
  "exchange_ok attrs env x \<longleftrightarrow>
    (let p = command_payload attrs (ex_command x) in
     framed (ex_request x) [(0, p)] \<and> framed (ex_response x) (ex_answer x) \<and> ex_answer x \<noteq> [] \<and>
     numbered_from (last_frame_seq 0 p + 1) (ex_answer x) \<and>
     command_ok env (ex_command x) (snd (hd (ex_answer x))))"

text \<open>The prepared statements and the database after a command, and the statement it stands for.\<close>

definition prepared_after :: "command \<Rightarrow> prepared \<Rightarrow> prepared" where
  "prepared_after cmd env = (case cmd of Prepare q k n \<Rightarrow> env(k \<mapsto> (lossy q, n)) | _ \<Rightarrow> env)"

definition statement_of :: "prepared \<Rightarrow> command \<Rightarrow> string option" where
  "statement_of env cmd =
    (case cmd of
       Query q \<Rightarrow> Some (lossy q)
     | Init_Db d \<Rightarrow> Some (''USE '' @ [BTICK] @ double_backticks (lossy d) @ [BTICK])
     | Execute k bitmap vs \<Rightarrow>
         (case env k of
            Some (q, n) \<Rightarrow> interpolate q (map param_literal vs) n
          | None \<Rightarrow> None)
     | _ \<Rightarrow> None)"

definition db_after :: "prepared \<Rightarrow> command \<Rightarrow> string option \<Rightarrow> string option" where
  "db_after env cmd db =
    (case cmd of
       Init_Db d \<Rightarrow> Some (lossy d)
     | _ \<Rightarrow>
        (case Option.bind (statement_of env cmd) parse_use_target of
           Some d \<Rightarrow> Some d
         | None \<Rightarrow> db))"

definition exchange_event :: "prepared \<Rightarrow> string option \<Rightarrow> string option \<Rightarrow> exchange \<Rightarrow> proto_event list" where
  "exchange_event env user db x =
    (case statement_of env (ex_command x) of
       None \<Rightarrow> []
     | Some q \<Rightarrow>
        [\<lparr>pe_ts = chunk_time (ex_request x) 0, pe_query = q,
          pe_latency = latency_of (chunk_time (ex_response x) 0) (chunk_time (ex_request x) 0),
          pe_response_seen = True, pe_db = db_after env (ex_command x) db, pe_user = user\<rparr>])"

fun exchange_events ::
    "prepared \<Rightarrow> string option \<Rightarrow> string option \<Rightarrow> exchange list \<Rightarrow> proto_event list" where
  "exchange_events env user db [] = []"
| "exchange_events env user db (x # xs) =
    exchange_event env user db x @
    exchange_events (prepared_after (ex_command x) env) user (db_after env (ex_command x) db) xs"

fun exchanges_ok :: "bool \<Rightarrow> prepared \<Rightarrow> exchange list \<Rightarrow> bool" where
  "exchanges_ok attrs env [] \<longleftrightarrow> True"
| "exchanges_ok attrs env (x # xs) \<longleftrightarrow>
    exchange_ok attrs env x \<and> exchanges_ok attrs (prepared_after (ex_command x) env) xs"

section \<open>Bound values\<close>

lemma rd_take_append: "length b = n \<Longrightarrow> rd_take n (b @ r) = Some (b, r)"
  by (auto simp: rd_take_def)

lemma rd_u8_Cons [simp]: "rd_u8 (b # r) = Some (b, r)"
  by (simp add: rd_u8_def rd_take_def)

lemma rd_uint_append: "v < 256 ^ n \<Longrightarrow> rd_uint n (le_bytes n v @ r) = Some (v, r)"
  by (simp add: rd_uint_def rd_take_append)

lemma lenenc_short: "length b < 251 \<Longrightarrow> lenenc_bytes (word_of_nat (length b) # b @ r) = Some (b, r)"
proof -
  assume b: "length b < 251"
  then have u: "unat (word_of_nat (length b) :: u8) = length b" by (simp add: unat_of_nat)
  then have "(word_of_nat (length b) :: u8) \<le> 0xFA" using b by (simp add: word_le_nat_alt)
  then show ?thesis using u by (simp add: lenenc_bytes_def lenenc_int_def rd_take_append)
qed

lemma signed_val_encode:
  assumes "- (2 ^ 63) \<le> i" and "i < 2 ^ 63"
  shows "signed_val 8 (nat (i mod 2 ^ 64)) = i"
proof (cases "0 \<le> i")
  case True
  then have "i mod 2 ^ 64 = i" using assms(2) by (intro mod_pos_pos_trivial) auto
  moreover have "nat i < 2 ^ 63" using assms(2) True by (simp add: nat_less_iff)
  ultimately show ?thesis using True by (simp add: signed_val_def)
next
  case False
  have "(i + 2 ^ 64) mod 2 ^ 64 = i + 2 ^ 64"
    using assms False by (intro mod_pos_pos_trivial) auto
  then have m: "i mod 2 ^ 64 = i + 2 ^ 64" by simp
  have "\<not> nat (i + 2 ^ 64) < 2 ^ 63" using assms by (simp add: nat_less_iff)
  then show ?thesis unfolding m using assms by (simp add: signed_val_def)
qed

lemma param_simps [simp]:
  "param_bytes Null_Param = []" "param_literal Null_Param = ''NULL''"
  by (simp_all add: param_bytes_def param_literal_def)

lemma decode_param:
  assumes "param_ok v" and "v \<noteq> Null_Param"
  shows "decode_binary_value (fst (param_type v)) (snd (param_type v)) (param_bytes v @ r) =
    Some (param_literal v, r)"
proof (cases v)
  case (Int_Param i)
  have "nat (i mod 2 ^ 64) < 256 ^ 8" by (simp add: nat_less_iff)
  from rd_uint_append [OF this] signed_val_encode [of i] assms(1) Int_Param show ?thesis
    by (simp add: param_type_def param_bytes_def param_literal_def param_ok_def decode_binary_value_def int_literal_def)
next
  case (Text_Param b)
  then show ?thesis using assms(1) lenenc_short [of b r]
    by (simp add: param_type_def param_bytes_def param_literal_def param_ok_def decode_binary_value_def)
qed (use assms in simp)

lemma read_params:
  assumes "list_all param_ok vs" and "\<forall>j < length vs. null_bit bitmap (i + j) \<longleftrightarrow> vs ! j = Null_Param"
  shows "read_values Map.empty k bitmap i (map param_type vs) (concat (map param_bytes vs)) =
    Some (map param_literal vs)"
  using assms
proof (induction vs arbitrary: i)
  case (Cons v vs)
  have r: "read_values Map.empty k bitmap (Suc i) (map param_type vs) (concat (map param_bytes vs)) =
      Some (map param_literal vs)"
    using Cons.prems by (intro Cons.IH) auto
  have n: "null_bit bitmap i \<longleftrightarrow> v = Null_Param" using Cons.prems(2) by force
  obtain t f where tf: "param_type v = (t, f)" by fastforce
  show ?case
  proof (cases "v = Null_Param")
    case True
    then show ?thesis using n r tf by simp
  next
    case False
    then show ?thesis using n r tf decode_param [of v] Cons.prems(1) by simp
  qed
qed simp

lemma read_param_types:
  "read_types False (length vs) (concat (map (\<lambda>v. [fst (param_type v), snd (param_type v)]) vs) @ r) =
    Some (map param_type vs, r)"
  by (induction vs) (simp_all add: prod_eq_iff)

section \<open>The request\<close>

text \<open>The decoder between two exchanges.\<close>

definition known :: "conn \<Rightarrow> prepared" where
  "known c = (\<lambda>k. map_option (\<lambda>s. (ps_sql s, ps_num_params s)) (cn_stmts c k))"

definition established ::
    "bool \<Rightarrow> prepared \<Rightarrow> string option \<Rightarrow> string option \<Rightarrow> conn \<Rightarrow> bool" where
  "established attrs env user db c \<longleftrightarrow>
    decoding c \<and> cn_phase c = Established \<and> cn_query_attrs c = attrs \<and> known c = env \<and>
    cn_long_data c = Map.empty \<and> cn_user c = user \<and> cn_db c = db"

definition idle ::
    "bool \<Rightarrow> prepared \<Rightarrow> string option \<Rightarrow> string option \<Rightarrow> conn \<Rightarrow> bool" where
  "idle attrs env user db c \<longleftrightarrow> ready c \<and> established attrs env user db c \<and> cn_pending c = []"

text \<open>After the request the queue holds it, and no answer is under way.\<close>

definition asked ::
    "pending \<Rightarrow> u8 \<Rightarrow> bool \<Rightarrow> prepared \<Rightarrow> string option \<Rightarrow> string option \<Rightarrow> conn \<Rightarrow> bool" where
  "asked p seq attrs env user db c \<longleftrightarrow>
    established attrs env user db c \<and> cn_pending c = [\<lparr>resp_seq = seq, in_pending = p\<rparr>] \<and>
    cn_server_cont_seq c = None"

lemma established_set_asm [simp]: "established attrs env user db (set_asm d a c) = established attrs env user db c"
  by (cases d) (simp_all add: established_def known_def set_asm_def with_asm_def decoding_def)

lemma set_asm_fields [simp]:
  "cn_pending (set_asm d a c) = cn_pending c" "cn_server_cont_seq (set_asm d a c) = cn_server_cont_seq c"
  by (cases d; simp add: set_asm_def with_asm_def)+

lemma decode_execute_sent:
  assumes "known c k = Some (q, length vs)" and "null_map bitmap vs" and "list_all param_ok vs"
    and "k < 2 ^ 32" and "cn_long_data c = Map.empty"
  shows "\<exists>c'. decode_execute c (tl (command_payload attrs (Execute k bitmap vs))) =
      (c', interpolate q (map param_literal vs) (length vs)) \<and>
    known c' = known c \<and> (\<exists>m. c' = c\<lparr>cn_stmts := m\<rparr>)"
proof -
  obtain s where s: "cn_stmts c k = Some s" "ps_sql s = q" "ps_num_params s = length vs"
    using assms(1) by (auto simp: known_def)
  have drop: "drop_long_data k (c\<lparr>cn_stmts := m\<rparr>) = c\<lparr>cn_stmts := m\<rparr>" for m
    using assms(5) by (cases c) (simp add: drop_long_data_def cong: if_cong)
  have flag: "\<not> has_flag (0 :: u8) PARAMETER_COUNT_AVAILABLE" by (simp add: has_flag_def)
  define tail where "tail = (if vs = [] then []
    else bitmap @ [1] @ concat (map (\<lambda>v. [fst (param_type v), snd (param_type v)]) vs) @ concat (map param_bytes vs))"
  have p: "tl (command_payload attrs (Execute k bitmap vs)) = le_bytes 4 k @ 0 # le_bytes 4 1 @ tail"
    by (simp add: command_payload_def tail_def)
  have head: "decode_execute c (le_bytes 4 k @ 0 # le_bytes 4 1 @ tail) =
      (case execute_values c k False (length vs) tail of
         (c', None) \<Rightarrow> (c', None)
       | (c', Some vals) \<Rightarrow> (drop_long_data k c', interpolate q (take (length vs) vals) (length vs)))"
    using rd_uint_append [of k 4 "0 # le_bytes 4 1 @ tail"] assms(4) s flag
    by (simp add: decode_execute_def rd_take_append Let_def)
  show ?thesis
  proof (cases "vs = []")
    case True
    have c: "c\<lparr>cn_stmts := cn_stmts c\<rparr> = c" by simp
    show ?thesis unfolding p head
      using True drop [of "cn_stmts c"] unfolding c
      by (intro exI [of _ c]) (auto simp: execute_values_def intro!: exI [of _ "cn_stmts c"])
  next
    case False
    let ?m = "(cn_stmts c)(k \<mapsto> s\<lparr>ps_param_types := Some (map param_type vs)\<rparr>)"
    have "read_values Map.empty k bitmap 0 (map param_type vs) (concat (map param_bytes vs)) =
        Some (map param_literal vs)"
      using assms(2,3) by (intro read_params) (simp_all add: null_map_def)
    then have "execute_values c k False (length vs) tail = (c\<lparr>cn_stmts := ?m\<rparr>, Some (map param_literal vs))"
      using False assms(2,5) s(1)
      by (simp add: tail_def execute_values_def rd_take_append null_map_def execute_types_def
          read_param_types [unfolded append_Cons append_Nil] set_param_types_def)
    then show ?thesis unfolding p head using drop [of ?m] s
      by (intro exI [of _ "c\<lparr>cn_stmts := ?m\<rparr>"]) (auto simp: known_def)
  qed
qed

lemma undouble_doubled_backticks: "undouble_backticks (double_backticks s) = s"
  unfolding double_backticks_def by (rule undouble_doubled)

lemma split_space_solid:
  "solid c \<Longrightarrow> split_space (c # cs) = map_option (\<lambda>(a, b). (c # a, b)) (split_space cs)"
  using starts_with_space_solid [of c cs] by (simp add: starts_with_space_def)

lemma split_space_space: "split_space (CHR '' '' # s) = Some ([], s)"
  by (simp add: lead_space_def white_space_def)

lemma use_target_quoted:
  "parse_use_target (''USE '' @ [BTICK] @ double_backticks d @ [BTICK]) = (if d = [] then None else Some d)"
proof -
  let ?q = "BTICK # double_backticks d @ [BTICK]"
  have b: "solid BTICK" by (simp add: solid_def is_ascii_def byte_def)
  have q: "trim ?q = ?q" using b by (intro trim_id) simp_all
  have t: "trim (''USE '' @ ?q) = ''USE '' @ ?q"
    using b by (intro trim_id) (simp_all add: solid_def is_ascii_def byte_def)
  have s: "strip_suffix_char (CHR '';'') (''USE '' @ ?q) = None"
    by (simp add: strip_suffix_char_def)
  have u: "strip_suffix_char BTICK (double_backticks d @ [BTICK]) = Some (double_backticks d)"
    by (simp add: strip_suffix_char_def)
  have "split_space (''USE '' @ ?q) = Some (''USE'', ?q)"
    using split_space_solid [of "CHR ''U''"] split_space_solid [of "CHR ''S''"] split_space_solid [of "CHR ''E''"]
    by (simp del: split_space.simps add: split_space_space solid_def is_ascii_def byte_def)
  moreover have "eq_ignore_ascii_case ''USE'' ''use''" by code_simp
  moreover have "strip_prefix [BTICK] ?q = Some (double_backticks d @ [BTICK])"
    by (simp add: strip_prefix_def)
  ultimately show ?thesis
    using q t s u
    by (simp del: split_space.simps add: parse_use_target_def Let_def undouble_doubled_backticks)
qed

text \<open>A request leaves the queue with the command, and the connection with its effects.\<close>

definition pending_of :: "prepared \<Rightarrow> string option \<Rightarrow> string option \<Rightarrow> command \<Rightarrow> int \<Rightarrow> pending" where
  "pending_of env user db cmd ts =
    (case statement_of env cmd of
       Some q \<Rightarrow> Event_pending \<lparr>pe_ts = ts, pe_query = q, pe_latency = Fin 0, pe_response_seen = False,
         pe_db = db_after env cmd db, pe_user = user\<rparr>
     | None \<Rightarrow> (case cmd of Prepare q k n \<Rightarrow> Prepare_pending (lossy q) | _ \<Rightarrow> Silent_pending))"

lemma queue_event_established:
  assumes "established attrs env user db c" and "cn_pending c = []" and "cn_server_cont_seq c = None"
  shows "asked (Event_pending \<lparr>pe_ts = ts, pe_query = q, pe_latency = Fin 0, pe_response_seen = False,
      pe_db = (case parse_use_target q of Some d \<Rightarrow> Some d | None \<Rightarrow> db), pe_user = user\<rparr>) seq attrs env user
    (case parse_use_target q of Some d \<Rightarrow> Some d | None \<Rightarrow> db) (queue_event seq ts q c)"
  using assms
  by (auto simp: asked_def established_def known_def decoding_def queue_event_def push_pending_def Let_def
      split: option.split)

lemma push_established:
  assumes "established attrs env user db c" and "cn_pending c = []" and "cn_server_cont_seq c = None"
  shows "asked p seq attrs env user db (push_pending seq p c)"
  using assms by (simp add: asked_def established_def known_def decoding_def push_pending_def)

lemma established_stats [simp]:
  "established attrs env user db (c\<lparr>cn_stats := s\<rparr>) = established attrs env user db c"
  by (simp add: established_def known_def decoding_def)

lemma query_text_sent: "established attrs env user db c \<Longrightarrow>
    com_query_text c (tl (command_payload attrs (Query q))) = Some q"
  by (simp add: established_def com_query_text_def command_payload_def lenenc_int_def)

lemma request_asked:
  assumes "established attrs env user db c0" and "cn_pending c0 = []" and "command_ok env cmd answer"
    and "payload pkt = command_payload attrs cmd"
  shows "asked (pending_of env user db cmd (pkt_ts pkt)) (last_seq pkt + 1) attrs env user (db_after env cmd db)
    (on_command pkt c0)"
proof -
  let ?s = "last_seq pkt + 1" and ?t = "pkt_ts pkt"
  define c where "c = c0\<lparr>cn_server_cont_seq := None\<rparr>"
  have e: "established attrs env user db c" "cn_pending c = []" "cn_server_cont_seq c = None"
    using assms(1,2) by (simp_all add: c_def established_def known_def decoding_def)
  have silent: "asked Silent_pending ?s attrs env user db (push_pending ?s Silent_pending (c'\<lparr>cn_stats := st\<rparr>))"
    if "established attrs env user db c'" "cn_pending c' = []" "cn_server_cont_seq c' = None" for c' st
    by (rule push_established) (use that in simp_all)
  show ?thesis
  proof (cases cmd)
    case (Query q)
    have "on_command pkt c0 = queue_event ?s ?t (lossy q) c"
      using assms(2,4) query_text_sent [OF e(1), of q] Query
      by (simp add: on_command_def c_def [symmetric] Let_def command_payload_def com_query_def)
    then show ?thesis using queue_event_established [OF e, of ?t "lossy q" ?s] Query
      by (simp add: pending_of_def statement_of_def db_after_def)
  next
    case (Init_Db d)
    let ?q = "''USE '' @ [BTICK] @ double_backticks (lossy d) @ [BTICK]"
    have "on_command pkt c0 = queue_event ?s ?t ?q (c\<lparr>cn_db := Some (lossy d)\<rparr>)"
      using assms(2,4) Init_Db
      by (simp add: on_command_def c_def [symmetric] Let_def command_payload_def com_init_db_def)
    moreover have "established attrs env user (Some (lossy d)) (c\<lparr>cn_db := Some (lossy d)\<rparr>)"
      using e(1) by (simp add: established_def known_def decoding_def)
    note queue_event_established [OF this, of ?t ?q ?s]
    moreover have "(case parse_use_target ?q of Some d' \<Rightarrow> Some d' | None \<Rightarrow> Some (lossy d)) = Some (lossy d)"
      unfolding use_target_quoted by simp
    ultimately show ?thesis using e Init_Db
      by (simp add: pending_of_def statement_of_def db_after_def)
  next
    case (Prepare q k n)
    have "on_command pkt c0 = push_pending ?s (Prepare_pending (lossy q)) c"
      using assms(2,4) Prepare by (simp add: on_command_def c_def [symmetric] Let_def command_payload_def)
    then show ?thesis using push_established [OF e] Prepare
      by (simp add: pending_of_def statement_of_def db_after_def)
  next
    case (Other b body)
    have "on_command pkt c0 = push_pending ?s Silent_pending (count_ignored c)"
      using assms(2,3,4) Other
      by (simp add: on_command_def c_def [symmetric] Let_def command_payload_def command_ok_def)
    then show ?thesis using silent [OF e] Other
      by (simp add: pending_of_def statement_of_def db_after_def count_ignored_def)
  next
    case (Execute k bitmap vs)
    obtain q where env: "env k = Some (q, length vs)" and ok: "null_map bitmap vs" "list_all param_ok vs" "k < 2 ^ 32"
      using assms(3) Execute by (auto simp: command_ok_def)
    have kn: "known c k = Some (q, length vs)" "cn_long_data c = Map.empty"
      using e(1) env by (simp_all add: established_def)
    obtain c' m where d: "decode_execute c (tl (payload pkt)) = (c', interpolate q (map param_literal vs) (length vs))"
        "known c' = known c" "c' = c\<lparr>cn_stmts := m\<rparr>"
      using decode_execute_sent [OF kn(1) ok kn(2), of attrs] assms(4) Execute by auto
    have e': "established attrs env user db c'" "cn_pending c' = []" "cn_server_cont_seq c' = None"
      using e d(2,3) by (simp_all add: established_def decoding_def)
    have cmd: "on_command pkt c0 = com_stmt_execute ?s ?t (tl (payload pkt)) c"
      using assms(2,4) Execute by (simp add: on_command_def c_def [symmetric] Let_def command_payload_def)
    show ?thesis
    proof (cases "interpolate q (map param_literal vs) (length vs)")
      case None
      then show ?thesis unfolding cmd using silent [OF e'] d(1) Execute env
        by (simp add: com_stmt_execute_def pending_of_def statement_of_def db_after_def)
    next
      case (Some sql)
      have "established attrs env user db (c'\<lparr>cn_stats := st\<rparr>)" for st using e'(1) by simp
      note queue_event_established [OF this]
      with Some show ?thesis unfolding cmd using d(1) Execute env e'
        by (simp add: com_stmt_execute_def pending_of_def statement_of_def db_after_def)
    qed
  qed
qed

section \<open>The answer\<close>

lemma numbered_rest:
  assumes "numbered_from s ps" and "cn_server_cont_seq c = Some s" and "cn_phase c = Established" and "decoding c"
  shows "\<exists>s'. on_packets Server (sent_packets T off ps) c = (c\<lparr>cn_server_cont_seq := s'\<rparr>, [])"
  using assms
proof (induction T off ps arbitrary: s c rule: sent_packets.induct)
  case (1 T off)
  then show ?case by (intro exI [of _ "Some s"]) (cases c, simp)
next
  case (2 T off q p ps)
  let ?c = "c\<lparr>cn_server_cont_seq := Some (last_frame_seq q p + 1)\<rparr>"
  have d: "decoding ?c" using "2.prems"(4) by (simp add: decoding_def)
  then obtain s' where "on_packets Server (sent_packets T (off + length (encode q p)) ps) ?c =
      (?c\<lparr>cn_server_cont_seq := s'\<rparr>, [])"
    using "2.IH" [of "last_frame_seq q p + 1" ?c] "2.prems" by auto
  moreover have "on_packet Server \<lparr>first_seq = q, last_seq = last_frame_seq q p, pkt_ts = T off, payload = p\<rparr> c =
      (?c, [])"
    using "2.prems" by (simp add: on_packet_def on_server_packet_def on_response_def)
  ultimately show ?case using d by auto
qed

definition answer_event ::
    "prepared \<Rightarrow> string option \<Rightarrow> string option \<Rightarrow> command \<Rightarrow> int \<Rightarrow> int \<Rightarrow> proto_event list" where
  "answer_event env user db cmd ts resp =
    (case statement_of env cmd of
       None \<Rightarrow> []
     | Some q \<Rightarrow> [\<lparr>pe_ts = ts, pe_query = q, pe_latency = latency_of resp ts, pe_response_seen = True,
         pe_db = db_after env cmd db, pe_user = user\<rparr>])"

lemma exchange_event_eq: "exchange_event env user db x =
    answer_event env user db (ex_command x) (chunk_time (ex_request x) 0) (chunk_time (ex_response x) 0)"
  by (simp add: exchange_event_def answer_event_def)

lemma prepared_answer:
  assumes "command_ok env (Prepare q k n) p" and "known c = env"
  shows "known (register_stmt (lossy q) p c) = prepared_after (Prepare q k n) env"
proof -
  obtain cols rest where p: "p = 0 # le_bytes 4 k @ cols @ le_bytes 2 n @ rest" "length cols = 2"
      and b: "k < 256 ^ 4" "n < 256 ^ 2"
    using assms(1) by (auto simp: command_ok_def)
  then have "9 \<le> length p" "p ! 0 = 0" "le_val (take 4 (drop 1 p)) = k" "le_val (take 2 (drop 7 p)) = n"
    by simp_all
  then show ?thesis using assms(2) by (auto simp: register_stmt_def known_def prepared_after_def)
qed

lemma answer_packets:
  assumes "asked (pending_of env user db cmd ts) seq attrs env user db' c" and "numbered_from seq ps" and "ps \<noteq> []"
    and "command_ok env cmd (snd (hd ps))"
  shows "\<exists>c'. on_packets Server (sent_packets T 0 ps) c = (c', answer_event env user db cmd ts (T 0)) \<and>
    established attrs (prepared_after cmd env) user db' c' \<and> cn_pending c' = []"
proof -
  obtain b qs where ps: "ps = (seq, b) # qs" and num: "numbered_from (last_frame_seq seq b + 1) qs"
    using assms(2,3) by (cases ps) auto
  let ?pkt = "\<lparr>first_seq = seq, last_seq = last_frame_seq seq b, pkt_ts = T 0, payload = b\<rparr>"
  let ?c = "c\<lparr>cn_server_cont_seq := Some (last_frame_seq seq b + 1), cn_pending := []\<rparr>"
  have e: "established attrs env user db' ?c"
    using assms(1) by (simp add: asked_def established_def known_def decoding_def)
  have first: "on_packet Server ?pkt c = complete_request ?pkt (pending_of env user db cmd ts) ?c"
    using assms(1) by (simp add: asked_def established_def on_packet_def on_server_packet_def on_response_def)
  have "\<exists>c1. on_packet Server ?pkt c = (c1, answer_event env user db cmd ts (T 0)) \<and>
      established attrs (prepared_after cmd env) user db' c1 \<and> cn_pending c1 = [] \<and>
      cn_server_cont_seq c1 = Some (last_frame_seq seq b + 1)"
  proof (cases "statement_of env cmd")
    case (Some q)
    then have "prepared_after cmd env = env" by (auto simp: statement_of_def prepared_after_def split: command.splits)
    then show ?thesis using e Some
      by (simp add: first pending_of_def complete_request_def answer_event_def)
  next
    case None
    show ?thesis
    proof (cases "\<exists>q k n. cmd = Prepare q k n")
      case True
      then obtain q k n where q: "cmd = Prepare q k n" by blast
      let ?c1 = "register_stmt (lossy q) b ?c"
      have "known ?c1 = prepared_after cmd env"
        using prepared_answer [of env q k n b ?c] assms(4) e q by (simp add: ps established_def)
      moreover have "?c1 = ?c\<lparr>cn_stmts := cn_stmts ?c1\<rparr>" by (simp add: register_stmt_def)
      ultimately have "established attrs (prepared_after cmd env) user db' ?c1" "cn_pending ?c1 = []"
        "cn_server_cont_seq ?c1 = Some (last_frame_seq seq b + 1)"
        using e by (simp_all add: established_def register_stmt_def decoding_def)
      then show ?thesis using q None
        by (simp add: first pending_of_def complete_request_def answer_event_def)
    next
      case False
      then have "pending_of env user db cmd ts = Silent_pending" "prepared_after cmd env = env"
        using None by (auto simp: pending_of_def prepared_after_def split: command.splits)
      then show ?thesis using e None by (simp add: first complete_request_def answer_event_def)
    qed
  qed
  then obtain c1 where c1: "on_packet Server ?pkt c = (c1, answer_event env user db cmd ts (T 0))"
      "established attrs (prepared_after cmd env) user db' c1" "cn_pending c1 = []"
      "cn_server_cont_seq c1 = Some (last_frame_seq seq b + 1)" by blast
  then have d: "decoding c1" "cn_phase c1 = Established" by (simp_all add: established_def)
  obtain s where "on_packets Server (sent_packets T (length (encode seq b)) qs) c1 =
      (c1\<lparr>cn_server_cont_seq := s\<rparr>, [])"
    using numbered_rest [OF num c1(4) d(2,1)] by blast
  then have "on_packets Server (sent_packets T 0 ps) c =
      (c1\<lparr>cn_server_cont_seq := s\<rparr>, answer_event env user db cmd ts (T 0))"
    using c1(1) d(1) by (simp add: ps)
  then show ?thesis using c1(2,3) by (auto simp: established_def known_def decoding_def)
qed

section \<open>Exchanges\<close>

lemma ready_decoding: "established attrs env user db c \<Longrightarrow> decoding c"
  by (simp add: established_def)

lemma exchange_run:
  assumes "idle attrs env user db c" and "exchange_ok attrs env x"
  shows "\<exists>c'. run (exchange_data x) c = (c', exchange_event env user db x) \<and>
    idle attrs (prepared_after (ex_command x) env) user (db_after env (ex_command x) db) c'"
proof -
  let ?p = "command_payload attrs (ex_command x)"
  let ?pkt = "\<lparr>first_seq = 0, last_seq = last_frame_seq 0 ?p, pkt_ts = chunk_time (ex_request x) 0, payload = ?p\<rparr>"
  let ?pend = "pending_of env user db (ex_command x) (chunk_time (ex_request x) 0)"
  let ?db = "db_after env (ex_command x) db"
  have ok: "framed (ex_request x) [(0, ?p)]" "framed (ex_response x) (ex_answer x)" "ex_answer x \<noteq> []"
      "numbered_from (last_frame_seq 0 ?p + 1) (ex_answer x)" "command_ok env (ex_command x) (snd (hd (ex_answer x)))"
    using assms(2) by (simp_all add: exchange_ok_def Let_def)
  have c: "ready c" "established attrs env user db c" "cn_pending c = []" "cn_phase c = Established"
    using assms(1) by (simp_all add: idle_def established_def)
  have a: "asked ?pend (last_frame_seq 0 ?p + 1) attrs env user ?db (on_command ?pkt c)"
    using request_asked [OF c(2,3) ok(5), of ?pkt] by simp
  have "on_packets Client (sent_packets (chunk_time (ex_request x)) 0 [(0, ?p)]) c = (on_command ?pkt c, [])"
    using c(4) a by (simp add: on_packet_def on_client_packet_def asked_def established_def)
  from message [OF c(1) _ _ _ this] ok(1) a obtain a1 where
    m1: "run (message_data Client (ex_request x)) c = (set_asm Client a1 (on_command ?pkt c), [])"
      "ready (set_asm Client a1 (on_command ?pkt c))"
    by (auto simp: framed_def asked_def established_def)
  let ?c1 = "set_asm Client a1 (on_command ?pkt c)"
  have a1: "asked ?pend (last_frame_seq 0 ?p + 1) attrs env user ?db ?c1" using a by (simp add: asked_def)
  from answer_packets [OF a1 ok(4,3,5)] obtain c2 where
    p2: "on_packets Server (sent_packets (chunk_time (ex_response x)) 0 (ex_answer x)) ?c1 =
        (c2, exchange_event env user db x)"
      "established attrs (prepared_after (ex_command x) env) user ?db c2" "cn_pending c2 = []"
    unfolding exchange_event_eq by blast
  from message [OF m1(2) _ _ _ p2(1)] ok(2) ready_decoding [OF p2(2)] obtain a2 where
    m2: "run (message_data Server (ex_response x)) ?c1 = (set_asm Server a2 c2, exchange_event env user db x)"
      "ready (set_asm Server a2 c2)"
    by (auto simp: framed_def)
  have "idle attrs (prepared_after (ex_command x) env) user ?db (set_asm Server a2 c2)"
    using p2(2,3) m2(2) by (simp add: idle_def)
  then show ?thesis by (simp add: exchange_data_def run_append m1(1) m2(1))
qed

lemma exchanges_run:
  "idle attrs env user db c \<Longrightarrow> exchanges_ok attrs env xs \<Longrightarrow>
    \<exists>c'. run (concat (map exchange_data xs)) c = (c', exchange_events env user db xs) \<and>
      decoding c' \<and> cn_pending c' = []"
proof (induction xs arbitrary: env db c)
  case Nil
  then show ?case by (simp add: idle_def established_def)
next
  case (Cons x xs)
  obtain c1 where r: "run (exchange_data x) c = (c1, exchange_event env user db x)"
      "idle attrs (prepared_after (ex_command x) env) user (db_after env (ex_command x) db) c1"
    using exchange_run [OF Cons.prems(1)] Cons.prems(2) by auto
  from Cons.IH [OF r(2)] Cons.prems(2) r(1) show ?case by (auto simp: run_append)
qed

section \<open>The handshake\<close>

record greeting =
  gr_version :: bytes
  gr_thread :: nat
  gr_salt :: bytes
  gr_caps :: u32
  gr_status :: bytes
  gr_rest :: bytes

definition greeting_bytes :: "greeting \<Rightarrow> bytes" where
  "greeting_bytes g =
    10 # gr_version g @ 0 # le_bytes 4 (gr_thread g) @ gr_salt g @
      le_bytes 2 (unat (gr_caps g) mod 2 ^ 16) @ gr_status g @ le_bytes 2 (unat (gr_caps g) div 2 ^ 16) @ gr_rest g"

definition greeting_ok :: "greeting \<Rightarrow> bool" where
  "greeting_ok g \<longleftrightarrow> 0 \<notin> set (gr_version g) \<and> gr_thread g < 2 ^ 32 \<and> length (gr_salt g) = 9 \<and> length (gr_status g) = 3"

record login =
  lo_caps :: u32
  lo_fill :: bytes
  lo_user :: bytes
  lo_auth :: bytes
  lo_db :: bytes
  lo_rest :: bytes

definition login_bytes :: "login \<Rightarrow> bytes" where
  "login_bytes l =
    le_bytes 4 (unat (lo_caps l)) @ lo_fill l @ lo_user l @ 0 #
      (if has_flag (lo_caps l) CLIENT_PLUGIN_AUTH_LENENC_CLIENT_DATA \<or> has_flag (lo_caps l) CLIENT_SECURE_CONNECTION
       then word_of_nat (length (lo_auth l)) # lo_auth l else lo_auth l @ [0]) @
      (if has_flag (lo_caps l) CLIENT_CONNECT_WITH_DB then lo_db l @ [0] else []) @ lo_rest l"

text \<open>The login is of the 4.1 protocol, without TLS and without compression.\<close>

definition login_ok :: "login \<Rightarrow> bool" where
  "login_ok l \<longleftrightarrow>
    length (lo_fill l) = 28 \<and> 0 \<notin> set (lo_user l) \<and> 0 \<notin> set (lo_auth l) \<and> 0 \<notin> set (lo_db l) \<and>
    length (lo_auth l) < 251 \<and> has_flag (lo_caps l) CLIENT_PROTOCOL_41 \<and> \<not> has_flag (lo_caps l) CLIENT_SSL \<and>
    \<not> has_flag (lo_caps l) (or CLIENT_COMPRESS CLIENT_ZSTD_COMPRESSION_ALGORITHM)"

definition login_db :: "login \<Rightarrow> string option" where
  "login_db l = (if has_flag (lo_caps l) CLIENT_CONNECT_WITH_DB \<and> lo_db l \<noteq> [] then Some (lossy (lo_db l)) else None)"

definition attributes_negotiated :: "greeting \<Rightarrow> login \<Rightarrow> bool" where
  "attributes_negotiated g l \<longleftrightarrow> has_flag (and (lo_caps l) (gr_caps g)) CLIENT_QUERY_ATTRIBUTES"

lemma rd_cstring_append: "0 \<notin> set b \<Longrightarrow> rd_cstring (b @ 0 # r) = Some (b, r)"
proof -
  assume "0 \<notin> set b"
  then have "\<forall>x \<in> set b. x \<noteq> 0" by metis
  then show ?thesis by (simp add: rd_cstring_def)
qed

lemma join_halves:
  "or (word_of_nat (unat w mod 2 ^ 16)) (push_bit 16 (word_of_nat (unat w div 2 ^ 16))) = (w :: u32)"
proof -
  have "unat w mod 2 ^ 16 = unat (take_bit 16 w)"
    unfolding unsigned_take_bit_eq by (simp only: take_bit_eq_mod)
  then have low: "word_of_nat (unat w mod 2 ^ 16) = take_bit 16 w" by (simp only: of_nat_unat ucast_id)
  have "unat w div 2 ^ 16 = unat (drop_bit 16 w)"
    unfolding unat_drop_bit_eq by (simp only: drop_bit_eq_div)
  then have high: "word_of_nat (unat w div 2 ^ 16) = drop_bit 16 w" by (simp only: of_nat_unat ucast_id)
  show ?thesis unfolding low high
    by (rule bit_eqI)
      (auto simp: bit_or_iff bit_take_bit_iff bit_push_bit_iff bit_drop_bit_eq, metis le_add_diff_inverse not_less)
qed

lemma parse_greeting_sent:
  assumes "greeting_ok g"
  shows "parse_greeting (greeting_bytes g) = Some (lossy (gr_version g), gr_thread g, gr_caps g)"
proof -
  let ?low = "unat (gr_caps g) mod 2 ^ 16" and ?high = "unat (gr_caps g) div 2 ^ 16"
  let ?r = "gr_salt g @ le_bytes 2 ?low @ gr_status g @ le_bytes 2 ?high @ gr_rest g"
  have u: "unat (gr_caps g) < 2 ^ 32" using unsigned_less [of "gr_caps g", where 'a = nat] by simp
  have "greeting_caps ?r = or (word_of_nat ?low) (push_bit 16 (word_of_nat ?high))"
    using assms u by (simp add: greeting_caps_def greeting_ok_def rd_skip_def rd_take_append div_less_iff_less_mult)
  then have "greeting_caps ?r = gr_caps g" using join_halves by simp
  moreover have "rd_cstring (tl (greeting_bytes g)) = Some (gr_version g, le_bytes 4 (gr_thread g) @ ?r)"
    using assms rd_cstring_append [of "gr_version g"] by (simp add: greeting_bytes_def greeting_ok_def)
  ultimately show ?thesis
    using assms rd_uint_append [of "gr_thread g" 4 ?r]
    by (simp add: parse_greeting_def greeting_ok_def) (simp add: greeting_bytes_def)
qed

lemma login_names_sent:
  assumes "login_ok l"
  shows "login_names (lo_caps l) (login_bytes l) c =
    (let c1 = c\<lparr>cn_user := Some (lossy (lo_user l))\<rparr> in
     case login_db l of Some d \<Rightarrow> c1\<lparr>cn_db := Some d\<rparr> | None \<Rightarrow> c1)"
proof -
  let ?f = "has_flag (lo_caps l)"
  let ?tail = "(if ?f CLIENT_CONNECT_WITH_DB then lo_db l @ [0] else []) @ lo_rest l"
  let ?auth = "(if ?f CLIENT_PLUGIN_AUTH_LENENC_CLIENT_DATA \<or> ?f CLIENT_SECURE_CONNECTION
       then word_of_nat (length (lo_auth l)) # lo_auth l else lo_auth l @ [0])"
  have l: "length (lo_fill l) = 28" "0 \<notin> set (lo_user l)" "0 \<notin> set (lo_auth l)" "0 \<notin> set (lo_db l)"
      "length (lo_auth l) < 251"
    using assms by (simp_all add: login_ok_def)
  have skip: "rd_skip 32 (login_bytes l) = lo_user l @ 0 # ?auth @ ?tail"
    using l(1) by (simp add: rd_skip_def login_bytes_def)
  have n: "unat (word_of_nat (length (lo_auth l)) :: u8) = length (lo_auth l)"
    using l(5) by (simp add: unat_of_nat)
  have auth: "auth_rest (lo_caps l) (?auth @ ?tail) = Some ?tail"
    using lenenc_short [OF l(5), of ?tail] rd_cstring_append [OF l(3), of ?tail] n
    by (simp add: auth_rest_def rd_take_append)
  have db: "rd_cstring (lo_db l @ 0 # lo_rest l) = Some (lo_db l, lo_rest l)"
    by (rule rd_cstring_append [OF l(4)])
  show ?thesis
    using auth db by (simp add: login_names_def skip rd_cstring_append [OF l(2)] Let_def login_db_def)
qed

lemma login_sent:
  assumes "login_ok l" and "payload pkt = login_bytes l"
  shows "on_login pkt c =
    c\<lparr>cn_caps := lo_caps l,
      cn_query_attrs := has_flag (and (lo_caps l) (cn_server_caps c)) CLIENT_QUERY_ATTRIBUTES,
      cn_user := Some (lossy (lo_user l)),
      cn_db := (case login_db l of Some d \<Rightarrow> Some d | None \<Rightarrow> cn_db c), cn_phase := Established\<rparr>"
proof -
  have u: "unat (lo_caps l) < 256 ^ 4" using unsigned_less [of "lo_caps l", where 'a = nat] by simp
  have "take 4 (login_bytes l) = le_bytes 4 (unat (lo_caps l))" by (simp add: login_bytes_def)
  then have caps: "word_of_nat (le_val (take 4 (login_bytes l))) = lo_caps l" using u by simp
  have len: "\<not> length (login_bytes l) < 4" by (simp add: login_bytes_def)
  show ?thesis
    unfolding on_login_def Let_def assms(2) caps login_names_sent [OF assms(1)]
    using assms(1) len by (simp add: login_ok_def split: option.split)
qed

section \<open>A connection\<close>

text \<open>What follows the login until the server accepts it: messages of the server and answers of the
  client, whose sequence ids go on.\<close>

record auth_message =
  au_dir :: dir
  au_packets :: "(u8 \<times> bytes) list"
  au_chunks :: "chunk list"

definition auth_ok :: "auth_message \<Rightarrow> bool" where
  "auth_ok m \<longleftrightarrow> framed (au_chunks m) (au_packets m) \<and> (au_dir m = Server \<or> (\<forall>x \<in> set (au_packets m). fst x \<noteq> 0))"

lemma auth_packets:
  assumes "cn_phase c = Established" and "decoding c" and "cn_pending c = []"
    and "d = Server \<or> (\<forall>x \<in> set ps. fst x \<noteq> 0)"
  shows "\<exists>s. on_packets d (sent_packets T off ps) c = (c\<lparr>cn_server_cont_seq := s\<rparr>, [])"
  using assms
proof (induction T off ps arbitrary: c rule: sent_packets.induct)
  case (1 T off)
  then show ?case by (intro exI [of _ "cn_server_cont_seq c"]) simp
next
  case (2 T off q p ps)
  let ?pkt = "\<lparr>first_seq = q, last_seq = last_frame_seq q p, pkt_ts = T off, payload = p\<rparr>"
  have one: "\<exists>s. on_packet d ?pkt c = (c\<lparr>cn_server_cont_seq := s\<rparr>, [])"
  proof (cases d)
    case Client
    then have "on_packet d ?pkt c = (c, [])"
      using "2.prems"(1,4) by (simp add: on_packet_def on_client_packet_def)
    then show ?thesis by (intro exI [of _ "cn_server_cont_seq c"]) simp
  next
    case Server
    then have "on_packet d ?pkt c = (c\<lparr>cn_server_cont_seq :=
        if cn_server_cont_seq c = Some q then Some (last_frame_seq q p + 1) else None\<rparr>, [])"
      using "2.prems"(1,3) by (simp add: on_packet_def on_server_packet_def on_response_def)
    then show ?thesis by blast
  qed
  obtain s where s: "on_packet d ?pkt c = (c\<lparr>cn_server_cont_seq := s\<rparr>, [])" using one by blast
  let ?c = "c\<lparr>cn_server_cont_seq := s\<rparr>"
  have d: "decoding ?c" using "2.prems"(2) by (simp add: decoding_def)
  have "\<exists>s'. on_packets d (sent_packets T (off + length (encode q p)) ps) ?c = (?c\<lparr>cn_server_cont_seq := s'\<rparr>, [])"
    by (rule "2.IH") (use "2.prems" d in auto)
  then obtain s' where "on_packets d (sent_packets T (off + length (encode q p)) ps) ?c =
      (?c\<lparr>cn_server_cont_seq := s'\<rparr>, [])" by blast
  then have "on_packets d (sent_packets T off ((q, p) # ps)) c = (c\<lparr>cn_server_cont_seq := s'\<rparr>, [])"
    using s d by simp
  then show ?case by blast
qed

lemma auth_run:
  assumes "idle attrs env user db c" and "auth_ok m"
  shows "\<exists>c'. run (message_data (au_dir m) (au_chunks m)) c = (c', []) \<and> idle attrs env user db c'"
proof -
  have c: "ready c" "established attrs env user db c" "cn_pending c = []" using assms(1) by (simp_all add: idle_def)
  obtain s where s: "on_packets (au_dir m) (sent_packets (chunk_time (au_chunks m)) 0 (au_packets m)) c =
      (c\<lparr>cn_server_cont_seq := s\<rparr>, [])"
    using auth_packets [of c "au_dir m" "au_packets m" "chunk_time (au_chunks m)" 0] c(2,3) assms(2)
    unfolding established_def auth_ok_def by blast
  have e: "established attrs env user db (c\<lparr>cn_server_cont_seq := s\<rparr>)"
    using c(2) by (simp add: established_def known_def decoding_def)
  from message [OF c(1) _ _ _ s] assms(2) ready_decoding [OF e] obtain a where
    "run (message_data (au_dir m) (au_chunks m)) c = (set_asm (au_dir m) a (c\<lparr>cn_server_cont_seq := s\<rparr>), [])"
    "ready (set_asm (au_dir m) a (c\<lparr>cn_server_cont_seq := s\<rparr>))"
    by (auto simp: auth_ok_def framed_def)
  then show ?thesis using e c(3) by (auto simp: idle_def)
qed

lemma auths_run:
  "idle attrs env user db c \<Longrightarrow> \<forall>m \<in> set ms. auth_ok m \<Longrightarrow>
    \<exists>c'. run (concat (map (\<lambda>m. message_data (au_dir m) (au_chunks m)) ms)) c = (c', []) \<and>
      idle attrs env user db c'"
proof (induction ms arbitrary: c)
  case (Cons m ms)
  obtain c1 where "run (message_data (au_dir m) (au_chunks m)) c = (c1, [])" "idle attrs env user db c1"
    using auth_run [OF Cons.prems(1)] Cons.prems(2) by auto
  with Cons.IH [of c1] Cons.prems(2) show ?case by (auto simp: run_append)
qed simp

text \<open>A connection: greeting, login, authentication, exchanges, and the chunks of each.\<close>

record dialogue =
  dg_greeting :: greeting
  dg_greeting_chunks :: "chunk list"
  dg_login :: login
  dg_login_chunks :: "chunk list"
  dg_auth :: "auth_message list"
  dg_exchanges :: "exchange list"

definition dialogue_ok :: "dialogue \<Rightarrow> bool" where
  "dialogue_ok d \<longleftrightarrow>
    greeting_ok (dg_greeting d) \<and> framed (dg_greeting_chunks d) [(0, greeting_bytes (dg_greeting d))] \<and>
    login_ok (dg_login d) \<and> framed (dg_login_chunks d) [(1, login_bytes (dg_login d))] \<and>
    (\<forall>m \<in> set (dg_auth d). auth_ok m) \<and>
    exchanges_ok (attributes_negotiated (dg_greeting d) (dg_login d)) Map.empty (dg_exchanges d)"

definition dialogue_data :: "dialogue \<Rightarrow> input list" where
  "dialogue_data d =
    message_data Server (dg_greeting_chunks d) @ message_data Client (dg_login_chunks d) @
    concat (map (\<lambda>m. message_data (au_dir m) (au_chunks m)) (dg_auth d)) @
    concat (map exchange_data (dg_exchanges d))"

lemma handshake_run:
  assumes "dialogue_ok d"
  shows "\<exists>c. run (message_data Server (dg_greeting_chunks d) @ message_data Client (dg_login_chunks d)) new_conn = (c, []) \<and>
    idle (attributes_negotiated (dg_greeting d) (dg_login d)) Map.empty
      (Some (lossy (lo_user (dg_login d)))) (login_db (dg_login d)) c \<and>
    cn_phase c = Established \<and> cn_thread_id c = Some (gr_thread (dg_greeting d))"
proof -
  let ?g = "dg_greeting d" and ?l = "dg_login d"
  let ?gp = "\<lparr>first_seq = 0, last_seq = last_frame_seq 0 (greeting_bytes ?g),
    pkt_ts = chunk_time (dg_greeting_chunks d) 0, payload = greeting_bytes ?g\<rparr>"
  let ?lp = "\<lparr>first_seq = 1, last_seq = last_frame_seq 1 (login_bytes ?l),
    pkt_ts = chunk_time (dg_login_chunks d) 0, payload = login_bytes ?l\<rparr>"
  let ?c1 = "new_conn\<lparr>cn_server_version := Some (lossy (gr_version ?g)), cn_thread_id := Some (gr_thread ?g),
    cn_server_caps := gr_caps ?g, cn_phase := Login\<rparr>"
  have ok: "greeting_ok ?g" "framed (dg_greeting_chunks d) [(0, greeting_bytes ?g)]"
      "login_ok ?l" "framed (dg_login_chunks d) [(1, login_bytes ?l)]"
    using assms by (simp_all add: dialogue_ok_def)
  have r0: "ready new_conn"
    by (simp add: ready_def decoding_def new_conn_def caught_up_new)
  have d1: "decoding ?c1" by (simp add: decoding_def new_conn_def)
  have "on_packets Server (sent_packets (chunk_time (dg_greeting_chunks d)) 0 [(0, greeting_bytes ?g)]) new_conn = (?c1, [])"
    using d1 parse_greeting_sent [OF ok(1)]
    by (simp add: on_packet_def on_server_packet_def) (simp add: new_conn_def)
  from message [OF r0 _ _ _ this d1] ok(2) obtain a1 where
    m1: "run (message_data Server (dg_greeting_chunks d)) new_conn = (set_asm Server a1 ?c1, [])"
      "ready (set_asm Server a1 ?c1)" by (auto simp: framed_def)
  let ?s1 = "set_asm Server a1 ?c1"
  have p1: "cn_phase ?s1 = Login" "cn_server_caps ?s1 = gr_caps ?g" "cn_db ?s1 = None" "cn_pending ?s1 = []"
      "cn_stmts ?s1 = Map.empty" "cn_long_data ?s1 = Map.empty" "decoding ?s1"
    by (simp_all add: set_asm_def with_asm_def new_conn_def decoding_def)
  define c2 where "c2 = on_login ?lp ?s1"
  have l: "c2 = ?s1\<lparr>cn_caps := lo_caps ?l,
      cn_query_attrs := attributes_negotiated ?g ?l, cn_user := Some (lossy (lo_user ?l)),
      cn_db := login_db ?l, cn_phase := Established\<rparr>"
    using login_sent [OF ok(3), of ?lp ?s1] p1(2,3)
    by (simp add: c2_def attributes_negotiated_def split: option.split)
  have e: "established (attributes_negotiated ?g ?l) Map.empty (Some (lossy (lo_user ?l))) (login_db ?l) c2"
    "cn_pending c2 = []"
    using p1 by (simp_all add: l established_def known_def decoding_def)
  have "on_packets Client (sent_packets (chunk_time (dg_login_chunks d)) 0 [(1, login_bytes ?l)]) ?s1 = (c2, [])"
    using p1(1) ready_decoding [OF e(1)] by (simp add: on_packet_def on_client_packet_def c2_def)
  from message [OF m1(2) _ _ _ this ready_decoding [OF e(1)]] ok(4) obtain a2 where
    m2: "run (message_data Client (dg_login_chunks d)) ?s1 = (set_asm Client a2 c2, [])"
      "ready (set_asm Client a2 c2)" by (auto simp: framed_def)
  moreover have "cn_phase (set_asm Client a2 c2) = Established"
      "cn_thread_id (set_asm Client a2 c2) = Some (gr_thread ?g)"
    by (simp_all add: l set_asm_def with_asm_def)
  ultimately show ?thesis using m1(1) e by (auto simp: run_append idle_def)
qed

text \<open>The decoder emits exactly the statements the client sent, in order: the text of a query, \<open>USE\<close> for a
  change of the database, and for an execution the prepared text with the bound values as literals; each
  with the user of the login, the database it ran in, the time its first byte arrived and the time until
  the first byte of the answer.\<close>

theorem dialogue_decoded:
  assumes "dialogue_ok d"
  shows "\<exists>c. run (dialogue_data d) new_conn =
      (c, exchange_events Map.empty (Some (lossy (lo_user (dg_login d)))) (login_db (dg_login d)) (dg_exchanges d)) \<and>
    decoding c \<and> cn_pending c = []"
proof -
  let ?h = "message_data Server (dg_greeting_chunks d) @ message_data Client (dg_login_chunks d)"
  let ?a = "concat (map (\<lambda>m. message_data (au_dir m) (au_chunks m)) (dg_auth d))"
  obtain c where c: "run ?h new_conn = (c, [])"
    "idle (attributes_negotiated (dg_greeting d) (dg_login d)) Map.empty
      (Some (lossy (lo_user (dg_login d)))) (login_db (dg_login d)) c"
    using handshake_run [OF assms] by blast
  obtain c' where a: "run ?a c = (c', [])"
    "idle (attributes_negotiated (dg_greeting d) (dg_login d)) Map.empty
      (Some (lossy (lo_user (dg_login d)))) (login_db (dg_login d)) c'"
    using auths_run [OF c(2)] assms by (auto simp: dialogue_ok_def)
  have e: "\<exists>c2. run (concat (map exchange_data (dg_exchanges d))) c' =
      (c2, exchange_events Map.empty (Some (lossy (lo_user (dg_login d)))) (login_db (dg_login d)) (dg_exchanges d)) \<and>
      decoding c2 \<and> cn_pending c2 = []"
    using exchanges_run [OF a(2)] assms by (simp add: dialogue_ok_def)
  have "dialogue_data d = ?h @ ?a @ concat (map exchange_data (dg_exchanges d))"
    by (simp add: dialogue_data_def)
  then have "run (dialogue_data d) new_conn =
      (case run (concat (map exchange_data (dg_exchanges d))) c' of (c2, o2) \<Rightarrow> (c2, [] @ [] @ o2))"
    by (simp only: run_append [of ?h] run_append [of ?a] c(1) a(1) prod.case) (simp split: prod.split)
  with e show ?thesis by auto
qed

text \<open>A client that prepares \<open>DO ?\<close> and executes it with -5; every message in two chunks.\<close>

definition halves :: "int \<Rightarrow> u8 \<Rightarrow> bytes \<Rightarrow> chunk list" where
  "halves t seq p = [(t, take 3 (encode seq p)), (t + 1, drop 3 (encode seq p))]"

lemma framed_halves: "length p \<le> MAX_LOGICAL_PACKET \<Longrightarrow> framed (halves t seq p) [(seq, p)]"
  using length_encode [of seq p] by (auto simp: framed_def halves_def chunks_ok_def fits_def stream_of_def)

lemma chunk_time_halves [simp]: "chunk_time (halves t seq p) 0 = t"
  using length_encode [of seq p] by (auto simp: halves_def)

definition short_exchange :: "int \<Rightarrow> command \<Rightarrow> bytes \<Rightarrow> exchange" where
  "short_exchange t cmd answer =
    \<lparr>ex_command = cmd, ex_request = halves t 0 (command_payload False cmd), ex_answer = [(1, answer)],
     ex_response = halves (t + 2000000) 1 answer\<rparr>"

lemma short_exchange_ok:
  assumes "length (command_payload False cmd) < FULL" and "length answer \<le> MAX_LOGICAL_PACKET"
    and "command_ok env cmd answer"
  shows "exchange_ok False env (short_exchange t cmd answer)"
proof -
  have "FULL \<le> MAX_LOGICAL_PACKET" by (simp add: FULL_def MAX_LOGICAL_PACKET_def)
  then show ?thesis
    using assms framed_halves [of "command_payload False cmd" t 0] framed_halves [OF assms(2), of "t + 2000000" 1]
    by (simp add: exchange_ok_def short_exchange_def Let_def last_frame_seq.simps [of 0])
qed

definition sample_greeting :: greeting where
  "sample_greeting = \<lparr>gr_version = [56], gr_thread = 7, gr_salt = replicate 9 0, gr_caps = 0x200,
    gr_status = [0, 0, 0], gr_rest = []\<rparr>"

definition sample_login :: login where
  "sample_login = \<lparr>lo_caps = 0x208, lo_fill = replicate 28 0, lo_user = [117], lo_auth = [], lo_db = [100],
    lo_rest = []\<rparr>"

definition sample_prepare :: command where "sample_prepare = Prepare [68, 79, 32, 63] 1 1"

definition sample_prepared :: bytes where
  "sample_prepared = 0 # le_bytes 4 1 @ [0, 0] @ le_bytes 2 1 @ [0, 0, 0]"

definition sample_execute :: command where "sample_execute = Execute 1 [0] [Int_Param (- 5)]"

definition sample_dialogue :: dialogue where
  "sample_dialogue =
    \<lparr>dg_greeting = sample_greeting, dg_greeting_chunks = halves 1 0 (greeting_bytes sample_greeting),
     dg_login = sample_login, dg_login_chunks = halves 3 1 (login_bytes sample_login),
     dg_auth = [\<lparr>au_dir = Server, au_packets = [(2, [0, 0, 0])], au_chunks = halves 5 2 [0, 0, 0]\<rparr>],
     dg_exchanges = [short_exchange 1000000 sample_prepare sample_prepared,
       short_exchange 4000000 sample_execute [0, 0, 0]]\<rparr>"

lemma sample_texts:
  "lossy [68, 79, 32, 63] = ''DO ?''" "lossy [117] = ''u''" "lossy [100] = ''d''"
  "interpolate ''DO ?'' [dec_int (- 5)] 1 = Some ''DO -5''" "parse_use_target ''DO -5'' = None"
  by code_simp+

lemma sample_dialogue_ok: "dialogue_ok sample_dialogue"
proof -
  have flags: "has_flag (0x208 :: u32) CLIENT_PROTOCOL_41" "\<not> has_flag (0x208 :: u32) CLIENT_SSL"
      "\<not> has_flag (0x208 :: u32) (or CLIENT_COMPRESS CLIENT_ZSTD_COMPRESSION_ALGORITHM)"
      "\<not> has_flag (and 0x208 0x200 :: u32) CLIENT_QUERY_ATTRIBUTES"
    by (simp_all add: has_flag_def CLIENT_PROTOCOL_41_def CLIENT_SSL_def CLIENT_COMPRESS_def
        CLIENT_ZSTD_COMPRESSION_ALGORITHM_def CLIENT_QUERY_ATTRIBUTES_def)
  have size: "length (greeting_bytes sample_greeting) \<le> MAX_LOGICAL_PACKET"
      "length (login_bytes sample_login) \<le> MAX_LOGICAL_PACKET" "length [0, 0, 0 :: u8] \<le> MAX_LOGICAL_PACKET"
      "length sample_prepared \<le> MAX_LOGICAL_PACKET"
    by (simp_all add: greeting_bytes_def sample_greeting_def login_bytes_def sample_login_def sample_prepared_def
        MAX_LOGICAL_PACKET_def)
  have "command_ok Map.empty sample_prepare sample_prepared"
    unfolding command_ok_def sample_prepare_def sample_prepared_def
    by (simp del: le_bytes.simps) (intro exI [of _ "[0, 0]"] exI [of _ "[0, 0, 0]"]; simp del: le_bytes.simps)
  then have x1: "exchange_ok False Map.empty (short_exchange 1000000 sample_prepare sample_prepared)"
    using size(4) by (intro short_exchange_ok) (simp_all add: sample_prepare_def command_payload_def FULL_def)
  have "command_ok (prepared_after sample_prepare Map.empty) sample_execute [0, 0, 0]"
    by (simp add: command_ok_def sample_execute_def sample_prepare_def prepared_after_def null_map_def
        bitmap_len_def null_bit_def param_ok_def)
  then have x2: "exchange_ok False (prepared_after sample_prepare Map.empty) (short_exchange 4000000 sample_execute [0, 0, 0])"
    using size(3) by (intro short_exchange_ok)
      (simp_all add: sample_execute_def command_payload_def FULL_def param_type_def param_bytes_def)
  have "attributes_negotiated sample_greeting sample_login = False"
    using flags(4) by (simp add: attributes_negotiated_def sample_greeting_def sample_login_def)
  moreover have "greeting_ok sample_greeting" by (simp add: greeting_ok_def sample_greeting_def)
  moreover have "login_ok sample_login" using flags by (simp add: login_ok_def sample_login_def)
  ultimately show ?thesis
    using framed_halves [OF size(1)] framed_halves [OF size(2)] framed_halves [OF size(3), of 5 2] x1 x2
    by (simp add: dialogue_ok_def sample_dialogue_def auth_ok_def)
      (simp add: short_exchange_def)
qed

lemma sample_events:
  "exchange_events Map.empty (Some (lossy (lo_user sample_login))) (login_db sample_login) (dg_exchanges sample_dialogue) =
    [\<lparr>pe_ts = 4000000, pe_query = ''DO -5'', pe_latency = latency_of 6000000 4000000,
      pe_response_seen = True, pe_db = Some ''d'', pe_user = Some ''u''\<rparr>]"
proof -
  have "login_db sample_login = Some ''d''"
    by (simp add: login_db_def sample_login_def has_flag_def CLIENT_CONNECT_WITH_DB_def sample_texts)
  moreover have "lossy (lo_user sample_login) = ''u''" by (simp add: sample_login_def sample_texts)
  ultimately show ?thesis
    by (simp add: sample_dialogue_def short_exchange_def sample_prepare_def sample_execute_def exchange_event_def
        statement_of_def db_after_def prepared_after_def sample_texts param_literal_def del: One_nat_def)
qed

section \<open>Answers of 256 packets\<close>

text \<open>A continuation is recognised by its sequence id alone, and ids are bytes. When two commands are in
  flight and the first answer takes 256 packets, the start of the second answer has the id its
  continuation would have: it is swallowed, and the second statement never gets its latency.\<close>

definition answer_packet :: "nat \<Rightarrow> packet" where
  "answer_packet i = \<lparr>first_seq = word_of_nat i, last_seq = word_of_nat i, pkt_ts = int i, payload = [0]\<rparr>"

lemma continuation_run:
  "decoding c \<Longrightarrow> cn_phase c = Established \<Longrightarrow> cn_server_cont_seq c = Some (word_of_nat i) \<Longrightarrow>
    on_packets Server (map answer_packet [i..<i + n] @ ps) c =
    on_packets Server ps (c\<lparr>cn_server_cont_seq := Some (word_of_nat (i + n))\<rparr>)"
proof (induction n arbitrary: i c)
  case 0
  then have "c\<lparr>cn_server_cont_seq := Some (word_of_nat (i + 0))\<rparr> = c" by (cases c) simp
  then show ?case by (simp only: upt.simps list.map append_Nil add_0_right less_irrefl if_False) simp
next
  case (Suc n)
  let ?c = "c\<lparr>cn_server_cont_seq := Some (word_of_nat (Suc i))\<rparr>"
  have "[i..<i + Suc n] = i # [Suc i..<Suc i + n]" by (simp add: upt_conv_Cons)
  moreover have "on_packet Server (answer_packet i) c = (?c, [])"
    using Suc.prems by (simp add: on_packet_def on_server_packet_def on_response_def answer_packet_def add.commute)
  moreover have "decoding ?c" using Suc.prems(1) by (simp add: decoding_def)
  ultimately show ?case using Suc.IH [of ?c "Suc i"] Suc.prems(2) by (simp split: prod.split)
qed

theorem second_answer_swallowed:
  assumes "decoding c" and "cn_phase c = Established" and "cn_server_cont_seq c = None"
    and "cn_pending c = [f, g]" and "in_pending f = Event_pending ev" and "resp_seq f = 1" and "resp_seq g = 1"
  shows "\<exists>c'. on_packets Server (map answer_packet [1..<257] @ [answer_packet 1]) c =
      (c', [ev\<lparr>pe_latency := latency_of 1 (pe_ts ev), pe_response_seen := True\<rparr>]) \<and> cn_pending c' = [g]"
proof -
  let ?ev = "ev\<lparr>pe_latency := latency_of 1 (pe_ts ev), pe_response_seen := True\<rparr>"
  let ?c = "c\<lparr>cn_server_cont_seq := Some 2, cn_pending := [g]\<rparr>"
  let ?c1 = "?c\<lparr>cn_server_cont_seq := Some (word_of_nat (2 + 255))\<rparr>"
  have "[1..<257] = 1 # [2..<2 + 255 :: nat]" using upt_conv_Cons [of 1 257] by (simp del: upt_Suc upt_rec_numeral add: numeral_2_eq_2)
  then have l: "map answer_packet [1..<257] @ [answer_packet 1] =
      answer_packet 1 # map answer_packet [2..<2 + 255] @ [answer_packet 1]" by (simp only: list.map append_Cons)
  have s: "on_packet Server (answer_packet 1) c = (?c, [?ev])"
    using assms by (simp add: on_packet_def on_server_packet_def on_response_def complete_request_def answer_packet_def)
  have d: "decoding ?c" "decoding (?c1\<lparr>cn_server_cont_seq := Some 2\<rparr>)" using assms(1) by (simp_all add: decoding_def)
  have "on_packet Server (answer_packet 1) ?c1 = (?c1\<lparr>cn_server_cont_seq := Some 2\<rparr>, [])"
    using assms(2) by (simp add: on_packet_def on_server_packet_def on_response_def answer_packet_def)
  then have "on_packets Server [answer_packet 1] ?c1 = (?c1\<lparr>cn_server_cont_seq := Some 2\<rparr>, [])"
    using d(2) by simp
  moreover have "on_packets Server (map answer_packet [2..<2 + 255] @ [answer_packet 1]) ?c =
      on_packets Server [answer_packet 1] (?c\<lparr>cn_server_cont_seq := Some (word_of_nat (2 + 255))\<rparr>)"
    by (rule continuation_run [OF d(1)]) (simp_all add: assms(2))
  ultimately have r: "on_packets Server (map answer_packet [2..<2 + 255] @ [answer_packet 1]) ?c =
      (?c1\<lparr>cn_server_cont_seq := Some 2\<rparr>, [])" by (simp del: on_packets.simps upt_rec_numeral)
  show ?thesis unfolding l on_packets.simps(2) s prod.case r
    using d(1) by (simp del: on_packets.simps upt_rec_numeral)
qed

end
