(* ===== verification/Pcap_Dialogue.thy ===== *)
theory Pcap_Dialogue
  imports Conversation Pcap_Props Tcp_Stream_Props
begin

text \<open>
  From frames to statements: the Ethernet frames of one connection, captured in order, go through the
  header parsers, the reassembler and the decoder of the engine and come out as the statements the client
  sent, under the session id the server gave the connection.
\<close>

section \<open>The frames of a connection\<close>

record link =
  li_client :: bytes
  li_server :: bytes
  li_cport :: nat
  li_sport :: nat
  li_cisn :: u32
  li_sisn :: u32
  li_pad :: bytes

definition link_ok :: "link \<Rightarrow> bool" where
  "link_ok k \<longleftrightarrow> length (li_client k) = 4 \<and> length (li_server k) = 4 \<and> li_cport k < 2 ^ 16 \<and>
    li_sport k < 2 ^ 16 \<and> li_cport k \<noteq> li_sport k"

definition tcp_frame :: "link \<Rightarrow> dir \<Rightarrow> int \<Rightarrow> u32 \<Rightarrow> u8 \<Rightarrow> bytes \<Rightarrow> captured_frame" where
  "tcp_frame k d ts seq flags body =
    \<lparr>fr_ts = ts, fr_link = ETHERNET,
     fr_bytes = ethernet_bytes
       (case d of
          Client \<Rightarrow> ipv4_bytes (li_client k) (li_server k) (tcp_bytes (li_cport k) (li_sport k) seq flags body)
        | Server \<Rightarrow> ipv4_bytes (li_server k) (li_client k) (tcp_bytes (li_sport k) (li_cport k) seq flags body))
       (li_pad k),
     fr_truncated = False\<rparr>"

text \<open>The payloads with the sequence numbers they have after \<open>nc\<close> bytes of the client and \<open>ns\<close> of the
  server, acknowledged and pushed.\<close>

fun frames_of :: "link \<Rightarrow> nat \<Rightarrow> nat \<Rightarrow> input list \<Rightarrow> captured_frame list" where
  "frames_of k nc ns [] = []"
| "frames_of k nc ns (Data Client ts b # is) =
    tcp_frame k Client ts (li_cisn k + 1 + word_of_nat nc) 0x18 b # frames_of k (nc + length b) ns is"
| "frames_of k nc ns (Data Server ts b # is) =
    tcp_frame k Server ts (li_sisn k + 1 + word_of_nat ns) 0x18 b # frames_of k nc (ns + length b) is"
| "frames_of k nc ns (Close # is) = frames_of k nc ns is"

definition captured :: "link \<Rightarrow> int \<Rightarrow> input list \<Rightarrow> captured_frame list" where
  "captured k ts is =
    tcp_frame k Client ts (li_cisn k) 0x02 [] # tcp_frame k Server ts (li_sisn k) 0x12 [] # frames_of k 0 0 is"

text \<open>Segments fit a datagram, and the stream of each side stays in the range of its offsets.\<close>

fun sized :: "nat \<Rightarrow> nat \<Rightarrow> input list \<Rightarrow> bool" where
  "sized nc ns [] \<longleftrightarrow> True"
| "sized nc ns (Data Client ts b # is) \<longleftrightarrow>
    b \<noteq> [] \<and> length b < 60000 \<and> nc + length b < REL_BOUND \<and> sized (nc + length b) ns is"
| "sized nc ns (Data Server ts b # is) \<longleftrightarrow>
    b \<noteq> [] \<and> length b < 60000 \<and> ns + length b < REL_BOUND \<and> sized nc (ns + length b) is"
| "sized nc ns (Close # is) \<longleftrightarrow> False"

section \<open>One frame\<close>

definition key_of :: "link \<Rightarrow> flow_key" where
  "key_of k = \<lparr>fk_client = \<lparr>ep_addr = v4mapped (li_client k), ep_port = li_cport k\<rparr>,
    fk_server = \<lparr>ep_addr = v4mapped (li_server k), ep_port = li_sport k\<rparr>\<rparr>"

definition seg_of :: "link \<Rightarrow> dir \<Rightarrow> u32 \<Rightarrow> u8 \<Rightarrow> bytes \<Rightarrow> tcp_segment" where
  "seg_of k d seq flags body =
    (let c = fk_client (key_of k); s = fk_server (key_of k) in
     \<lparr>seg_src = (if d = Client then c else s), seg_dst = (if d = Client then s else c), seg_seq = seq,
      seg_syn = (and flags 0x02 \<noteq> 0), seg_fin = (and flags 0x01 \<noteq> 0), seg_ack = (and flags 0x10 \<noteq> 0),
      seg_rst = (and flags 0x04 \<noteq> 0), seg_payload = body\<rparr>)"

lemma on_frame_segment:
  assumes "link_ok k" and "length body < 60000"
  shows "on_frame e (fr_ts (tcp_frame k d ts seq flags body)) (fr_link (tcp_frame k d ts seq flags body))
      (fr_bytes (tcp_frame k d ts seq flags body)) (fr_truncated (tcp_frame k d ts seq flags body)) =
    on_segment e ts (seg_of k d seq flags body) False"
proof -
  have "map_option parse_ip_tcp (strip_link ETHERNET (fr_bytes (tcp_frame k d ts seq flags body))) =
      Some (Some (seg_of k d seq flags body))"
    using assms frame_parsed [of "li_client k" "li_server k" "li_cport k" "li_sport k" body seq flags "li_pad k"]
      frame_parsed [of "li_server k" "li_client k" "li_sport k" "li_cport k" body seq flags "li_pad k"]
    by (cases d) (simp_all add: link_ok_def tcp_frame_def seg_of_def key_of_def)
  then show ?thesis by (auto simp: on_frame_def tcp_frame_def)
qed

lemma direction_seg: "link_ok k \<Longrightarrow> direction (li_sport k) (seg_of k d seq flags body) = Some (key_of k, d)"
  by (cases d) (simp_all add: direction_def seg_of_def key_of_def link_ok_def Let_def)

text \<open>The stream of one side, after \<open>n\<close> bytes in order.\<close>

definition in_order :: "u32 \<Rightarrow> nat \<Rightarrow> seq_stream \<Rightarrow> bool" where
  "in_order isn n s \<longleftrightarrow>
    ss_started s \<and> ss_isn s = isn + 1 \<and> ss_next_rel s = n \<and> ss_pending s = [] \<and> \<not> ss_overflow s"

lemma stream_data_in_order:
  assumes "in_order isn n s" and "b \<noteq> []" and "n + length b < REL_BOUND"
  shows "\<exists>s'. stream_data ts (isn + 1 + word_of_nat n) b s = (s', [(ts, b)]) \<and> in_order isn (n + length b) s'"
proof -
  have r: "rel s (isn + 1 + word_of_nat n) = n"
    using rel_near [of "isn + 1 + word_of_nat n" s n] assms by (simp add: in_order_def)
  have "n + length b < 2 ^ 64" using assms(3) by (simp add: REL_BOUND_def)
  then have "(n + length b) mod 2 ^ 64 = n + length b" by (rule mod_less)
  then show ?thesis
    using assms r by (auto simp: stream_data_def in_order_def Let_def)
qed

section \<open>The engine on one connection\<close>

text \<open>The table holds one connection, whose decoder is \<open>c\<close>; what has been emitted bears its thread id.\<close>

definition tracks :: "link \<Rightarrow> nat \<Rightarrow> nat \<Rightarrow> conn \<Rightarrow> engine \<Rightarrow> bool" where
  "tracks k nc ns c e \<longleftrightarrow>
    en_port e = li_sport k \<and> en_evbuf e = [] \<and> dom (en_conns e) = {key_of k} \<and>
    (\<exists>cs. en_conns e (key_of k) = Some cs \<and> cs_dec cs = c \<and> \<not> cs_finished cs \<and>
      \<not> cs_fin_client cs \<and> \<not> cs_fin_server cs \<and>
      in_order (li_cisn k) nc (cs_c2s cs) \<and> in_order (li_sisn k) ns (cs_s2c cs) \<and>
      (cs_session_id cs = None \<and> en_used e = {} \<or> cs_session_id cs = cn_thread_id c \<and> cn_thread_id c \<noteq> None))"

lemma data_flags:
  "\<not> seg_syn (seg_of k d seq 0x18 b)" "\<not> seg_fin (seg_of k d seq 0x18 b)" "\<not> seg_rst (seg_of k d seq 0x18 b)"
  "seg_seq (seg_of k d seq flags b) = seq" "seg_payload (seg_of k d seq flags b) = b"
  by (simp_all add: seg_of_def Let_def)

lemma count_packet_keeps [simp]:
  "en_port (count_packet t e) = en_port e" "en_conns (count_packet t e) = en_conns e"
  "en_used (count_packet t e) = en_used e" "en_evbuf (count_packet t e) = en_evbuf e"
  by (simp_all add: count_packet_def Let_def)

lemma record_version_tracks:
  assumes "record_version e cs = (e', cs')"
  shows "en_port e' = en_port e \<and> en_conns e' = en_conns e \<and> en_used e' = en_used e \<and> en_evbuf e' = en_evbuf e \<and>
    (\<exists>v. cs' = cs\<lparr>cs_version_recorded := v\<rparr>)"
proof -
  have "cs' = cs\<lparr>cs_version_recorded := cs_version_recorded cs'\<rparr>"
    using assms by (auto simp: record_version_def Let_def split: if_splits option.splits)
  moreover have "en_port e' = en_port e \<and> en_conns e' = en_conns e \<and> en_used e' = en_used e \<and> en_evbuf e' = en_evbuf e"
    using assms by (auto simp: record_version_def Let_def split: if_splits option.splits)
  ultimately show ?thesis by blast
qed

definition sent_by :: "dir \<Rightarrow> nat \<Rightarrow> nat \<Rightarrow> nat" where
  "sent_by d nc ns = (case d of Client \<Rightarrow> nc | Server \<Rightarrow> ns)"

definition isn_of :: "link \<Rightarrow> dir \<Rightarrow> u32" where
  "isn_of k d = (case d of Client \<Rightarrow> li_cisn k | Server \<Rightarrow> li_sisn k)"

text \<open>The session id of the next emission.\<close>

lemma drain_thread:
  assumes "en_evbuf e = evs" and "cs_dec cs = c" and "evs \<noteq> [] \<longrightarrow> cn_thread_id c \<noteq> None"
    and "cs_session_id cs = None \<and> en_used e = {} \<or> cs_session_id cs = cn_thread_id c \<and> cn_thread_id c \<noteq> None"
  shows "\<exists>e' i. drain_events e cs = (e', cs\<lparr>cs_session_id := i\<rparr>, map (Pair (the (cn_thread_id c))) evs) \<and>
    en_port e' = en_port e \<and> en_conns e' = en_conns e \<and> en_evbuf e' = [] \<and>
    (i = None \<and> en_used e' = {} \<or> i = cn_thread_id c \<and> cn_thread_id c \<noteq> None)"
proof (cases "evs = []")
  case True
  have "cs\<lparr>cs_session_id := cs_session_id cs\<rparr> = cs" by simp
  then show ?thesis using True assms
    by (intro exI [of _ e] exI [of _ "cs_session_id cs"]) (simp add: drain_events_def)
next
  case False
  then obtain t where t: "cn_thread_id c = Some t" using assms(3) by auto
  show ?thesis
  proof (cases "cs_session_id cs")
    case None
    then show ?thesis using False assms t by (auto simp: drain_events_def pick_session_id_def)
  next
    case (Some i)
    then show ?thesis using False assms t by (auto simp: drain_events_def)
  qed
qed

lemma tracks_step:
  assumes k: "link_ok k" and tr: "tracks k nc ns c e" and data: "on_data d ts b c = (c', evs)"
    and act: "cn_disposition c' = Active" and b: "b \<noteq> []" "sent_by d nc ns + length b < REL_BOUND"
    and tid: "evs \<noteq> [] \<longrightarrow> cn_thread_id c' \<noteq> None" "cn_thread_id c \<noteq> None \<longrightarrow> cn_thread_id c' = cn_thread_id c"
  shows "\<exists>e'. on_segment e ts (seg_of k d (isn_of k d + 1 + word_of_nat (sent_by d nc ns)) 0x18 b) False =
      (e', map (Pair (the (cn_thread_id c'))) evs) \<and>
    tracks k (nc + (if d = Client then length b else 0)) (ns + (if d = Server then length b else 0)) c' e'"
proof -
  let ?seg = "seg_of k d (isn_of k d + 1 + word_of_nat (sent_by d nc ns)) 0x18 b"
  obtain cs where e: "en_port e = li_sport k" "en_evbuf e = []" "en_conns e (key_of k) = Some cs" "cs_dec cs = c"
      "\<not> cs_finished cs" "\<not> cs_fin_client cs" "\<not> cs_fin_server cs"
      "in_order (li_cisn k) nc (cs_c2s cs)" "in_order (li_sisn k) ns (cs_s2c cs)"
      "cs_session_id cs = None \<and> en_used e = {} \<or> cs_session_id cs = cn_thread_id c \<and> cn_thread_id c \<noteq> None"
    using tr by (auto simp: tracks_def)
  have dom: "dom (en_conns e) = {key_of k}" using tr by (simp add: tracks_def)
  have ord: "in_order (isn_of k d) (sent_by d nc ns) (get_stream d cs)"
    using e(8,9) by (cases d) (simp_all add: isn_of_def sent_by_def get_stream_def)
  obtain s' where s': "stream_data ts (isn_of k d + 1 + word_of_nat (sent_by d nc ns)) b (get_stream d cs) = (s', [(ts, b)])"
      "in_order (isn_of k d) (sent_by d nc ns + length b) s'"
    using stream_data_in_order [OF ord b] by blast
  let ?e1 = "count_packet False e" and ?cs1 = "(set_stream d s' cs)\<lparr>cs_dec := c'\<rparr>"
  have feed: "feed_segment d ts ?seg cs = (?cs1, evs)"
    using s'(1) data e(4) by (simp add: feed_segment_def data_flags)
  obtain e2 cs2 where rv: "record_version (?e1\<lparr>en_evbuf := en_evbuf ?e1 @ evs\<rparr>) ?cs1 = (e2, cs2)" by fastforce
  obtain v where v: "cs2 = ?cs1\<lparr>cs_version_recorded := v\<rparr>" "en_port e2 = en_port e" "en_conns e2 = en_conns e"
      "en_used e2 = en_used e" "en_evbuf e2 = evs"
    using record_version_tracks [OF rv] e(2) by auto
  have nf: "note_fin d ?seg cs2 = cs2" by (cases d) (simp_all add: note_fin_def data_flags)
  have over: "\<not> conn_over ?seg cs2"
    using e(6-9) act s'(2) by (cases d) (simp_all add: conn_over_def data_flags v(1) set_stream_def in_order_def)
  have sess: "cs_session_id cs2 = None \<and> en_used e2 = {} \<or> cs_session_id cs2 = cn_thread_id c' \<and> cn_thread_id c' \<noteq> None"
    using e(10) tid(2) v(1,4) by (cases d) (auto simp: set_stream_def)
  have dec: "cs_dec cs2 = c'" by (simp add: v(1))
  obtain e3 i where dr: "drain_events e2 cs2 = (e3, cs2\<lparr>cs_session_id := i\<rparr>, map (Pair (the (cn_thread_id c'))) evs)"
      "en_port e3 = en_port e2" "en_conns e3 = en_conns e2" "en_evbuf e3 = []"
      "i = None \<and> en_used e3 = {} \<or> i = cn_thread_id c' \<and> cn_thread_id c' \<noteq> None"
    using drain_thread [OF v(5) dec tid(1) sess] by blast
  let ?e4 = "e3\<lparr>en_conns := (en_conns e3)(key_of k \<mapsto> cs2\<lparr>cs_session_id := i\<rparr>)\<rparr>"
  have "process_segment ?e1 (key_of k) d ts ?seg cs = (?e4, map (Pair (the (cn_thread_id c'))) evs)"
    using e(5) feed rv nf over dr(1) by (simp add: process_segment_def Let_def)
  then have "on_segment e ts ?seg False = (?e4, map (Pair (the (cn_thread_id c'))) evs)"
    using direction_seg [OF k] e(1,3)
    by (simp add: on_segment_def replace_conn_def data_flags lookup_conn_def)
  moreover have "tracks k (nc + (if d = Client then length b else 0)) (ns + (if d = Server then length b else 0)) c' ?e4"
    using e(1,5-9) s'(2) dr v dom
    by (cases d) (simp_all add: tracks_def set_stream_def sent_by_def isn_of_def)
  ultimately show ?thesis by blast
qed

section \<open>The thread id of the decoder\<close>

text \<open>The greeting, and nothing else, sets the thread id; events leave only after it.\<close>

definition greeted :: "conn \<Rightarrow> bool" where
  "greeted c \<longleftrightarrow> (cn_phase c = Greeting \<longleftrightarrow> cn_thread_id c = None)"

definition keeps_thread :: "conn \<Rightarrow> conn \<Rightarrow> proto_event list \<Rightarrow> bool" where
  "keeps_thread c c' out \<longleftrightarrow> greeted c' \<and> (cn_thread_id c \<noteq> None \<longrightarrow> cn_thread_id c' = cn_thread_id c) \<and>
    (out \<noteq> [] \<longrightarrow> cn_thread_id c' \<noteq> None)"

lemma phase_simps [simp]:
  "cn_phase (drop_long_data k c) = cn_phase c" "cn_phase (push_pending s p c) = cn_phase c"
  "cn_phase (count_ignored c) = cn_phase c" "cn_phase (set_param_types k ts c) = cn_phase c"
  "cn_phase (register_stmt q b c) = cn_phase c" "cn_phase (queue_event s t q' c) = cn_phase c"
  by (simp_all add: drop_long_data_def push_pending_def count_ignored_def set_param_types_def
      register_stmt_def queue_event_def Let_def split: option.splits)

lemma phase_decode_execute: "decode_execute c p = (c', x) \<Longrightarrow> cn_phase c' = cn_phase c"
  by (auto simp: decode_execute_def execute_values_def execute_types_def Let_def
      split: option.splits prod.splits if_splits)

lemma phase_on_command: "cn_phase (on_command pkt c) = cn_phase c"
proof -
  have "cn_phase (com_stmt_execute s t b d) = cn_phase d" for s t b d
    by (auto simp: com_stmt_execute_def dest!: phase_decode_execute split: prod.splits option.splits)
  then show ?thesis
    by (simp add: on_command_def Let_def com_query_def com_init_db_def com_send_long_data_def
        com_stmt_close_def com_stmt_reset_def split: list.splits option.splits)
qed

lemma phase_login_names: "cn_phase (login_names caps p c) = cn_phase c"
  by (simp add: login_names_def Let_def split: option.splits prod.splits)

lemma keeps_client: "greeted c \<Longrightarrow> keeps_thread c (on_client_packet pkt c) []"
  by (cases "cn_phase c") (simp_all add: keeps_thread_def greeted_def on_client_packet_def on_login_def Let_def
      tid_login_names tid_on_command phase_on_command phase_login_names)

lemma keeps_server: "greeted c \<Longrightarrow> on_server_packet pkt c = (c', out) \<Longrightarrow> keeps_thread c c' out"
  by (cases "cn_phase c") (auto simp: keeps_thread_def greeted_def on_server_packet_def on_response_def
      complete_request_def split: option.splits list.splits if_splits pending.splits)

lemma keeps_trans: "keeps_thread c c1 o1 \<Longrightarrow> keeps_thread c1 c2 o2 \<Longrightarrow> keeps_thread c c2 (o1 @ o2)"
  by (cases "cn_thread_id c1") (auto simp: keeps_thread_def)

lemma keeps_on_packets: "greeted c \<Longrightarrow> on_packets d pkts c = (c', out) \<Longrightarrow> keeps_thread c c' out"
proof (induction d pkts c arbitrary: c' out rule: on_packets.induct)
  case (2 d pkt pkts c)
  obtain c1 out1 where s: "on_packet d pkt c = (c1, out1)" by fastforce
  have k: "keeps_thread c c1 out1"
    using s "2.prems"(1) keeps_client keeps_server by (auto simp: on_packet_def split: dir.splits)
  show ?case
  proof (cases "decoding c1")
    case True
    then obtain out2 where o: "on_packets d pkts c1 = (c', out2)" "out = out1 @ out2"
      using "2.prems"(2) s by (auto split: prod.splits)
    have "keeps_thread c1 c' out2"
      using "2.IH" [OF s [symmetric] _ _ o(1)] True k by (simp add: keeps_thread_def)
    then show ?thesis using keeps_trans [OF k] o(2) by simp
  qed (use "2.prems" s k in auto)
qed (simp add: keeps_thread_def)

lemma keeps_on_data: "greeted c \<Longrightarrow> on_data d ts data c = (c', out) \<Longrightarrow> keeps_thread c c' out"
proof -
  assume g: "greeted c" and o: "on_data d ts data c = (c', out)"
  obtain c1 ps where f: "feed_dir d ts data c = (c1, ps)" by fastforce
  have k: "keeps_thread c c []" "keeps_thread c c1 []" "keeps_thread c (c1\<lparr>cn_disposition := Broken\<rparr>) []"
    using g f by (auto simp: feed_dir_def keeps_thread_def greeted_def split: dir.splits prod.splits)
  have "keeps_thread c c' out" if "on_packets d ps c1 = (c', out)"
    using keeps_trans [OF k(2) keeps_on_packets [OF _ that]] k(2) by (simp add: keeps_thread_def)
  then show "keeps_thread c c' out" using o f k by (auto simp: on_data_def split: if_splits)
qed

lemma keeps_run: "greeted c \<Longrightarrow> Close \<notin> set is \<Longrightarrow> run is c = (c', out) \<Longrightarrow> keeps_thread c c' out"
proof (induction "is" arbitrary: c out)
  case (Cons i "is")
  obtain d ts data where i: "i = Data d ts data" using Cons.prems(2) by (cases i) auto
  obtain c1 o1 where s: "on_data d ts data c = (c1, o1)" by fastforce
  obtain o2 where r: "run is c1 = (c', o2)" "out = o1 @ o2" using Cons.prems(3) i s by (auto split: prod.splits)
  have k: "keeps_thread c c1 o1" using keeps_on_data [OF Cons.prems(1) s] .
  then have "keeps_thread c1 c' o2" using Cons.IH [OF _ _ r(1)] Cons.prems(2) by (simp add: keeps_thread_def)
  then show ?case using keeps_trans [OF k] r(2) by simp
qed (simp add: keeps_thread_def)

section \<open>The whole connection\<close>

lemma sized_data: "sized nc ns is \<Longrightarrow> Close \<notin> set is"
  by (induction nc ns "is" rule: sized.induct) auto

lemma frames_run:
  assumes "link_ok k"
  shows "tracks k nc ns c e \<Longrightarrow> greeted c \<Longrightarrow> sized nc ns is \<Longrightarrow> run is c = (c', out) \<Longrightarrow> decoding c' \<Longrightarrow>
    \<exists>e' nc' ns'. run_frames (frames_of k nc ns is) e = (e', map (Pair (the (cn_thread_id c'))) out) \<and> tracks k nc' ns' c' e'"
proof (induction "is" arbitrary: nc ns c e out)
  case (Cons i "is")
  obtain d ts b where i: "i = Data d ts b" using sized_data [OF Cons.prems(3)] by (cases i) auto
  obtain c1 o1 where s: "on_data d ts b c = (c1, o1)" by fastforce
  obtain o2 where r: "run is c1 = (c', o2)" "out = o1 @ o2" using Cons.prems(4) i s by (auto split: prod.splits)
  have no_close: "Close \<notin> set is" using sized_data [OF Cons.prems(3)] by simp
  have "decoding c1" using not_decoding_run [OF _ no_close, of c1] r(1) Cons.prems(5) by auto
  then have act: "cn_disposition c1 = Active" by (simp add: decoding_def)
  have k1: "keeps_thread c c1 o1" using keeps_on_data [OF Cons.prems(2) s] .
  then have g1: "greeted c1" by (simp add: keeps_thread_def)
  have k2: "keeps_thread c1 c' o2" using keeps_run [OF g1 no_close r(1)] .
  let ?nc = "nc + (if d = Client then length b else 0)" and ?ns = "ns + (if d = Server then length b else 0)"
  have sz: "b \<noteq> []" "length b < 60000" "sent_by d nc ns + length b < REL_BOUND" "sized ?nc ?ns is"
    using Cons.prems(3) i by (cases d; simp add: sent_by_def)+
  obtain e1 where e1: "on_segment e ts (seg_of k d (isn_of k d + 1 + word_of_nat (sent_by d nc ns)) 0x18 b) False =
      (e1, map (Pair (the (cn_thread_id c1))) o1)" "tracks k ?nc ?ns c1 e1"
    using tracks_step [OF assms Cons.prems(1) s act sz(1,3)] k1 by (auto simp: keeps_thread_def)
  have f: "frames_of k nc ns (i # is) =
      tcp_frame k d ts (isn_of k d + 1 + word_of_nat (sent_by d nc ns)) 0x18 b # frames_of k ?nc ?ns is"
    by (cases d) (simp_all add: i isn_of_def sent_by_def)
  obtain e' nc' ns' where f2: "run_frames (frames_of k ?nc ?ns is) e1 = (e', map (Pair (the (cn_thread_id c'))) o2)"
      "tracks k nc' ns' c' e'"
    using Cons.IH [OF e1(2) g1 sz(4) r(1) Cons.prems(5)] by blast
  have "map (Pair (the (cn_thread_id c1))) o1 = map (Pair (the (cn_thread_id c'))) o1"
    using k1 k2 by (auto simp: keeps_thread_def)
  then have "run_frames (frames_of k nc ns (i # is)) e = (e', map (Pair (the (cn_thread_id c'))) out)"
    using on_frame_segment [OF assms sz(2)] e1(1) r(2) f2(1) by (simp add: f)
  with f2(2) show ?case by blast
qed auto

text \<open>The opening handshake puts a fresh decoder in the table.\<close>

lemma syn_flags [simp]:
  "seg_syn (seg_of k d seq 0x02 b)" "\<not> seg_ack (seg_of k d seq 0x02 b)" "\<not> seg_fin (seg_of k d seq 0x02 b)"
  "\<not> seg_rst (seg_of k d seq 0x02 b)" "seg_syn (seg_of k d seq 0x12 b)" "seg_ack (seg_of k d seq 0x12 b)"
  "\<not> seg_fin (seg_of k d seq 0x12 b)" "\<not> seg_rst (seg_of k d seq 0x12 b)"
  by (simp_all add: seg_of_def Let_def)

definition opened :: "link \<Rightarrow> bool \<Rightarrow> conn_state" where
  "opened k both = new_conn_state
    \<lparr>cs_c2s := on_syn (li_cisn k) new_stream, cs_s2c := (if both then on_syn (li_sisn k) new_stream else new_stream)\<rparr>"

lemma process_syn:
  fixes flags :: u8
  assumes "cs = (if d = Client then new_conn_state else opened k False)" and "en_evbuf e = []" and "flags \<in> {0x02, 0x12}"
  shows "process_segment e key d ts (seg_of k d (isn_of k d) flags []) cs =
    (e\<lparr>en_conns := (en_conns e)(key \<mapsto> opened k (d = Server))\<rparr>, [])"
  using assms
  by (cases d) (auto simp: process_segment_def new_conn_state_def opened_def feed_segment_def get_stream_def
      stream_data_def set_stream_def record_version_def new_conn_def note_fin_def conn_over_def on_syn_def
      new_stream_def drain_events_def Let_def data_flags isn_of_def)

lemma opened_tracks:
  assumes "link_ok k"
  obtains e where "tracks k 0 0 new_conn e"
    and "run_frames (captured k ts is) (new_engine (li_sport k)) = run_frames (frames_of k 0 0 is) e"
proof -
  let ?e0 = "new_engine (li_sport k)" and ?kk = "key_of k"
  obtain e1 where e1: "on_segment ?e0 ts (seg_of k Client (li_cisn k) 0x02 []) False = (e1, [])"
      "en_port e1 = li_sport k" "en_evbuf e1 = []" "en_used e1 = {}" "en_conns e1 ?kk = Some (opened k False)"
      "dom (en_conns e1) = {?kk}"
    using direction_seg [OF assms] process_syn [where d = Client and k = k and flags = 2 and cs = new_conn_state and key = ?kk and ts = ts]
    by (simp add: on_segment_def new_engine_def count_packet_def replace_conn_def is_syn_retransmit_def
        lookup_conn_def Let_def isn_of_def)
  obtain e2 where e2: "on_segment e1 ts (seg_of k Server (li_sisn k) 0x12 []) False = (e2, [])"
      "en_port e2 = li_sport k" "en_evbuf e2 = []" "en_used e2 = {}" "en_conns e2 ?kk = Some (opened k True)"
      "dom (en_conns e2) = {?kk}"
    using direction_seg [OF assms] process_syn [where d = Server and k = k and flags = "0x12" and cs = "opened k False" and key = ?kk and ts = ts] e1(2-6)
    by (simp add: on_segment_def replace_conn_def lookup_conn_def isn_of_def)
  have "tracks k 0 0 new_conn e2"
    using e2 by (simp add: tracks_def opened_def new_conn_state_def in_order_def on_syn_def new_stream_def)
  moreover have "run_frames (captured k ts is) ?e0 = run_frames (frames_of k 0 0 is) e2"
    using on_frame_segment [OF assms, of "[]"] e1(1) e2(1) by (simp add: captured_def split: prod.split)
  ultimately show thesis by (rule that)
qed

text \<open>The run of the engine over the captured frames; at its end nothing is in flight.\<close>

abbreviation dialogue_events :: "dialogue \<Rightarrow> proto_event list" where
  "dialogue_events d \<equiv>
    exchange_events Map.empty (Some (lossy (lo_user (dg_login d)))) (login_db (dg_login d)) (dg_exchanges d)"

lemma captured_run:
  assumes "link_ok k" and "dialogue_ok d" and "sized 0 0 (dialogue_data d)"
  obtains e c nc ns where
    "run_frames (captured k ts (dialogue_data d)) (new_engine (li_sport k)) =
      (e, map (Pair (gr_thread (dg_greeting d))) (dialogue_events d))"
    and "tracks k nc ns c e" and "cn_pending c = []"
proof -
  define h where "h = message_data Server (dg_greeting_chunks d) @ message_data Client (dg_login_chunks d)"
  define r where "r = concat (map (\<lambda>m. message_data (au_dir m) (au_chunks m)) (dg_auth d)) @
    concat (map exchange_data (dg_exchanges d))"
  have parts: "dialogue_data d = h @ r" by (simp add: dialogue_data_def h_def r_def)
  obtain c where c: "run (dialogue_data d) new_conn =
      (c, exchange_events Map.empty (Some (lossy (lo_user (dg_login d)))) (login_db (dg_login d)) (dg_exchanges d))" "decoding c" "cn_pending c = []"
    using dialogue_decoded [OF assms(2)] by blast
  obtain c0 where h: "run h new_conn = (c0, [])" "cn_phase c0 = Established"
      "cn_thread_id c0 = Some (gr_thread (dg_greeting d))"
    using handshake_run [OF assms(2)] unfolding h_def by blast
  have no_close: "Close \<notin> set r" using sized_data [OF assms(3)] by (simp add: parts)
  obtain o2 where o2: "run r c0 = (c, o2)"
    using c(1) h(1) by (cases "run r c0") (simp add: parts run_append)
  have "greeted c0" using h(2,3) by (simp add: greeted_def)
  from keeps_run [OF this no_close o2] have t: "cn_thread_id c = Some (gr_thread (dg_greeting d))"
    using h(3) by (simp add: keeps_thread_def)
  obtain e where e: "tracks k 0 0 new_conn e"
      "run_frames (captured k ts (dialogue_data d)) (new_engine (li_sport k)) = run_frames (frames_of k 0 0 (dialogue_data d)) e"
    using opened_tracks [OF assms(1)] by blast
  have "greeted new_conn" by (simp add: greeted_def new_conn_def)
  from frames_run [OF assms(1) e(1) this assms(3) c(1,2)] show ?thesis using that c(3) by (auto simp: e(2) t)
qed

text \<open>C13: The frames of one connection, from the SYN on and in order, come out of the capture engine as
  exactly the statements the client sent (the texts of its queries, \<open>USE\<close> for a change of the database,
  executions with their values filled in), each under the session id the greeting announced and with the
  user, the database, the time and the latency it had.\<close>

theorem dialogue_captured:
  assumes "link_ok k" and "dialogue_ok d" and "sized 0 0 (dialogue_data d)"
  shows "snd (run_frames (captured k ts (dialogue_data d)) (new_engine (li_sport k))) =
    map (Pair (gr_thread (dg_greeting d)))
      (exchange_events Map.empty (Some (lossy (lo_user (dg_login d)))) (login_db (dg_login d)) (dg_exchanges d))"
  by (rule captured_run [OF assms, of ts]) simp

definition sample_link :: link where
  "sample_link = \<lparr>li_client = [10, 0, 0, 1], li_server = [10, 0, 0, 2], li_cport = 40000, li_sport = 3306,
    li_cisn = - 3, li_sisn = 9, li_pad = []\<rparr>"

lemma sized_halves:
  assumes "length p < 1000" and "nc < 100000" and "ns < 100000"
  shows "sized nc ns (message_data d (halves t q p) @ is) \<longleftrightarrow>
    sized (nc + (if d = Client then 4 + length p else 0)) (ns + (if d = Server then 4 + length p else 0)) is"
proof -
  have l: "length (encode q p) = 4 + length p"
    using assms(1) by (simp add: encode.simps [of q p] FULL_def frame_def numeral_3_eq_3)
  then have "encode q p \<noteq> []" by auto
  with l show ?thesis using assms by (cases d) (simp_all add: message_data_def halves_def REL_BOUND_def add.commute add.left_commute)
qed

lemma sample_sized: "sized 0 0 (dialogue_data sample_dialogue)"
proof -
  have l: "length (greeting_bytes sample_greeting) < 90" "length (login_bytes sample_login) < 90"
    "length (command_payload False sample_prepare) < 90" "length sample_prepared < 90"
    "length (command_payload False sample_execute) < 90"
    by (simp_all add: greeting_bytes_def sample_greeting_def login_bytes_def sample_login_def sample_prepared_def
        sample_prepare_def sample_execute_def command_payload_def param_type_def param_bytes_def)
  have "dialogue_data sample_dialogue = message_data Server (halves 1 0 (greeting_bytes sample_greeting)) @
      message_data Client (halves 3 1 (login_bytes sample_login)) @ message_data Server (halves 5 2 [0, 0, 0]) @
      message_data Client (halves 1000000 0 (command_payload False sample_prepare)) @
      message_data Server (halves 3000000 1 sample_prepared) @
      message_data Client (halves 4000000 0 (command_payload False sample_execute)) @
      message_data Server (halves 6000000 1 [0, 0, 0]) @ []"
    by (simp add: dialogue_data_def sample_dialogue_def exchange_data_def short_exchange_def)
  then show ?thesis using l by (simp add: sized_halves del: append_Nil2)
qed

theorem dialogue_captured_witness:
  "snd (run_frames (captured sample_link 0 (dialogue_data sample_dialogue)) (new_engine (li_sport sample_link))) =
    [(7, \<lparr>pe_ts = 4000000, pe_query = ''DO -5'', pe_latency = latency_of 6000000 4000000,
      pe_response_seen = True, pe_db = Some ''d'', pe_user = Some ''u''\<rparr>)]"
proof -
  have "link_ok sample_link" by (simp add: link_ok_def sample_link_def)
  moreover have "dg_login sample_dialogue = sample_login" "gr_thread (dg_greeting sample_dialogue) = 7"
    by (simp_all add: sample_dialogue_def sample_greeting_def)
  ultimately show ?thesis
    using dialogue_captured [OF _ sample_dialogue_ok sample_sized, of sample_link 0] sample_events by (simp only: list.map)
qed

end
