(* ===== verification/Pcap_Capture.thy ===== *)
theory Pcap_Capture
  imports Pcap_Dialogue Capture_Props
begin

text \<open>
  The capture command on a packet file: what it writes, read back, are the emissions of the engine, so
  for the frames of one connection the statements of its client.
\<close>

section \<open>The blocks of a file\<close>

fun run_blocks :: "block list \<Rightarrow> scan_state \<Rightarrow> engine \<Rightarrow> engine \<times> emission list" where
  "run_blocks [] sc e = (e, [])"
| "run_blocks (b # bs) sc e =
    (case on_block sc e b of
       (sc1, e1, out1) \<Rightarrow> case run_blocks bs sc1 e1 of (e2, out2) \<Rightarrow> (e2, out1 @ out2))"

lemma sink_all_failed [simp]: "sink_all sink out (Some err, s) = (Some err, s)"
  by (cases out) auto

lemma sink_all_append: "sink_all sink (xs @ ys) (None, s) = sink_all sink ys (sink_all sink xs (None, s))"
proof (induction xs arbitrary: s)
  case (Cons x xs)
  obtain sid ev where "x = (sid, ev)" by fastforce
  then show ?case by (cases "sink s sid ev") (simp_all add: Cons.IH)
qed simp

text \<open>A scan that succeeds has put every emission into the sink.\<close>

lemma scan_blocks_sink:
  assumes "scan_blocks sink (map Block_ok bs @ [Eof]) sc e (None, s) = Inr (e', None, s')"
  shows "\<exists>out. run_blocks bs sc e = (e', out) \<and> sink_all sink out (None, s) = (None, s')"
  using assms
proof (induction bs arbitrary: sc e s)
  case (Cons b bs)
  obtain sc1 e1 o1 where b: "on_block sc e b = (sc1, e1, o1)" by (cases "on_block sc e b")
  obtain x s1 where k: "sink_all sink o1 (None, s) = (x, s1)" by fastforce
  have r: "scan_blocks sink (map Block_ok bs @ [Eof]) sc1 e1 (x, s1) = Inr (e', None, s')"
    using Cons.prems b k by simp
  have "x = None"
  proof (cases x)
    case (Some err)
    then show ?thesis using r by (cases bs) auto
  qed simp
  with Cons.IH [of sc1 e1 s1] r obtain o2 where
    "run_blocks bs sc1 e1 = (e', o2)" "sink_all sink o2 (None, s1) = (None, s')" by auto
  with b k \<open>x = None\<close> show ?case by (simp add: sink_all_append)
qed simp

lemma scan_file_sink:
  assumes "scan_pcap_file sink order port (map Block_ok bs @ [Eof]) s = Inr (st, s')"
  obtains e o1 e1 o2 where "run_blocks bs new_scan (new_engine port) = (e, o1)"
    and "finish_engine (order e) e = (e1, o2)" and "st = en_stats e1"
    and "sink_all sink (o1 @ o2) (None, s) = (None, s')"
proof -
  obtain e x s1 where b: "scan_blocks sink (map Block_ok bs @ [Eof]) new_scan (new_engine port) (None, s) = Inr (e, x, s1)"
    "x = None"
    using assms by (auto simp: scan_pcap_file_def split: sum.splits option.splits prod.splits)
  obtain o1 where o1: "run_blocks bs new_scan (new_engine port) = (e, o1)" "sink_all sink o1 (None, s) = (None, s1)"
    using scan_blocks_sink [of sink bs new_scan "new_engine port" s e s1] b by auto
  obtain e1 o2 where o2: "finish_engine (order e) e = (e1, o2)" by fastforce
  have "st = en_stats e1 \<and> sink_all sink o2 (None, s1) = (None, s')"
    using assms b o2 by (auto simp: scan_pcap_file_def split: sum.splits option.splits prod.splits)
  with that o1 o2 show thesis by (simp add: sink_all_append)
qed

lemma sink_emits:
  "sink_all (emission_sink enc) out (None, em) = (None, em') \<longleftrightarrow> emit_all enc (map packet_event out) em = Inr em'"
proof (induction out arbitrary: em)
  case (Cons x out)
  obtain sid ev where x: "x = (sid, ev)" by fastforce
  have "emission_sink enc em sid ev = emit enc (packet_event x) em" by (simp add: x emission_sink_def)
  then show ?case by (cases "emit enc (packet_event x) em") (simp_all add: x Cons.IH)
qed auto

section \<open>The capture file\<close>

lemma run_capture_pcap_Inr:
  assumes "run_capture_pcap enc order version now port ovr (map Block_ok bs @ [Eof]) (Some []) = Inr (ls, su)"
  obtains hl e o1 e1 o2 em where
    "enc (Header_Rec \<lparr>hd_version = FORMAT_VERSION, hd_tool_version = version, hd_created_at = now\<rparr>) = Some hl"
    "run_blocks bs new_scan (new_engine port) = (e, o1)" "finish_engine (order e) e = (e1, o2)"
    "emit_all enc (map packet_event (o1 @ o2))
       \<lparr>em_registry = new_registry, em_lines = [hl], em_sessions = {}, em_event_count = 0\<rparr> = Inr em"
    "finish_emitter enc (packets_summary ovr (en_stats e1)) em = Inr (ls, su)"
proof -
  let ?h = "Header_Rec \<lparr>hd_version = FORMAT_VERSION, hd_tool_version = version, hd_created_at = now\<rparr>"
  obtain hl where hl: "enc ?h = Some hl"
    using assms by (cases "enc ?h") (auto simp: run_capture_pcap_def create_emitter_def write_record_def)
  let ?em = "\<lparr>em_registry = new_registry, em_lines = [hl], em_sessions = {}, em_event_count = 0\<rparr>"
  have "bind_result (scan_pcap_file (emission_sink enc) order port (map Block_ok bs @ [Eof]) ?em) (\<lambda>(st, em1).
      case finish_emitter enc (packets_summary ovr st) em1 of Inl err \<Rightarrow> Inl (Sink_failed err) | Inr r \<Rightarrow> Inr r) =
      Inr (ls, su)"
    using assms hl by (simp add: run_capture_pcap_def create_emitter_def write_record_def)
  then obtain st em where r: "scan_pcap_file (emission_sink enc) order port (map Block_ok bs @ [Eof]) ?em = Inr (st, em)"
      "(case finish_emitter enc (packets_summary ovr st) em of Inl err \<Rightarrow> Inl (Sink_failed err) | Inr r \<Rightarrow> Inr r) =
        Inr (ls, su)"
    by (auto simp: bind_result_Inr_iff)
  then have s: "scan_pcap_file (emission_sink enc) order port (map Block_ok bs @ [Eof]) ?em = Inr (st, em)"
      "finish_emitter enc (packets_summary ovr st) em = Inr (ls, su)"
    by (auto split: sum.splits)
  show thesis
    by (rule scan_file_sink [OF s(1)]) (use that hl s(2) in \<open>auto simp: sink_emits simp del: map_append\<close>)
qed

lemma captured_packets:
  assumes codec: "\<forall>r l. enc r = Some l \<longrightarrow> de l = Some r \<and> trim l \<noteq> []"
    and run: "run_capture_pcap enc order version now port ovr (map Block_ok bs @ [Eof]) (Some []) = Inr (ls, su)"
    and frames: "run_blocks bs new_scan (new_engine port) = (e, o1)" "finish_engine (order e) e = (e1, o2)"
    and few: "length (o1 @ o2) \<le> 2 ^ 32"
  obtains h es r where "read_capture de (Some (map Some ls)) = Inr (h, su, es)"
    and "map unnumbered es = map packet_event (o1 @ o2)"
    and "su_fingerprints su = fingerprint_table r" and "reg_inv r"
    and "\<forall>e \<in> set es. unat (ev_fingerprint_id e) < length (texts r) \<and>
      texts r ! unat (ev_fingerprint_id e) = fingerprint (ev_query e)"
    and "su_event_count su = length es" and "su_session_count su = card (ev_session_id ` set es)"
    and "su_pcap su = Some (pcap_summary_of (en_stats e1))"
proof -
  let ?es = "map packet_event (o1 @ o2)"
  have u: "map unnumbered ?es = ?es" by (auto simp: packet_event_def)
  obtain hl em where r:
    "enc (Header_Rec \<lparr>hd_version = FORMAT_VERSION, hd_tool_version = version, hd_created_at = now\<rparr>) = Some hl"
    "emit_all enc ?es \<lparr>em_registry = new_registry, em_lines = [hl], em_sessions = {}, em_event_count = 0\<rparr> = Inr em"
    "finish_emitter enc (packets_summary ovr (en_stats e1)) em = Inr (ls, su)"
    by (rule run_capture_pcap_Inr [OF run]) (use frames in auto)
  have l: "length ?es \<le> 2 ^ 32" using few by simp
  have p: "su_pcap su = Some (pcap_summary_of (en_stats e1))"
    using r(3) by (auto simp: finish_emitter_def write_record_def packets_summary_def Let_def split: option.splits)
  show thesis by (rule emitted_file [OF codec r l, unfolded u]) (rule that, (assumption | rule p)+)
qed

section \<open>A file of frames\<close>

text \<open>The blocks of a legacy file: its header and a packet for each frame, whole, with its time in seconds
  and microseconds.\<close>

definition legacy_block :: "captured_frame \<Rightarrow> block" where
  "legacy_block f =
    Legacy_packet (fr_ts f div 1000000) (fr_ts f mod 1000000) (length (fr_bytes f)) (length (fr_bytes f)) (fr_bytes f)"

definition pcap_blocks :: "captured_frame list \<Rightarrow> block list" where
  "pcap_blocks fs = Legacy_header ETHERNET False # map legacy_block fs"

definition whole_ethernet :: "captured_frame \<Rightarrow> bool" where
  "whole_ethernet f \<longleftrightarrow> fr_link f = ETHERNET \<and> \<not> fr_truncated f"

lemma run_legacy_blocks:
  "\<forall>f \<in> set fs. whole_ethernet f \<Longrightarrow> sc_linktype sc = ETHERNET \<Longrightarrow> \<not> sc_nanos sc \<Longrightarrow>
    run_blocks (map legacy_block fs) sc e = run_frames fs e"
  by (induction fs arbitrary: e) (simp_all add: whole_ethernet_def on_block_def legacy_block_def legacy_ts_def split: prod.split)

lemma run_pcap_blocks:
  "\<forall>f \<in> set fs. whole_ethernet f \<Longrightarrow> run_blocks (pcap_blocks fs) new_scan e = run_frames fs e"
  by (simp add: pcap_blocks_def on_block_def run_legacy_blocks split: prod.split)

lemma frames_whole: "\<forall>f \<in> set (frames_of k nc ns is). whole_ethernet f"
  by (induction k nc ns "is" rule: frames_of.induct) (simp_all add: tcp_frame_def whole_ethernet_def)

lemma captured_whole: "\<forall>f \<in> set (captured k ts is). whole_ethernet f"
  using frames_whole by (simp add: captured_def tcp_frame_def whole_ethernet_def)

text \<open>Connections with nothing in flight end without an event.\<close>

lemma quiet_finish:
  "en_evbuf e = [] \<Longrightarrow> \<forall>k c. en_conns e k = Some c \<longrightarrow> cn_pending (cs_dec c) = [] \<Longrightarrow> snd (finish_engine ks e) = []"
proof (induction ks e rule: finish_engine.induct)
  case (2 k ks e)
  show ?case
  proof (cases "en_conns e k")
    case (Some c)
    obtain e1 c1 o1 where f: "finalize (e\<lparr>en_conns := (en_conns e)(k := None)\<rparr>) c = (e1, c1, o1)"
      by (cases "finalize (e\<lparr>en_conns := (en_conns e)(k := None)\<rparr>) c")
    have "o1 = [] \<and> en_evbuf e1 = [] \<and> en_conns e1 = (en_conns e)(k := None)"
      using f "2.prems" Some
      by (auto simp: finalize_def finish_conn_def drain_events_def split: if_splits)
    with "2.IH"(2) [OF Some f [symmetric] refl] "2.prems" Some f show ?thesis
      by (auto split: prod.split)
  qed (use 2 in simp)
qed simp

lemma tracks_quiet:
  assumes "tracks k nc ns c e" and "cn_pending c = []"
  shows "snd (finish_engine ks e) = []"
proof (rule quiet_finish)
  show "\<forall>k' cs. en_conns e k' = Some cs \<longrightarrow> cn_pending (cs_dec cs) = []"
  proof (intro allI impI)
    fix k' cs
    assume a: "en_conns e k' = Some cs"
    then have "k' = key_of k" using assms(1) by (auto simp: tracks_def dest: domI)
    with a show "cn_pending (cs_dec cs) = []" using assms by (auto simp: tracks_def)
  qed
qed (use assms in \<open>simp add: tracks_def\<close>)

lemma exchange_events_length: "length (exchange_events env user db xs) \<le> length xs"
proof (induction xs arbitrary: env db)
  case (Cons x xs)
  have "length (exchange_event env user db x) \<le> 1" by (simp add: exchange_event_def split: option.split)
  then show ?case using Cons.IH [of "prepared_after (ex_command x) env" "db_after env (ex_command x) db"] by simp
qed simp

text \<open>C5: From the wire to the capture file: when the capture command reads a packet file with the frames
  of one connection and succeeds, the file it wrote, read back, holds exactly the statements the client
  sent, in order and under the server's thread id, prepared ones with their values filled in; each with
  its user, database, time and latency and with a fingerprint id that the summary resolves.\<close>

theorem captured_dialogue_readback:
  assumes link: "link_ok k" and dialogue: "dialogue_ok d" and size: "sized 0 0 (dialogue_data d)"
    and codec: "\<forall>r l. enc r = Some l \<longrightarrow> de l = Some r \<and> trim l \<noteq> []"
    and run: "run_capture_pcap enc order version now (li_sport k) ovr
      (map Block_ok (pcap_blocks (captured k ts (dialogue_data d))) @ [Eof]) (Some []) = Inr (ls, su)"
    and few: "length (dg_exchanges d) \<le> 2 ^ 32"
  shows "\<exists>h es. read_capture de (Some (map Some ls)) = Inr (h, su, es) \<and>
    map (\<lambda>e. e\<lparr>ev_fingerprint_id := 0\<rparr>) es =
      map (\<lambda>ev. packet_event (gr_thread (dg_greeting d), ev))
        (exchange_events Map.empty (Some (lossy (lo_user (dg_login d)))) (login_db (dg_login d)) (dg_exchanges d)) \<and>
    (\<forall>e \<in> set es. fingerprint_text su (ev_fingerprint_id e) = Some (fingerprint (ev_query e))) \<and>
    su_event_count su = length es"
proof -
  let ?bs = "pcap_blocks (captured k ts (dialogue_data d))"
  let ?o = "map (Pair (gr_thread (dg_greeting d))) (dialogue_events d)"
  obtain e c nc ns where e: "run_blocks ?bs new_scan (new_engine (li_sport k)) = (e, ?o)"
      "tracks k nc ns c e" "cn_pending c = []"
    by (rule captured_run [OF link dialogue size, of ts]) (simp add: run_pcap_blocks [OF captured_whole])
  obtain e1 where f: "finish_engine (order e) e = (e1, [])"
    using tracks_quiet [OF e(2,3), of "order e"] by (cases "finish_engine (order e) e") simp
  have l: "length (?o @ []) \<le> 2 ^ 32"
    using le_trans [OF exchange_events_length few] by simp
  show ?thesis
    by (rule captured_packets [OF codec run e(1) f l]) (use ids_resolve in \<open>fastforce simp: comp_def\<close>)
qed

section \<open>A sample file\<close>

lemma scan_blocks_emitted:
  assumes "run_blocks bs sc e = (e', out)" and "sink_all sink out (None, s) = (None, s')"
  shows "scan_blocks sink (map Block_ok bs @ [Eof]) sc e (None, s) = Inr (e', None, s')"
  using assms
proof (induction bs arbitrary: sc e s out)
  case (Cons b bs)
  obtain sc1 e1 o1 where b: "on_block sc e b = (sc1, e1, o1)" by (cases "on_block sc e b")
  obtain o2 where o: "run_blocks bs sc1 e1 = (e', o2)" "out = o1 @ o2"
    using Cons.prems(1) b by (auto split: prod.splits)
  obtain x s1 where k: "sink_all sink o1 (None, s) = (x, s1)" by fastforce
  then have x: "x = None" using Cons.prems(2) o(2) by (cases x) (simp_all add: sink_all_append)
  with Cons.IH [OF o(1), of s1] Cons.prems(2) o(2) k b show ?case by (simp add: sink_all_append)
qed simp

definition sample_packets :: "block list" where
  "sample_packets = pcap_blocks (captured sample_link 0 (dialogue_data sample_dialogue))"

definition sample_end :: engine where
  "sample_end = fst (run_blocks sample_packets new_scan (new_engine (li_sport sample_link)))"

definition sample_statement_event :: proto_event where
  "sample_statement_event = \<lparr>pe_ts = 4000000, pe_query = ''DO -5'', pe_latency = latency_of 6000000 4000000,
    pe_response_seen = True, pe_db = Some ''d'', pe_user = Some ''u''\<rparr>"

definition packet_records :: "capture_record list" where
  "packet_records =
    [Header_Rec \<lparr>hd_version = FORMAT_VERSION, hd_tool_version = ''0'', hd_created_at = ''''\<rparr>,
     Event_Rec (packet_event (7, sample_statement_event)),
     Summary_Rec ((packets_summary None (en_stats sample_end))
       \<lparr>su_event_count := 1, su_session_count := 1, su_fingerprints := [\<lparr>fe_id = 0, fe_text = fingerprint ''DO -5''\<rparr>]\<rparr>)]"

lemma sample_dialogue_events: "dialogue_events sample_dialogue = [sample_statement_event]"
proof -
  have "dg_login sample_dialogue = sample_login" by (simp add: sample_dialogue_def)
  then show ?thesis using sample_events by (simp only: sample_statement_event_def)
qed

lemma sample_thread: "gr_thread (dg_greeting sample_dialogue) = 7"
  by (simp add: sample_dialogue_def sample_greeting_def)

lemma sample_link_ok: "link_ok sample_link"
  by (simp add: link_ok_def sample_link_def)

lemma sample_packets_run:
  "run_capture_pcap (three_enc packet_records) (\<lambda>e. []) ''0'' '''' (li_sport sample_link) None
      (map Block_ok sample_packets @ [Eof]) (Some []) =
    Inr ([''a'', ''aa'', ''aaa''], (case packet_records ! 2 of Summary_Rec s \<Rightarrow> s))"
proof -
  let ?enc = "three_enc packet_records"
  let ?em = "\<lparr>em_registry = new_registry, em_lines = [''a''], em_sessions = {}, em_event_count = 0\<rparr>"
  obtain r where i: "intern new_registry ''DO -5'' = (r, 0)" "texts r = [fingerprint ''DO -5'']"
    by (simp_all add: intern_def new_registry_def Let_def)
  let ?em1 = "\<lparr>em_registry = r, em_lines = [''a'', ''aa''], em_sessions = {7}, em_event_count = 1\<rparr>"
  have enc: "?enc (packet_records ! 0) = Some ''a''" "?enc (packet_records ! 1) = Some ''aa''"
      "?enc (packet_records ! 2) = Some ''aaa''"
    by (simp_all add: three_enc_def packet_records_def)
  have "emit ?enc (packet_event (7, sample_statement_event)) ?em = Inr ?em1"
    using i enc(2) by (simp add: emit_def packet_event_def sample_statement_event_def write_record_def packet_records_def)
  then have k: "sink_all (emission_sink ?enc) [(7, sample_statement_event)] (None, ?em) = (None, ?em1)"
    by (simp add: emission_sink_def)
  have "run_blocks sample_packets new_scan (new_engine (li_sport sample_link)) = (sample_end, [(7, sample_statement_event)])"
    by (rule captured_run [OF sample_link_ok sample_dialogue_ok sample_sized, of 0])
      (simp add: sample_end_def sample_packets_def run_pcap_blocks [OF captured_whole] sample_dialogue_events sample_thread)
  from scan_blocks_emitted [OF this k]
  have s: "scan_pcap_file (emission_sink ?enc) (\<lambda>e. []) (li_sport sample_link) (map Block_ok sample_packets @ [Eof]) ?em =
      Inr (en_stats sample_end, ?em1)"
    by (simp add: scan_pcap_file_def)
  have "create_emitter ?enc ''0'' '''' (Some []) = Inr ?em"
    using enc(1) by (simp add: create_emitter_def write_record_def packet_records_def)
  moreover have "finish_emitter ?enc (packets_summary None (en_stats sample_end)) ?em1 =
      Inr ([''a'', ''aa'', ''aaa''], (case packet_records ! 2 of Summary_Rec s \<Rightarrow> s))"
    using enc(3) i(2) by (simp add: finish_emitter_def fingerprint_table_def write_record_def packet_records_def)
  ultimately show ?thesis using s by (simp add: run_capture_pcap_def)
qed

theorem captured_dialogue_readback_witness:
  "\<exists>h su es. read_capture (three_de packet_records) (Some (map Some [''a'', ''aa'', ''aaa''])) = Inr (h, su, es) \<and>
    map (\<lambda>e. e\<lparr>ev_fingerprint_id := 0\<rparr>) es = [packet_event (7, sample_statement_event)] \<and>
    (\<forall>e \<in> set es. fingerprint_text su (ev_fingerprint_id e) = Some (fingerprint (ev_query e)))"
proof -
  have few: "length (dg_exchanges sample_dialogue) \<le> 2 ^ 32" by (simp add: sample_dialogue_def)
  define su where "su = (case packet_records ! 2 of Summary_Rec s \<Rightarrow> s)"
  from captured_dialogue_readback [OF sample_link_ok sample_dialogue_ok sample_sized three_codec
      sample_packets_run [unfolded sample_packets_def, folded su_def] few]
  obtain h es where "read_capture (three_de packet_records) (Some [Some ''a'', Some ''aa'', Some ''aaa'']) = Inr (h, su, es)"
      "map unnumbered es = [packet_event (7, sample_statement_event)]"
      "\<forall>e \<in> set es. fingerprint_text su (ev_fingerprint_id e) = Some (fingerprint (ev_query e))"
    unfolding sample_dialogue_events sample_thread list.map by (elim exE conjE) (rule that)
  then show ?thesis unfolding list.map by (intro exI conjI)
qed

end
