(* ===== verification/Spec2Isabelle.thy ===== *)
theory Spec2Isabelle
  imports Registry Fingerprint_Tokens Classify_Props Wire_Props Binary_Value_Props Conn_Props
    Tcp_Stream_Props Pcap_Props Slowlog_Props Capture_Props Spool_Props Report_Props Target_Props
    Aggregate_Props Replay_Pass_Props Compare_Props Baseline_Props Html_Props Pipeline
    Transport Pcap_Capture
begin

text \<open>
  A model of sql-replay (\<open>crates/sql-replay/src\<close>): a tool that turns MySQL slow query logs and packet
  captures into capture files, replays them against a server, and compares the reports of two runs.

  \<^bold>\<open>The program.\<close> \<open>capture\<close> parses a slow log (\<open>slowlog.rs\<close>) or a packet capture (\<open>pcap.rs\<close> for packets
  and TCP, \<open>mysqlproto.rs\<close> for the protocol), gives every statement a fingerprint
  (\<open>fingerprint.rs\<close>) and writes the events to a capture file (\<open>capture.rs\<close>, \<open>format.rs\<close>). \<open>replay\<close>
  lays the events of each session out in a temporary file (\<open>spool.rs\<close>), runs one task per session
  against the server (\<open>replay.rs\<close>, \<open>target.rs\<close>), lets only reads through (\<open>classify.rs\<close>), and reports
  the latencies, result sizes and checksums per fingerprint (\<open>report.rs\<close>), several passes as their
  medians (\<open>aggregate.rs\<close>). \<open>baseline\<close> makes the same report of the recorded latencies
  (\<open>baseline.rs\<close>). \<open>compare\<close> ranks the differences of two reports and gates on them (\<open>compare.rs\<close>,
  \<open>compare_html.rs\<close>). \<open>main.rs\<close> holds the command line.

  \<^bold>\<open>Shared theories.\<close> \<open>Prelude\<close>: words, byte strings, the collections \<open>shrinks\<close>, \<open>case_insensitive\<close> and
  \<open>scan_simps\<close>. \<open>Rust_Text\<close>, \<open>Rust_Parse\<close>, \<open>Rust_Format\<close>: what the code uses of Rust's \<open>str\<close>, number parsing,
  formatting and sorting; a \<open>str\<close> is the list of its UTF-8 bytes, one \<open>char\<close> each. \<open>Float64\<close>: \<open>f64\<close> as exact
  rationals with rounding to binary64, infinities, the negative zero and NaN; \<open>Rust_Format\<close> makes it
  a \<open>linorder\<close> by \<open>total_cmp\<close>, the IEEE comparisons are \<open>f64_lt\<close> and \<open>f64_le\<close>.

  \<^bold>\<open>Components.\<close> In the order of the data flow, with the theory of the model and the theory of its
  properties:
  \<^item> \<open>Fingerprint\<close> (\<open>fingerprint.rs\<close>): the scan (\<open>fp_scan\<close>, one lexeme a step), the passes that collapse
    IN and VALUES lists, \<open>FingerprintRegistry\<close> as the record \<open>registry\<close>. \<open>Fingerprint_Props\<close>: no
    uppercase, well-formed UTF-8, independence of letter case. \<open>Fingerprint_Tokens\<close>: the scan refines a
    specification on lexical tokens, so literals and layout do not matter. \<open>Registry\<close>: the locale
    \<open>interner\<close>, interpreted on the registry: ids and classes are in bijection.
  \<^item> \<open>Classify\<close> (\<open>classify.rs\<close>): the word scanner, the gate \<open>should_execute\<close>, the detector of
    nondeterminism. \<open>Classify_Props\<close>: the gate is a decision on the list of words, and one on tokens.
  \<^item> \<open>Wire\<close>, \<open>Binary_Value\<close>, \<open>Conn_Decoder\<close> (\<open>mysqlproto.rs\<close>): packet framing with its time stamps,
    parameter values and the interpolation of prepared statements, the state machine of a
    connection. \<open>Wire_Props\<close>: independence of how TCP cuts the stream; \<open>Binary_Value_Props\<close>: literals
    cannot break out of their quotes; \<open>Conn_Props\<close>: events leave in the order of their commands.
  \<^item> \<open>Tcp_Stream\<close>, \<open>Packet_Parse\<close>, \<open>Pcap_Engine\<close> (\<open>pcap.rs\<close>): the reassembler \<open>SeqStream\<close>, the header
    parsers, the engine with its table of connections and session ids. \<open>Tcp_Stream_Props\<close>: what is
    delivered is the front of what was sent; \<open>Pcap_Props\<close>: the counters account for every connection.
  \<^item> \<open>Messages\<close>, \<open>Conversation\<close>, \<open>Transport\<close>, \<open>Pcap_Dialogue\<close>: these layers against their peers. \<open>Messages\<close>: framed
    messages, cut anywhere, reach the decoder as packets. \<open>Conversation\<close>: the bytes of a greeting, a login and
    of commands with their answers as the protocol has them (the record \<open>dialogue\<close>), and that the decoder
    gives back the statements; an answer that the decoder loses. \<open>Transport\<close>: packets through segments in any
    order. \<open>Pcap_Dialogue\<close>: the dialogue as frames of one connection, captured in order, through the engine.
    The peers are specifications, not code of the repository: they say which input the program is for.
  \<^item> \<open>Slowlog\<close> (\<open>slowlog.rs\<close>): \<open>SlowLogParser\<close>, a line at a time (\<open>push_line\<close>). \<open>Slowlog_Props\<close>: the string
    and comment state kept from line to line is that of the whole statement; a log written the way
    the server writes it is read back; the case where the parser loses a statement.
  \<^item> \<open>Capture_Format\<close>, \<open>Capture\<close> (\<open>format.rs\<close>, \<open>capture.rs\<close>): the records, the streaming reader, the
    emitter and both sources. \<open>Capture_Props\<close>: a capture file read back. \<open>Pcap_Capture\<close>: the capture of a packet
    file, and of the frames of a dialogue, read back.
  \<^item> \<open>Spool\<close> (\<open>spool.rs\<close>): filters and time windows, the two passes, the layout, the session cursors.
    \<open>Spool_Props\<close>: a cursor reads back its session's events.
  \<^item> \<open>Report\<close>, \<open>Target\<close>, \<open>Metrics\<close> (\<open>report.rs\<close>, \<open>target.rs\<close>, \<open>replay.rs\<close>): the report records and the
    printed summary, result checksums, the counters of a pass. \<open>Metrics_Props\<close>: the locale \<open>recorder\<close>,
    interpreted on the four recording operations: each counts one event. \<open>Target_Props\<close>: checksums do not
    depend on the order of rows or executions. \<open>Report_Props\<close>: the password is redacted.
  \<^item> \<open>Replay\<close> (\<open>replay.rs\<close>): the tasks. Every \<open>await\<close> of \<open>run_session_dedicated\<close> and \<open>run_session_pooled\<close> is a
    program counter; \<open>step_at\<close> is the code up to the next one, given what the scheduler and the server
    answer. \<open>pass_step\<close> and \<open>pass_run\<close> are the inductive relations of a pass: any task moves, the
    abort arrives, the sampler ticks. \<open>Replay_Props\<close>: the locale \<open>conserved\<close> (a
    quantity that the tasks and the shared state hold together), interpreted on events and on permits;
    \<open>Replay_Runs\<close>: a measure that every move lessens, and progress; \<open>Replay_Guards\<close> and \<open>Replay_Pool\<close>: the
    locale \<open>guarded\<close> (what is sent satisfies a guard that all states keep), interpreted on reading, on the
    gate, on the shelf of idle connections and on tracked databases; \<open>Replay_Theorems\<close>: the properties, by rule induction.
  \<^item> \<open>Replay_Pass\<close>, \<open>Aggregate\<close> (\<open>replay.rs\<close>, \<open>aggregate.rs\<close>): both ways of ingestion, a pass and its report,
    warm-up and repetition, medians. \<open>Replay_Pass_Props\<close>: the spool gives what memory gives, a report
    accounts for every event; \<open>Aggregate_Props\<close>: one outlier cannot move a median far.
  \<^item> \<open>Baseline\<close> (\<open>baseline.rs\<close>): the streaming accumulator. \<open>Baseline_Props\<close>: it is the declarative summary of
    the events that pass the filters.
  \<^item> \<open>Compare\<close>, \<open>Compare_Text\<close>, \<open>Compare_Html\<close> (\<open>compare.rs\<close>, \<open>compare_html.rs\<close>): matching, verdicts, gates, warnings,
    the printed form, the page. \<open>Compare_Props\<close>: the exit code is exact, no fingerprint is lost, a run
    compared with itself passes; \<open>Html_Props\<close>: no text of a report can change the page's markup.
  \<^item> \<open>Command\<close> (\<open>main.rs\<close>, \<open>memtune.rs\<close>, and the production entry of \<open>replay.rs\<close>): the probe of the target, the
    arguments, the subcommands with their text, files and exit codes, the memory tuning.
    \<open>Command_Props\<close>: recorded settings, the names of the pass reports, the exit codes. \<open>Pipeline\<close>: from a
    slow log through its capture file and a replay to the report.

  \<^bold>\<open>State and operations.\<close> A struct is a record, an enum a datatype, a method a function from the
  state to the new state and the result; a \<open>Result\<close> is a sum with the error on the left, a panic is \<open>None\<close>.
  Fields are prefixed with two letters of their struct. Integers that only count (\<open>u64\<close> and \<open>usize\<close>
  counters, lengths, file offsets) are \<open>nat\<close>, without wrap-around at \<open>2 ^ 64\<close>; sequence numbers, ids,
  flags, checksums and bytes are words; saturating arithmetic is written out.

  \<^bold>\<open>Termination and fuel.\<close> All functions are total: byte scanners recurse on the suffix that is left,
  with the collection \<open>shrinks\<close> for the measure. Fuel occurs only in \<open>Float64\<close>: the decimal exponent is
  at most four below its estimate, and seventeen digits always read back, so the search for the shortest
  decimal of an \<open>f64\<close> needs no more than seventeen tries. A pass is a relation; \<open>Replay_Theorems\<close> bounds its
  moves by the work of the sessions and shows that it can always finish.

  \<^bold>\<open>Parameters.\<close> Code that is not in the repository is an argument of the definitions: the \<open>time\<close>
  crate (\<open>time_lib\<close>), serde with zstd (\<open>enc\<close>, \<open>dc\<close>, \<open>ser\<close>, \<open>de\<close>, \<open>to_json\<close>), the file
  system (\<open>disk\<close>, \<open>writable\<close>), hdrhistogram (\<open>hist_lib\<close>), xxhash (\<open>xxh3\<close>), mysql_async and the server (answers
  of the moves, \<open>connect\<close>, \<open>en_effect\<close>: the database a statement leaves its connection in), pcap_parser (the list of
  read results), the iteration order of hash maps (\<open>keys\<close>, \<open>order\<close>), the tokio scheduler (the moves of a run).

  \<^bold>\<open>Not modelled.\<close> clap's parsing of the command line (texts to values, and conflicts of flags left at
  their default), the messages on stderr and the tracing subscriber, the signal handlers (they only
  set the flag, which may flip at any step), getrlimit (its result is an argument), the naming and
  unlinking of the temporary file, what mallopt does, and \<open>lib.rs\<close>, which only declares modules.
\<close>

end
